(* ===== verification/Agency_Prelude.thy ===== *)
theory Agency_Prelude
  imports
    Main
    "HOL-Library.AList"
    "HOL-Library.Char_ord"
    "HOL-Library.List_Lexorder"
    "HOL-Library.Sublist"
begin

text \<open>
  What the components share: the exceptions of the modelled Python code as values of a sum
  type, the string operations of the standard library the code calls (\<open>str.split\<close>,
  \<open>str.strip\<close>, \<open>str.casefold\<close>, \<open>str.join\<close>, \<open>re.findall\<close> of one
  character class, \<open>str.encode\<close>), \<open>dict.fromkeys\<close>, \<open>itertools.combinations\<close>, and the
  lemmas about them that the component proofs use.

  Text is modelled as lists of code points below 256 (Latin-1); on these the operations below
  are those of Python, except that \<open>casefold\<close> leaves the micro sign alone, whose folding
  is a code point above 255.
\<close>

named_theorems res_simps "how results are composed"
named_theorems text_simps "facts about the string operations"
named_theorems dict_simps "facts about dictionaries kept in insertion order"


section \<open>Exceptions\<close>

text \<open>An exception carries the text the code gives it; a \<open>KeyError\<close> carries the missing key.\<close>

datatype py_error =
    ValueError string
  | TypeError string
  | KeyError string
  | OverflowError string
  | StopIteration
  | RuntimeError string
  | IntegrityError string

type_synonym 'a res = "py_error + 'a"

fun bind_res :: "'a res \<Rightarrow> ('a \<Rightarrow> 'b res) \<Rightarrow> 'b res" where
  "bind_res (Inl e) f = Inl e"
| "bind_res (Inr x) f = f x"

text \<open>A loop whose body may raise: it stops at the first exception.\<close>

fun map_res :: "('a \<Rightarrow> 'b res) \<Rightarrow> 'a list \<Rightarrow> 'b list res" where
  "map_res f [] = Inr []"
| "map_res f (x # xs) = bind_res (f x) (\<lambda>y. bind_res (map_res f xs) (\<lambda>ys. Inr (y # ys)))"

text \<open>A loop that extends one list with what each body adds, and \<open>any\<close> over a body that may
  raise, which stops at the first success.\<close>

definition concat_res :: "('a \<Rightarrow> 'b list res) \<Rightarrow> 'a list \<Rightarrow> 'b list res" where
  "concat_res f xs = bind_res (map_res f xs) (\<lambda>yss. Inr (concat yss))"

fun any_res :: "('a \<Rightarrow> bool res) \<Rightarrow> 'a list \<Rightarrow> bool res" where
  "any_res f [] = Inr False"
| "any_res f (x # xs) = bind_res (f x) (\<lambda>b. if b then Inr True else any_res f xs)"

text \<open>\<open>if bad: raise e\<close>\<close>

definition raise_if :: "bool \<Rightarrow> py_error \<Rightarrow> unit res" where
  "raise_if bad e = (if bad then Inl e else Inr ())"

text \<open>\<open>d[k]\<close>, which raises \<open>KeyError\<close> for a missing key.\<close>

definition dict_get :: "(string \<times> 'a) list \<Rightarrow> string \<Rightarrow> 'a res" where
  "dict_get d k = (case map_of d k of None \<Rightarrow> Inl (KeyError k) | Some v \<Rightarrow> Inr v)"

lemma bind_res_cong [fundef_cong]:
  "m = m' \<Longrightarrow> (\<And>x. m' = Inr x \<Longrightarrow> f x = g x) \<Longrightarrow> bind_res m f = bind_res m' g"
  by (cases m') auto

lemma map_res_cong [fundef_cong]:
  "xs = ys \<Longrightarrow> (\<And>x. x \<in> set ys \<Longrightarrow> f x = g x) \<Longrightarrow> map_res f xs = map_res g ys"
  by (induction ys arbitrary: xs) auto

lemma bind_res_Inr_iff [res_simps]:
  "bind_res m f = Inr y \<longleftrightarrow> (\<exists>x. m = Inr x \<and> f x = Inr y)"
  by (cases m) auto

lemma bind_res_InrE:
  assumes "bind_res m f = Inr y"
  obtains x where "m = Inr x" and "f x = Inr y"
  using assms by (cases m) auto

lemma bind_res_Inl_iff:
  "bind_res m f = Inl e \<longleftrightarrow> m = Inl e \<or> (\<exists>x. m = Inr x \<and> f x = Inl e)"
  by (cases m) auto

lemma raise_if_Inr_iff [res_simps]: "raise_if bad e = Inr u \<longleftrightarrow> \<not> bad"
  by (auto simp: raise_if_def)

lemma raise_if_False [simp]: "raise_if False e = Inr ()"
  by (simp add: raise_if_def)

lemma raise_if_True [simp]: "raise_if True e = Inl e"
  by (simp add: raise_if_def)

lemma map_res_Inr_iff:
  "map_res f xs = Inr ys \<longleftrightarrow> list_all2 (\<lambda>x y. f x = Inr y) xs ys"
proof (induction xs arbitrary: ys)
  case Nil
  then show ?case by auto
next
  case (Cons x xs)
  then show ?case
    by (cases ys) (auto simp: res_simps)
qed

lemma map_res_Inr_all: "(\<And>x. x \<in> set xs \<Longrightarrow> f x = Inr (g x)) \<Longrightarrow> map_res f xs = Inr (map g xs)"
  by (induction xs) auto

lemma map_res_map: "map_res f (map g xs) = map_res (\<lambda>x. f (g x)) xs"
  by (induction xs) simp_all

lemma map_res_length: "map_res f xs = Inr ys \<Longrightarrow> length ys = length xs"
  by (simp add: map_res_Inr_iff list_all2_lengthD)

lemma map_res_set:
  "map_res f xs = Inr ys \<Longrightarrow> y \<in> set ys \<Longrightarrow> \<exists>x\<in>set xs. f x = Inr y"
  by (fastforce simp: map_res_Inr_iff list_all2_conv_all_nth in_set_conv_nth)

lemma map_res_set':
  "map_res f xs = Inr ys \<Longrightarrow> x \<in> set xs \<Longrightarrow> \<exists>y\<in>set ys. f x = Inr y"
  by (fastforce simp: map_res_Inr_iff list_all2_conv_all_nth in_set_conv_nth)

lemma concat_res_Nil [simp]: "concat_res f [] = Inr []"
  by (simp add: concat_res_def)

lemma concat_res_all: "(\<And>x. x \<in> set xs \<Longrightarrow> f x = Inr (g x)) \<Longrightarrow> concat_res f xs = Inr (concat (map g xs))"
  by (simp add: concat_res_def map_res_Inr_all)

lemma concat_res_set:
  "concat_res f xs = Inr ys \<Longrightarrow> y \<in> set ys \<Longrightarrow> \<exists>x\<in>set xs. \<exists>zs. f x = Inr zs \<and> y \<in> set zs"
  by (fastforce simp: concat_res_def bind_res_Inr_iff dest: map_res_set)

lemma concat_res_set':
  "concat_res f xs = Inr ys \<Longrightarrow> x \<in> set xs \<Longrightarrow> \<exists>zs. f x = Inr zs \<and> set zs \<subseteq> set ys"
  by (fastforce simp: concat_res_def bind_res_Inr_iff dest: map_res_set')

lemma concat_res_total:
  assumes "\<And>x. x \<in> set xs \<Longrightarrow> \<exists>ys. f x = Inr ys"
  shows "\<exists>ys. concat_res f xs = Inr ys"
proof -
  from assms obtain g where "\<And>x. x \<in> set xs \<Longrightarrow> f x = Inr (g x)" by metis
  then show ?thesis using concat_res_all by blast
qed

lemma any_res_all: "(\<And>x. x \<in> set xs \<Longrightarrow> f x = Inr (g x)) \<Longrightarrow> any_res f xs = Inr (\<exists>x\<in>set xs. g x)"
  by (induction xs) auto

lemma any_res_total: "(\<And>x. x \<in> set xs \<Longrightarrow> \<exists>b. f x = Inr b) \<Longrightarrow> \<exists>b. any_res f xs = Inr b"
  by (induction xs) fastforce+

lemma any_res_True: "any_res f xs = Inr True \<Longrightarrow> \<exists>x\<in>set xs. f x = Inr True"
  by (induction xs) (auto simp: bind_res_Inr_iff split: if_splits)

lemma dict_get_Inr_iff: "dict_get d k = Inr v \<longleftrightarrow> map_of d k = Some v"
  by (auto simp: dict_get_def split: option.splits)

lemma dict_get_Some [simp]: "map_of d k = Some v \<Longrightarrow> dict_get d k = Inr v"
  by (simp add: dict_get_def)


text \<open>A dictionary comprehension: a later value for the same key replaces the earlier one and
  keeps its place.\<close>

definition dict_of :: "(string \<times> 'a) list \<Rightarrow> (string \<times> 'a) list" where
  "dict_of kvs = fold (\<lambda>(k, v). AList.update k v) kvs []"

lemma map_of_fold_update [dict_simps]:
  "map_of (fold (\<lambda>(k, v). AList.update k v) kvs d) = map_of d ++ map_of (rev kvs)"
  by (induction kvs arbitrary: d) (auto simp: update_conv' map_add_def fun_eq_iff split: option.splits)

lemma map_of_dict_of [dict_simps]: "map_of (dict_of kvs) = map_of (rev kvs)"
  by (simp add: dict_of_def dict_simps)

lemma update_new: "k \<notin> fst ` set d \<Longrightarrow> AList.update k v d = d @ [(k, v)]"
  by (induction d) auto

lemma fold_update_distinct:
  "distinct (map fst (d @ kvs)) \<Longrightarrow> fold (\<lambda>(k, v). AList.update k v) kvs d = d @ kvs"
proof (induction kvs arbitrary: d)
  case (Cons kv kvs)
  obtain k v where kv: "kv = (k, v)" by (cases kv)
  have "AList.update k v d = d @ [(k, v)]"
    using update_new [of k d v] Cons.prems by (auto simp: kv)
  with Cons show ?case by (simp add: kv)
qed simp

lemma dict_of_distinct: "distinct (map fst kvs) \<Longrightarrow> dict_of kvs = kvs"
  using fold_update_distinct [of "[]" kvs] by (simp add: dict_of_def)

lemma dict_of_keys [simp]: "fst ` set (dict_of kvs) = fst ` set kvs"
  by (metis dom_map_of_conv_image_fst map_of_dict_of set_rev)

lemma distinct_dict_of [simp]: "distinct (map fst (dict_of kvs))"
proof -
  have "distinct (map fst (fold (\<lambda>(k, v). AList.update k v) kvs d))" if "distinct (map fst d)" for d
    using that by (induction kvs arbitrary: d) (auto simp: distinct_update)
  then show ?thesis by (simp add: dict_of_def)
qed

lemma dict_of_set: "set (dict_of kvs) \<subseteq> set kvs"
  by (metis distinct_dict_of map_of_dict_of map_of_SomeD map_of_is_SomeI set_rev subrelI)


section \<open>Lists\<close>

text \<open>\<open>dict.fromkeys(xs)\<close> read as a sequence: the first occurrence of each value, in order.\<close>

fun fromkeys :: "'a list \<Rightarrow> 'a list" where
  "fromkeys [] = []"
| "fromkeys (x # xs) = x # removeAll x (fromkeys xs)"

lemma set_fromkeys [simp]: "set (fromkeys xs) = set xs"
  by (induction xs) auto

lemma distinct_fromkeys [simp]: "distinct (fromkeys xs)"
  by (induction xs) (auto simp: distinct_removeAll)

lemma fromkeys_distinct: "distinct xs \<Longrightarrow> fromkeys xs = xs"
  by (induction xs) auto

lemma fromkeys_idem [simp]: "fromkeys (fromkeys xs) = fromkeys xs"
  by (simp add: fromkeys_distinct)

lemma fromkeys_Nil_iff [simp]: "fromkeys xs = [] \<longleftrightarrow> xs = []"
  by (cases xs) auto

text \<open>\<open>itertools.combinations(xs, n)\<close>: lexicographic by position.\<close>

fun combinations :: "nat \<Rightarrow> 'a list \<Rightarrow> 'a list list" where
  "combinations 0 xs = [[]]"
| "combinations (Suc n) [] = []"
| "combinations (Suc n) (x # xs) = map ((#) x) (combinations n xs) @ combinations (Suc n) xs"

lemma set_combinations: "set (combinations n xs) = {ys. subseq ys xs \<and> length ys = n}"
proof (induction n xs rule: combinations.induct)
  case (1 xs)
  then show ?case by auto
next
  case (2 n)
  then show ?case by (auto simp: list_emb_Nil2)
next
  case (3 n x xs)
  have "ys \<in> set (combinations (Suc n) (x # xs)) \<longleftrightarrow> subseq ys (x # xs) \<and> length ys = Suc n" for ys
  proof (cases ys)
    case Nil
    then show ?thesis by (simp add: 3 image_iff)
  next
    case (Cons y zs)
    have "subseq (y # zs) (x # xs) \<longleftrightarrow> (y = x \<and> subseq zs xs) \<or> subseq (y # zs) xs"
      by (cases "y = x") (auto dest: subseq_Cons')
    with Cons show ?thesis unfolding combinations.simps set_append set_map 3 by auto
  qed
  then show ?case by blast
qed

lemma subseq_distinct: "distinct ys \<Longrightarrow> subseq xs ys \<Longrightarrow> distinct xs"
proof (induction ys arbitrary: xs)
  case Nil
  then show ?case by (auto dest: list_emb_Nil2)
next
  case (Cons y ys)
  show ?case
  proof (cases xs)
    case (Cons x zs)
    with Cons.prems(2) have "(x = y \<and> subseq zs ys) \<or> subseq (x # zs) ys"
      by (cases "x = y") auto
    then show ?thesis
    proof
      assume zs: "x = y \<and> subseq zs ys"
      then have "set zs \<subseteq> set ys" by (auto dest: list_emb_set)
      with Cons Cons.prems(1) zs Cons.IH [of zs] show ?thesis by auto
    next
      assume "subseq (x # zs) ys"
      with Cons Cons.prems(1) Cons.IH [of "x # zs"] show ?thesis by auto
    qed
  qed simp
qed

lemma subseq_set: "subseq xs ys \<Longrightarrow> set xs \<subseteq> set ys"
  by (auto dest: list_emb_set)

lemma subseq_filter_iff:
  assumes "distinct ys" and "subseq xs ys"
  shows "filter (\<lambda>y. y \<in> set xs) ys = xs"
proof -
  have "distinct xs" using assms by (rule subseq_distinct)
  have "subseq xs (filter (\<lambda>y. y \<in> set xs) ys)"
    using subseq_filter [OF assms(2), of "\<lambda>y. y \<in> set xs"] by simp
  moreover have "length (filter (\<lambda>y. y \<in> set xs) ys) \<le> length xs"
  proof -
    have "length (filter (\<lambda>y. y \<in> set xs) ys) = card (set ys \<inter> set xs)"
      using assms(1) by (metis distinct_card distinct_filter set_filter Collect_conj_eq Collect_mem_eq)
    also have "\<dots> \<le> card (set xs)" by (rule card_mono) auto
    also have "\<dots> = length xs" using \<open>distinct xs\<close> by (rule distinct_card)
    finally show ?thesis .
  qed
  ultimately show ?thesis
    by (metis list_emb_length le_antisym subseq_same_length)
qed

lemma filter_subseq [simp]: "subseq (filter P xs) xs"
  by simp


lemma snoc_pending: "xs \<noteq> [] \<Longrightarrow> set xs = insert (last xs) (set (butlast xs))"
  by (metis append_butlast_last_id list.set(1,2) set_append Un_insert_right sup_bot_right)


section \<open>Text\<close>

definition is_space :: "char \<Rightarrow> bool" where
  "is_space c = (let n = (of_char c :: nat) in
     (9 \<le> n \<and> n \<le> 13) \<or> (28 \<le> n \<and> n \<le> 32) \<or> n = 133 \<or> n = 160)"

definition is_control :: "char \<Rightarrow> bool" where
  "is_control c = ((of_char c :: nat) < 32)"

definition is_lower :: "char \<Rightarrow> bool" where
  "is_lower c = (let n = (of_char c :: nat) in 97 \<le> n \<and> n \<le> 122)"

definition is_digit :: "char \<Rightarrow> bool" where
  "is_digit c = (let n = (of_char c :: nat) in 48 \<le> n \<and> n \<le> 57)"

definition is_alnum :: "char \<Rightarrow> bool" where
  "is_alnum c = (is_lower c \<or> is_digit c)"

definition is_hex :: "char \<Rightarrow> bool" where
  "is_hex c = (let n = (of_char c :: nat) in (48 \<le> n \<and> n \<le> 57) \<or> (97 \<le> n \<and> n \<le> 102))"

text \<open>The maximal runs of characters that satisfy \<open>P\<close>: \<open>re.findall\<close> of a repeated
  character class, and \<open>str.split()\<close> when \<open>P\<close> is "not white space".\<close>

lemma length_dropWhile_less [termination_simp]: "length (dropWhile P xs) < Suc (length xs)"
  by (simp add: length_dropWhile_le less_Suc_eq_le)

fun runs :: "('a \<Rightarrow> bool) \<Rightarrow> 'a list \<Rightarrow> 'a list list" where
  "runs P [] = []"
| "runs P (c # cs) = (if P c then (c # takeWhile P cs) # runs P (dropWhile P cs) else runs P cs)"

definition split_ws :: "string \<Rightarrow> string list" where
  "split_ws s = runs (\<lambda>c. \<not> is_space c) s"

fun join :: "string \<Rightarrow> string list \<Rightarrow> string" where
  "join sep [] = []"
| "join sep [w] = w"
| "join sep (w # v # ws) = w @ sep @ join sep (v # ws)"

text \<open>\<open>'' ''.join(s.split())\<close>\<close>

definition squeeze :: "string \<Rightarrow> string" where
  "squeeze s = join '' '' (split_ws s)"

text \<open>\<open>s.strip()\<close>\<close>

definition strip :: "string \<Rightarrow> string" where
  "strip s = rev (dropWhile is_space (rev (dropWhile is_space s)))"

text \<open>\<open>s.casefold()\<close>\<close>

definition fold_char :: "char \<Rightarrow> string" where
  "fold_char c = (let n = (of_char c :: nat) in
     if (65 \<le> n \<and> n \<le> 90) \<or> (192 \<le> n \<and> n \<le> 222 \<and> n \<noteq> 215) then [char_of (n + 32)]
     else if n = 223 then ''ss'' else [c])"

definition casefold :: "string \<Rightarrow> string" where
  "casefold s = concat (map fold_char s)"

text \<open>\<open>s.encode("utf-8")\<close>, and \<open>s.replace(a, b)\<close> for single characters.\<close>

definition utf8_char :: "char \<Rightarrow> string" where
  "utf8_char c = (let n = (of_char c :: nat) in
     if n < 128 then [c] else [char_of (192 + n div 64), char_of (128 + n mod 64)])"

definition utf8 :: "string \<Rightarrow> string" where
  "utf8 s = concat (map utf8_char s)"

definition replace_char :: "char \<Rightarrow> char \<Rightarrow> string \<Rightarrow> string" where
  "replace_char a b s = map (\<lambda>c. if c = a then b else c) s"

text \<open>\<open>str(n)\<close> for an integer\<close>

definition digit_char :: "nat \<Rightarrow> char" where
  "digit_char d = char_of (48 + d)"

fun show_nat :: "nat \<Rightarrow> string" where
  "show_nat n = (if n < 10 then [digit_char n] else show_nat (n div 10) @ [digit_char (n mod 10)])"

declare show_nat.simps [simp del]

definition show_int :: "int \<Rightarrow> string" where
  "show_int i = (if i < 0 then ''-'' @ show_nat (nat (- i)) else show_nat (nat i))"

text \<open>The token vocabulary: \<open>[a-z0-9]+\<close> over the case-folded values.\<close>

definition alnum_runs :: "string \<Rightarrow> string list" where
  "alnum_runs s = runs is_alnum s"

definition tokens_of :: "string list \<Rightarrow> string set" where
  "tokens_of values = (\<Union>v\<in>set values. set (alnum_runs (casefold v)))"


subsection \<open>Facts about runs, splitting and joining\<close>

lemma runs_all: "w \<in> set (runs P s) \<Longrightarrow> w \<noteq> [] \<and> list_all P w"
proof (induction P s rule: runs.induct)
  case (2 P c cs)
  have "list_all P (takeWhile P cs)"
    by (simp add: list_all_iff) (meson set_takeWhileD)
  with 2 show ?case by (cases "P c") auto
qed simp

lemma runs_none: "list_all (\<lambda>c. \<not> P c) s \<Longrightarrow> runs P s = []"
  by (induction s) auto

lemma runs_word: "w \<noteq> [] \<Longrightarrow> list_all P w \<Longrightarrow> runs P w = [w]"
proof (cases w)
  case (Cons a as)
  moreover assume "list_all P w"
  ultimately have "P a" and "takeWhile P as = as" and "dropWhile P as = []"
    by (simp_all add: list_all_iff)
  with Cons show ?thesis by (simp del: dropWhile_eq_Nil_conv takeWhile_eq_all_conv)
qed simp

lemma runs_word_sep:
  assumes "w \<noteq> []" and "list_all P w" and "\<not> P c"
  shows "runs P (w @ c # s) = w # runs P s"
proof -
  obtain a as where w: "w = a # as" using assms(1) by (cases w) auto
  with assms have "P a" and as: "\<forall>x\<in>set as. P x" by (auto simp: list_all_iff)
  have "takeWhile P (as @ c # s) = as" and "dropWhile P (as @ c # s) = c # s"
    using as assms(3) by (auto simp: takeWhile_append2 dropWhile_append2)
  with w \<open>P a\<close> assms(3) show ?thesis by simp
qed

lemma runs_join:
  assumes "\<forall>w\<in>set ws. w \<noteq> [] \<and> list_all P w" and "\<not> P c"
  shows "runs P (join [c] ws) = ws"
  using assms by (induction "[c]" ws rule: join.induct) (simp_all add: runs_word runs_word_sep)

lemma split_ws_squeeze [text_simps]: "split_ws (squeeze s) = split_ws s"
  unfolding split_ws_def squeeze_def
  by (rule runs_join) (use runs_all in blast, simp add: is_space_def)

lemma squeeze_idem [simp]: "squeeze (squeeze s) = squeeze s"
  by (simp add: squeeze_def [of "squeeze s"] text_simps) (simp add: squeeze_def)

lemma squeeze_Nil [simp]: "squeeze [] = []"
  by (simp add: squeeze_def split_ws_def)

lemma squeeze_word: "w \<noteq> [] \<Longrightarrow> list_all (\<lambda>c. \<not> is_space c) w \<Longrightarrow> squeeze w = w"
  by (simp add: squeeze_def split_ws_def runs_word)

lemma squeeze_word': "list_all (\<lambda>c. \<not> is_space c) w \<Longrightarrow> squeeze w = w"
  by (cases "w = []") (simp_all add: squeeze_word)

lemma dropWhile_idem [simp]: "dropWhile P (dropWhile P s) = dropWhile P s"
  by (induction s) auto

lemma dropWhile_fixed_iff: "dropWhile P s = s \<longleftrightarrow> s = [] \<or> \<not> P (hd s)"
proof (cases s)
  case (Cons a t)
  have "dropWhile P t \<noteq> a # t"
    using length_dropWhile_le [of P t] by (metis impossible_Cons)
  with Cons show ?thesis by simp
qed simp

lemma strip_word: "list_all (\<lambda>c. \<not> is_space c) w \<Longrightarrow> strip w = w"
proof -
  assume *: "list_all (\<lambda>c. \<not> is_space c) w"
  have "dropWhile is_space v = v" if "set v = set w" for v
    using * that by (cases v) (auto simp: list_all_iff)
  then show ?thesis by (simp add: strip_def)
qed

lemma hd_dropWhile_rev:
  assumes "dropWhile P (rev t) \<noteq> []" and "t = [] \<or> \<not> P (hd t)"
  shows "hd (rev (dropWhile P (rev t))) = hd t"
proof -
  have "rev t = takeWhile P (rev t) @ dropWhile P (rev t)" by simp
  then have "t = rev (dropWhile P (rev t)) @ rev (takeWhile P (rev t))"
    by (metis rev_append rev_rev_ident)
  with assms(1) show ?thesis by (metis hd_append2 rev_is_Nil_conv)
qed

lemma strip_idem [simp]: "strip (strip s) = strip s"
proof -
  define t where "t = dropWhile is_space s"
  define u where "u = dropWhile is_space (rev t)"
  have t: "t = [] \<or> \<not> is_space (hd t)"
    unfolding t_def by (metis hd_dropWhile)
  have "dropWhile is_space (rev u) = rev u"
  proof (cases "u = []")
    case True
    then show ?thesis by simp
  next
    case False
    then have "hd (rev u) = hd t" and "t \<noteq> []"
      using hd_dropWhile_rev [of is_space t] t by (auto simp: u_def)
    with t False show ?thesis by (simp add: dropWhile_fixed_iff)
  qed
  then show ?thesis by (simp add: strip_def t_def [symmetric] u_def [symmetric]) (simp add: u_def)
qed

lemma strip_Nil [simp]: "strip [] = []"
  by (simp add: strip_def)

lemma casefold_Nil [simp]: "casefold [] = []"
  by (simp add: casefold_def)

lemma length_strip_le: "length (strip s) \<le> length s"
  by (simp add: strip_def) (metis length_dropWhile_le length_rev order_trans)

end
