(* ===== verification/Py_Value.thy ===== *)
theory Py_Value
  imports Agency_Prelude Complex_Main
begin

text \<open>
  The dynamic values the parsers receive: what \<open>json.loads\<close> yields, with tuples beside lists
  because some callers pass tuples. A dictionary is an association list in insertion order with
  distinct keys. A finite float is the rational number it denotes together with its \<open>repr\<close>;
  arithmetic on floats is exact here. The second half models the canonical \<open>json.dumps\<close> the digests are taken over; the documents it renders hold no floats.
\<close>

section \<open>Dynamic values\<close>

datatype py_float = PyNan | PyInf bool | PyFin rat string

datatype pyval =
    PyNone
  | PyBool bool
  | PyInt int
  | PyFloat py_float
  | PyStr string
  | PyList "pyval list"
  | PyTuple "pyval list"
  | PyDict "(string \<times> pyval) list"

text \<open>\<open>isinstance(value, Mapping)\<close>\<close>

fun as_mapping :: "pyval \<Rightarrow> (string \<times> pyval) list option" where
  "as_mapping (PyDict d) = Some d"
| "as_mapping _ = None"

text \<open>\<open>isinstance(value, Sequence)\<close> and not text\<close>

fun as_sequence :: "pyval \<Rightarrow> pyval list option" where
  "as_sequence (PyList xs) = Some xs"
| "as_sequence (PyTuple xs) = Some xs"
| "as_sequence _ = None"

text \<open>\<open>isinstance(value, list)\<close>\<close>

fun as_list :: "pyval \<Rightarrow> pyval list option" where
  "as_list (PyList xs) = Some xs"
| "as_list _ = None"

text \<open>\<open>isinstance(value, int) and not isinstance(value, bool)\<close>\<close>

fun as_int :: "pyval \<Rightarrow> int option" where
  "as_int (PyInt i) = Some i"
| "as_int _ = None"

text \<open>\<open>d.get(k)\<close>\<close>

definition py_get :: "(string \<times> pyval) list \<Rightarrow> string \<Rightarrow> pyval" where
  "py_get d k = (case map_of d k of None \<Rightarrow> PyNone | Some v \<Rightarrow> v)"

text \<open>\<open>value == n\<close> for an integer literal: booleans and floats compare by their number.\<close>

fun py_int_eq :: "pyval \<Rightarrow> int \<Rightarrow> bool" where
  "py_int_eq (PyInt i) n = (i = n)"
| "py_int_eq (PyBool b) n = ((if b then 1 else 0) = n)"
| "py_int_eq (PyFloat (PyFin r t)) n = (r = of_int n)"
| "py_int_eq _ n = False"

text \<open>\<open>value == text\<close>\<close>

fun py_str_eq :: "pyval \<Rightarrow> string \<Rightarrow> bool" where
  "py_str_eq (PyStr s) t = (s = t)"
| "py_str_eq _ t = False"

text \<open>\<open>bool(value)\<close>\<close>

fun truthy :: "pyval \<Rightarrow> bool" where
  "truthy PyNone = False"
| "truthy (PyBool b) = b"
| "truthy (PyInt i) = (i \<noteq> 0)"
| "truthy (PyFloat f) = (case f of PyFin r t \<Rightarrow> r \<noteq> 0 | _ \<Rightarrow> True)"
| "truthy (PyStr s) = (s \<noteq> [])"
| "truthy (PyList xs) = (xs \<noteq> [])"
| "truthy (PyTuple xs) = (xs \<noteq> [])"
| "truthy (PyDict d) = (d \<noteq> [])"

text \<open>\<open>repr(value)\<close> and \<open>str(value)\<close>\<close>

definition hex_digit :: "nat \<Rightarrow> char" where
  "hex_digit d = (if d < 10 then char_of (48 + d) else char_of (87 + d))"

definition repr_char :: "char \<Rightarrow> char \<Rightarrow> string" where
  "repr_char q c = (let n = (of_char c :: nat) in
     if c = q \<or> n = 92 then [CHR 0x5C, c]
     else if n = 9 then [CHR 0x5C, CHR ''t'']
     else if n = 10 then [CHR 0x5C, CHR ''n'']
     else if n = 13 then [CHR 0x5C, CHR ''r'']
     else if n < 32 \<or> (127 \<le> n \<and> n \<le> 160) \<or> n = 173
       then [CHR 0x5C, CHR ''x'', hex_digit (n div 16), hex_digit (n mod 16)]
     else [c])"

definition repr_str :: "string \<Rightarrow> string" where
  "repr_str s = (let q = (if CHR 0x27 \<in> set s \<and> CHR 0x22 \<notin> set s then CHR 0x22 else CHR 0x27)
     in [q] @ concat (map (repr_char q) s) @ [q])"

fun repr_float :: "py_float \<Rightarrow> string" where
  "repr_float PyNan = ''nan''"
| "repr_float (PyInf neg) = (if neg then ''-inf'' else ''inf'')"
| "repr_float (PyFin q text) = text"

fun py_repr :: "pyval \<Rightarrow> string" where
  "py_repr PyNone = ''None''"
| "py_repr (PyBool b) = (if b then ''True'' else ''False'')"
| "py_repr (PyInt i) = show_int i"
| "py_repr (PyFloat f) = repr_float f"
| "py_repr (PyStr s) = repr_str s"
| "py_repr (PyList xs) = ''['' @ join '', '' (map py_repr xs) @ '']''"
| "py_repr (PyTuple xs) =
     ''('' @ join '', '' (map py_repr xs) @ (if length xs = 1 then '',)'' else '')'')"
| "py_repr (PyDict d) =
     ''{'' @ join '', '' (map (\<lambda>(k, v). repr_str k @ '': '' @ py_repr v) d) @ ''}''"

fun py_str :: "pyval \<Rightarrow> string" where
  "py_str (PyStr s) = s"
| "py_str v = py_repr v"

text \<open>\<open>str(value or "")\<close>\<close>

definition str_or_empty :: "pyval \<Rightarrow> string" where
  "str_or_empty v = (if truthy v then py_str v else [])"

lemma str_or_empty_PyStr [simp]: "str_or_empty (PyStr s) = s"
  by (simp add: str_or_empty_def)

lemma str_or_empty_PyNone [simp]: "str_or_empty PyNone = []"
  by (simp add: str_or_empty_def)

text \<open>\<open>round(x, 6)\<close> with ties to even, on exact values.\<close>

definition round_half_even :: "rat \<Rightarrow> int" where
  "round_half_even q = (let n = floor q; r = q - of_int n in
     if r < 1 / 2 then n else if r > 1 / 2 then n + 1 else if even n then n else n + 1)"

definition round6 :: "rat \<Rightarrow> rat" where
  "round6 q = of_int (round_half_even (q * 1000000)) / 1000000"

lemma round_half_even_of_int [simp]: "round_half_even (of_int n) = n"
  by (simp add: round_half_even_def)

lemma round6_idem [simp]: "round6 (round6 q) = round6 q"
  by (simp add: round6_def)

lemma round_half_even_cases: "round_half_even q = \<lfloor>q\<rfloor> \<or> round_half_even q = \<lfloor>q\<rfloor> + 1"
  by (simp add: round_half_even_def Let_def)

lemma round_half_even_mono:
  assumes "p \<le> q"
  shows "round_half_even p \<le> round_half_even q"
proof (cases "\<lfloor>p\<rfloor> = \<lfloor>q\<rfloor>")
  case True
  with assms show ?thesis by (auto simp: round_half_even_def Let_def)
next
  case False
  with assms have "\<lfloor>p\<rfloor> + 1 \<le> \<lfloor>q\<rfloor>" by (smt (verit) floor_mono)
  then show ?thesis using round_half_even_cases [of p] round_half_even_cases [of q] by linarith
qed

lemma round6_mono: "p \<le> q \<Longrightarrow> round6 p \<le> round6 q"
  by (simp add: round6_def divide_right_mono round_half_even_mono)

lemma round6_unit: "0 \<le> q \<Longrightarrow> q \<le> 1 \<Longrightarrow> 0 \<le> round6 q \<and> round6 q \<le> 1"
proof -
  have "round6 0 = 0" and "round6 1 = 1"
    using round_half_even_of_int [of 0] round_half_even_of_int [of 1000000]
    by (simp_all add: round6_def)
  then show "0 \<le> q \<Longrightarrow> q \<le> 1 \<Longrightarrow> ?thesis" by (metis round6_mono)
qed


section \<open>Canonical JSON\<close>

datatype json =
    JNull
  | JBool bool
  | JInt int
  | JStr string
  | JArr "json list"
  | JObj "(string \<times> json) list"

definition hex4 :: "nat \<Rightarrow> string" where
  "hex4 n = (let h = (\<lambda>d. if d < 10 then char_of (48 + d) else char_of (87 + d)) in
     [h (n div 4096 mod 16), h (n div 256 mod 16), h (n div 16 mod 16), h (n mod 16)])"

text \<open>One character of a string literal, with \<open>ensure_ascii=False\<close>.\<close>

definition json_char :: "char \<Rightarrow> string" where
  "json_char c = (let n = (of_char c :: nat) in
     if n = 34 then [CHR 0x5C, CHR 0x22]
     else if n = 92 then [CHR 0x5C, CHR 0x5C]
     else if n = 8 then [CHR 0x5C, CHR ''b'']
     else if n = 9 then [CHR 0x5C, CHR ''t'']
     else if n = 10 then [CHR 0x5C, CHR ''n'']
     else if n = 12 then [CHR 0x5C, CHR ''f'']
     else if n = 13 then [CHR 0x5C, CHR ''r'']
     else if n < 32 then [CHR 0x5C, CHR ''u''] @ hex4 n
     else [c])"

text \<open>The same with the default \<open>ensure_ascii=True\<close>: only the characters from space to tilde stay.\<close>

definition ascii_char :: "char \<Rightarrow> string" where
  "ascii_char c = (if (of_char c :: nat) < 127 then json_char c else [CHR 0x5C, CHR ''u''] @ hex4 (of_char c))"

definition json_string :: "string \<Rightarrow> string" where
  "json_string s = [CHR 0x22] @ concat (map json_char s) @ [CHR 0x22]"

text \<open>\<open>json.dumps(value, ensure_ascii=False, separators=(",", ":"), sort_keys=True)\<close>\<close>

fun json_dumps :: "json \<Rightarrow> string" where
  "json_dumps JNull = ''null''"
| "json_dumps (JBool b) = (if b then ''true'' else ''false'')"
| "json_dumps (JInt i) = show_int i"
| "json_dumps (JStr s) = json_string s"
| "json_dumps (JArr xs) = ''['' @ join '','' (map json_dumps xs) @ '']''"
| "json_dumps (JObj kvs) =
     ''{'' @ join '',''
       (map (\<lambda>(k, s). json_string k @ '':'' @ s)
         (sort_key fst (map (\<lambda>(k, v). (k, json_dumps v)) kvs))) @ ''}''"

text \<open>The value \<open>json.loads\<close> gives back for a document.\<close>

fun json_value :: "json \<Rightarrow> pyval" where
  "json_value JNull = PyNone"
| "json_value (JBool b) = PyBool b"
| "json_value (JInt i) = PyInt i"
| "json_value (JStr s) = PyStr s"
| "json_value (JArr xs) = PyList (map json_value xs)"
| "json_value (JObj kvs) = PyDict (map (\<lambda>(k, v). (k, json_value v)) kvs)"

lemma as_list_Some_iff [simp]: "as_list v = Some xs \<longleftrightarrow> v = PyList xs"
  by (cases v) auto

lemma as_mapping_Some_iff [simp]: "as_mapping v = Some d \<longleftrightarrow> v = PyDict d"
  by (cases v) auto

lemma as_int_Some_iff [simp]: "as_int v = Some i \<longleftrightarrow> v = PyInt i"
  by (cases v) auto

lemma as_sequence_Some_iff: "as_sequence v = Some xs \<longleftrightarrow> v = PyList xs \<or> v = PyTuple xs"
  by (cases v) auto

end
