(* ===== verification/Sha256.thy ===== *)
theory Sha256
  imports Agency_Prelude "HOL-Library.Word"
begin

text \<open>
  The part of Python's \<open>hashlib\<close> the code calls: the SHA-256 digest of a byte string as
  lower-case hexadecimal text (FIPS 180-4), over 32-bit words with wrap-around addition. The
  plan hash, the roster fingerprint and the acceptance outcome key are such digests. The theory
  proves the only fact about digests the components rely on: their shape.
\<close>

unbundle bit_operations_syntax

type_synonym u32 = "32 word"
type_synonym sha_state = "u32 \<times> u32 \<times> u32 \<times> u32 \<times> u32 \<times> u32 \<times> u32 \<times> u32"

text \<open>The constants are the first 32 bits of the fractional parts of the cube and square roots of
  the first primes, computed here bit by bit.\<close>

fun root_bits :: "nat \<Rightarrow> nat \<Rightarrow> nat \<Rightarrow> nat \<Rightarrow> nat" where
  "root_bits degree 0 r n = r"
| "root_bits degree (Suc b) r n =
     root_bits degree b (if (r + 2 ^ b) ^ degree \<le> n then r + 2 ^ b else r) n"

definition root_fraction :: "nat \<Rightarrow> nat \<Rightarrow> u32" where
  "root_fraction degree p = of_nat (root_bits degree 40 0 (p * 2 ^ (32 * degree)))"

definition small_primes :: "nat \<Rightarrow> nat list" where
  "small_primes limit = filter (\<lambda>n. list_all (\<lambda>d. n mod d \<noteq> 0) [2..<n]) [2..<limit]"

definition sha_constants :: "u32 list" where
  "sha_constants = map (root_fraction 3) (small_primes 312)"

definition sha_initial :: sha_state where
  "sha_initial = (root_fraction 2 2, root_fraction 2 3, root_fraction 2 5, root_fraction 2 7,
     root_fraction 2 11, root_fraction 2 13, root_fraction 2 17, root_fraction 2 19)"

definition rotr :: "nat \<Rightarrow> u32 \<Rightarrow> u32" where
  "rotr n x = drop_bit n x OR push_bit (32 - n) x"

definition big_sigma0 :: "u32 \<Rightarrow> u32" where
  "big_sigma0 x = rotr 2 x XOR rotr 13 x XOR rotr 22 x"

definition big_sigma1 :: "u32 \<Rightarrow> u32" where
  "big_sigma1 x = rotr 6 x XOR rotr 11 x XOR rotr 25 x"

definition small_sigma0 :: "u32 \<Rightarrow> u32" where
  "small_sigma0 x = rotr 7 x XOR rotr 18 x XOR drop_bit 3 x"

definition small_sigma1 :: "u32 \<Rightarrow> u32" where
  "small_sigma1 x = rotr 17 x XOR rotr 19 x XOR drop_bit 10 x"

definition sha_round :: "u32 \<Rightarrow> u32 \<Rightarrow> sha_state \<Rightarrow> sha_state" where
  "sha_round k w st = (case st of (a, b, c, d, e, f, g, h) \<Rightarrow>
     let t1 = h + big_sigma1 e + ((e AND f) XOR (NOT e AND g)) + k + w;
         t2 = big_sigma0 a + ((a AND b) XOR (a AND c) XOR (b AND c))
     in (t1 + t2, a, b, c, d + t1, e, f, g))"

text \<open>The message schedule, most recent word first.\<close>

fun sha_schedule :: "nat \<Rightarrow> u32 list \<Rightarrow> u32 list" where
  "sha_schedule 0 ws = ws"
| "sha_schedule (Suc n) ws =
     sha_schedule n ((small_sigma1 (ws ! 1) + ws ! 6 + small_sigma0 (ws ! 14) + ws ! 15) # ws)"

definition sha_add :: "sha_state \<Rightarrow> sha_state \<Rightarrow> sha_state" where
  "sha_add s t = (case s of (a, b, c, d, e, f, g, h) \<Rightarrow> case t of (a', b', c', d', e', f', g', h') \<Rightarrow>
     (a + a', b + b', c + c', d + d', e + e', f + f', g + g', h + h'))"

definition sha_block :: "sha_state \<Rightarrow> u32 list \<Rightarrow> sha_state" where
  "sha_block st block =
     sha_add st (fold (\<lambda>(k, w) s. sha_round k w s)
       (zip sha_constants (rev (sha_schedule 48 (rev block)))) st)"

definition word_of_bytes :: "nat list \<Rightarrow> u32" where
  "word_of_bytes bs = foldl (\<lambda>w b. push_bit 8 w + of_nat b) 0 bs"

fun chunks :: "nat \<Rightarrow> 'a list \<Rightarrow> 'a list list" where
  "chunks n [] = []"
| "chunks n (x # xs) = take (Suc n) (x # xs) # chunks n (drop n xs)"

definition sha_pad :: "nat list \<Rightarrow> nat list" where
  "sha_pad bs = (let n = length bs in
     bs @ [128] @ replicate ((119 - n mod 64) mod 64) 0
       @ map (\<lambda>i. (8 * n) div 256 ^ i mod 256) [7, 6, 5, 4, 3, 2, 1, 0])"

definition hex_char :: "nat \<Rightarrow> char" where
  "hex_char d = (if d < 10 then char_of (48 + d) else char_of (87 + d))"

definition hex_word :: "u32 \<Rightarrow> string" where
  "hex_word w = map (\<lambda>i. hex_char (unat (drop_bit (4 * i) w) mod 16)) [7, 6, 5, 4, 3, 2, 1, 0]"

definition sha256_state :: "string \<Rightarrow> sha_state" where
  "sha256_state s = foldl sha_block sha_initial
     (chunks 15 (map word_of_bytes (chunks 3 (sha_pad (map of_char s)))))"

text \<open>\<open>hashlib.sha256(data).hexdigest()\<close>\<close>

definition sha256_hex :: "string \<Rightarrow> string" where
  "sha256_hex data = (case sha256_state data of (a, b, c, d, e, f, g, h) \<Rightarrow>
     concat (map hex_word [a, b, c, d, e, f, g, h]))"

lemma is_hex_hex_char: "d < 16 \<Longrightarrow> is_hex (hex_char d)"
  by (auto simp: hex_char_def is_hex_def Let_def)

lemma hex_word_length [simp]: "length (hex_word w) = 8"
  by (simp add: hex_word_def)

lemma hex_word_hex [simp]: "list_all is_hex (hex_word w)"
  by (simp add: hex_word_def is_hex_hex_char)

lemma sha256_hex_length [simp]: "length (sha256_hex data) = 64"
  by (simp add: sha256_hex_def split: prod.splits)

lemma sha256_hex_hex [simp]: "list_all is_hex (sha256_hex data)"
  by (simp add: sha256_hex_def split: prod.splits)

lemma sha256_hex_nonempty [simp]: "sha256_hex data \<noteq> []"
  using sha256_hex_length [of data] by (metis list.size(3) zero_neq_numeral)

end
