(* ===== verification/Plan_Contracts.thy ===== *)
theory Plan_Contracts
  imports Py_Value Sha256
begin

text \<open>
  \<open>core/workforce/planning_contracts.py\<close>: the bounded contracts a model's work plan and its
  recruitment proposal are parsed into. A parser returns the typed value or the exception the
  code raises, with its message. The lemmas show what a parsed plan or proposal satisfies, that
  every well-formed plan parses back from the document its hash is taken over, and that a
  well-formed recruitment row parses back from its dictionary form.
\<close>

section \<open>Bounds, vocabularies and identifiers\<close>

definition plan_schema_version :: int where "plan_schema_version = 2"
definition recruitment_schema_version :: int where "recruitment_schema_version = 2"
definition max_work_units :: nat where "max_work_units = 16"
definition max_items :: nat where "max_items = 16"
definition max_text_chars :: nat where "max_text_chars = 2048"
definition max_label_chars :: nat where "max_label_chars = 128"

definition plan_authorities :: "string list" where
  "plan_authorities = [''advise'', ''plan'', ''modify'', ''review'']"

definition plan_artifacts :: "string list" where
  "plan_artifacts = [''analysis'', ''architecture-record'', ''documentation'',
     ''implementation-change'', ''plan'', ''review-report'', ''test-code'', ''test-evidence'']"

definition plan_lifecycles :: "string list" where
  "plan_lifecycles = [''coordination'', ''discovery'', ''documentation'', ''design'',
     ''implementation'', ''planning'', ''release'', ''review'', ''testing'']"

definition plan_mutations :: "string list" where
  "plan_mutations = [''read_only'', ''workspace_write'', ''external_write'']"

definition plan_parallelization :: "string list" where
  "plan_parallelization = [''parallel'', ''sequential'', ''unspecified'']"

definition plan_delivery :: "string list" where
  "plan_delivery = [''load'', ''delegate'']"

definition plan_timing :: "string list" where
  "plan_timing = [''immediate'', ''after_dependencies'', ''after_artifact'']"

text \<open>\<open>_IDENTIFIER_RE.fullmatch\<close>, \<open>_UNIT_ID_RE.fullmatch\<close> and \<open>_DIGEST_RE.fullmatch\<close>\<close>

definition ident_char :: "char \<Rightarrow> bool" where
  "ident_char c = (is_alnum c \<or> c \<in> {CHR ''.'', CHR ''_'', CHR '':'', CHR ''-''})"

definition is_identifier :: "string \<Rightarrow> bool" where
  "is_identifier s = (case s of [] \<Rightarrow> False
     | c # cs \<Rightarrow> is_alnum c \<and> list_all ident_char cs \<and> length cs \<le> 127)"

definition is_unit_id :: "string \<Rightarrow> bool" where
  "is_unit_id s = (take 5 s = ''unit-'' \<and> (case drop 5 s of [] \<Rightarrow> False
     | c # cs \<Rightarrow> is_alnum c \<and> list_all (\<lambda>d. is_alnum d \<or> d = CHR ''-'') cs \<and> length cs \<le> 62))"

definition is_digest :: "string \<Rightarrow> bool" where
  "is_digest s = (take 7 s = ''sha256:'' \<and> length s = 71 \<and> list_all is_hex (drop 7 s))"


section \<open>Field parsers\<close>

text \<open>\<open>_mapping\<close>: the value is an object with exactly the named fields.\<close>

definition plan_mapping :: "pyval \<Rightarrow> string \<Rightarrow> string list \<Rightarrow> (string \<times> pyval) list res" where
  "plan_mapping v label fields = (case as_mapping v of
     Some d \<Rightarrow> if set (map fst d) = set fields then Inr d
       else Inl (ValueError (label @ '' must contain exactly: '' @ join '', '' (sort fields)))
   | None \<Rightarrow> Inl (ValueError (label @ '' must contain exactly: '' @ join '', '' (sort fields))))"

definition plan_text :: "pyval \<Rightarrow> string \<Rightarrow> nat \<Rightarrow> string res" where
  "plan_text v label maximum = (case v of
     PyStr s \<Rightarrow> (let text = squeeze s in
       if text = [] \<or> length text > maximum \<or> list_ex is_control text
       then Inl (ValueError (label @ '' must contain 1..'' @ show_nat maximum @ '' printable characters''))
       else Inr text)
   | _ \<Rightarrow> Inl (ValueError (label @ '' must be text'')))"

text \<open>The loop of \<open>_items\<close>, with the values accepted so far.\<close>

fun plan_items_loop :: "string \<Rightarrow> bool \<Rightarrow> string list \<Rightarrow> pyval list \<Rightarrow> string list res" where
  "plan_items_loop label identifiers result [] = Inr result"
| "plan_items_loop label identifiers result (raw # rest) =
     bind_res (plan_text raw (label @ '' item'') max_label_chars) (\<lambda>text.
     let item = (if identifiers then casefold text else text) in
     if identifiers \<and> \<not> is_identifier item
     then Inl (ValueError (label @ '' contains an invalid identifier''))
     else if item \<in> set result then Inl (ValueError (label @ '' contains duplicate values''))
     else plan_items_loop label identifiers (result @ [item]) rest)"

definition plan_items :: "pyval \<Rightarrow> string \<Rightarrow> bool \<Rightarrow> bool \<Rightarrow> string list res" where
  "plan_items v label identifiers required = (case as_sequence v of
     Some xs \<Rightarrow>
       if length xs > max_items then Inl (ValueError (label @ '' must be a bounded list''))
       else bind_res (plan_items_loop label identifiers [] xs) (\<lambda>result.
         if required \<and> result = [] then Inl (ValueError (label @ '' must not be empty''))
         else Inr result)
   | None \<Rightarrow> Inl (ValueError (label @ '' must be a bounded list'')))"

definition plan_identifier :: "pyval \<Rightarrow> string \<Rightarrow> string res" where
  "plan_identifier v label = bind_res (plan_text v label max_label_chars) (\<lambda>text.
     let item = casefold text in
     if is_identifier item then Inr item else Inl (ValueError (label @ '' is invalid'')))"

text \<open>\<open>_probability\<close>: \<open>float(value)\<close> raises \<open>OverflowError\<close> for an integer beyond the
  largest finite double.\<close>

definition plan_probability :: "pyval \<Rightarrow> string \<Rightarrow> rat res" where
  "plan_probability v label =
     (let outside = Inl (ValueError (label @ '' must be between zero and one'')) in
      case v of
        PyInt i \<Rightarrow>
          if 2 ^ 1024 - 2 ^ 970 \<le> \<bar>i\<bar> then Inl (OverflowError ''int too large to convert to float'')
          else if 0 \<le> i \<and> i \<le> 1 then Inr (round6 (of_int i)) else outside
      | PyFloat (PyFin q t) \<Rightarrow> if 0 \<le> q \<and> q \<le> 1 then Inr (round6 q) else outside
      | PyFloat _ \<Rightarrow> outside
      | _ \<Rightarrow> Inl (ValueError (label @ '' must be numeric'')))"


section \<open>Work-unit plans\<close>

record work_unit =
  unit_id :: string
  outcome :: string
  artifact_kind :: string
  lifecycle_phase :: string
  unit_domains :: "string list"
  languages :: "string list"
  frameworks :: "string list"
  required_capabilities :: "string list"
  unit_authority :: string
  mutation_scope :: string
  risks :: "string list"
  trust_boundaries :: "string list"
  claims :: "string list"
  depends_on :: "string list"
  resources :: "string list"
  required_tools :: "string list"
  unit_platforms :: "string list"
  acceptance_evidence :: "string list"
  parallelization :: string

record work_unit_plan =
  request_summary :: string
  plan_units :: "work_unit list"
  plan_hash :: string

definition plan_fields :: "string list" where
  "plan_fields = [''schema_version'', ''request_summary'', ''units'']"

definition unit_fields :: "string list" where
  "unit_fields = [''unit_id'', ''outcome'', ''artifact_kind'', ''lifecycle_phase'', ''domains'',
     ''languages'', ''frameworks'', ''required_capabilities'', ''authority'', ''mutation_scope'',
     ''risks'', ''trust_boundaries'', ''claims'', ''depends_on'', ''resources'', ''required_tools'',
     ''platforms'', ''acceptance_evidence'', ''parallelization'']"

text \<open>The check of the parsed domains against the vocabulary the caller knows.\<close>

definition unknown_domains :: "string list option \<Rightarrow> string list \<Rightarrow> string list" where
  "unknown_domains allowed_domains ds = (case allowed_domains of
     None \<Rightarrow> [] | Some allowed \<Rightarrow> filter (\<lambda>d. d \<notin> set allowed) ds)"

definition parse_unit :: "string list option \<Rightarrow> pyval \<Rightarrow> work_unit res" where
  "parse_unit allowed_domains v =
     bind_res (plan_mapping v ''work unit'' unit_fields) (\<lambda>raw.
     bind_res (plan_identifier (py_get raw ''unit_id'') ''unit_id'') (\<lambda>uid.
     bind_res (raise_if (\<not> is_unit_id uid) (ValueError ''unit_id is invalid'')) (\<lambda>_.
     bind_res (plan_identifier (py_get raw ''artifact_kind'') ''artifact_kind'') (\<lambda>artifact.
     bind_res (plan_identifier (py_get raw ''lifecycle_phase'') ''lifecycle_phase'') (\<lambda>lifecycle.
     bind_res (plan_identifier (py_get raw ''authority'') ''authority'') (\<lambda>authority.
     bind_res (plan_identifier (py_get raw ''mutation_scope'') ''mutation_scope'') (\<lambda>mutation.
     bind_res (plan_identifier (py_get raw ''parallelization'') ''parallelization'') (\<lambda>parallel.
     bind_res (raise_if (artifact \<notin> set plan_artifacts \<or> lifecycle \<notin> set plan_lifecycles
         \<or> authority \<notin> set plan_authorities \<or> mutation \<notin> set plan_mutations
         \<or> parallel \<notin> set plan_parallelization) (ValueError ''work unit enum is invalid'')) (\<lambda>_.
     bind_res (plan_items (py_get raw ''domains'') ''domains'' True True) (\<lambda>ds.
     bind_res (raise_if (unknown_domains allowed_domains ds \<noteq> [])
         (ValueError (''work unit domains are outside the known workforce vocabulary: ''
            @ join '', '' (unknown_domains allowed_domains ds)))) (\<lambda>_.
     bind_res (plan_text (py_get raw ''outcome'') ''outcome'' max_text_chars) (\<lambda>out.
     bind_res (plan_items (py_get raw ''languages'') ''languages'' True False) (\<lambda>langs.
     bind_res (plan_items (py_get raw ''frameworks'') ''frameworks'' True False) (\<lambda>frames.
     bind_res (plan_items (py_get raw ''required_capabilities'') ''required_capabilities'' True True) (\<lambda>caps.
     bind_res (plan_items (py_get raw ''risks'') ''risks'' True False) (\<lambda>rs.
     bind_res (plan_items (py_get raw ''trust_boundaries'') ''trust_boundaries'' True False) (\<lambda>tbs.
     bind_res (plan_items (py_get raw ''claims'') ''claims'' True False) (\<lambda>cls.
     bind_res (plan_items (py_get raw ''depends_on'') ''depends_on'' True False) (\<lambda>deps.
     bind_res (plan_items (py_get raw ''resources'') ''resources'' False True) (\<lambda>res.
     bind_res (plan_items (py_get raw ''required_tools'') ''required_tools'' True False) (\<lambda>tools.
     bind_res (plan_items (py_get raw ''platforms'') ''platforms'' True True) (\<lambda>plats.
     bind_res (plan_items (py_get raw ''acceptance_evidence'') ''acceptance_evidence'' False True) (\<lambda>ev.
     Inr \<lparr>unit_id = uid, outcome = out, artifact_kind = artifact, lifecycle_phase = lifecycle,
       unit_domains = ds, languages = langs, frameworks = frames, required_capabilities = caps,
       unit_authority = authority, mutation_scope = mutation, risks = rs, trust_boundaries = tbs,
       claims = cls, depends_on = deps, resources = res, required_tools = tools,
       unit_platforms = plats, acceptance_evidence = ev, parallelization = parallel\<rparr>)))))))))))))))))))))))"

text \<open>\<open>asdict(unit)\<close> and the document the plan hash is taken over.\<close>

definition json_strings :: "string list \<Rightarrow> json" where
  "json_strings xs = JArr (map JStr xs)"

definition unit_json :: "work_unit \<Rightarrow> json" where
  "unit_json u = JObj
     [(''unit_id'', JStr (unit_id u)), (''outcome'', JStr (outcome u)),
      (''artifact_kind'', JStr (artifact_kind u)), (''lifecycle_phase'', JStr (lifecycle_phase u)),
      (''domains'', json_strings (unit_domains u)), (''languages'', json_strings (languages u)),
      (''frameworks'', json_strings (frameworks u)),
      (''required_capabilities'', json_strings (required_capabilities u)),
      (''authority'', JStr (unit_authority u)), (''mutation_scope'', JStr (mutation_scope u)),
      (''risks'', json_strings (risks u)), (''trust_boundaries'', json_strings (trust_boundaries u)),
      (''claims'', json_strings (claims u)), (''depends_on'', json_strings (depends_on u)),
      (''resources'', json_strings (resources u)), (''required_tools'', json_strings (required_tools u)),
      (''platforms'', json_strings (unit_platforms u)),
      (''acceptance_evidence'', json_strings (acceptance_evidence u)),
      (''parallelization'', JStr (parallelization u))]"

definition plan_payload :: "string \<Rightarrow> work_unit list \<Rightarrow> json" where
  "plan_payload summary us = JObj
     [(''schema_version'', JInt plan_schema_version), (''request_summary'', JStr summary),
      (''units'', JArr (map unit_json us))]"

definition plan_digest :: "string \<Rightarrow> work_unit list \<Rightarrow> string" where
  "plan_digest summary us = ''sha256:'' @ sha256_hex (utf8 (json_dumps (plan_payload summary us)))"

text \<open>The dependency loop: every dependency names an earlier unit.\<close>

fun check_dependencies :: "string set \<Rightarrow> work_unit list \<Rightarrow> unit res" where
  "check_dependencies known [] = Inr ()"
| "check_dependencies known (u # us) =
     (if unit_id u \<in> set (depends_on u) \<or> \<not> set (depends_on u) \<subseteq> known
      then Inl (ValueError ''work-unit dependencies must reference earlier units'')
      else check_dependencies (insert (unit_id u) known) us)"

definition parse_work_unit_plan :: "string list option \<Rightarrow> pyval \<Rightarrow> work_unit_plan res" where
  "parse_work_unit_plan allowed_domains v =
     bind_res (plan_mapping v ''work-unit plan'' plan_fields) (\<lambda>raw.
     bind_res (raise_if (\<not> py_int_eq (py_get raw ''schema_version'') plan_schema_version)
       (ValueError ''work-unit plan schema_version is unsupported'')) (\<lambda>_.
     case as_sequence (py_get raw ''units'') of
       None \<Rightarrow> Inl (ValueError ''work-unit plan units must be a nonempty bounded list'')
     | Some raw_units \<Rightarrow>
         if raw_units = [] \<or> length raw_units > max_work_units
         then Inl (ValueError ''work-unit plan units must be a nonempty bounded list'')
         else
           bind_res (plan_text (py_get raw ''request_summary'') ''request_summary'' max_text_chars) (\<lambda>summary.
           bind_res (map_res (parse_unit allowed_domains) raw_units) (\<lambda>us.
           bind_res (raise_if (\<not> distinct (map unit_id us))
             (ValueError ''work-unit plan contains duplicate unit ids'')) (\<lambda>_.
           bind_res (check_dependencies {} us) (\<lambda>_.
           Inr \<lparr>request_summary = summary, plan_units = us, plan_hash = plan_digest summary us\<rparr>))))))"



section \<open>What a parsed plan satisfies\<close>

definition text_ok :: "nat \<Rightarrow> string \<Rightarrow> bool" where
  "text_ok maximum s = (squeeze s = s \<and> s \<noteq> [] \<and> length s \<le> maximum \<and> \<not> list_ex is_control s)"

definition idents_ok :: "string list \<Rightarrow> bool" where
  "idents_ok xs = (length xs \<le> max_items \<and> distinct xs \<and> list_all is_identifier xs)"

definition labels_ok :: "string list \<Rightarrow> bool" where
  "labels_ok xs = (length xs \<le> max_items \<and> distinct xs \<and> list_all (text_ok max_label_chars) xs)"

definition unit_ok :: "work_unit \<Rightarrow> bool" where
  "unit_ok u = (is_identifier (unit_id u) \<and> is_unit_id (unit_id u) \<and> text_ok max_text_chars (outcome u)
     \<and> artifact_kind u \<in> set plan_artifacts \<and> lifecycle_phase u \<in> set plan_lifecycles
     \<and> unit_authority u \<in> set plan_authorities \<and> mutation_scope u \<in> set plan_mutations
     \<and> parallelization u \<in> set plan_parallelization
     \<and> idents_ok (unit_domains u) \<and> unit_domains u \<noteq> []
     \<and> idents_ok (languages u) \<and> idents_ok (frameworks u)
     \<and> idents_ok (required_capabilities u) \<and> required_capabilities u \<noteq> []
     \<and> idents_ok (risks u) \<and> idents_ok (trust_boundaries u) \<and> idents_ok (claims u)
     \<and> idents_ok (depends_on u) \<and> labels_ok (resources u) \<and> resources u \<noteq> []
     \<and> idents_ok (required_tools u) \<and> idents_ok (unit_platforms u) \<and> unit_platforms u \<noteq> []
     \<and> labels_ok (acceptance_evidence u) \<and> acceptance_evidence u \<noteq> [])"

fun deps_ok :: "string set \<Rightarrow> work_unit list \<Rightarrow> bool" where
  "deps_ok known [] = True"
| "deps_ok known (u # us) = (unit_id u \<notin> set (depends_on u) \<and> set (depends_on u) \<subseteq> known
     \<and> deps_ok (insert (unit_id u) known) us)"

definition units_ok :: "work_unit list \<Rightarrow> bool" where
  "units_ok us = (us \<noteq> [] \<and> length us \<le> max_work_units \<and> list_all unit_ok us
     \<and> distinct (map unit_id us) \<and> deps_ok {} us)"

definition plan_ok :: "work_unit_plan \<Rightarrow> bool" where
  "plan_ok p = (text_ok max_text_chars (request_summary p) \<and> units_ok (plan_units p)
     \<and> plan_hash p = plan_digest (request_summary p) (plan_units p))"

lemmas plan_bounds = max_items_def max_label_chars_def max_text_chars_def max_work_units_def


subsection \<open>Identifiers are stable text\<close>

lemma is_alnum_fold [simp]: "is_alnum c \<Longrightarrow> fold_char c = [c]"
  by (auto simp: is_alnum_def is_lower_def is_digit_def fold_char_def Let_def)

lemma ident_char_fold [simp]: "ident_char c \<Longrightarrow> fold_char c = [c]"
  by (auto simp: ident_char_def) (simp_all add: fold_char_def)

lemma ident_char_not_space [simp]: "ident_char c \<Longrightarrow> \<not> is_space c"
  by (auto simp: ident_char_def is_alnum_def is_lower_def is_digit_def is_space_def Let_def)

lemma ident_char_not_control [simp]: "ident_char c \<Longrightarrow> \<not> is_control c"
  by (auto simp: ident_char_def is_alnum_def is_lower_def is_digit_def is_control_def Let_def)

lemma is_identifier_chars: "is_identifier s \<Longrightarrow> list_all ident_char s"
  by (auto simp: is_identifier_def ident_char_def split: list.splits)

lemma is_identifier_nonempty [simp]: "is_identifier s \<Longrightarrow> s \<noteq> []"
  by (auto simp: is_identifier_def)

lemma is_identifier_length: "is_identifier s \<Longrightarrow> length s \<le> 128"
  by (auto simp: is_identifier_def split: list.splits)

lemma casefold_chars: "list_all ident_char s \<Longrightarrow> casefold s = s"
  unfolding casefold_def by (induction s) auto

lemma is_identifier_casefold [simp]: "is_identifier s \<Longrightarrow> casefold s = s"
  by (simp add: is_identifier_chars casefold_chars)

lemma is_identifier_squeeze [simp]: "is_identifier s \<Longrightarrow> squeeze s = s"
  by (rule squeeze_word') (use is_identifier_chars [of s] in \<open>auto simp: list_all_iff\<close>)

lemma is_identifier_strip [simp]: "is_identifier s \<Longrightarrow> strip s = s"
  by (rule strip_word) (use is_identifier_chars [of s] in \<open>auto simp: list_all_iff\<close>)

lemma is_identifier_text_ok: "is_identifier s \<Longrightarrow> text_ok max_label_chars s"
  using is_identifier_chars [of s] is_identifier_length [of s]
  by (auto simp: text_ok_def plan_bounds list_all_iff list_ex_iff)


subsection \<open>Each field parser inverted\<close>

named_theorems parse_iff "a field parser returns exactly on these values"

lemma plan_mapping_Inr [parse_iff]:
  "plan_mapping v label names = Inr d \<longleftrightarrow> v = PyDict d \<and> fst ` set d = set names"
  by (auto simp: plan_mapping_def split: option.splits)

lemma plan_text_Inr: "plan_text v label m = Inr t \<longleftrightarrow> (\<exists>s. v = PyStr s \<and> t = squeeze s \<and> text_ok m t)"
  by (auto simp: plan_text_def text_ok_def Let_def split: pyval.splits)

lemma plan_text_ok: "plan_text v label m = Inr t \<Longrightarrow> text_ok m t"
  by (auto simp: plan_text_Inr)

lemma plan_text_PyStr [simp]: "text_ok m s \<Longrightarrow> plan_text (PyStr s) label m = Inr s"
  by (auto simp: plan_text_Inr text_ok_def)

lemma plan_identifier_ok: "plan_identifier v label = Inr i \<Longrightarrow> is_identifier i"
  by (auto simp: plan_identifier_def res_simps Let_def split: if_splits)

lemma plan_identifier_PyStr [simp]: "is_identifier i \<Longrightarrow> plan_identifier (PyStr i) label = Inr i"
  by (simp add: plan_identifier_def is_identifier_text_ok)

lemma plan_items_loop_ok:
  assumes "plan_items_loop label b acc xs = Inr ys" and "distinct acc"
    and "list_all (\<lambda>s. if b then is_identifier s else text_ok max_label_chars s) acc"
  shows "distinct ys \<and> length ys = length acc + length xs
    \<and> list_all (\<lambda>s. if b then is_identifier s else text_ok max_label_chars s) ys"
  using assms
proof (induction xs arbitrary: acc)
  case Nil
  then show ?case by simp
next
  case (Cons x xs)
  from Cons.prems(1) obtain t where t: "plan_text x (label @ '' item'') max_label_chars = Inr t"
    and loop: "plan_items_loop label b (acc @ [if b then casefold t else t]) xs = Inr ys"
    and new: "(if b then casefold t else t) \<notin> set acc" and "b \<longrightarrow> is_identifier (casefold t)"
    by (auto simp: res_simps Let_def split: if_splits)
  moreover have "text_ok max_label_chars t" using t by (auto simp: plan_text_Inr)
  ultimately show ?case using Cons.IH [OF loop] Cons.prems(2,3) by auto
qed

lemma plan_items_loop_strs:
  assumes "distinct (acc @ ys)"
    and "list_all (\<lambda>s. if b then is_identifier s else text_ok max_label_chars s) ys"
  shows "plan_items_loop label b acc (map PyStr ys) = Inr (acc @ ys)"
  using assms
proof (induction ys arbitrary: acc)
  case Nil
  then show ?case by simp
next
  case (Cons y ys)
  then have "text_ok max_label_chars y" by (auto simp: is_identifier_text_ok split: if_splits)
  with Cons show ?case by (cases b) auto
qed

lemma plan_items_idents: "plan_items v label True req = Inr ys \<Longrightarrow> idents_ok ys \<and> (req \<longrightarrow> ys \<noteq> [])"
  using plan_items_loop_ok [of label True "[]" _ ys]
  by (auto simp: plan_items_def idents_ok_def res_simps split: option.splits if_splits)

lemma plan_items_labels: "plan_items v label False req = Inr ys \<Longrightarrow> labels_ok ys \<and> (req \<longrightarrow> ys \<noteq> [])"
  using plan_items_loop_ok [of label False "[]" _ ys]
  by (auto simp: plan_items_def labels_ok_def res_simps split: option.splits if_splits)

lemma plan_items_of_idents [simp]:
  "idents_ok ys \<Longrightarrow> ys \<noteq> [] \<or> \<not> req \<Longrightarrow> plan_items (PyList (map PyStr ys)) label True req = Inr ys"
  using plan_items_loop_strs [of "[]" ys True label]
  by (auto simp: plan_items_def idents_ok_def)

lemma plan_items_of_labels [simp]:
  "labels_ok ys \<Longrightarrow> ys \<noteq> [] \<or> \<not> req \<Longrightarrow> plan_items (PyList (map PyStr ys)) label False req = Inr ys"
  using plan_items_loop_strs [of "[]" ys False label]
  by (auto simp: plan_items_def labels_ok_def)

lemma plan_probability_unit: "plan_probability v label = Inr q \<Longrightarrow> 0 \<le> q \<and> q \<le> 1 \<and> round6 q = q"
  by (auto simp: plan_probability_def Let_def round6_unit split: pyval.splits py_float.splits if_splits)

lemma plan_probability_PyFin [simp]:
  "0 \<le> q \<Longrightarrow> q \<le> 1 \<Longrightarrow> plan_probability (PyFloat (PyFin q t)) label = Inr (round6 q)"
  by (simp add: plan_probability_def)

lemmas field_ok = plan_identifier_ok plan_items_idents plan_items_labels

lemma parse_unit_ok:
  assumes "parse_unit allowed v = Inr u"
  shows "unit_ok u"
proof -
  from assms show ?thesis
    unfolding parse_unit_def
    apply (elim bind_res_InrE)
    apply (drule field_ok plan_text_ok | simp only: raise_if_Inr_iff de_Morgan_disj not_not)+
    apply (auto simp: unit_ok_def)
    done
qed

lemma check_dependencies_iff: "check_dependencies known us = Inr x \<longleftrightarrow> deps_ok known us"
  by (induction known us rule: deps_ok.induct) auto


subsection \<open>Parsing the hashed document gives the plan back\<close>

lemma json_value_strings [simp]: "json_value (json_strings xs) = PyList (map PyStr xs)"
  by (simp add: json_strings_def)

lemma plan_mapping_PyDict [simp]:
  "fst ` set d = set names \<Longrightarrow> plan_mapping (PyDict d) label names = Inr d"
  by (simp add: plan_mapping_Inr)

lemma enum_identifiers:
  "a \<in> set plan_artifacts \<Longrightarrow> is_identifier a"
  "l \<in> set plan_lifecycles \<Longrightarrow> is_identifier l"
  "au \<in> set plan_authorities \<Longrightarrow> is_identifier au"
  "m \<in> set plan_mutations \<Longrightarrow> is_identifier m"
  "p \<in> set plan_parallelization \<Longrightarrow> is_identifier p"
  by (auto simp: plan_artifacts_def plan_lifecycles_def plan_authorities_def plan_mutations_def
      plan_parallelization_def is_identifier_def ident_char_def is_alnum_def is_lower_def is_digit_def)

lemma fst_image_values [simp]: "fst ` (\<lambda>(k, v). (k, f v)) ` A = fst ` A"
  by (force simp: image_iff)

lemma parse_unit_payload:
  assumes "unit_ok u" and "unknown_domains allowed (unit_domains u) = []"
  shows "parse_unit allowed (json_value (unit_json u)) = Inr u"
proof -
  obtain kvs where kvs: "unit_json u = JObj kvs" and "fst ` set kvs = set unit_fields"
    by (simp add: unit_json_def unit_fields_def)
  then have fs: "plan_mapping (json_value (unit_json u)) ''work unit'' unit_fields
      = Inr (map (\<lambda>(k, v). (k, json_value v)) kvs)"
    by simp
  have get: "py_get (map (\<lambda>(k, v). (k, json_value v)) kvs) k
      = (case map_of kvs k of None \<Rightarrow> PyNone | Some j \<Rightarrow> json_value j)" for k
    by (induction kvs) (auto simp: py_get_def)
  show ?thesis
    unfolding parse_unit_def fs bind_res.simps get
    using assms kvs by (auto simp: unit_json_def unit_ok_def enum_identifiers)
qed

lemma unknown_domains_None [simp]: "unknown_domains None ds = []"
  by (simp add: unknown_domains_def)

lemma parse_unit_domains:
  "parse_unit allowed v = Inr u \<Longrightarrow> unknown_domains allowed (unit_domains u) = []"
  unfolding parse_unit_def by (elim bind_res_InrE) (auto simp: raise_if_Inr_iff)

lemma parse_plan_payload:
  assumes "plan_ok p" and "\<forall>u\<in>set (plan_units p). unknown_domains allowed (unit_domains u) = []"
  shows "parse_work_unit_plan allowed (json_value (plan_payload (request_summary p) (plan_units p))) = Inr p"
proof -
  have "map_res (parse_unit allowed) (map json_value (map unit_json (plan_units p))) = Inr (plan_units p)"
    using assms by (simp add: map_res_Inr_iff list_all2_map1 list_all2_same parse_unit_payload
        plan_ok_def units_ok_def list_all_iff)
  moreover have "check_dependencies {} (plan_units p) = Inr ()"
    using assms(1) by (simp add: check_dependencies_iff plan_ok_def units_ok_def)
  ultimately show ?thesis
    using assms(1)
    by (simp add: parse_work_unit_plan_def plan_payload_def plan_fields_def py_get_def plan_ok_def
        units_ok_def insert_commute)
qed

lemma parse_plan_ok:
  assumes "parse_work_unit_plan allowed v = Inr p"
  shows "plan_ok p \<and> (\<forall>u\<in>set (plan_units p). unknown_domains allowed (unit_domains u) = [])"
proof -
  from assms obtain raw xs summary us where
    xs: "xs \<noteq> []" "length xs \<le> max_work_units"
    and summary: "plan_text raw ''request_summary'' max_text_chars = Inr summary"
    and us: "map_res (parse_unit allowed) xs = Inr us"
    and ids: "distinct (map unit_id us)" and deps: "check_dependencies {} us = Inr ()"
    and p: "p = \<lparr>request_summary = summary, plan_units = us, plan_hash = plan_digest summary us\<rparr>"
    unfolding parse_work_unit_plan_def
    by (elim bind_res_InrE) (auto simp: raise_if_Inr_iff split: option.splits if_splits elim!: bind_res_InrE)
  have "us \<noteq> []" and "length us \<le> max_work_units"
    using map_res_length [OF us] xs by auto
  moreover have "unit_ok u \<and> unknown_domains allowed (unit_domains u) = []" if "u \<in> set us" for u
    using map_res_set [OF us that] parse_unit_ok parse_unit_domains by blast
  ultimately show ?thesis
    using summary ids deps
    by (auto simp: p plan_ok_def units_ok_def list_all_iff check_dependencies_iff plan_text_ok)
qed

lemma deps_ok_earlier:
  "deps_ok known us \<Longrightarrow> i < length us \<Longrightarrow> d \<in> set (depends_on (us ! i)) \<Longrightarrow>
     d \<in> known \<union> unit_id ` set (take i us)"
proof (induction us arbitrary: known i)
  case (Cons u us)
  show ?case
  proof (cases i)
    case 0
    with Cons.prems show ?thesis by auto
  next
    case (Suc j)
    with Cons.prems Cons.IH [of "insert (unit_id u) known" j] show ?thesis by auto
  qed
qed simp
end
