(* ===== verification/Recruit_Contracts.thy ===== *)
theory Recruit_Contracts
  imports Plan_Contracts
begin

text \<open>
  The second half of \<open>core/workforce/planning_contracts.py\<close>: the recruitment proposal, one
  row per work unit, with its rankings, shadow evidence and context bindings. A parsed proposal
  is bound to its plan: same hash, one row per unit, in the plan's order.
\<close>

section \<open>Records\<close>

record candidate_rank =
  rank_agent :: string
  rank_position :: int
  rank_score :: rat

record context_binding =
  ctx_agent :: string
  ctx_id :: string

record shadow_evidence =
  shadow_agent :: string
  shadow_rank :: int
  shadow_reasons :: "string list"
  shadow_fallback :: string
  shadow_tradeoff :: string

record unit_recruitment =
  row_unit :: string
  required :: "string list"
  acceptable :: "string list"
  forbidden :: "string list"
  selected :: "string list"
  runner_up :: "string list"
  ranked_semantic :: "candidate_rank list"
  ranked_enabled :: "candidate_rank list"
  ranked_executable :: "candidate_rank list"
  disabled_shadows :: "shadow_evidence list"
  unavailable_shadows :: "shadow_evidence list"
  row_contexts :: "context_binding list"
  confidence :: rat
  margin :: rat
  delivery :: string
  timing :: string
  row_abstention :: "string list"

record recruiter_proposal =
  proposal_plan_hash :: string
  proposal_fingerprint :: string
  proposal_count :: int
  proposal_generation :: int
  proposal_rows :: "unit_recruitment list"

definition proposal_fields :: "string list" where
  "proposal_fields = [''schema_version'', ''plan_hash'', ''roster_fingerprint'', ''roster_count'',
     ''roster_generation'', ''units'']"

definition row_fields :: "string list" where
  "row_fields = [''unit_id'', ''required'', ''acceptable'', ''forbidden'', ''selected'', ''runner_up'',
     ''ranked_semantic'', ''ranked_enabled'', ''ranked_executable'', ''disabled_shadows'',
     ''unavailable_shadows'', ''contexts'', ''confidence'', ''margin'', ''delivery'', ''timing'',
     ''abstention_reasons'']"


section \<open>Parsers\<close>

definition parse_rank :: "int \<Rightarrow> pyval \<Rightarrow> candidate_rank res" where
  "parse_rank expected_rank v =
     bind_res (plan_mapping v ''candidate rank'' [''agent_id'', ''rank'', ''score'']) (\<lambda>raw.
     bind_res (raise_if (\<not> py_int_eq (py_get raw ''rank'') expected_rank)
       (ValueError ''candidate ranks must be consecutive and ordered'')) (\<lambda>_.
     bind_res (plan_identifier (py_get raw ''agent_id'') ''rank agent_id'') (\<lambda>a.
     bind_res (plan_probability (py_get raw ''score'') ''rank score'') (\<lambda>s.
     Inr \<lparr>rank_agent = a, rank_position = expected_rank, rank_score = s\<rparr>))))"

fun parse_ranks_from :: "int \<Rightarrow> pyval list \<Rightarrow> candidate_rank list res" where
  "parse_ranks_from i [] = Inr []"
| "parse_ranks_from i (x # xs) =
     bind_res (parse_rank i x) (\<lambda>r. bind_res (parse_ranks_from (i + 1) xs) (\<lambda>rs. Inr (r # rs)))"

text \<open>\<open>any(left.score < right.score for left, right in pairwise(result))\<close>\<close>

fun scores_descend :: "rat list \<Rightarrow> bool" where
  "scores_descend (p # q # qs) = (q \<le> p \<and> scores_descend (q # qs))"
| "scores_descend _ = True"

definition parse_ranks :: "pyval \<Rightarrow> string \<Rightarrow> candidate_rank list res" where
  "parse_ranks v label = (case as_list v of
     None \<Rightarrow> Inl (ValueError (label @ '' must be a bounded list''))
   | Some xs \<Rightarrow>
       if length xs > max_items then Inl (ValueError (label @ '' must be a bounded list''))
       else bind_res (parse_ranks_from 1 xs) (\<lambda>result.
         bind_res (raise_if (\<not> distinct (map rank_agent result))
           (ValueError (label @ '' contains duplicate agents''))) (\<lambda>_.
         bind_res (raise_if (\<not> scores_descend (map rank_score result))
           (ValueError (label @ '' scores must be descending''))) (\<lambda>_.
         Inr result))))"

definition parse_context :: "pyval \<Rightarrow> context_binding res" where
  "parse_context v =
     bind_res (plan_mapping v ''context binding'' [''agent_id'', ''context_id'']) (\<lambda>raw.
     bind_res (plan_identifier (py_get raw ''agent_id'') ''context agent_id'') (\<lambda>a.
     bind_res (plan_identifier (py_get raw ''context_id'') ''context_id'') (\<lambda>c.
     Inr \<lparr>ctx_agent = a, ctx_id = c\<rparr>)))"

definition parse_shadow :: "pyval \<Rightarrow> shadow_evidence res" where
  "parse_shadow v =
     bind_res (plan_mapping v ''shadow evidence''
       [''agent_id'', ''rank'', ''reason_codes'', ''fallback_agent_id'', ''tradeoff'']) (\<lambda>raw.
     case as_int (py_get raw ''rank'') of
       None \<Rightarrow> Inl (ValueError ''shadow rank is invalid'')
     | Some r \<Rightarrow>
         bind_res (raise_if (r < 1) (ValueError ''shadow rank is invalid'')) (\<lambda>_.
         let fallback = casefold (strip (str_or_empty (py_get raw ''fallback_agent_id''))) in
         bind_res (raise_if (fallback \<noteq> [] \<and> \<not> is_identifier fallback)
           (ValueError ''shadow fallback agent is invalid'')) (\<lambda>_.
         bind_res (plan_identifier (py_get raw ''agent_id'') ''shadow agent_id'') (\<lambda>a.
         bind_res (plan_items (py_get raw ''reason_codes'') ''shadow reason_codes'' True True) (\<lambda>codes.
         bind_res (plan_text (py_get raw ''tradeoff'') ''shadow tradeoff'' 256) (\<lambda>why.
         Inr \<lparr>shadow_agent = a, shadow_rank = r, shadow_reasons = codes,
           shadow_fallback = fallback, shadow_tradeoff = why\<rparr>))))))"

definition parse_objects :: "pyval \<Rightarrow> (pyval \<Rightarrow> 'a res) \<Rightarrow> string \<Rightarrow> 'a list res" where
  "parse_objects v parser label = (case as_list v of
     None \<Rightarrow> Inl (ValueError (label @ '' must be a bounded list''))
   | Some xs \<Rightarrow>
       if length xs > max_items then Inl (ValueError (label @ '' must be a bounded list''))
       else map_res parser xs)"

definition parse_row :: "pyval \<Rightarrow> unit_recruitment res" where
  "parse_row v =
     bind_res (plan_mapping v ''unit recruitment'' row_fields) (\<lambda>raw.
     bind_res (plan_identifier (py_get raw ''unit_id'') ''unit_id'') (\<lambda>uid.
     bind_res (plan_identifier (py_get raw ''delivery'') ''delivery'') (\<lambda>del.
     bind_res (plan_identifier (py_get raw ''timing'') ''timing'') (\<lambda>tim.
     bind_res (raise_if (del \<notin> set plan_delivery \<or> tim \<notin> set plan_timing)
       (ValueError ''delivery or timing is invalid'')) (\<lambda>_.
     bind_res (plan_items (py_get raw ''required'') ''required'' True False) (\<lambda>req.
     bind_res (plan_items (py_get raw ''acceptable'') ''acceptable'' True False) (\<lambda>acc.
     bind_res (plan_items (py_get raw ''forbidden'') ''forbidden'' True False) (\<lambda>forb.
     bind_res (plan_items (py_get raw ''selected'') ''selected'' True False) (\<lambda>sel.
     bind_res (plan_items (py_get raw ''runner_up'') ''runner_up'' True False) (\<lambda>run.
     bind_res (parse_ranks (py_get raw ''ranked_semantic'') ''ranked_semantic'') (\<lambda>sem.
     bind_res (parse_ranks (py_get raw ''ranked_enabled'') ''ranked_enabled'') (\<lambda>ena.
     bind_res (parse_ranks (py_get raw ''ranked_executable'') ''ranked_executable'') (\<lambda>exe.
     bind_res (parse_objects (py_get raw ''disabled_shadows'') parse_shadow ''disabled_shadows'') (\<lambda>dis.
     bind_res (parse_objects (py_get raw ''unavailable_shadows'') parse_shadow ''unavailable_shadows'') (\<lambda>una.
     bind_res (parse_objects (py_get raw ''contexts'') parse_context ''contexts'') (\<lambda>ctx.
     bind_res (plan_probability (py_get raw ''confidence'') ''confidence'') (\<lambda>conf.
     bind_res (plan_probability (py_get raw ''margin'') ''margin'') (\<lambda>mar.
     bind_res (plan_items (py_get raw ''abstention_reasons'') ''abstention_reasons'' True False) (\<lambda>abs.
     Inr \<lparr>row_unit = uid, required = req, acceptable = acc, forbidden = forb, selected = sel,
       runner_up = run, ranked_semantic = sem, ranked_enabled = ena, ranked_executable = exe,
       disabled_shadows = dis, unavailable_shadows = una, row_contexts = ctx, confidence = conf,
       margin = mar, delivery = del, timing = tim, row_abstention = abs\<rparr>)))))))))))))))))))"

definition parse_recruiter_proposal :: "pyval \<Rightarrow> work_unit_plan \<Rightarrow> recruiter_proposal res" where
  "parse_recruiter_proposal v plan =
     bind_res (plan_mapping v ''recruiter proposal'' proposal_fields) (\<lambda>raw.
     bind_res (raise_if (\<not> py_int_eq (py_get raw ''schema_version'') recruitment_schema_version)
       (ValueError ''recruiter proposal schema_version is unsupported'')) (\<lambda>_.
     bind_res (raise_if (\<not> py_str_eq (py_get raw ''plan_hash'') (plan_hash plan))
       (ValueError ''recruiter proposal plan hash does not match'')) (\<lambda>_.
     let fingerprint = casefold (strip (str_or_empty (py_get raw ''roster_fingerprint''))) in
     bind_res (raise_if (\<not> is_digest fingerprint)
       (ValueError ''recruiter roster fingerprint is invalid'')) (\<lambda>_.
     case (as_int (py_get raw ''roster_count''), as_int (py_get raw ''roster_generation'')) of
       (Some count, Some generation) \<Rightarrow>
         if count < 0 \<or> generation < 0
         then Inl (ValueError ''recruiter roster count or generation is invalid'')
         else (case as_list (py_get raw ''units'') of
             None \<Rightarrow> Inl (ValueError ''recruiter proposal must contain one row per work unit'')
           | Some xs \<Rightarrow>
               if length xs \<noteq> length (plan_units plan)
               then Inl (ValueError ''recruiter proposal must contain one row per work unit'')
               else bind_res (map_res parse_row xs) (\<lambda>rows.
                 bind_res (raise_if (map row_unit rows \<noteq> map unit_id (plan_units plan))
                   (ValueError ''recruiter proposal unit order does not match plan'')) (\<lambda>_.
                 Inr \<lparr>proposal_plan_hash = plan_hash plan, proposal_fingerprint = fingerprint,
                   proposal_count = count, proposal_generation = generation,
                   proposal_rows = rows\<rparr>)))
     | _ \<Rightarrow> Inl (ValueError ''recruiter roster count or generation is invalid'')))))"


section \<open>What a parsed proposal satisfies\<close>

definition ranks_ok :: "candidate_rank list \<Rightarrow> bool" where
  "ranks_ok rs = (length rs \<le> max_items \<and> map rank_position rs = map int [1..<Suc (length rs)]
     \<and> distinct (map rank_agent rs) \<and> list_all (\<lambda>r. is_identifier (rank_agent r)
         \<and> 0 \<le> rank_score r \<and> rank_score r \<le> 1 \<and> round6 (rank_score r) = rank_score r) rs
     \<and> scores_descend (map rank_score rs))"

definition shadow_ok :: "shadow_evidence \<Rightarrow> bool" where
  "shadow_ok s = (is_identifier (shadow_agent s) \<and> 1 \<le> shadow_rank s \<and> idents_ok (shadow_reasons s)
     \<and> shadow_reasons s \<noteq> [] \<and> (shadow_fallback s = [] \<or> is_identifier (shadow_fallback s))
     \<and> text_ok 256 (shadow_tradeoff s))"

definition context_ok :: "context_binding \<Rightarrow> bool" where
  "context_ok c = (is_identifier (ctx_agent c) \<and> is_identifier (ctx_id c))"

definition row_ok :: "unit_recruitment \<Rightarrow> bool" where
  "row_ok r = (is_identifier (row_unit r) \<and> idents_ok (required r) \<and> idents_ok (acceptable r)
     \<and> idents_ok (forbidden r) \<and> idents_ok (selected r) \<and> idents_ok (runner_up r)
     \<and> ranks_ok (ranked_semantic r) \<and> ranks_ok (ranked_enabled r) \<and> ranks_ok (ranked_executable r)
     \<and> length (disabled_shadows r) \<le> max_items \<and> list_all shadow_ok (disabled_shadows r)
     \<and> length (unavailable_shadows r) \<le> max_items \<and> list_all shadow_ok (unavailable_shadows r)
     \<and> length (row_contexts r) \<le> max_items \<and> list_all context_ok (row_contexts r)
     \<and> 0 \<le> confidence r \<and> confidence r \<le> 1 \<and> round6 (confidence r) = confidence r
     \<and> 0 \<le> margin r \<and> margin r \<le> 1 \<and> round6 (margin r) = margin r
     \<and> delivery r \<in> set plan_delivery \<and> timing r \<in> set plan_timing \<and> idents_ok (row_abstention r))"

definition proposal_ok :: "work_unit_plan \<Rightarrow> recruiter_proposal \<Rightarrow> bool" where
  "proposal_ok plan p = (proposal_plan_hash p = plan_hash plan \<and> is_digest (proposal_fingerprint p)
     \<and> 0 \<le> proposal_count p \<and> 0 \<le> proposal_generation p
     \<and> map row_unit (proposal_rows p) = map unit_id (plan_units plan)
     \<and> list_all row_ok (proposal_rows p))"

lemma parse_ranks_from_ok:
  "parse_ranks_from i xs = Inr rs \<Longrightarrow> length rs = length xs
     \<and> map rank_position rs = map (\<lambda>k. i + int k) [0..<length rs]
     \<and> list_all (\<lambda>r. is_identifier (rank_agent r)
         \<and> 0 \<le> rank_score r \<and> rank_score r \<le> 1 \<and> round6 (rank_score r) = rank_score r) rs"
proof (induction i xs arbitrary: rs rule: parse_ranks_from.induct)
  case (2 i x xs)
  then obtain r rs' where r: "parse_rank i x = Inr r" and rs': "parse_ranks_from (i + 1) xs = Inr rs'"
    and rs: "rs = r # rs'"
    by (auto simp: res_simps)
  have "rank_position r = i" and "is_identifier (rank_agent r)" and
    "0 \<le> rank_score r \<and> rank_score r \<le> 1 \<and> round6 (rank_score r) = rank_score r"
    using r unfolding parse_rank_def
    by (auto elim!: bind_res_InrE dest!: plan_identifier_ok plan_probability_unit)
  moreover have "map (\<lambda>k. i + int k) [0..<Suc n] = i # map (\<lambda>k. i + 1 + int k) [0..<n]" for n
    by (simp add: map_upt_Suc add.assoc del: upt_Suc)
  ultimately show ?case using "2.IH" [OF r rs'] by (simp add: rs del: upt_Suc)
qed simp

lemma parse_ranks_ok: "parse_ranks v label = Inr rs \<Longrightarrow> ranks_ok rs"
proof -
  assume "parse_ranks v label = Inr rs"
  then obtain xs where xs: "parse_ranks_from 1 xs = Inr rs" "length xs \<le> max_items"
    and rs: "distinct (map rank_agent rs)" "scores_descend (map rank_score rs)"
    by (auto simp: parse_ranks_def res_simps split: option.splits if_splits)
  moreover have "map (\<lambda>k. 1 + int k) [0..<n] = map int [1..<Suc n]" for n
    by (simp add: map_Suc_upt [symmetric] del: upt_Suc)
  ultimately show ?thesis using parse_ranks_from_ok [OF xs(1)] by (simp add: ranks_ok_def del: upt_Suc)
qed

lemma parse_shadow_ok: "parse_shadow v = Inr s \<Longrightarrow> shadow_ok s"
  unfolding parse_shadow_def shadow_ok_def Let_def
  by (auto simp: raise_if_Inr_iff split: option.splits elim!: bind_res_InrE
      dest!: plan_identifier_ok plan_items_idents plan_text_ok)

lemma parse_context_ok: "parse_context v = Inr c \<Longrightarrow> context_ok c"
  unfolding parse_context_def context_ok_def
  by (auto elim!: bind_res_InrE dest!: plan_identifier_ok)

lemma parse_objects_ok:
  assumes "parse_objects v parser label = Inr ys" and "\<And>x y. parser x = Inr y \<Longrightarrow> P y"
  shows "length ys \<le> max_items \<and> list_all P ys"
  using assms
  by (auto simp: parse_objects_def list_all_iff split: option.splits if_splits
      dest: map_res_length map_res_set)

lemmas shadows_ok = parse_objects_ok [where parser = parse_shadow and P = shadow_ok, OF _ parse_shadow_ok]
lemmas contexts_ok = parse_objects_ok [where parser = parse_context and P = context_ok, OF _ parse_context_ok]

lemma parse_row_ok:
  assumes "parse_row v = Inr r"
  shows "row_ok r"
proof -
  from assms show ?thesis
    unfolding parse_row_def
    apply (elim bind_res_InrE)
    apply (drule plan_identifier_ok plan_items_idents parse_ranks_ok shadows_ok contexts_ok
        plan_probability_unit | simp only: raise_if_Inr_iff de_Morgan_disj not_not)+
    apply (auto simp: row_ok_def)
    done
qed

lemma parse_proposal_ok:
  assumes "parse_recruiter_proposal v plan = Inr p"
  shows "proposal_ok plan p"
proof -
  from assms obtain xs rows fingerprint count generation where
    "is_digest fingerprint" "0 \<le> count" "0 \<le> generation"
    and rows: "map_res parse_row xs = Inr rows" "map row_unit rows = map unit_id (plan_units plan)"
    and "p = \<lparr>proposal_plan_hash = plan_hash plan, proposal_fingerprint = fingerprint,
       proposal_count = count, proposal_generation = generation, proposal_rows = rows\<rparr>"
    unfolding parse_recruiter_proposal_def Let_def
    by (auto simp: raise_if_Inr_iff not_less split: option.splits if_splits elim!: bind_res_InrE)
  moreover have "list_all row_ok rows"
    using map_res_set [OF rows(1)] parse_row_ok by (auto simp: list_all_iff)
  ultimately show ?thesis by (simp add: proposal_ok_def)
qed


section \<open>A proposal parses back from its dictionary\<close>

text \<open>The dictionaries callers build for a proposal. The parser never looks at the text of a
  float, so that text is left open.\<close>

definition rank_value :: "(rat \<Rightarrow> string) \<Rightarrow> candidate_rank \<Rightarrow> pyval" where
  "rank_value text r = PyDict [(''agent_id'', PyStr (rank_agent r)), (''rank'', PyInt (rank_position r)),
     (''score'', PyFloat (PyFin (rank_score r) (text (rank_score r))))]"

definition context_value :: "context_binding \<Rightarrow> pyval" where
  "context_value b = PyDict [(''agent_id'', PyStr (ctx_agent b)), (''context_id'', PyStr (ctx_id b))]"

definition strs :: "string list \<Rightarrow> pyval" where
  "strs xs = PyList (map PyStr xs)"

definition shadow_value :: "shadow_evidence \<Rightarrow> pyval" where
  "shadow_value s = PyDict [(''agent_id'', PyStr (shadow_agent s)), (''rank'', PyInt (shadow_rank s)),
     (''reason_codes'', strs (shadow_reasons s)), (''fallback_agent_id'', PyStr (shadow_fallback s)),
     (''tradeoff'', PyStr (shadow_tradeoff s))]"

definition row_value :: "(rat \<Rightarrow> string) \<Rightarrow> unit_recruitment \<Rightarrow> pyval" where
  "row_value text r = PyDict
     [(''unit_id'', PyStr (row_unit r)), (''required'', strs (required r)),
      (''acceptable'', strs (acceptable r)), (''forbidden'', strs (forbidden r)),
      (''selected'', strs (selected r)), (''runner_up'', strs (runner_up r)),
      (''ranked_semantic'', PyList (map (rank_value text) (ranked_semantic r))),
      (''ranked_enabled'', PyList (map (rank_value text) (ranked_enabled r))),
      (''ranked_executable'', PyList (map (rank_value text) (ranked_executable r))),
      (''disabled_shadows'', PyList (map shadow_value (disabled_shadows r))),
      (''unavailable_shadows'', PyList (map shadow_value (unavailable_shadows r))),
      (''contexts'', PyList (map context_value (row_contexts r))),
      (''confidence'', PyFloat (PyFin (confidence r) (text (confidence r)))),
      (''margin'', PyFloat (PyFin (margin r) (text (margin r)))),
      (''delivery'', PyStr (delivery r)), (''timing'', PyStr (timing r)),
      (''abstention_reasons'', strs (row_abstention r))]"

definition proposal_value :: "(rat \<Rightarrow> string) \<Rightarrow> recruiter_proposal \<Rightarrow> pyval" where
  "proposal_value text p = PyDict
     [(''schema_version'', PyInt recruitment_schema_version), (''plan_hash'', PyStr (proposal_plan_hash p)),
      (''roster_fingerprint'', PyStr (proposal_fingerprint p)), (''roster_count'', PyInt (proposal_count p)),
      (''roster_generation'', PyInt (proposal_generation p)),
      (''units'', PyList (map (row_value text) (proposal_rows p)))]"

lemma parse_rank_value:
  "is_identifier (rank_agent r) \<Longrightarrow> 0 \<le> rank_score r \<Longrightarrow> rank_score r \<le> 1 \<Longrightarrow>
     round6 (rank_score r) = rank_score r \<Longrightarrow> rank_position r = i \<Longrightarrow>
     parse_rank i (rank_value text r) = Inr r"
  by (simp add: parse_rank_def rank_value_def py_get_def)

lemma parse_ranks_from_value:
  "map rank_position rs = map (\<lambda>k. i + int k) [0..<length rs] \<Longrightarrow>
   list_all (\<lambda>r. is_identifier (rank_agent r) \<and> 0 \<le> rank_score r \<and> rank_score r \<le> 1
         \<and> round6 (rank_score r) = rank_score r) rs \<Longrightarrow>
     parse_ranks_from i (map (rank_value text) rs) = Inr rs"
proof (induction rs arbitrary: i)
  case (Cons r rs)
  have "map (\<lambda>k. i + int k) [0..<Suc (length rs)] = i # map (\<lambda>k. i + 1 + int k) [0..<length rs]"
    by (simp add: map_upt_Suc add.assoc del: upt_Suc)
  with Cons.prems(1) have "rank_position r = i"
    and "map rank_position rs = map (\<lambda>k. (i + 1) + int k) [0..<length rs]"
    by (simp_all del: upt_Suc)
  with Cons show ?case by (simp add: parse_rank_value)
qed simp

lemma parse_ranks_value:
  assumes "ranks_ok rs"
  shows "parse_ranks (PyList (map (rank_value text) rs)) label = Inr rs"
proof -
  have "map (\<lambda>k. 1 + int k) [0..<n] = map int [1..<Suc n]" for n
    by (simp add: map_Suc_upt [symmetric] del: upt_Suc)
  then have "parse_ranks_from 1 (map (rank_value text) rs) = Inr rs"
    using assms by (intro parse_ranks_from_value) (simp_all add: ranks_ok_def del: upt_Suc)
  with assms show ?thesis by (simp add: parse_ranks_def ranks_ok_def)
qed

lemma parse_context_value: "context_ok b \<Longrightarrow> parse_context (context_value b) = Inr b"
  by (simp add: parse_context_def context_value_def context_ok_def py_get_def)

lemma parse_shadow_value: "shadow_ok s \<Longrightarrow> parse_shadow (shadow_value s) = Inr s"
  by (auto simp: parse_shadow_def shadow_value_def shadow_ok_def py_get_def strs_def Let_def)

lemma parse_objects_value:
  assumes "list_all P xs" and "\<And>x. P x \<Longrightarrow> parser (f x) = Inr x" and "length xs \<le> max_items"
  shows "parse_objects (PyList (map f xs)) parser label = Inr xs"
  using assms
  by (simp add: parse_objects_def map_res_Inr_iff list_all2_map1 list_all2_same list_all_iff)

lemma enum_identifiers':
  "d \<in> set plan_delivery \<Longrightarrow> is_identifier d" "t \<in> set plan_timing \<Longrightarrow> is_identifier t"
  by (auto simp: plan_delivery_def plan_timing_def is_identifier_def ident_char_def is_alnum_def
      is_lower_def is_digit_def)

lemma parse_row_value:
  assumes "row_ok r"
  shows "parse_row (row_value text r) = Inr r"
proof -
  obtain kvs where kvs: "row_value text r = PyDict kvs" and keys: "fst ` set kvs = set row_fields"
    by (simp add: row_value_def row_fields_def insert_commute)
  have get: "py_get kvs k = (case map_of kvs k of None \<Rightarrow> PyNone | Some v \<Rightarrow> v)" for k
    by (simp add: py_get_def)
  have "parse_objects (PyList (map shadow_value (disabled_shadows r))) parse_shadow ''disabled_shadows'' = Inr (disabled_shadows r)"
    "parse_objects (PyList (map shadow_value (unavailable_shadows r))) parse_shadow ''unavailable_shadows'' = Inr (unavailable_shadows r)"
    "parse_objects (PyList (map context_value (row_contexts r))) parse_context ''contexts'' = Inr (row_contexts r)"
    using assms parse_shadow_value parse_context_value
    by (auto simp: row_ok_def intro!: parse_objects_value)
  moreover have fs: "plan_mapping (row_value text r) ''unit recruitment'' row_fields = Inr kvs"
    using kvs keys by simp
  ultimately show ?thesis
    unfolding parse_row_def fs bind_res.simps get
    using assms kvs by (auto simp: row_value_def row_ok_def parse_ranks_value strs_def enum_identifiers')
qed

lemma is_digest_stable:
  assumes "is_digest s"
  shows "casefold s = s" and "strip s = s" and "s \<noteq> []"
proof -
  have "list_all ident_char (take 7 s)" and "list_all is_hex (drop 7 s)"
    using assms by (auto simp: is_digest_def ident_char_def is_alnum_def is_lower_def is_digit_def)
  moreover have "is_hex c \<Longrightarrow> ident_char c" for c
    by (auto simp: is_hex_def ident_char_def is_alnum_def is_lower_def is_digit_def Let_def)
  ultimately have "list_all ident_char (take 7 s @ drop 7 s)"
    by (auto simp: list_all_iff simp del: append_take_drop_id)
  then have chars: "list_all ident_char s" by simp
  then show "casefold s = s" by (rule casefold_chars)
  show "strip s = s" using chars by (intro strip_word) (auto simp: list_all_iff)
  show "s \<noteq> []" using assms by (auto simp: is_digest_def)
qed

lemma parse_proposal_value:
  assumes "proposal_ok plan p"
  shows "parse_recruiter_proposal (proposal_value text p) plan = Inr p"
proof -
  have rows: "map_res parse_row (map (row_value text) (proposal_rows p)) = Inr (proposal_rows p)"
    using assms by (simp add: proposal_ok_def map_res_Inr_iff list_all2_map1 list_all2_same list_all_iff
        parse_row_value)
  have "length (proposal_rows p) = length (plan_units plan)"
    using assms by (metis proposal_ok_def length_map)
  moreover have digest: "is_digest (proposal_fingerprint p)" using assms by (simp add: proposal_ok_def)
  ultimately show ?thesis
    using assms rows
    by (simp add: parse_recruiter_proposal_def proposal_value_def proposal_fields_def py_get_def
        proposal_ok_def is_digest_stable [OF digest] insert_commute Let_def)
qed

end
