(* ===== verification/Capability_Ontology.thy ===== *)
theory Capability_Ontology
  imports Py_Value
begin

text \<open>
  \<open>core/workforce/capability_ontology.py\<close>, the controlled capability vocabulary, and the host
  equivalence of \<open>core/host_capabilities.py\<close> that eligibility expands through.
\<close>

section \<open>Capabilities\<close>

definition max_capability_ids :: nat where "max_capability_ids = 12"

definition core_capability_ids :: "string list" where
  "core_capability_ids = [''advice'', ''analysis'', ''architecture'', ''audit'', ''automation'',
     ''coaching'', ''communication'', ''coordination'', ''data-analysis'', ''design'',
     ''documentation'', ''generation-preparation'', ''governance'', ''ideation'',
     ''implementation'', ''investigation'', ''operations'', ''planning'', ''research'', ''review'',
     ''risk-analysis'', ''routing'', ''simulation'', ''testing'', ''threat-modeling'',
     ''translation'', ''verification'']"

definition capability_aliases :: "(string \<times> string) list" where
  "capability_aliases = [(''implementation-change'', ''implementation''),
     (''review-report'', ''review''), (''test-code'', ''testing''), (''test-evidence'', ''testing''),
     (''writing'', ''documentation'')]"

definition artifact_capabilities :: "(string \<times> string) list" where
  "artifact_capabilities = [(''analysis'', ''analysis''), (''architecture-record'', ''architecture''),
     (''documentation'', ''documentation''), (''implementation-change'', ''implementation''),
     (''plan'', ''planning''), (''review-report'', ''review''), (''test-code'', ''testing''),
     (''test-evidence'', ''testing'')]"

definition is_capability_id :: "string \<Rightarrow> bool" where
  "is_capability_id s = (case s of [] \<Rightarrow> False
     | c # cs \<Rightarrow> is_alnum c \<and> list_all (\<lambda>d. is_alnum d \<or> d = CHR ''-'') cs \<and> length cs \<le> 127)"

text \<open>\<open>d.get(k, default)\<close> on a dictionary of strings\<close>

definition get_or :: "(string \<times> 'a) list \<Rightarrow> string \<Rightarrow> 'a \<Rightarrow> 'a" where
  "get_or d k dflt = (case map_of d k of None \<Rightarrow> dflt | Some v \<Rightarrow> v)"

definition normalize_capability_id :: "pyval \<Rightarrow> string res" where
  "normalize_capability_id v =
     (let text = replace_char (CHR ''_'') (CHR ''-'') (casefold (strip (str_or_empty v)));
          capability = get_or capability_aliases text text
      in if is_capability_id capability then Inr capability
         else Inl (ValueError ''workforce capability id must be a normalized identifier''))"

definition add_new :: "'a \<Rightarrow> 'a list \<Rightarrow> 'a list" where
  "add_new x xs = (if x \<in> set xs then xs else xs @ [x])"

fun add_normalized :: "string list \<Rightarrow> pyval list \<Rightarrow> string list res" where
  "add_normalized result [] = Inr result"
| "add_normalized result (raw # rest) =
     bind_res (normalize_capability_id raw) (\<lambda>item. add_normalized (add_new item result) rest)"

definition add_artifact_defaults :: "string list \<Rightarrow> string list \<Rightarrow> string list" where
  "add_artifact_defaults artifact_kinds result = fold (\<lambda>artifact result.
     case map_of artifact_capabilities (casefold artifact) of
       None \<Rightarrow> result | Some item \<Rightarrow> add_new item result) artifact_kinds result"

definition add_archetype_default :: "string \<Rightarrow> string list \<Rightarrow> string list" where
  "add_archetype_default archetype result =
     (if archetype = ''writer'' then add_new ''documentation'' result
      else if archetype = ''tester'' then add_new ''testing'' result
      else if archetype = ''resident-manager'' then add_new ''coordination'' result
      else result)"

definition normalize_capability_ids :: "pyval \<Rightarrow> string list \<Rightarrow> string \<Rightarrow> string list res" where
  "normalize_capability_ids values artifact_kinds archetype =
     (case (if values = PyNone then Some [] else as_sequence values) of
        None \<Rightarrow> Inl (ValueError ''workforce capability ids must be a sequence'')
      | Some raws \<Rightarrow>
          bind_res (add_normalized [] raws) (\<lambda>named.
          let result = add_archetype_default archetype (add_artifact_defaults artifact_kinds named) in
          if result = [] \<or> length result > max_capability_ids
          then Inl (ValueError (''workforce capability ids must contain 1..''
                 @ show_nat max_capability_ids @ '' values''))
          else Inr result))"

definition artifact_capability :: "string \<Rightarrow> string res" where
  "artifact_capability kind = (case map_of artifact_capabilities kind of
     None \<Rightarrow> Inl (ValueError ''unsupported artifact capability'') | Some c \<Rightarrow> Inr c)"

lemma set_add_new [simp]: "set (add_new x xs) = insert x (set xs)"
  by (auto simp: add_new_def)

lemma distinct_add_new [simp]: "distinct xs \<Longrightarrow> distinct (add_new x xs)"
  by (simp add: add_new_def)

lemma artifact_capabilities_ids: "map_of artifact_capabilities k = Some c \<Longrightarrow> is_capability_id c"
  by (auto simp: artifact_capabilities_def is_capability_id_def is_alnum_def is_lower_def
      is_digit_def split: if_splits)

lemma add_normalized_ok:
  "add_normalized acc raws = Inr ys \<Longrightarrow> distinct acc \<Longrightarrow> list_all is_capability_id acc \<Longrightarrow>
     distinct ys \<and> list_all is_capability_id ys \<and> set acc \<subseteq> set ys"
proof (induction acc raws rule: add_normalized.induct)
  case (2 acc raw rest)
  then obtain item where item: "normalize_capability_id raw = Inr item"
    and rest: "add_normalized (add_new item acc) rest = Inr ys"
    by (auto simp: res_simps)
  have "is_capability_id item"
    using item by (auto simp: normalize_capability_id_def Let_def split: if_splits)
  then have "list_all is_capability_id (add_new item acc)"
    using "2.prems"(3) by (auto simp: list_all_iff)
  then show ?case using "2.IH" [OF item rest] "2.prems"(2) by auto
qed simp

lemma add_artifact_defaults_ok:
  "distinct result \<Longrightarrow> list_all is_capability_id result \<Longrightarrow>
     distinct (add_artifact_defaults kinds result)
     \<and> list_all is_capability_id (add_artifact_defaults kinds result)
     \<and> set result \<subseteq> set (add_artifact_defaults kinds result)
     \<and> (\<forall>k\<in>set kinds. \<forall>c. map_of artifact_capabilities (casefold k) = Some c
          \<longrightarrow> c \<in> set (add_artifact_defaults kinds result))"
proof (induction kinds arbitrary: result)
  case Nil
  then show ?case by (simp add: add_artifact_defaults_def)
next
  case (Cons k kinds)
  show ?case
  proof (cases "map_of artifact_capabilities (casefold k)")
    case None
    then have "add_artifact_defaults (k # kinds) result = add_artifact_defaults kinds result"
      by (simp add: add_artifact_defaults_def)
    with None Cons.IH [OF Cons.prems] show ?thesis by simp
  next
    case (Some c)
    then have eq: "add_artifact_defaults (k # kinds) result
        = add_artifact_defaults kinds (add_new c result)"
      by (simp add: add_artifact_defaults_def)
    have "list_all is_capability_id (add_new c result)"
      using Cons.prems(2) artifact_capabilities_ids [OF Some] by (auto simp: list_all_iff)
    with Some Cons.IH [of "add_new c result"] Cons.prems(1) show ?thesis by (auto simp: eq)
  qed
qed


section \<open>Host equivalence\<close>

definition host_compatible :: "(string \<times> string list) list" where
  "host_compatible = [(''codex'', [''zcode'']), (''claude'', [''zcode'']),
     (''zcode'', [''codex'', ''claude''])]"

definition expand_compatible_hosts :: "string list \<Rightarrow> string set" where
  "expand_compatible_hosts hosts = set hosts \<union> (\<Union>h\<in>set hosts. set (get_or host_compatible h []))"

lemma expand_compatible_hosts_mono: "set xs \<subseteq> set ys \<Longrightarrow> expand_compatible_hosts xs \<subseteq> expand_compatible_hosts ys"
  by (auto simp: expand_compatible_hosts_def)

lemma expand_compatible_hosts_zcode:
  "''zcode'' \<in> expand_compatible_hosts hosts \<longleftrightarrow>
     ''zcode'' \<in> set hosts \<or> ''codex'' \<in> set hosts \<or> ''claude'' \<in> set hosts"
proof -
  have "''zcode'' \<in> set (get_or host_compatible h []) \<longleftrightarrow> h = ''codex'' \<or> h = ''claude''" for h
    by (simp add: get_or_def host_compatible_def)
  then have "(\<exists>h\<in>set hosts. ''zcode'' \<in> set (get_or host_compatible h []))
      \<longleftrightarrow> ''codex'' \<in> set hosts \<or> ''claude'' \<in> set hosts"
    by metis
  then show ?thesis by (simp only: expand_compatible_hosts_def Un_iff UN_iff)
qed

end
