(* ===== verification/Roster_Contract.thy ===== *)
theory Roster_Contract
  imports Capability_Ontology Sha256 "HOL-Library.Product_Lexorder" "HOL-Library.Multiset"
begin

text \<open>
  The immutable recruitment contracts of \<open>core/workforce/contract.py\<close> and the validation and
  digest of a whole workforce index. The lemmas show what a valid index satisfies and that its
  fingerprint does not depend on the order of the contracts.
\<close>

section \<open>Contracts\<close>

definition contract_schema_version :: string where "contract_schema_version = ''2''"

record composition_contract =
  substitution_group :: string
  substitutes_for :: "string list"
  complements :: "string list"
  same_context_conflicts :: "string list"
  selection_exclusive :: "string list"
  requires_agents :: "string list"
  must_follow :: "string list"
  must_review_independently :: "string list"
  independence_class :: string

record audit_contract =
  audit_status :: string
  audit_revision :: string
  contract_valid :: bool

record workforce_contract =
  contract_schema :: string
  worker_id :: string
  agent_id :: string
  display_name :: string
  archetype :: string
  outcomes :: "string list"
  capability_ids :: "string list"
  artifact_kinds :: "string list"
  lifecycle_phases :: "string list"
  domains :: "string list"
  stacks :: "string list"
  scope_qualifiers :: "string list"
  not_for :: "string list"
  authority :: string
  context_mode :: string
  tool_classes :: "string list"
  hosts :: "string list"
  platforms :: "string list"
  composition :: composition_contract
  audit :: audit_contract
  version :: string
  version_hash :: string
  enabled :: bool
  employment :: string
  origin :: string


section \<open>Canonical form and fingerprint\<close>

definition strings_json :: "string list \<Rightarrow> json" where
  "strings_json xs = JArr (map JStr xs)"

definition composition_json :: "composition_contract \<Rightarrow> json" where
  "composition_json c = JObj
     [(''substitution_group'', JStr (substitution_group c)),
      (''substitutes_for'', strings_json (substitutes_for c)),
      (''complements'', strings_json (complements c)),
      (''same_context_conflicts'', strings_json (same_context_conflicts c)),
      (''selection_exclusive'', strings_json (selection_exclusive c)),
      (''requires'', strings_json (requires_agents c)),
      (''must_follow'', strings_json (must_follow c)),
      (''must_review_independently'', strings_json (must_review_independently c)),
      (''independence_class'', JStr (independence_class c))]"

definition audit_json :: "audit_contract \<Rightarrow> json" where
  "audit_json a = JObj [(''status'', JStr (audit_status a)), (''revision'', JStr (audit_revision a)),
     (''contract_valid'', JBool (contract_valid a))]"

text \<open>\<open>WorkforceContract.to_dict\<close>\<close>

definition contract_json :: "workforce_contract \<Rightarrow> json" where
  "contract_json c = JObj
     [(''schema_version'', JStr (contract_schema c)), (''worker_id'', JStr (worker_id c)),
      (''agent_id'', JStr (agent_id c)), (''display_name'', JStr (display_name c)),
      (''archetype'', JStr (archetype c)), (''outcomes'', strings_json (outcomes c)),
      (''capability_ids'', strings_json (capability_ids c)),
      (''artifact_kinds'', strings_json (artifact_kinds c)),
      (''lifecycle_phases'', strings_json (lifecycle_phases c)),
      (''domains'', strings_json (domains c)), (''stacks'', strings_json (stacks c)),
      (''scope_qualifiers'', strings_json (scope_qualifiers c)),
      (''not_for'', strings_json (not_for c)), (''authority'', JStr (authority c)),
      (''context_mode'', JStr (context_mode c)), (''tool_classes'', strings_json (tool_classes c)),
      (''hosts'', strings_json (hosts c)), (''platforms'', strings_json (platforms c)),
      (''composition'', composition_json (composition c)), (''audit'', audit_json (audit c)),
      (''version'', JStr (version c)), (''version_hash'', JStr (version_hash c)),
      (''enabled'', JBool (enabled c)), (''employment'', JStr (employment c)),
      (''origin'', JStr (origin c))]"

definition canonical_json :: "workforce_contract \<Rightarrow> string" where
  "canonical_json c = utf8 (json_dumps (contract_json c))"

text \<open>\<open>COMPOSITION_RELATIONSHIP_FIELDS\<close> with the targets each field holds.\<close>

definition relationship_fields :: "composition_contract \<Rightarrow> (string \<times> string list) list" where
  "relationship_fields r =
     [(''substitutes_for'', substitutes_for r), (''complements'', complements r),
      (''same_context_conflicts'', same_context_conflicts r),
      (''selection_exclusive'', selection_exclusive r), (''requires'', requires_agents r),
      (''must_follow'', must_follow r), (''must_review_independently'', must_review_independently r)]"

fun check_relationships :: "string \<Rightarrow> string set \<Rightarrow> (string \<times> string list) list \<Rightarrow> unit res" where
  "check_relationships self known [] = Inr ()"
| "check_relationships self known ((field, targets) # rest) =
     (if self \<in> set targets
      then Inl (ValueError (''workforce '' @ field @ '' relationship cannot target self''))
      else if \<not> set targets \<subseteq> known
      then Inl (ValueError (''workforce '' @ field @ '' relationship targets unknown agents''))
      else check_relationships self known rest)"

fun check_contracts :: "string set \<Rightarrow> workforce_contract list \<Rightarrow> unit res" where
  "check_contracts known [] = Inr ()"
| "check_contracts known (c # cs) =
     (if contract_schema c \<noteq> contract_schema_version
      then Inl (ValueError ''workforce index contains an unsupported schema version'')
      else bind_res (check_relationships (agent_id c) known (relationship_fields (composition c)))
        (\<lambda>_. check_contracts known cs))"

definition workforce_index_fingerprint :: "workforce_contract list \<Rightarrow> string res" where
  "workforce_index_fingerprint contracts =
     (let ordered = sort_key (\<lambda>c. (worker_id c, agent_id c)) contracts in
      if \<not> distinct (map worker_id ordered)
      then Inl (ValueError ''workforce index contains duplicate worker ids'')
      else if \<not> distinct (map agent_id ordered)
      then Inl (ValueError ''workforce index contains duplicate agent ids'')
      else bind_res (check_contracts (set (map agent_id ordered)) ordered) (\<lambda>_.
        Inr (''sha256:'' @ sha256_hex (''['' @ join '','' (map canonical_json ordered) @ '']''))))"


section \<open>Valid indexes\<close>

definition index_ok :: "workforce_contract list \<Rightarrow> bool" where
  "index_ok contracts = (distinct (map worker_id contracts) \<and> distinct (map agent_id contracts)
     \<and> (\<forall>c\<in>set contracts. contract_schema c = contract_schema_version
         \<and> (\<forall>(field, targets)\<in>set (relationship_fields (composition c)).
               agent_id c \<notin> set targets \<and> set targets \<subseteq> agent_id ` set contracts)))"

lemma check_relationships_iff:
  "check_relationships self known fs = Inr x \<longleftrightarrow>
     (\<forall>(field, targets)\<in>set fs. self \<notin> set targets \<and> set targets \<subseteq> known)"
  by (induction self known fs rule: check_relationships.induct) auto

lemma check_contracts_iff:
  "check_contracts known cs = Inr x \<longleftrightarrow> (\<forall>c\<in>set cs. contract_schema c = contract_schema_version
     \<and> (\<forall>(field, targets)\<in>set (relationship_fields (composition c)).
           agent_id c \<notin> set targets \<and> set targets \<subseteq> known))"
proof (induction known cs rule: check_contracts.induct)
  case (2 known c cs)
  then show ?case
    by (cases "contract_schema c = contract_schema_version")
      (simp_all add: res_simps check_relationships_iff, blast)
qed simp

lemma distinct_map_sort_key [simp]: "distinct (map f (sort_key k xs)) \<longleftrightarrow> distinct (map f xs)"
  by (metis mset_map mset_sort mset_eq_imp_distinct_iff)

lemma fingerprint_Inr_iff:
  "workforce_index_fingerprint contracts = Inr fp \<longleftrightarrow> index_ok contracts
     \<and> fp = ''sha256:'' @ sha256_hex (''['' @ join '',''
          (map canonical_json (sort_key (\<lambda>c. (worker_id c, agent_id c)) contracts)) @ '']'')"
  by (auto simp: workforce_index_fingerprint_def index_ok_def Let_def res_simps check_contracts_iff)

lemma index_ok_targets:
  assumes "index_ok contracts" and "c \<in> set contracts" and "t \<in> set targets"
    and "(field, targets) \<in> set (relationship_fields (composition c))"
  shows "t \<noteq> agent_id c" and "t \<in> agent_id ` set contracts"
  using assms by (fastforce simp: index_ok_def)+

lemma fingerprint_perm:
  assumes "mset xs = mset ys"
  shows "workforce_index_fingerprint xs = workforce_index_fingerprint ys"
proof (cases "distinct (map agent_id xs)")
  case True
  then have "inj_on (\<lambda>c. (worker_id c, agent_id c)) (set xs)"
    by (auto simp: distinct_map inj_on_def)
  then have "sort_key (\<lambda>c. (worker_id c, agent_id c)) xs = sort_key (\<lambda>c. (worker_id c, agent_id c)) ys"
    by (intro sort_key_inj_key_eq) (simp_all add: assms)
  then show ?thesis by (simp add: workforce_index_fingerprint_def)
next
  case False
  moreover have "distinct (map f xs) \<longleftrightarrow> distinct (map f ys)" for f :: "workforce_contract \<Rightarrow> string"
    using assms by (metis mset_map mset_eq_imp_distinct_iff)
  ultimately show ?thesis by (simp add: workforce_index_fingerprint_def Let_def)
qed

end
