(* ===== verification/Staff_Coverage.thy ===== *)
theory Staff_Coverage
  imports Recruit_Contracts Roster_Contract
begin

text \<open>
  The first half of \<open>core/workforce/staffing_verifier.py\<close>: budget and context, the typed
  reading of a contract (capabilities, authority, scope), eligibility, the coverage
  requirements of a work unit and the gaps the roster leaves. The lemmas state when a contract
  is eligible, what its coverage can contain, and which requirements are waived.
\<close>

section \<open>Budget, context and reasons\<close>

record staffing_budget =
  max_work_units_allowed :: int
  max_selected_per_unit :: int
  max_selected_total :: int
  max_loaded :: int
  max_delegated :: int
  min_confidence :: rat
  min_margin :: rat

definition default_budget :: staffing_budget where
  "default_budget = \<lparr>max_work_units_allowed = 16, max_selected_per_unit = 4,
     max_selected_total = 16, max_loaded = 16, max_delegated = 16,
     min_confidence = 8 / 10, min_margin = 1 / 10\<rparr>"

text \<open>\<open>StaffingBudget.__post_init__\<close> on counts of integer type\<close>

definition check_budget :: "staffing_budget \<Rightarrow> staffing_budget res" where
  "check_budget b =
     (if list_ex (\<lambda>n. n < 0) [max_work_units_allowed b, max_selected_per_unit b,
           max_selected_total b, max_loaded b, max_delegated b]
      then Inl (ValueError ''staffing budget counts must be nonnegative integers'')
      else if \<not> (0 \<le> min_confidence b \<and> min_confidence b \<le> 1)
           \<or> \<not> (0 \<le> min_margin b \<and> min_margin b \<le> 1)
      then Inl (ValueError ''staffing confidence and margin bounds must be between zero and one'')
      else Inr b)"

record staffing_context =
  staffing_host :: string
  staffing_platform :: string
  available_tools :: "string set"
  roster_generation :: int
  eligible_worker_ids :: "string set option"
  detected_stacks :: "string list"

text \<open>\<open>StaffingContext.__post_init__\<close>\<close>

definition check_context :: "staffing_context \<Rightarrow> staffing_context res" where
  "check_context ctx =
     (if staffing_host ctx = [] \<or> staffing_platform ctx = []
      then Inl (ValueError ''staffing host and platform are required'')
      else if roster_generation ctx < 0
      then Inl (ValueError ''staffing roster generation must be nonnegative'')
      else Inr ctx)"

record abstention_reason =
  reason_code :: string
  reason_unit :: string
  reason_agent :: string
  reason_detail :: string

definition reason :: "string \<Rightarrow> string \<Rightarrow> string \<Rightarrow> string \<Rightarrow> abstention_reason" where
  "reason code uid aid detail =
     \<lparr>reason_code = code, reason_unit = uid, reason_agent = aid, reason_detail = detail\<rparr>"

definition advisory_staffing_codes :: "string list" where
  "advisory_staffing_codes = [''independent_assurance_missing'', ''roster_coverage_gap'']"

definition staffing_verifier_reason_codes :: "string list" where
  "staffing_verifier_reason_codes =
     [''context_binding_mismatch'', ''delegated_agent_budget_exceeded'',
      ''delegated_context_not_distinct'', ''disabled_shadow_mismatch'', ''duplicate_roster_agent'',
      ''forbidden_agent_selected'', ''forbidden_set_mismatch'', ''independent_assurance_missing'',
      ''invalid_roster_snapshot'', ''loaded_agent_budget_exceeded'', ''no_safe_sufficient_team'',
      ''plan_hash_mismatch'', ''ranked_enabled_mismatch'', ''ranked_executable_mismatch'',
      ''recruiter_abstained'', ''redundant_substitution_group'', ''required_agents_missing'',
      ''review_reviewer_reused'', ''roster_count_mismatch'', ''roster_coverage_gap'',
      ''roster_fingerprint_mismatch'', ''roster_generation_mismatch'', ''runner_up_order_mismatch'',
      ''runner_up_set_invalid'', ''selected_agent_budget_exceeded'',
      ''selected_agents_outside_allowed_set'', ''selected_not_deterministic_minimum'',
      ''selection_confidence_too_low'', ''selection_margin_too_low'', ''unavailable_shadow_mismatch'',
      ''unit_agent_budget_exceeded'', ''unknown_claimed_agent'', ''unknown_ranked_agent'',
      ''work_unit_budget_exceeded'']"


section \<open>Capabilities of a contract\<close>

definition contract_tokens :: "workforce_contract \<Rightarrow> string set" where
  "contract_tokens c = tokens_of ([agent_id c, display_name c, archetype c] @ capability_ids c
     @ outcomes c @ artifact_kinds c @ lifecycle_phases c @ domains c @ stacks c
     @ scope_qualifiers c)"

type_synonym capability_rule = "workforce_contract \<Rightarrow> string set \<Rightarrow> string set \<Rightarrow> bool"

definition analysis_rule :: capability_rule where
  "analysis_rule c lifecycle artifacts = (authority c \<in> {''advise'', ''plan'', ''review''})"

definition audit_rule :: capability_rule where
  "audit_rule c lifecycle artifacts = (authority c = ''review'')"

definition coordination_rule :: capability_rule where
  "coordination_rule c lifecycle artifacts = (''coordination'' \<in> lifecycle)"

definition design_rule :: capability_rule where
  "design_rule c lifecycle artifacts = (authority c = ''plan'' \<or> ''design'' \<in> lifecycle)"

definition documentation_rule :: capability_rule where
  "documentation_rule c lifecycle artifacts =
     (''documentation'' \<in> artifacts \<or> ''documentation'' \<in> lifecycle)"

definition implementation_rule :: capability_rule where
  "implementation_rule c lifecycle artifacts =
     (authority c = ''modify'' \<or> ''implementation'' \<in> lifecycle)"

definition investigation_rule :: capability_rule where
  "investigation_rule c lifecycle artifacts =
     (lifecycle \<inter> {''discovery'', ''review'', ''testing''} \<noteq> {})"

definition operations_rule :: capability_rule where
  "operations_rule c lifecycle artifacts =
     (lifecycle \<inter> {''coordination'', ''release''} \<noteq> {} \<or> ''operations'' \<in> set (domains c))"

definition planning_rule :: capability_rule where
  "planning_rule c lifecycle artifacts = (authority c = ''plan'' \<or> ''planning'' \<in> lifecycle)"

definition review_rule :: capability_rule where
  "review_rule c lifecycle artifacts = (authority c = ''review'' \<or> ''review'' \<in> lifecycle)"

definition testing_rule :: capability_rule where
  "testing_rule c lifecycle artifacts =
     (''testing'' \<in> lifecycle \<or> artifacts \<inter> {''test-code'', ''test-evidence''} \<noteq> {})"

definition verification_rule :: capability_rule where
  "verification_rule c lifecycle artifacts = (authority c = ''review'' \<or> ''testing'' \<in> lifecycle)"

definition capability_rules :: "(string \<times> capability_rule) list" where
  "capability_rules = [(''analysis'', analysis_rule), (''audit'', audit_rule),
     (''coordination'', coordination_rule), (''design'', design_rule),
     (''documentation'', documentation_rule), (''implementation'', implementation_rule),
     (''investigation'', investigation_rule), (''operations'', operations_rule),
     (''planning'', planning_rule), (''review'', review_rule), (''testing'', testing_rule),
     (''verification'', verification_rule)]"

definition shape_capabilities :: "string list" where
  "shape_capabilities = [''analysis'', ''architecture'', ''audit'', ''coordination'', ''design'',
     ''documentation'', ''implementation'', ''investigation'', ''operations'', ''planning'',
     ''review'', ''risk-analysis'', ''testing'', ''verification'']"

definition supports_planning_capability :: "workforce_contract \<Rightarrow> string \<Rightarrow> bool option" where
  "supports_planning_capability c capability =
     (if capability \<in> set (capability_ids c) then Some True
      else let lifecycle = set (lifecycle_phases c); artifacts = set (artifact_kinds c) in
      case map_of capability_rules capability of
        Some rule \<Rightarrow> Some (rule c lifecycle artifacts)
      | None \<Rightarrow>
          if capability = ''risk-analysis''
          then Some (authority c \<in> {''plan'', ''review''}
            \<and> contract_tokens c \<inter> {''risk'', ''risks'', ''safety'', ''unsafe''} \<noteq> {})
          else if capability = ''architecture''
          then Some (authority c = ''plan''
            \<or> lifecycle \<inter> {''architecture'', ''design'', ''planning''} \<noteq> {}
            \<or> artifacts \<inter> {''architecture-record'', ''plan''} \<noteq> {})
          else None)"

definition supports :: "workforce_contract \<Rightarrow> string \<Rightarrow> bool" where
  "supports c capability = (case supports_planning_capability c capability of
     Some b \<Rightarrow> b
   | None \<Rightarrow> (let needed = tokens_of [capability] in needed \<noteq> {} \<and> needed \<subseteq> contract_tokens c))"

definition mandatory_capabilities :: "work_unit \<Rightarrow> string list" where
  "mandatory_capabilities u = (let owned = get_or artifact_capabilities (artifact_kind u) [] in
     filter (\<lambda>item. item = owned \<or> item \<notin> set shape_capabilities) (required_capabilities u))"

definition advisory_capabilities :: "work_unit \<Rightarrow> string list" where
  "advisory_capabilities u =
     filter (\<lambda>item. item \<notin> set (mandatory_capabilities u)) (required_capabilities u)"


section \<open>Authority, scope and eligibility\<close>

definition authority_compatibility :: "(string \<times> string list) list" where
  "authority_compatibility = [(''advise'', [''advise'', ''plan'', ''review'']),
     (''author'', [''author'', ''modify'']), (''modify'', [''modify'']), (''plan'', [''plan'']),
     (''review'', [''review''])]"

definition authority_satisfies :: "work_unit \<Rightarrow> workforce_contract \<Rightarrow> bool" where
  "authority_satisfies u c =
     (if unit_authority u \<in> {''advise'', ''review''} \<and> artifact_kind u = ''analysis''
         \<and> lifecycle_phase u = ''discovery'' \<and> authority c = ''modify'' then True
      else if unit_authority u = ''plan'' \<and> artifact_kind u = ''plan''
         \<and> lifecycle_phase u = ''planning'' \<and> authority c = ''review''
         \<and> ''plan'' \<in> set (artifact_kinds c) \<and> ''planning'' \<in> set (lifecycle_phases c) then True
      else authority c \<in> set (get_or authority_compatibility (unit_authority u) []))"

definition out_of_scope :: "workforce_contract \<Rightarrow> work_unit \<Rightarrow> bool" where
  "out_of_scope c u = (let unit_tokens = tokens_of ([outcome u, artifact_kind u, lifecycle_phase u]
        @ unit_domains u @ languages u @ frameworks u @ required_capabilities u @ risks u
        @ trust_boundaries u) in
     list_ex (\<lambda>value. tokens_of [value] \<noteq> {} \<and> tokens_of [value] \<subseteq> unit_tokens) (not_for c))"

definition is_live_eligible :: "workforce_contract \<Rightarrow> staffing_context \<Rightarrow> bool" where
  "is_live_eligible c ctx = (case eligible_worker_ids ctx of
     None \<Rightarrow> True | Some eligible \<Rightarrow> agent_id c \<in> eligible)"

definition supports_platform :: "work_unit \<Rightarrow> workforce_contract \<Rightarrow> staffing_context \<Rightarrow> bool" where
  "supports_platform u c ctx = (staffing_platform ctx \<in> set (platforms c)
     \<and> staffing_platform ctx \<in> set (unit_platforms u))"

definition covers_required_capability :: "work_unit \<Rightarrow> workforce_contract \<Rightarrow> bool" where
  "covers_required_capability u c =
     (required_capabilities u = [] \<or> list_ex (supports c) (required_capabilities u))"

definition only_if :: "bool \<Rightarrow> 'a \<Rightarrow> 'a list" where
  "only_if b x = (if b then [x] else [])"

definition contract_binding_reasons :: "workforce_contract \<Rightarrow> string list" where
  "contract_binding_reasons c =
     only_if (contract_schema c \<noteq> contract_schema_version) ''agent_schema_unsupported''
     @ only_if (audit_status (audit c) \<noteq> ''approved'' \<or> \<not> contract_valid (audit c))
         ''agent_not_approved''
     @ only_if (audit_revision (audit c) = [] \<or> version c = [] \<or> version_hash c = [])
         ''agent_version_unbound''"

definition unit_compatibility_reasons :: "work_unit \<Rightarrow> workforce_contract \<Rightarrow> string list" where
  "unit_compatibility_reasons u c =
     only_if (\<not> authority_satisfies u c) ''agent_authority_mismatch''
     @ only_if (languages u @ frameworks u \<noteq> [] \<and> stacks c \<noteq> []
         \<and> set (languages u @ frameworks u) \<inter> set (stacks c) = {}) ''agent_stack_mismatch''
     @ only_if (\<not> covers_required_capability u c) ''agent_capability_mismatch''"

definition eligibility ::
    "work_unit \<Rightarrow> workforce_contract \<Rightarrow> staffing_context \<Rightarrow> bool \<Rightarrow> string list" where
  "eligibility u c ctx ignore_enabled =
     only_if (\<not> is_live_eligible c ctx \<and> \<not> (ignore_enabled \<and> \<not> enabled c))
       ''agent_not_live_eligible''
     @ only_if (\<not> enabled c \<and> \<not> ignore_enabled) ''agent_disabled''
     @ contract_binding_reasons c
     @ only_if (staffing_host ctx \<notin> expand_compatible_hosts (hosts c)) ''agent_host_unsupported''
     @ only_if (\<not> supports_platform u c ctx) ''agent_platform_unsupported''
     @ only_if (\<not> set (required_tools u) \<subseteq> available_tools ctx) ''agent_tools_missing''
     @ unit_compatibility_reasons u c
     @ only_if (out_of_scope c u) ''agent_explicitly_out_of_scope''"


section \<open>Requirements and coverage\<close>

definition requirements :: "work_unit \<Rightarrow> string list" where
  "requirements u = fromkeys ([''artifact:'' @ artifact_kind u, ''lifecycle:'' @ lifecycle_phase u]
     @ map ((@) ''stack:'') (languages u @ frameworks u)
     @ map ((@) ''capability:'') (mandatory_capabilities u)
     @ [''authority:'' @ unit_authority u])"

definition untyped :: "workforce_contract \<Rightarrow> bool" where
  "untyped c = (artifact_kinds c = [] \<and> lifecycle_phases c = [] \<and> domains c = [] \<and> stacks c = [])"

definition covered_tokens :: "work_unit \<Rightarrow> workforce_contract \<Rightarrow> string set" where
  "covered_tokens u c = set (
     only_if (artifact_kind u \<in> set (artifact_kinds c)) (''artifact:'' @ artifact_kind u)
     @ only_if (lifecycle_phase u \<in> set (lifecycle_phases c)) (''lifecycle:'' @ lifecycle_phase u)
     @ map ((@) ''stack:'') (if stacks c \<noteq> []
         then filter (\<lambda>item. item \<in> set (stacks c)) (languages u @ frameworks u)
         else languages u @ frameworks u)
     @ map ((@) ''capability:'') (filter (supports c) (required_capabilities u))
     @ only_if (authority_satisfies u c) (''authority:'' @ unit_authority u))"

definition coverage :: "work_unit \<Rightarrow> workforce_contract \<Rightarrow> string set" where
  "coverage u c = (let covered = covered_tokens u c in
     if covered = {} \<and> untyped c then set (requirements u) else covered)"

definition is_wildcard_coverage :: "work_unit \<Rightarrow> workforce_contract \<Rightarrow> bool" where
  "is_wildcard_coverage u c = untyped c"

record coverage_gaps =
  uncovered :: "string list"
  waived :: "string list"

definition unknown_gaps :: "coverage_gaps \<Rightarrow> string list" where
  "unknown_gaps g = filter (\<lambda>item. item \<notin> set (waived g)) (uncovered g)"

text \<open>The loop over the contracts, with what they declare and what they cover so far.\<close>

fun gap_loop :: "work_unit \<Rightarrow> staffing_context option \<Rightarrow> string set \<Rightarrow> string set
    \<Rightarrow> workforce_contract list \<Rightarrow> string set \<times> string set" where
  "gap_loop u ctx declared covered [] = (declared, covered)"
| "gap_loop u ctx declared covered (c # cs) =
     (if \<not> enabled c \<or> is_wildcard_coverage u c then gap_loop u ctx declared covered cs
      else let cov = coverage u c in
        if (case ctx of None \<Rightarrow> False | Some x \<Rightarrow> eligibility u c x False \<noteq> [])
        then gap_loop u ctx (declared \<union> cov) covered cs
        else gap_loop u ctx (declared \<union> cov) (covered \<union> cov) cs)"

definition roster_coverage_gaps ::
    "work_unit \<Rightarrow> workforce_contract list \<Rightarrow> staffing_context option \<Rightarrow> coverage_gaps" where
  "roster_coverage_gaps u contracts ctx =
     (let (declared, covered) = gap_loop u ctx {} {} contracts;
          missing = filter (\<lambda>item. item \<notin> covered) (requirements u)
      in \<lparr>uncovered = missing, waived = filter (\<lambda>item. item \<in> declared) missing\<rparr>)"


section \<open>What eligibility and coverage mean\<close>

lemma only_if_Nil_iff [simp]: "only_if b x = [] \<longleftrightarrow> \<not> b"
  by (simp add: only_if_def)

lemma set_only_if [simp]: "y \<in> set (only_if b x) \<longleftrightarrow> b \<and> y = x"
  by (cases b) (simp_all add: only_if_def)

lemma only_if_False [simp]: "only_if False x = []"
  by (simp add: only_if_def)

definition may_work :: "work_unit \<Rightarrow> workforce_contract \<Rightarrow> staffing_context \<Rightarrow> bool" where
  "may_work u c ctx = (enabled c \<and> is_live_eligible c ctx
     \<and> contract_schema c = contract_schema_version
     \<and> audit_status (audit c) = ''approved'' \<and> contract_valid (audit c)
     \<and> audit_revision (audit c) \<noteq> [] \<and> version c \<noteq> [] \<and> version_hash c \<noteq> []
     \<and> staffing_host ctx \<in> expand_compatible_hosts (hosts c)
     \<and> staffing_platform ctx \<in> set (platforms c) \<and> staffing_platform ctx \<in> set (unit_platforms u)
     \<and> set (required_tools u) \<subseteq> available_tools ctx
     \<and> authority_satisfies u c \<and> covers_required_capability u c
     \<and> (languages u @ frameworks u = [] \<or> stacks c = []
          \<or> set (languages u @ frameworks u) \<inter> set (stacks c) \<noteq> {})
     \<and> \<not> out_of_scope c u)"

lemma eligibility_Nil_iff: "eligibility u c ctx False = [] \<longleftrightarrow> may_work u c ctx"
  by (auto simp: eligibility_def contract_binding_reasons_def unit_compatibility_reasons_def
      may_work_def supports_platform_def)

lemma requirements_not_Nil [simp]: "requirements u \<noteq> []"
  unfolding requirements_def fromkeys_Nil_iff by simp

lemma distinct_requirements [simp]: "distinct (requirements u)"
  unfolding requirements_def by (rule distinct_fromkeys)

lemma gap_loop_sets:
  "gap_loop u ctx declared covered cs =
     (declared \<union> (\<Union>c\<in>{c\<in>set cs. enabled c \<and> \<not> untyped c}. coverage u c),
      covered \<union> (\<Union>c\<in>{c\<in>set cs. enabled c \<and> \<not> untyped c
         \<and> (\<forall>x. ctx = Some x \<longrightarrow> eligibility u c x False = [])}. coverage u c))"
  by (induction u ctx declared covered cs rule: gap_loop.induct)
    (auto simp: is_wildcard_coverage_def Let_def split: option.splits)

lemma waived_iff:
  "t \<in> set (waived (roster_coverage_gaps u cs (Some ctx))) \<longleftrightarrow> t \<in> set (requirements u)
     \<and> (\<exists>c\<in>set cs. enabled c \<and> \<not> untyped c \<and> t \<in> coverage u c)
     \<and> (\<forall>c\<in>set cs. \<not> untyped c \<and> may_work u c ctx \<longrightarrow> t \<notin> coverage u c)"
  by (auto simp: roster_coverage_gaps_def gap_loop_sets eligibility_Nil_iff may_work_def)

end
