(* ===== verification/Staff_Team.thy ===== *)
theory Staff_Team
  imports Staff_Coverage
begin

text \<open>
  The team search of \<open>core/workforce/staffing_verifier.py\<close> (\<open>_minimum_team\<close> and
  \<open>_minimum_team_with_required\<close>). The roster is a dictionary, so looking up a ranked worker
  may raise \<open>KeyError\<close>. The lemmas show that the search always succeeds on ranked workers of
  the roster, and that what it returns is a smallest sufficient team, the first one in the
  order of \<open>itertools.combinations\<close>; the locale states what makes such a search exact for any
  test of sufficiency.
\<close>

type_synonym roster = "(string \<times> workforce_contract) list"

section \<open>The search\<close>

text \<open>\<open>combined.update(_coverage(unit, contracts[agent_id]))\<close> over a combination\<close>

fun combined_coverage :: "work_unit \<Rightarrow> roster \<Rightarrow> string set \<Rightarrow> string list \<Rightarrow> string set res" where
  "combined_coverage u roster combined [] = Inr combined"
| "combined_coverage u roster combined (a # as) =
     bind_res (dict_get roster a) (\<lambda>c. combined_coverage u roster (combined \<union> coverage u c) as)"

text \<open>The two nested loops: the combinations tried in order, the first sufficient one returned.\<close>

fun find_team :: "work_unit \<Rightarrow> roster \<Rightarrow> string set \<Rightarrow> string set \<Rightarrow> string list list
    \<Rightarrow> string list option res" where
  "find_team u roster needed base [] = Inr None"
| "find_team u roster needed base (team # teams) =
     bind_res (combined_coverage u roster base team) (\<lambda>combined.
       if needed \<subseteq> combined then Inr (Some team) else find_team u roster needed base teams)"

text \<open>The combinations of sizes \<open>1..min(maximum, len(ranked))\<close>, in the order they are tried\<close>

definition teams_upto :: "int \<Rightarrow> 'a list \<Rightarrow> 'a list list" where
  "teams_upto maximum ranked = concat (map (\<lambda>size. combinations size ranked)
     [1..<Suc (nat (min maximum (int (length ranked))))])"

definition minimum_team :: "work_unit \<Rightarrow> string list \<Rightarrow> roster \<Rightarrow> int \<Rightarrow> string set \<Rightarrow> string list res" where
  "minimum_team u ranked roster maximum waivers =
     (let needed = set (requirements u) - waivers in
      bind_res (find_team u roster needed {} (teams_upto maximum ranked)) (\<lambda>found.
        Inr (case found of Some team \<Rightarrow> team | None \<Rightarrow> [])))"

definition minimum_team_with_required ::
    "work_unit \<Rightarrow> string list \<Rightarrow> roster \<Rightarrow> string set \<Rightarrow> int \<Rightarrow> string set \<Rightarrow> string list res" where
  "minimum_team_with_required u ranked roster required_ids maximum waivers =
     (if required_ids = {} then minimum_team u ranked roster maximum waivers
      else if \<not> required_ids \<subseteq> set ranked \<or> int (card required_ids) > maximum then Inr []
      else let ordered_required = filter (\<lambda>a. a \<in> required_ids) ranked in
        bind_res (combined_coverage u roster {} ordered_required) (\<lambda>covered.
        let needed = set (requirements u) - waivers in
        if needed \<subseteq> covered then Inr ordered_required
        else let remaining = filter (\<lambda>a. a \<notin> required_ids) ranked in
          bind_res (find_team u roster needed covered
            (teams_upto (maximum - int (length ordered_required)) remaining)) (\<lambda>found.
          case found of
            Some additions \<Rightarrow>
              Inr (filter (\<lambda>a. a \<in> set ordered_required \<union> set additions) ranked)
          | None \<Rightarrow> Inr [])))"


section \<open>The search is exact\<close>

lemma set_teams_upto:
  "team \<in> set (teams_upto maximum ranked) \<longleftrightarrow>
     subseq team ranked \<and> team \<noteq> [] \<and> int (length team) \<le> maximum"
proof -
  have "length team \<in> set [1..<Suc (nat (min maximum (int (length ranked))))] \<longleftrightarrow>
      team \<noteq> [] \<and> int (length team) \<le> maximum \<and> length team \<le> length ranked"
    by (cases team) (auto simp del: upt_Suc)
  then show ?thesis
    by (auto simp: teams_upto_def set_combinations dest: list_emb_length simp del: upt_Suc)
qed

lemma teams_upto_subset:
  assumes "distinct ranked" and "A \<subseteq> set ranked" and "A \<noteq> {}" and "int (card A) \<le> maximum"
  shows "\<exists>t\<in>set (teams_upto maximum ranked). set t = A \<and> length t = card A"
proof -
  let ?t = "filter (\<lambda>a. a \<in> A) ranked"
  have "set ?t = A" using assms(2) by auto
  moreover from this have "length ?t = card A" using assms(1) by (metis distinct_card distinct_filter)
  moreover have "?t \<noteq> []" using \<open>set ?t = A\<close> assms(3) by (metis list.set(1))
  ultimately have "?t \<in> set (teams_upto maximum ranked)"
    using assms(4) set_teams_upto [of ?t maximum ranked] by simp
  with \<open>set ?t = A\<close> \<open>length ?t = card A\<close> show ?thesis by (intro bexI [of _ ?t]) simp_all
qed

lemma sorted_lengths:
  "sorted (map length (concat (map (\<lambda>size. combinations size xs) [a..<b])))"
proof (induction b)
  case (Suc b)
  have "map length (combinations n xs) = replicate (length (combinations n xs)) n" for n
    by (rule map_replicate_const [THEN trans [rotated]]) (auto simp: set_combinations)
  then have "sorted (map length (combinations b xs))" by (metis sorted_replicate)
  with Suc show ?case by (auto simp: sorted_append set_combinations)
qed simp

lemma teams_upto_sorted: "sorted (map length (teams_upto maximum ranked))"
  unfolding teams_upto_def by (rule sorted_lengths)

text \<open>What the search needs of a test of sufficiency: that it depends only on who is in the team.\<close>

locale team_search =
  fixes sufficient :: "'a set \<Rightarrow> bool"
  assumes sufficient_mono: "A \<subseteq> B \<Longrightarrow> sufficient A \<Longrightarrow> sufficient B"
begin

definition first_team :: "int \<Rightarrow> 'a list \<Rightarrow> 'a list option" where
  "first_team maximum ranked = find (\<lambda>team. sufficient (set team)) (teams_upto maximum ranked)"

lemma first_team_None:
  assumes "first_team maximum ranked = None" and "distinct ranked"
    and "A \<subseteq> set ranked" and "A \<noteq> {}" and "int (card A) \<le> maximum"
  shows "\<not> sufficient A"
  using assms(1) teams_upto_subset [OF assms(2-5)]
  by (auto simp: first_team_def find_None_iff)

lemma first_team_Some:
  assumes "first_team maximum ranked = Some team"
  shows "subseq team ranked \<and> team \<noteq> [] \<and> int (length team) \<le> maximum \<and> sufficient (set team)"
proof -
  have "team \<in> set (teams_upto maximum ranked)" and "sufficient (set team)"
    using assms by (auto simp: first_team_def find_Some_iff)
  then show ?thesis by (simp add: set_teams_upto)
qed

lemma first_team_least:
  assumes team: "first_team maximum ranked = Some team" and "distinct ranked"
    and "A \<subseteq> set ranked" and "A \<noteq> {}" and "card A < length team"
  shows "\<not> sufficient A"
proof
  assume "sufficient A"
  let ?ts = "teams_upto maximum ranked"
  obtain i where i: "i < length ?ts" "?ts ! i = team"
    and earlier: "\<forall>j<i. \<not> sufficient (set (?ts ! j))"
    using team by (auto simp: first_team_def find_Some_iff)
  have "int (card A) \<le> maximum" using first_team_Some [OF team] assms(5) by linarith
  then obtain t where t: "t \<in> set ?ts" "set t = A" "length t = card A"
    using teams_upto_subset [OF assms(2-4)] by blast
  then obtain j where j: "j < length ?ts" "?ts ! j = t" by (auto simp: in_set_conv_nth)
  with t earlier \<open>sufficient A\<close> have "i \<le> j" by (metis linorder_not_less)
  then have "length team \<le> length t"
    using teams_upto_sorted [of maximum ranked] i j by (metis sorted_map sorted_wrt_nth_less
        le_neq_implies_less order_refl)
  with t(3) assms(5) show False by simp
qed

text \<open>No team remains sufficient when anyone leaves it.\<close>

lemma first_team_irredundant:
  assumes team: "first_team maximum ranked = Some team" and "distinct ranked"
    and "B \<subset> set team" and "B \<noteq> {}"
  shows "\<not> sufficient B"
proof (rule first_team_least [OF team assms(2)])
  have "subseq team ranked" using first_team_Some [OF team] by simp
  then show "B \<subseteq> set ranked" using assms(3) subseq_set by blast
  have "card B < card (set team)" using assms(3) by (intro psubset_card_mono) auto
  then show "card B < length team" using card_length [of team] by linarith
qed (rule assms(4))

lemma first_team_hopeless:
  assumes "\<not> sufficient (set ranked)"
  shows "first_team maximum ranked = None"
proof (rule ccontr)
  assume "first_team maximum ranked \<noteq> None"
  then obtain team where "first_team maximum ranked = Some team" by auto
  then have "subseq team ranked" and "sufficient (set team)" using first_team_Some by auto
  with assms show False using sufficient_mono subseq_set by blast
qed

end


section \<open>The code's search is that search\<close>

definition covers :: "work_unit \<Rightarrow> roster \<Rightarrow> string set \<Rightarrow> string set \<Rightarrow> string set \<Rightarrow> bool" where
  "covers u roster needed base team =
     (needed \<subseteq> base \<union> (\<Union>a\<in>team. case map_of roster a of None \<Rightarrow> {} | Some c \<Rightarrow> coverage u c))"

lemma covers_mono: "A \<subseteq> B \<Longrightarrow> covers u roster needed base A \<Longrightarrow> covers u roster needed base B"
  unfolding covers_def by blast

interpretation coverers: team_search "covers u roster needed base" for u roster needed base
  by unfold_locales (rule covers_mono)

lemma combined_coverage_eq:
  "set team \<subseteq> fst ` set roster \<Longrightarrow> combined_coverage u roster base team
     = Inr (base \<union> (\<Union>a\<in>set team. case map_of roster a of None \<Rightarrow> {} | Some c \<Rightarrow> coverage u c))"
proof (induction team arbitrary: base)
  case (Cons a team)
  then obtain c where "map_of roster a = Some c"
    by (metis list.set_intros(1) map_of_eq_None_iff not_None_eq subsetD)
  with Cons show ?case by (simp add: Un_assoc)
qed simp

lemma find_team_eq:
  "\<forall>team\<in>set teams. set team \<subseteq> fst ` set roster \<Longrightarrow>
     find_team u roster needed base teams = Inr (find (\<lambda>team. covers u roster needed base (set team)) teams)"
  by (induction teams) (simp_all add: combined_coverage_eq covers_def)

lemma find_teams_upto:
  assumes "set ranked \<subseteq> fst ` set roster"
  shows "find_team u roster needed base (teams_upto maximum ranked)
    = Inr (coverers.first_team u roster needed base maximum ranked)"
  unfolding coverers.first_team_def
  by (rule find_team_eq) (use assms subseq_set in \<open>fastforce simp: set_teams_upto\<close>)

lemma minimum_team_eq:
  assumes "set ranked \<subseteq> fst ` set roster"
  shows "minimum_team u ranked roster maximum waivers
    = Inr (case coverers.first_team u roster (set (requirements u) - waivers) {} maximum ranked of
        Some team \<Rightarrow> team | None \<Rightarrow> [])"
  by (simp add: minimum_team_def find_teams_upto [OF assms])

text \<open>The teams the search is about: candidates that include the required workers, within the
  bound, that together cover what is needed.\<close>

definition staffable :: "work_unit \<Rightarrow> roster \<Rightarrow> string list \<Rightarrow> string set \<Rightarrow> int \<Rightarrow> string set \<Rightarrow> string set \<Rightarrow> bool" where
  "staffable u roster ranked required_ids maximum waivers A =
     (A \<subseteq> set ranked \<and> A \<noteq> {} \<and> required_ids \<subseteq> A \<and> int (card A) \<le> maximum
       \<and> covers u roster (set (requirements u) - waivers) {} A)"

definition smallest_team :: "work_unit \<Rightarrow> roster \<Rightarrow> string list \<Rightarrow> string set \<Rightarrow> int \<Rightarrow> string set \<Rightarrow> string list \<Rightarrow> bool" where
  "smallest_team u roster ranked required_ids maximum waivers team =
     (subseq team ranked
       \<and> (team = [] \<longrightarrow> (\<forall>A. \<not> staffable u roster ranked required_ids maximum waivers A))
       \<and> (team \<noteq> [] \<longrightarrow> staffable u roster ranked required_ids maximum waivers (set team)
            \<and> (\<forall>A. staffable u roster ranked required_ids maximum waivers A \<longrightarrow> length team \<le> card A)))"

lemma minimum_team_smallest:
  assumes "set ranked \<subseteq> fst ` set roster" and "distinct ranked"
  shows "\<exists>team. minimum_team u ranked roster maximum waivers = Inr team
    \<and> smallest_team u roster ranked {} maximum waivers team"
proof (cases "coverers.first_team u roster (set (requirements u) - waivers) {} maximum ranked")
  case None
  then show ?thesis
    using coverers.first_team_None [OF None assms(2)]
    by (auto simp: minimum_team_eq [OF assms(1)] smallest_team_def staffable_def)
next
  case (Some team)
  note facts = coverers.first_team_Some [OF Some]
  have "int (card (set team)) \<le> maximum" using facts card_length [of team] by linarith
  moreover have "length team \<le> card A" if "staffable u roster ranked {} maximum waivers A" for A
    using coverers.first_team_least [OF Some assms(2), of A] that
    by (auto simp: staffable_def intro: leI)
  ultimately show ?thesis
    using facts subseq_set
    by (fastforce simp: minimum_team_eq [OF assms(1)] Some smallest_team_def staffable_def)
qed

text \<open>What the required workers cover together, and what a team adds to them.\<close>

definition joint_coverage :: "work_unit \<Rightarrow> roster \<Rightarrow> string set \<Rightarrow> string set" where
  "joint_coverage u roster A = (\<Union>a\<in>A. case map_of roster a of None \<Rightarrow> {} | Some c \<Rightarrow> coverage u c)"

lemma covers_joint:
  "covers u roster needed (joint_coverage u roster R) A \<longleftrightarrow> covers u roster needed {} (R \<union> A)"
  by (simp add: covers_def joint_coverage_def)

lemma staffable_additions:
  assumes "staffable u roster ranked required_ids maximum waivers A"
  shows "card required_ids \<le> card A \<and> A - required_ids \<subseteq> set ranked - required_ids
    \<and> card (A - required_ids) = card A - card required_ids
    \<and> int (card (A - required_ids)) \<le> maximum - int (card required_ids)
    \<and> covers u roster (set (requirements u) - waivers) (joint_coverage u roster required_ids) (A - required_ids)"
proof -
  from assms have sub: "required_ids \<subseteq> A" "A \<subseteq> set ranked" "int (card A) \<le> maximum"
    and cov: "covers u roster (set (requirements u) - waivers) {} A"
    by (auto simp: staffable_def)
  have fin: "finite A" using sub(2) by (rule finite_subset) simp
  then have fin': "finite required_ids" using sub(1) by (rule rev_finite_subset)
  have "required_ids \<union> (A - required_ids) = A" using sub by blast
  then have "covers u roster (set (requirements u) - waivers) (joint_coverage u roster required_ids) (A - required_ids)"
    using cov by (simp only: covers_joint)
  moreover have "card required_ids \<le> card A" using fin sub(1) by (rule card_mono)
  moreover have "card (A - required_ids) = card A - card required_ids"
    using fin' sub(1) by (rule card_Diff_subset)
  moreover have "A - required_ids \<subseteq> set ranked - required_ids" using sub by blast
  ultimately show ?thesis using sub(3) by simp
qed

lemma smallest_ordered:
  assumes "distinct ranked" and "required_ids \<noteq> {}" and "required_ids \<subseteq> set ranked"
    and "int (card required_ids) \<le> maximum"
    and "set (requirements u) - waivers \<subseteq> joint_coverage u roster required_ids"
  shows "smallest_team u roster ranked required_ids maximum waivers (filter (\<lambda>a. a \<in> required_ids) ranked)"
proof -
  let ?ordered = "filter (\<lambda>a. a \<in> required_ids) ranked"
  have set: "set ?ordered = required_ids" using assms(3) by auto
  then have "length ?ordered = card required_ids" using assms(1) by (metis distinct_card distinct_filter)
  moreover have "staffable u roster ranked required_ids maximum waivers (set ?ordered)"
    using assms(2-5) unfolding set staffable_def by (simp add: covers_def joint_coverage_def)
  moreover have "?ordered \<noteq> []" using set assms(2) by (metis list.set(1))
  ultimately show ?thesis
    using staffable_additions unfolding smallest_team_def by (metis filter_subseq)
qed

lemma smallest_found:
  assumes "distinct ranked" and "required_ids \<noteq> {}" and "required_ids \<subseteq> set ranked"
    and short: "\<not> set (requirements u) - waivers \<subseteq> joint_coverage u roster required_ids"
    and found: "coverers.first_team u roster (set (requirements u) - waivers)
      (joint_coverage u roster required_ids) (maximum - int (card required_ids))
      (filter (\<lambda>a. a \<notin> required_ids) ranked) = Some additions"
  shows "smallest_team u roster ranked required_ids maximum waivers
    (filter (\<lambda>a. a \<in> required_ids \<union> set additions) ranked)"
proof -
  let ?team = "filter (\<lambda>a. a \<in> required_ids \<union> set additions) ranked"
  note facts = coverers.first_team_Some [OF found]
  have adds: "set additions \<subseteq> set ranked - required_ids" using facts subseq_set by fastforce
  have fin: "finite required_ids" using assms(3) finite_subset by blast
  have set: "set ?team = required_ids \<union> set additions" using assms(3) adds by auto
  have "distinct additions" using facts assms(1) subseq_distinct distinct_filter by blast
  moreover have "required_ids \<inter> set additions = {}" using adds by auto
  ultimately have "card (set ?team) = card required_ids + length additions"
    using fin unfolding set by (simp add: card_Un_disjoint distinct_card)
  then have len: "length ?team = card required_ids + length additions"
    using assms(1) by (metis distinct_card distinct_filter)
  have "staffable u roster ranked required_ids maximum waivers (set ?team)"
    using assms(2,3) adds facts \<open>card (set ?team) = _\<close> unfolding staffable_def set
    by (auto simp: covers_joint)
  moreover have "length ?team \<le> card A" if A: "staffable u roster ranked required_ids maximum waivers A" for A
  proof -
    note extra = staffable_additions [OF A]
    have "A - required_ids \<noteq> {}" using extra short by (auto simp: covers_def)
    then have "length additions \<le> card (A - required_ids)"
      using coverers.first_team_least [OF found, of "A - required_ids"] assms(1) extra
      by (force intro: leI)
    then show ?thesis using extra len by linarith
  qed
  moreover have "?team \<noteq> []" using set assms(2) by (metis Un_empty list.set(1))
  ultimately show ?thesis unfolding smallest_team_def by (simp add: filter_subseq)
qed

lemma required_team_smallest:
  assumes known: "set ranked \<subseteq> fst ` set roster" and distinct: "distinct ranked"
    and req: "required_ids \<noteq> {}" "required_ids \<subseteq> set ranked" "int (card required_ids) \<le> maximum"
  shows "\<exists>team. minimum_team_with_required u ranked roster required_ids maximum waivers = Inr team
    \<and> smallest_team u roster ranked required_ids maximum waivers team"
proof -
  define needed where "needed = set (requirements u) - waivers"
  let ?ordered = "filter (\<lambda>a. a \<in> required_ids) ranked"
  let ?remaining = "filter (\<lambda>a. a \<notin> required_ids) ranked"
  let ?search = "coverers.first_team u roster needed (joint_coverage u roster required_ids)
      (maximum - int (card required_ids)) ?remaining"
  have set: "set ?ordered = required_ids" using req(2) by auto
  then have len: "length ?ordered = card required_ids" using distinct by (metis distinct_card distinct_filter)
  have "combined_coverage u roster {} ?ordered = Inr (joint_coverage u roster required_ids)"
    using combined_coverage_eq [of ?ordered roster u "{}"] known req(2) unfolding set joint_coverage_def
    by auto
  moreover have "set ?remaining \<subseteq> fst ` set roster" using known by auto
  ultimately have eq: "minimum_team_with_required u ranked roster required_ids maximum waivers =
     (if needed \<subseteq> joint_coverage u roster required_ids then Inr ?ordered
      else Inr (case ?search of
            Some additions \<Rightarrow> filter (\<lambda>a. a \<in> required_ids \<union> set additions) ranked
          | None \<Rightarrow> []))"
    using req unfolding minimum_team_with_required_def Let_def set len needed_def [symmetric]
    by (simp add: find_teams_upto split: option.splits)
  consider "needed \<subseteq> joint_coverage u roster required_ids"
    | additions where "\<not> needed \<subseteq> joint_coverage u roster required_ids" "?search = Some additions"
    | "\<not> needed \<subseteq> joint_coverage u roster required_ids" "?search = None"
    by (cases ?search) auto
  then show ?thesis
  proof cases
    case 1
    then show ?thesis using smallest_ordered [OF distinct req] by (simp add: eq needed_def)
  next
    case 2
    then show ?thesis using smallest_found [OF distinct req(1,2)] by (simp add: eq needed_def)
  next
    case 3
    have "\<not> staffable u roster ranked required_ids maximum waivers A" for A
    proof
      assume "staffable u roster ranked required_ids maximum waivers A"
      note extra = staffable_additions [OF this]
      have "A - required_ids \<noteq> {}" using extra 3(1) by (auto simp: covers_def needed_def)
      moreover have "A - required_ids \<subseteq> set ?remaining" using extra by auto
      moreover have "distinct ?remaining" using distinct by simp
      ultimately show False
        using coverers.first_team_None [OF 3(2)] extra unfolding needed_def by metis
    qed
    with 3 show ?thesis by (simp add: eq smallest_team_def)
  qed
qed

lemma minimum_team_exact:
  assumes known: "set ranked \<subseteq> fst ` set roster" and distinct: "distinct ranked"
  shows "\<exists>team. minimum_team_with_required u ranked roster required_ids maximum waivers = Inr team
    \<and> smallest_team u roster ranked required_ids maximum waivers team"
proof (cases "required_ids = {}")
  case True
  then show ?thesis
    using minimum_team_smallest [OF assms] by (simp add: minimum_team_with_required_def)
next
  case False
  show ?thesis
  proof (cases "required_ids \<subseteq> set ranked \<and> int (card required_ids) \<le> maximum")
    case True
    with False show ?thesis using required_team_smallest [OF assms] by blast
  next
    case no: False
    have "\<not> staffable u roster ranked required_ids maximum waivers A" for A
    proof
      assume A: "staffable u roster ranked required_ids maximum waivers A"
      then have "required_ids \<subseteq> set ranked" "int (card A) \<le> maximum" by (auto simp: staffable_def)
      then show False using staffable_additions [OF A] no by linarith
    qed
    with no False show ?thesis by (auto simp: minimum_team_with_required_def smallest_team_def)
  qed
qed

lemma smallest_team_distinct: "smallest_team u roster ranked R m w team \<Longrightarrow> distinct ranked \<Longrightarrow> distinct team"
  by (auto simp: smallest_team_def dest: subseq_distinct)

end
