(* ===== verification/Staff_Verify.thy ===== *)
theory Staff_Verify
  imports Staff_Team
begin

text \<open>
  The verifier of \<open>core/workforce/staffing_verifier.py\<close>. The list of reasons is only ever
  appended to through \<open>_reason\<close>, so each check returns what it passes to \<open>_reason\<close>, in
  order, and \<open>report\<close> accumulates it; a lookup that may fail returns its exception. Where
  Python iterates over a set, the iteration here is in sorted order.
\<close>

section \<open>Reporting\<close>

text \<open>\<open>_reason\<close>: append unless already there\<close>

definition report :: "abstention_reason list \<Rightarrow> abstention_reason list \<Rightarrow> abstention_reason list" where
  "report reasons emitted = fold add_new emitted reasons"

record verified_unit =
  verified_unit_id :: string
  verified_selected :: "string list"
  verified_delivery :: string
  verified_timing :: string
  verified_contexts :: "(string \<times> string) list"
  verified_disabled :: "shadow_evidence list"
  verified_unavailable :: "shadow_evidence list"

record staffing_decision =
  decision_status :: string
  decision_units :: "verified_unit list"
  decision_reasons :: "abstention_reason list"

definition accepted :: "staffing_decision \<Rightarrow> bool" where
  "accepted d = (decision_status d = ''accepted'')"


section \<open>The snapshot\<close>

definition roster_of :: "workforce_contract list \<Rightarrow> roster" where
  "roster_of contracts = dict_of (map (\<lambda>c. (agent_id c, c)) contracts)"

fun duplicate_agents :: "string set \<Rightarrow> workforce_contract list \<Rightarrow> string list" where
  "duplicate_agents seen [] = []"
| "duplicate_agents seen (c # cs) =
     only_if (agent_id c \<in> seen) (agent_id c) @ duplicate_agents (insert (agent_id c) seen) cs"

definition check_snapshot :: "recruiter_proposal \<Rightarrow> workforce_contract list \<Rightarrow> staffing_context
    \<Rightarrow> abstention_reason list res" where
  "check_snapshot p contracts ctx =
     (let duplicates = map (\<lambda>a. reason ''duplicate_roster_agent'' [] a []) (duplicate_agents {} contracts) in
      case workforce_index_fingerprint contracts of
        Inl (ValueError message) \<Rightarrow> Inr (duplicates @ [reason ''invalid_roster_snapshot'' [] [] message])
      | Inl e \<Rightarrow> Inl e
      | Inr fingerprint \<Rightarrow> Inr (duplicates
          @ only_if (proposal_fingerprint p \<noteq> fingerprint) (reason ''roster_fingerprint_mismatch'' [] [] [])
          @ only_if (proposal_count p \<noteq> int (length contracts)) (reason ''roster_count_mismatch'' [] [] [])
          @ only_if (proposal_generation p \<noteq> roster_generation ctx)
              (reason ''roster_generation_mismatch'' [] [] [])))"


section \<open>One row: ranking, selection and shadows\<close>

definition roster_says :: "roster \<Rightarrow> string \<Rightarrow> (workforce_contract \<Rightarrow> bool) \<Rightarrow> bool" where
  "roster_says roster a P = (case map_of roster a of None \<Rightarrow> False | Some c \<Rightarrow> P c)"

type_synonym rank_signature = "(string \<times> int \<times> rat) list"

definition signature_of :: "candidate_rank list \<Rightarrow> rank_signature" where
  "signature_of ranks = map (\<lambda>r. (rank_agent r, rank_position r, rank_score r)) ranks"

fun filtered_ranks :: "(string \<Rightarrow> bool) \<Rightarrow> int \<Rightarrow> candidate_rank list \<Rightarrow> rank_signature" where
  "filtered_ranks P kept [] = []"
| "filtered_ranks P kept (r # rs) =
     (if P (rank_agent r)
      then (rank_agent r, kept + 1, rank_score r) # filtered_ranks P (kept + 1) rs
      else filtered_ranks P kept rs)"

definition is_executable :: "work_unit \<Rightarrow> unit_recruitment \<Rightarrow> roster \<Rightarrow> staffing_context \<Rightarrow> string \<Rightarrow> bool" where
  "is_executable u row roster ctx a =
     roster_says roster a (\<lambda>c. a \<notin> set (forbidden row) \<and> eligibility u c ctx False = [])"

definition executable_ranks :: "work_unit \<Rightarrow> unit_recruitment \<Rightarrow> roster \<Rightarrow> staffing_context \<Rightarrow> rank_signature" where
  "executable_ranks u row roster ctx =
     filtered_ranks (is_executable u row roster ctx) 0 (ranked_semantic row)"

definition executable_ids :: "work_unit \<Rightarrow> unit_recruitment \<Rightarrow> roster \<Rightarrow> staffing_context \<Rightarrow> string list" where
  "executable_ids u row roster ctx = map fst (executable_ranks u row roster ctx)"

definition check_ranking :: "work_unit \<Rightarrow> unit_recruitment \<Rightarrow> roster \<Rightarrow> staffing_context
    \<Rightarrow> abstention_reason list" where
  "check_ranking u row roster ctx =
     map (\<lambda>a. reason ''unknown_ranked_agent'' (unit_id u) a [])
       (sorted_list_of_set (set (map rank_agent (ranked_semantic row)) - set (map fst roster)))
     @ only_if (signature_of (ranked_enabled row)
           \<noteq> filtered_ranks (\<lambda>a. roster_says roster a enabled) 0 (ranked_semantic row))
         (reason ''ranked_enabled_mismatch'' (unit_id u) [] [])
     @ only_if (signature_of (ranked_executable row) \<noteq> executable_ranks u row roster ctx)
         (reason ''ranked_executable_mismatch'' (unit_id u) [] [])"

definition expected_forbidden :: "work_unit \<Rightarrow> unit_recruitment \<Rightarrow> roster \<Rightarrow> staffing_context \<Rightarrow> string list" where
  "expected_forbidden u row roster ctx = filter
     (\<lambda>a. roster_says roster a (\<lambda>c. a \<in> set (forbidden row) \<or> eligibility u c ctx False \<noteq> []))
     (map rank_agent (ranked_semantic row))"

definition waived_tokens :: "work_unit \<Rightarrow> roster \<Rightarrow> staffing_context \<Rightarrow> string list" where
  "waived_tokens u roster ctx = waived (roster_coverage_gaps u (map snd roster) (Some ctx))"

definition expected_team :: "work_unit \<Rightarrow> unit_recruitment \<Rightarrow> roster \<Rightarrow> string list \<Rightarrow> staffing_context
    \<Rightarrow> staffing_budget \<Rightarrow> string list res" where
  "expected_team u row roster executable ctx budget =
     minimum_team_with_required u executable roster (set (required row))
       (max_selected_per_unit budget) (set (waived_tokens u roster ctx))"

definition check_selection :: "work_unit \<Rightarrow> unit_recruitment \<Rightarrow> roster \<Rightarrow> string list \<Rightarrow> staffing_context
    \<Rightarrow> staffing_budget \<Rightarrow> (string list \<times> abstention_reason list) res" where
  "check_selection u row roster executable ctx budget =
     (let claimed = set (required row @ acceptable row @ forbidden row @ selected row @ runner_up row)
      in bind_res (expected_team u row roster executable ctx budget) (\<lambda>expected.
        let expected_runner = take (length (runner_up row))
              (filter (\<lambda>a. a \<notin> set expected) executable)
        in Inr (expected,
          map (\<lambda>a. reason ''unknown_claimed_agent'' (unit_id u) a [])
            (sorted_list_of_set (claimed - set (map fst roster)))
          @ only_if (\<not> set (required row) \<subseteq> set (selected row))
              (reason ''required_agents_missing'' (unit_id u) [] [])
          @ only_if (\<not> set (selected row) \<subseteq> set (required row @ acceptable row))
              (reason ''selected_agents_outside_allowed_set'' (unit_id u) [] [])
          @ only_if (forbidden row \<noteq> expected_forbidden u row roster ctx)
              (reason ''forbidden_set_mismatch'' (unit_id u) [] [])
          @ only_if (set (forbidden row) \<inter> set (selected row) \<noteq> {})
              (reason ''forbidden_agent_selected'' (unit_id u) [] [])
          @ only_if (set (runner_up row) \<inter> (set (selected row) \<union> set (forbidden row)) \<noteq> {})
              (reason ''runner_up_set_invalid'' (unit_id u) [] [])
          @ map (\<lambda>token. reason ''roster_coverage_gap'' (unit_id u) [] token) (waived_tokens u roster ctx)
          @ only_if (selected row \<noteq> expected)
              (reason ''selected_not_deterministic_minimum'' (unit_id u) [] [])
          @ only_if (expected = []) (reason ''no_safe_sufficient_team'' (unit_id u) [] [])
          @ only_if (runner_up row \<noteq> expected_runner)
              (reason ''runner_up_order_mismatch'' (unit_id u) [] []))))"

type_synonym shadow_signature = "(string \<times> int \<times> string list \<times> string) list"

definition shadow_signature_of :: "shadow_evidence list \<Rightarrow> shadow_signature" where
  "shadow_signature_of items =
     map (\<lambda>s. (shadow_agent s, shadow_rank s, shadow_reasons s, shadow_fallback s)) items"

definition fallback_of :: "string list \<Rightarrow> string" where
  "fallback_of team = (case team of [] \<Rightarrow> [] | a # as \<Rightarrow> a)"

definition fallback_rank :: "unit_recruitment \<Rightarrow> string \<Rightarrow> int" where
  "fallback_rank row fallback =
     (case find (\<lambda>r. rank_agent r = fallback) (ranked_semantic row) of
        Some r \<Rightarrow> rank_position r
      | None \<Rightarrow> int (length (ranked_semantic row)) + 1)"

text \<open>Which shadow list a contract that fails belongs to\<close>

definition only_disabled :: "work_unit \<Rightarrow> workforce_contract \<Rightarrow> staffing_context \<Rightarrow> bool" where
  "only_disabled u c ctx = (\<not> enabled c \<and> eligibility u c ctx True = [])"

definition expected_shadows :: "bool \<Rightarrow> work_unit \<Rightarrow> unit_recruitment \<Rightarrow> roster \<Rightarrow> staffing_context
    \<Rightarrow> string list \<Rightarrow> shadow_signature" where
  "expected_shadows for_disabled u row roster ctx team =
     (let fallback = fallback_of team in
      concat (map (\<lambda>r.
        if rank_position r \<ge> fallback_rank row fallback then []
        else case map_of roster (rank_agent r) of
          None \<Rightarrow> []
        | Some c \<Rightarrow> (let failed = eligibility u c ctx False in
            only_if (failed \<noteq> [] \<and> only_disabled u c ctx = for_disabled)
              (rank_agent r, rank_position r, failed, fallback)))
        (ranked_semantic row)))"

definition check_shadows :: "work_unit \<Rightarrow> unit_recruitment \<Rightarrow> roster \<Rightarrow> staffing_context
    \<Rightarrow> string list \<Rightarrow> abstention_reason list" where
  "check_shadows u row roster ctx team =
     only_if (shadow_signature_of (disabled_shadows row) \<noteq> expected_shadows True u row roster ctx team)
       (reason ''disabled_shadow_mismatch'' (unit_id u) [] [])
     @ only_if (shadow_signature_of (unavailable_shadows row)
           \<noteq> expected_shadows False u row roster ctx team)
       (reason ''unavailable_shadow_mismatch'' (unit_id u) [] [])"


section \<open>Ancestors\<close>

definition units_by_id :: "work_unit_plan \<Rightarrow> (string \<times> work_unit) list" where
  "units_by_id plan = dict_of (map (\<lambda>u. (unit_id u, u)) (plan_units plan))"

text \<open>The worklist loop of \<open>_ancestors\<close>: \<open>pending.pop()\<close> takes the last element.\<close>

function ancestors_loop :: "(string \<times> work_unit) list \<Rightarrow> string set \<Rightarrow> string list \<Rightarrow> string set res" where
  "ancestors_loop units found pending =
     (if pending = [] then Inr found
      else let current = last pending; rest = butlast pending in
        if current \<in> found then ancestors_loop units found rest
        else bind_res (dict_get units current) (\<lambda>u.
          ancestors_loop units (insert current found) (rest @ depends_on u)))"
  by pat_completeness auto

termination ancestors_loop
proof (relation "measures [\<lambda>(units, found, pending). card (fst ` set units - found),
      \<lambda>(units, found, pending). length pending]", goal_cases)
  case 1
  then show ?case by simp
next
  case (2 units found pending current rest)
  then show ?case by simp
next
  case (3 units found pending current rest u)
  then have "current \<in> fst ` set units - found"
    by (auto simp: dict_get_Inr_iff dest!: map_of_SomeD intro: rev_image_eqI)
  then have "card (fst ` set units - insert current found) < card (fst ` set units - found)"
    by (metis Diff_insert card_Diff1_less finite_Diff finite_imageI finite_set)
  then show ?case by simp
qed

declare ancestors_loop.simps [simp del]

definition ancestors :: "work_unit_plan \<Rightarrow> string \<Rightarrow> string set res" where
  "ancestors plan uid = (let units = units_by_id plan in
     bind_res (dict_get units uid) (\<lambda>u. ancestors_loop units {} (depends_on u)))"


section \<open>Composition\<close>

text \<open>A dictionary of the context bindings of a row\<close>

definition binding_of :: "unit_recruitment \<Rightarrow> (string \<times> string) list" where
  "binding_of row = dict_of (map (\<lambda>b. (ctx_agent b, ctx_id b)) (row_contexts row))"

definition selected_by_unit :: "recruiter_proposal \<Rightarrow> (string \<times> string list) list" where
  "selected_by_unit p = dict_of (map (\<lambda>row. (row_unit row, selected row)) (proposal_rows p))"

definition contexts_by_unit :: "recruiter_proposal \<Rightarrow> (string \<times> (string \<times> string) list) list" where
  "contexts_by_unit p = dict_of (map (\<lambda>row. (row_unit row, binding_of row)) (proposal_rows p))"

definition ancestor_agents_of :: "(string \<times> string list) list \<Rightarrow> string set \<Rightarrow> string set res" where
  "ancestor_agents_of by_unit ancestor_units =
     bind_res (concat_res (dict_get by_unit) (sorted_list_of_set ancestor_units)) (\<lambda>agents.
       Inr (set agents))"

text \<open>The three relations whose targets must be absent or present\<close>

definition relation_reasons :: "unit_recruitment \<Rightarrow> string \<Rightarrow> composition_contract \<Rightarrow> string set
    \<Rightarrow> string set \<Rightarrow> abstention_reason list" where
  "relation_reasons row a relation ancestor_agents required_agents =
     map (\<lambda>t. reason ''selection_exclusive_conflict'' (row_unit row) a t)
       (filter (\<lambda>t. t \<in> set (selected row)) (selection_exclusive relation))
     @ map (\<lambda>t. reason ''required_composition_agent_missing'' (row_unit row) a t)
       (filter (\<lambda>t. t \<notin> required_agents) (requires_agents relation))
     @ map (\<lambda>t. reason ''composition_order_invalid'' (row_unit row) a t)
       (filter (\<lambda>t. t \<notin> ancestor_agents) (must_follow relation))"

text \<open>One target of \<open>same_context_conflicts\<close>\<close>

definition conflict_reasons :: "unit_recruitment \<Rightarrow> string \<Rightarrow> (string \<times> string) list \<Rightarrow> string
    \<Rightarrow> abstention_reason list res" where
  "conflict_reasons row a binding target = (case map_of binding target of
     None \<Rightarrow> Inr []
   | Some shared \<Rightarrow> bind_res (dict_get binding a) (\<lambda>own.
       Inr (only_if (shared = own) (reason ''same_context_conflict'' (row_unit row) a target))))"

text \<open>One target of \<open>must_review_independently\<close>\<close>

definition review_reasons :: "unit_recruitment \<Rightarrow> string \<Rightarrow> composition_contract
    \<Rightarrow> (string \<times> string) list \<Rightarrow> string set \<Rightarrow> string set \<Rightarrow> (string \<times> string list) list
    \<Rightarrow> (string \<times> (string \<times> string) list) list \<Rightarrow> roster \<Rightarrow> string \<Rightarrow> abstention_reason list res" where
  "review_reasons row a relation binding ancestor_units ancestor_agents by_unit contexts roster target =
     (if target \<notin> ancestor_agents
      then Inr [reason ''independent_review_target_missing'' (row_unit row) a target]
      else
        bind_res (map_res (\<lambda>name. bind_res (dict_get by_unit name) (\<lambda>team. Inr (name, team)))
            (sorted_list_of_set ancestor_units)) (\<lambda>teams.
        let target_units = map fst (filter (\<lambda>(name, team). target \<in> set team) teams) in
        bind_res (dict_get binding a) (\<lambda>own.
        bind_res (map_res (\<lambda>name. bind_res (dict_get contexts name) (\<lambda>b. Inr (get_or b target [])))
            target_units) (\<lambda>reviewed.
        let reused = only_if (own \<in> set reviewed)
              (reason ''review_context_reused'' (row_unit row) a target) in
        if independence_class relation = [] then Inr reused
        else bind_res (dict_get roster target) (\<lambda>c.
          Inr (reused @ only_if (independence_class relation = independence_class (composition c))
            (reason ''review_independence_class_reused'' (row_unit row) a target)))))))"

definition agent_composition :: "unit_recruitment \<Rightarrow> (string \<times> string) list \<Rightarrow> string set \<Rightarrow> string set
    \<Rightarrow> string set \<Rightarrow> (string \<times> string list) list \<Rightarrow> (string \<times> (string \<times> string) list) list
    \<Rightarrow> roster \<Rightarrow> staffing_context \<Rightarrow> string \<Rightarrow> abstention_reason list res" where
  "agent_composition row binding ancestor_units ancestor_agents required_agents by_unit contexts
     roster ctx a =
     (case map_of roster a of
        None \<Rightarrow> Inr []
      | Some c \<Rightarrow>
          let relation = composition c;
              native = only_if (delivery row = ''delegate'' \<and> ''native-delegation'' \<notin> available_tools ctx)
                (reason ''native_delegation_unavailable'' (row_unit row) a [])
          in
          bind_res (concat_res (conflict_reasons row a binding) (same_context_conflicts relation)) (\<lambda>conflicts.
          bind_res (concat_res (review_reasons row a relation binding ancestor_units ancestor_agents
              by_unit contexts roster) (must_review_independently relation)) (\<lambda>reviews.
          Inr (native @ relation_reasons row a relation ancestor_agents required_agents
            @ conflicts @ reviews))))"

definition group_of :: "roster \<Rightarrow> string \<Rightarrow> string" where
  "group_of roster a = (case map_of roster a of
     None \<Rightarrow> [] | Some c \<Rightarrow> substitution_group (composition c))"

definition substitution_reasons :: "unit_recruitment \<Rightarrow> roster \<Rightarrow> abstention_reason list" where
  "substitution_reasons row roster =
     concat (map (\<lambda>group.
       let members = filter (\<lambda>a. group_of roster a = group) (selected row) in
       only_if (length members > 1 \<and> \<not> list_all (\<lambda>member. list_all (\<lambda>other. member = other
             \<or> roster_says roster member (\<lambda>c. other \<in> set (complements (composition c)))) members) members)
         (reason ''redundant_substitution_group'' (row_unit row) [] group))
       (fromkeys (filter (\<lambda>g. g \<noteq> []) (map (group_of roster) (selected row)))))"

text \<open>Units whose staffing counts as assurance of an earlier unit\<close>

definition assurance_artifacts :: "string list" where
  "assurance_artifacts = [''review-report'', ''test-evidence'']"

definition assurance_phases :: "string list" where
  "assurance_phases = [''review'', ''testing'', ''release'']"

definition is_assurance :: "work_unit \<Rightarrow> unit_recruitment \<Rightarrow> bool" where
  "is_assurance u row = (unit_authority u = ''review'' \<and> artifact_kind u \<in> set assurance_artifacts
     \<and> lifecycle_phase u \<in> set assurance_phases \<and> timing row = ''after_artifact'')"

definition downstream_assurance :: "work_unit_plan \<Rightarrow> unit_recruitment \<Rightarrow> unit_recruitment
    \<Rightarrow> string list res" where
  "downstream_assurance plan row candidate =
     (if selected candidate = [] then Inr []
      else bind_res (ancestors plan (row_unit candidate)) (\<lambda>before.
        if row_unit row \<notin> before then Inr []
        else bind_res (dict_get (units_by_id plan) (row_unit candidate)) (\<lambda>u.
          Inr (if is_assurance u candidate then selected candidate else []))))"

definition row_composition :: "work_unit_plan \<Rightarrow> recruiter_proposal \<Rightarrow> roster \<Rightarrow> staffing_context
    \<Rightarrow> unit_recruitment \<Rightarrow> abstention_reason list res" where
  "row_composition plan p roster ctx row =
     (let by_unit = selected_by_unit p; contexts = contexts_by_unit p in
      bind_res (dict_get contexts (row_unit row)) (\<lambda>binding.
      if map fst binding \<noteq> selected row \<or> length binding \<noteq> length (row_contexts row)
      then Inr [reason ''context_binding_mismatch'' (row_unit row) [] []]
      else
        let shared = only_if (delivery row = ''delegate''
              \<and> card (set (map snd binding)) \<noteq> length binding)
              (reason ''delegated_context_not_distinct'' (row_unit row) [] []) in
        bind_res (ancestors plan (row_unit row)) (\<lambda>ancestor_units.
        bind_res (ancestor_agents_of by_unit ancestor_units) (\<lambda>ancestor_agents.
        bind_res (concat_res (downstream_assurance plan row) (proposal_rows p)) (\<lambda>downstream.
        let required_agents = set (selected row) \<union> ancestor_agents \<union> set downstream in
        bind_res (concat_res (agent_composition row binding ancestor_units ancestor_agents
            required_agents by_unit contexts roster ctx) (selected row)) (\<lambda>agents.
        Inr (shared @ agents @ substitution_reasons row roster)))))))"

definition check_composition :: "work_unit_plan \<Rightarrow> recruiter_proposal \<Rightarrow> roster \<Rightarrow> staffing_context
    \<Rightarrow> abstention_reason list res" where
  "check_composition plan p roster ctx = concat_res (row_composition plan p roster ctx) (proposal_rows p)"


section \<open>Assurance, reviewer reuse and budgets\<close>

definition context_ids :: "unit_recruitment \<Rightarrow> string set" where
  "context_ids row = set (map ctx_id (row_contexts row))"

definition independence_classes :: "roster \<Rightarrow> unit_recruitment \<Rightarrow> string set" where
  "independence_classes roster row = set (filter (\<lambda>k. k \<noteq> [])
     (map (\<lambda>a. case map_of roster a of None \<Rightarrow> [] | Some c \<Rightarrow> independence_class (composition c))
       (selected row)))"

definition independent_rows :: "roster \<Rightarrow> unit_recruitment \<Rightarrow> unit_recruitment \<Rightarrow> bool" where
  "independent_rows roster row source = (set (selected row) \<inter> set (selected source) = {}
     \<and> context_ids row \<inter> context_ids source = {}
     \<and> independence_classes roster row \<inter> independence_classes roster source = {})"

definition has_assurance :: "string \<Rightarrow> work_unit_plan \<Rightarrow> recruiter_proposal \<Rightarrow> roster \<Rightarrow> bool res" where
  "has_assurance source_id plan p roster =
     (case find (\<lambda>row. row_unit row = source_id) (proposal_rows p) of
        None \<Rightarrow> Inl StopIteration
      | Some source \<Rightarrow> any_res (\<lambda>row.
          bind_res (dict_get (units_by_id plan) (row_unit row)) (\<lambda>u.
          bind_res (ancestors plan (unit_id u)) (\<lambda>before.
          Inr (source_id \<in> before \<and> is_assurance u row \<and> independent_rows roster row source))))
          (proposal_rows p))"

definition needs_assurance :: "work_unit \<Rightarrow> bool" where
  "needs_assurance u = (unit_authority u = ''modify'' \<and> (mutation_scope u \<noteq> ''read_only''
     \<or> claims u \<noteq> [] \<and> artifact_kind u \<in> {''implementation-change'', ''test-code''}))"

definition check_assurance :: "work_unit_plan \<Rightarrow> recruiter_proposal \<Rightarrow> roster \<Rightarrow> abstention_reason list res" where
  "check_assurance plan p roster = concat_res (\<lambda>u.
     if \<not> needs_assurance u then Inr []
     else bind_res (has_assurance (unit_id u) plan p roster) (\<lambda>assured.
       Inr (only_if (\<not> assured) (reason ''independent_assurance_missing'' (unit_id u) [] []))))
     (plan_units plan)"

text \<open>\<open>reviewed_by_agent.setdefault(agent, name)\<close> over the reviewed units in sorted order\<close>

definition reviewed_agents :: "(string \<times> unit_recruitment) list \<Rightarrow> string set
    \<Rightarrow> (string \<times> string) list res" where
  "reviewed_agents rows before =
     bind_res (concat_res (\<lambda>name. bind_res (dict_get rows name) (\<lambda>row.
         Inr (map (\<lambda>a. (a, name)) (selected row)))) (sorted_list_of_set before)) (\<lambda>pairs.
       Inr (fold (\<lambda>(a, name) d. if map_of d a = None then d @ [(a, name)] else d) pairs []))"

definition row_reuse :: "work_unit_plan \<Rightarrow> recruiter_proposal \<Rightarrow> roster \<Rightarrow> staffing_context
    \<Rightarrow> (string \<times> string list) list \<Rightarrow> staffing_budget \<Rightarrow> unit_recruitment
    \<Rightarrow> abstention_reason list res" where
  "row_reuse plan p roster ctx executable_by_unit budget row =
     bind_res (dict_get (units_by_id plan) (row_unit row)) (\<lambda>u.
     if selected row = [] \<or> \<not> is_assurance u row then Inr []
     else
       bind_res (ancestors plan (row_unit row)) (\<lambda>before.
       bind_res (reviewed_agents (dict_of (map (\<lambda>r. (row_unit r, r)) (proposal_rows p))) before) (\<lambda>reviewed.
       let shared = filter (\<lambda>a. map_of reviewed a \<noteq> None) (selected row) in
       if shared = [] then Inr []
       else
         let candidates = filter (\<lambda>a. map_of reviewed a = None)
               (get_or executable_by_unit (row_unit row) []) in
         bind_res (minimum_team u candidates roster (max_selected_per_unit budget)
             (set (waived_tokens u roster ctx))) (\<lambda>independent.
         Inr (if independent = [] then []
           else map (\<lambda>a. reason ''review_reviewer_reused'' (row_unit row) a (get_or reviewed a []))
             shared)))))"

definition check_reuse :: "work_unit_plan \<Rightarrow> recruiter_proposal \<Rightarrow> roster \<Rightarrow> staffing_context
    \<Rightarrow> (string \<times> string list) list \<Rightarrow> staffing_budget \<Rightarrow> abstention_reason list res" where
  "check_reuse plan p roster ctx executable_by_unit budget =
     concat_res (row_reuse plan p roster ctx executable_by_unit budget) (proposal_rows p)"

definition selected_total :: "(unit_recruitment \<Rightarrow> bool) \<Rightarrow> unit_recruitment list \<Rightarrow> int" where
  "selected_total P rows = sum_list (map (\<lambda>row. int (length (selected row))) (filter P rows))"

definition row_budget :: "staffing_budget \<Rightarrow> unit_recruitment \<Rightarrow> abstention_reason list" where
  "row_budget budget row =
     only_if (int (length (selected row)) > max_selected_per_unit budget)
       (reason ''unit_agent_budget_exceeded'' (row_unit row) [] [])
     @ only_if (selected row \<noteq> [] \<and> confidence row < min_confidence budget)
       (reason ''selection_confidence_too_low'' (row_unit row) [] [])
     @ only_if (selected row \<noteq> [] \<and> margin row < min_margin budget)
       (reason ''selection_margin_too_low'' (row_unit row) [] [])"

definition check_budgets :: "work_unit_plan \<Rightarrow> recruiter_proposal \<Rightarrow> staffing_budget \<Rightarrow> abstention_reason list" where
  "check_budgets plan p budget =
     only_if (int (length (plan_units plan)) > max_work_units_allowed budget)
       (reason ''work_unit_budget_exceeded'' [] [] [])
     @ only_if (selected_total (\<lambda>_. True) (proposal_rows p) > max_selected_total budget)
       (reason ''selected_agent_budget_exceeded'' [] [] [])
     @ only_if (selected_total (\<lambda>row. delivery row = ''load'') (proposal_rows p) > max_loaded budget)
       (reason ''loaded_agent_budget_exceeded'' [] [] [])
     @ only_if (selected_total (\<lambda>row. delivery row = ''delegate'') (proposal_rows p) > max_delegated budget)
       (reason ''delegated_agent_budget_exceeded'' [] [] [])
     @ concat (map (row_budget budget) (proposal_rows p))"


section \<open>The verifier\<close>

definition abstained_reasons :: "unit_recruitment \<Rightarrow> abstention_reason list" where
  "abstained_reasons row =
     (if selected row \<noteq> [] then []
      else map (reason ''recruiter_abstained'' (row_unit row) [])
        (if row_abstention row = [] then [''no_safe_candidate''] else row_abstention row))"

text \<open>What the loop over the units does for one unit: the executable ranking and the reasons.\<close>

definition check_row :: "roster \<Rightarrow> staffing_context \<Rightarrow> staffing_budget \<Rightarrow> work_unit \<Rightarrow> unit_recruitment
    \<Rightarrow> abstention_reason list res" where
  "check_row roster ctx budget u row =
     bind_res (check_selection u row roster (executable_ids u row roster ctx) ctx budget) (\<lambda>(team, choice).
       Inr (check_ranking u row roster ctx @ choice @ check_shadows u row roster ctx team
         @ abstained_reasons row))"

text \<open>\<open>zip(plan.units, proposal.units, strict=True)\<close>: a length mismatch raises once the shorter
  list is used up.\<close>

fun check_rows :: "roster \<Rightarrow> staffing_context \<Rightarrow> staffing_budget \<Rightarrow> work_unit list
    \<Rightarrow> unit_recruitment list \<Rightarrow> abstention_reason list res" where
  "check_rows roster ctx budget [] [] = Inr []"
| "check_rows roster ctx budget (u # us) (row # rows) =
     bind_res (check_row roster ctx budget u row) (\<lambda>here.
     bind_res (check_rows roster ctx budget us rows) (\<lambda>later. Inr (here @ later)))"
| "check_rows roster ctx budget [] (row # rows) =
     Inl (ValueError ''zip() argument 2 is longer than argument 1'')"
| "check_rows roster ctx budget (u # us) [] =
     Inl (ValueError ''zip() argument 2 is shorter than argument 1'')"

definition executable_map :: "work_unit_plan \<Rightarrow> recruiter_proposal \<Rightarrow> roster \<Rightarrow> staffing_context
    \<Rightarrow> (string \<times> string list) list" where
  "executable_map plan p roster ctx = dict_of (map (\<lambda>(u, row).
     (row_unit row, executable_ids u row roster ctx)) (zip (plan_units plan) (proposal_rows p)))"

definition verified_row :: "unit_recruitment \<Rightarrow> verified_unit" where
  "verified_row row = \<lparr>verified_unit_id = row_unit row, verified_selected = selected row,
     verified_delivery = delivery row, verified_timing = timing row,
     verified_contexts = map (\<lambda>b. (ctx_agent b, ctx_id b)) (row_contexts row),
     verified_disabled = disabled_shadows row, verified_unavailable = unavailable_shadows row\<rparr>"

definition decide :: "recruiter_proposal \<Rightarrow> abstention_reason list \<Rightarrow> staffing_decision" where
  "decide p reasons =
     (let fatal = filter (\<lambda>r. reason_code r \<notin> set advisory_staffing_codes) reasons;
          fully_staffed = list_all (\<lambda>row. selected row \<noteq> []) (proposal_rows p)
      in if fatal \<noteq> [] \<or> \<not> fully_staffed
         then \<lparr>decision_status = ''abstained'', decision_units = [], decision_reasons = reasons\<rparr>
         else \<lparr>decision_status = ''accepted'',
           decision_units = map verified_row (proposal_rows p), decision_reasons = reasons\<rparr>)"

text \<open>Every reason in the order the code reports it.\<close>

definition all_reasons :: "work_unit_plan \<Rightarrow> recruiter_proposal \<Rightarrow> workforce_contract list
    \<Rightarrow> staffing_context \<Rightarrow> staffing_budget \<Rightarrow> bool \<Rightarrow> abstention_reason list res" where
  "all_reasons plan p contracts ctx budget explicit_indivisible_unit =
     (let roster = roster_of contracts;
          stale = only_if (proposal_plan_hash p \<noteq> plan_hash plan) (reason ''plan_hash_mismatch'' [] [] [])
      in
      bind_res (check_snapshot p contracts ctx) (\<lambda>snapshot.
      bind_res (check_rows roster ctx budget (plan_units plan) (proposal_rows p)) (\<lambda>rows.
      bind_res (check_composition plan p roster ctx) (\<lambda>composed.
      bind_res (if explicit_indivisible_unit \<and> length (plan_units plan) = 1 then Inr []
        else bind_res (check_assurance plan p roster) (\<lambda>assured.
          bind_res (check_reuse plan p roster ctx (executable_map plan p roster ctx) budget) (\<lambda>reused.
          Inr (assured @ reused)))) (\<lambda>independent.
      Inr (stale @ snapshot @ rows @ composed @ independent @ check_budgets plan p budget))))))"

definition verify_staffing :: "work_unit_plan \<Rightarrow> recruiter_proposal \<Rightarrow> workforce_contract list
    \<Rightarrow> staffing_context \<Rightarrow> staffing_budget option \<Rightarrow> bool \<Rightarrow> staffing_decision res" where
  "verify_staffing plan p contracts ctx budget explicit_indivisible_unit =
     (let active = (case budget of None \<Rightarrow> default_budget | Some b \<Rightarrow> b) in
      bind_res (all_reasons plan p contracts ctx active explicit_indivisible_unit) (\<lambda>emitted.
        Inr (decide p (report [] emitted))))"

end
