(* ===== verification/Staff_Order.thy ===== *)
theory Staff_Order
  imports Staff_Verify
begin

text \<open>
  Dependencies between work units: \<open>_ancestors\<close> of \<open>core/workforce/staffing_verifier.py\<close>
  computes the transitive closure of \<open>depends_on\<close>, and on a parsed plan it never fails and
  never leads back to the unit it starts from.
\<close>

section \<open>A worklist search\<close>

text \<open>What any such loop computes: the values reachable from the pending ones, whatever the
  order they are taken in, provided that everything found has its successors found or pending.\<close>

locale worklist =
  fixes succ :: "'a \<Rightarrow> 'a set" and result :: "'a set \<Rightarrow> 'a list \<Rightarrow> 'a set \<Rightarrow> bool"
  assumes result_closed: "result found pending S \<Longrightarrow> \<forall>x\<in>found. succ x \<subseteq> found \<union> set pending
      \<Longrightarrow> found \<union> set pending \<subseteq> S \<and> (\<forall>x\<in>S. succ x \<subseteq> S)"
    and result_sound: "result found pending S \<Longrightarrow>
      S \<subseteq> found \<union> {(x, y). y \<in> succ x}\<^sup>* `` set pending"
begin

lemma result_reachable:
  assumes "result {} pending S"
  shows "S = {(x, y). y \<in> succ x}\<^sup>* `` set pending"
proof
  show "S \<subseteq> {(x, y). y \<in> succ x}\<^sup>* `` set pending" using result_sound [OF assms] by simp
  have start: "set pending \<subseteq> S" and closed: "\<forall>x\<in>S. succ x \<subseteq> S"
    using result_closed [OF assms] by auto
  have "y \<in> S" if "(x, y) \<in> {(x, y). y \<in> succ x}\<^sup>*" "x \<in> S" for x y
    using that by (induction rule: rtrancl_induct) (use closed in auto)
  with start show "{(x, y). y \<in> succ x}\<^sup>* `` set pending \<subseteq> S" by auto
qed

end


section \<open>Ancestors of a unit\<close>

definition depends :: "(string \<times> work_unit) list \<Rightarrow> string \<Rightarrow> string set" where
  "depends units a = (case map_of units a of None \<Rightarrow> {} | Some u \<Rightarrow> set (depends_on u))"

lemma ancestors_loop_closed:
  "ancestors_loop units found pending = Inr S \<Longrightarrow> \<forall>x\<in>found. depends units x \<subseteq> found \<union> set pending
    \<Longrightarrow> found \<union> set pending \<subseteq> S \<and> (\<forall>x\<in>S. depends units x \<subseteq> S)"
proof (induction units found pending rule: ancestors_loop.induct)
  case (1 units found pending)
  show ?case
  proof (cases "pending = []")
    case True
    with "1.prems" show ?thesis by (auto simp: ancestors_loop.simps [of units found])
  next
    case False
    note split = snoc_pending [OF False]
    show ?thesis
    proof (cases "last pending \<in> found")
      case True
      with False "1.prems" have "ancestors_loop units found (butlast pending) = Inr S"
        by (simp add: ancestors_loop.simps [of units found pending] Let_def)
      with 1(1) [OF False refl refl True] "1.prems"(2) True split show ?thesis by auto
    next
      case new: False
      with False "1.prems"(1) obtain u where u: "dict_get units (last pending) = Inr u"
        and step: "ancestors_loop units (insert (last pending) found) (butlast pending @ depends_on u) = Inr S"
        by (auto simp: ancestors_loop.simps [of units found pending] bind_res_Inr_iff Let_def)
      have "depends units (last pending) = set (depends_on u)"
        using u by (simp add: depends_def dict_get_Inr_iff)
      moreover from this have "\<forall>x\<in>insert (last pending) found.
          depends units x \<subseteq> insert (last pending) found \<union> set (butlast pending @ depends_on u)"
        using "1.prems"(2) split by auto
      ultimately show ?thesis using 1(2) [OF False refl refl new u step] split by auto
    qed
  qed
qed

lemma subset_step:
  "S \<subseteq> insert l F \<union> (B \<union> D) \<Longrightarrow> D \<subseteq> L \<Longrightarrow> l \<in> L \<Longrightarrow> P = L \<union> B \<Longrightarrow> S \<subseteq> F \<union> P"
  by blast

lemma ancestors_loop_sound:
  "ancestors_loop units found pending = Inr S \<Longrightarrow>
     S \<subseteq> found \<union> {(x, y). y \<in> depends units x}\<^sup>* `` set pending"
proof (induction units found pending rule: ancestors_loop.induct)
  case (1 units found pending)
  let ?R = "{(x, y). y \<in> depends units x}"
  show ?case
  proof (cases "pending = []")
    case True
    with "1.prems" show ?thesis by (auto simp: ancestors_loop.simps [of units found])
  next
    case False
    note split = snoc_pending [OF False]
    show ?thesis
    proof (cases "last pending \<in> found")
      case True
      with False "1.prems" have "ancestors_loop units found (butlast pending) = Inr S"
        by (simp add: ancestors_loop.simps [of units found pending] Let_def)
      with 1(1) [OF False refl refl True] split show ?thesis by auto
    next
      case new: False
      with False "1.prems"(1) obtain u where u: "dict_get units (last pending) = Inr u"
        and step: "ancestors_loop units (insert (last pending) found) (butlast pending @ depends_on u) = Inr S"
        by (auto simp: ancestors_loop.simps [of units found pending] bind_res_Inr_iff Let_def)
      have "set (depends_on u) \<subseteq> ?R `` {last pending}"
        using u by (auto simp: depends_def dict_get_Inr_iff)
      then have "?R\<^sup>* `` set (depends_on u) \<subseteq> ?R\<^sup>* `` {last pending}"
        by (auto intro: converse_rtrancl_into_rtrancl)
      moreover have "last pending \<in> ?R\<^sup>* `` {last pending}" by simp
      moreover have "?R\<^sup>* `` set pending = ?R\<^sup>* `` {last pending} \<union> ?R\<^sup>* `` set (butlast pending)"
        unfolding split by blast
      moreover have "S \<subseteq> insert (last pending) found
          \<union> (?R\<^sup>* `` set (butlast pending) \<union> ?R\<^sup>* `` set (depends_on u))"
        using 1(2) [OF False refl refl new u step] by (simp add: Image_Un)
      ultimately show ?thesis using subset_step by metis
    qed
  qed
qed

interpretation dependency_search: worklist "depends units"
    "\<lambda>found pending S. ancestors_loop units found pending = Inr S" for units
  by unfold_locales (use ancestors_loop_closed ancestors_loop_sound in blast)+

lemma ancestors_closure:
  assumes "ancestors plan uid = Inr S"
  shows "S = {b. (uid, b) \<in> {(x, y). y \<in> depends (units_by_id plan) x}\<^sup>+}"
proof -
  from assms obtain u where u: "map_of (units_by_id plan) uid = Some u"
    and loop: "ancestors_loop (units_by_id plan) {} (depends_on u) = Inr S"
    by (auto simp: ancestors_def Let_def bind_res_Inr_iff dict_get_Inr_iff)
  have "set (depends_on u) = {(x, y). y \<in> depends (units_by_id plan) x} `` {uid}"
    using u by (auto simp: depends_def)
  then show ?thesis
    using dependency_search.result_reachable [OF loop] by (auto simp: trancl_unfold_left)
qed

lemma ancestors_loop_total:
  "\<forall>x. depends units x \<subseteq> fst ` set units \<Longrightarrow> set pending \<subseteq> fst ` set units \<Longrightarrow>
     \<exists>S. ancestors_loop units found pending = Inr S"
proof (induction units found pending rule: ancestors_loop.induct)
  case (1 units found pending)
  show ?case
  proof (cases "pending = []")
    case True
    then show ?thesis by (simp add: ancestors_loop.simps [of units found])
  next
    case False
    note split = snoc_pending [OF False]
    show ?thesis
    proof (cases "last pending \<in> found")
      case True
      with False 1(1) [OF False refl refl True] "1.prems" split show ?thesis
        by (simp add: ancestors_loop.simps [of units found pending] Let_def)
    next
      case new: False
      from "1.prems"(2) split obtain u where u: "dict_get units (last pending) = Inr u"
        by (metis dict_get_Some insert_subset map_of_eq_None_iff not_Some_eq)
      then have "set (depends_on u) = depends units (last pending)"
        by (simp add: depends_def dict_get_Inr_iff)
      with 1(2) [OF False refl refl new u] "1.prems" split False new u show ?thesis
        by (simp add: ancestors_loop.simps [of units found pending] Let_def)
    qed
  qed
qed


section \<open>On parsed plans\<close>

lemma map_of_units:
  assumes "units_ok (plan_units plan)" and "u \<in> set (plan_units plan)"
  shows "map_of (units_by_id plan) (unit_id u) = Some u"
proof -
  have "distinct (map fst (map (\<lambda>u. (unit_id u, u)) (plan_units plan)))"
    using assms(1) by (simp add: units_ok_def comp_def)
  with assms(2) show ?thesis
    by (simp add: units_by_id_def dict_of_distinct map_of_is_SomeI)
qed

lemma units_by_id_keys [simp]: "fst ` set (units_by_id plan) = unit_id ` set (plan_units plan)"
  by (simp add: units_by_id_def image_image)

lemma map_of_units_Some:
  "map_of (units_by_id plan) a = Some u \<Longrightarrow> u \<in> set (plan_units plan) \<and> unit_id u = a"
  using dict_of_set [of "map (\<lambda>u. (unit_id u, u)) (plan_units plan)"]
  by (auto simp: units_by_id_def dest!: map_of_SomeD)

lemma unit_deps_earlier:
  assumes "units_ok (plan_units plan)" and "i < length (plan_units plan)"
    and "d \<in> set (depends_on (plan_units plan ! i))"
  shows "\<exists>j<i. unit_id (plan_units plan ! j) = d"
proof -
  have "d \<in> unit_id ` set (take i (plan_units plan))"
    using deps_ok_earlier [of "{}" "plan_units plan" i d] assms by (auto simp: units_ok_def)
  then obtain u where "u \<in> set (take i (plan_units plan))" "unit_id u = d" by auto
  then show ?thesis by (fastforce simp: in_set_conv_nth)
qed

lemma depends_known:
  assumes "units_ok (plan_units plan)"
  shows "depends (units_by_id plan) a \<subseteq> unit_id ` set (plan_units plan)"
proof
  fix d assume d: "d \<in> depends (units_by_id plan) a"
  then obtain u where "map_of (units_by_id plan) a = Some u" and dep: "d \<in> set (depends_on u)"
    by (auto simp: depends_def split: option.splits)
  then have "u \<in> set (plan_units plan)" using map_of_units_Some by blast
  then obtain i where i: "i < length (plan_units plan)" "plan_units plan ! i = u"
    by (auto simp: in_set_conv_nth)
  then obtain j where "j < i" "unit_id (plan_units plan ! j) = d"
    using unit_deps_earlier [OF assms i(1)] dep by auto
  with i(1) show "d \<in> unit_id ` set (plan_units plan)" by (auto simp: image_iff)
qed

lemma ancestors_total:
  assumes "units_ok (plan_units plan)" and "uid \<in> unit_id ` set (plan_units plan)"
  shows "\<exists>S. ancestors plan uid = Inr S \<and> S \<subseteq> unit_id ` set (plan_units plan)"
proof -
  obtain u where u: "map_of (units_by_id plan) uid = Some u"
    using assms(2) by (metis map_of_eq_None_iff not_Some_eq units_by_id_keys)
  then have "depends (units_by_id plan) uid = set (depends_on u)" by (simp add: depends_def)
  then obtain S where loop: "ancestors_loop (units_by_id plan) {} (depends_on u) = Inr S"
    using ancestors_loop_total [of "units_by_id plan" "depends_on u" "{}"] depends_known [OF assms(1)]
    by (metis units_by_id_keys)
  then have S: "ancestors plan uid = Inr S" by (simp add: ancestors_def u)
  moreover have "(uid, b) \<in> {(x, y). y \<in> depends (units_by_id plan) x}\<^sup>+
      \<Longrightarrow> b \<in> unit_id ` set (plan_units plan)" for b
    by (erule tranclE) (use depends_known [OF assms(1)] in auto)
  ultimately show ?thesis using ancestors_closure [OF S] by auto
qed

text \<open>Ancestors come earlier in the plan.\<close>

lemma ancestors_earlier:
  assumes "units_ok (plan_units plan)" and "i < length (plan_units plan)"
    and "(unit_id (plan_units plan ! i), b) \<in> {(x, y). y \<in> depends (units_by_id plan) x}\<^sup>+"
  shows "\<exists>j<i. unit_id (plan_units plan ! j) = b"
  using assms(3)
proof (induction rule: trancl_induct)
  case (base y)
  then show ?case
    using unit_deps_earlier [OF assms(1,2)] map_of_units [OF assms(1) nth_mem [OF assms(2)]]
    by (auto simp: depends_def)
next
  case (step y z)
  then obtain j where j: "j < i" "unit_id (plan_units plan ! j) = y" by auto
  then have "j < length (plan_units plan)" using assms(2) by simp
  moreover from this have "z \<in> set (depends_on (plan_units plan ! j))"
    using step.hyps(2) j(2) map_of_units [OF assms(1) nth_mem] by (auto simp: depends_def)
  ultimately obtain k where "k < j" "unit_id (plan_units plan ! k) = z"
    using unit_deps_earlier [OF assms(1)] by blast
  with j(1) show ?case by (metis order.strict_trans)
qed

lemma ancestors_acyclic:
  assumes "units_ok (plan_units plan)" and "ancestors plan uid = Inr S"
  shows "uid \<notin> S"
proof
  assume "uid \<in> S"
  then have loop: "(uid, uid) \<in> {(x, y). y \<in> depends (units_by_id plan) x}\<^sup>+"
    using ancestors_closure [OF assms(2)] by simp
  obtain u where "map_of (units_by_id plan) uid = Some u"
    using assms(2) by (auto simp: ancestors_def Let_def bind_res_Inr_iff dict_get_Inr_iff)
  then obtain i where i: "i < length (plan_units plan)" "unit_id (plan_units plan ! i) = uid"
    using map_of_units_Some by (metis in_set_conv_nth)
  obtain j where j: "j < i" "unit_id (plan_units plan ! j) = uid"
    using ancestors_earlier [OF assms(1) i(1)] loop i(2) by blast
  with i have "map unit_id (plan_units plan) ! j = map unit_id (plan_units plan) ! i" by simp
  moreover have "distinct (map unit_id (plan_units plan))" using assms(1) by (simp add: units_ok_def)
  ultimately show False using i(1) j(1) by (simp only: nth_eq_iff_index_eq length_map)
qed

end
