(* ===== verification/Staff_Sound.thy ===== *)
theory Staff_Sound
  imports Staff_Order
begin

text \<open>
  What an accepted staffing decision guarantees. A list of reasons is \<open>quiet\<close> when every code
  in it is advisory; each check of the verifier is quiet exactly when the declarative condition
  given here holds, and the decision is accepted exactly when all checks are quiet and every
  row is staffed.
\<close>

section \<open>Quiet checks\<close>

definition quiet :: "abstention_reason list \<Rightarrow> bool" where
  "quiet es = (\<forall>r\<in>set es. reason_code r \<in> set advisory_staffing_codes)"

named_theorems quiet_simps "when the reasons of a check are all advisory"

lemma quiet_Nil [simp]: "quiet []"
  by (simp add: quiet_def)

lemma quiet_append [simp]: "quiet (xs @ ys) \<longleftrightarrow> quiet xs \<and> quiet ys"
  by (auto simp: quiet_def)

lemma quiet_concat: "quiet (concat xss) \<longleftrightarrow> (\<forall>xs\<in>set xss. quiet xs)"
  by (auto simp: quiet_def)

lemma quiet_only_if [simp]:
  "quiet (only_if b (reason code uid a detail)) \<longleftrightarrow> code \<in> set advisory_staffing_codes \<or> \<not> b"
  by (auto simp: quiet_def reason_def)

lemma quiet_map [simp]:
  "quiet (map (\<lambda>x. reason code (f x) (g x) (h x)) xs) \<longleftrightarrow> code \<in> set advisory_staffing_codes \<or> xs = []"
  by (cases xs) (auto simp: quiet_def reason_def)

lemma quiet_single [simp]:
  "quiet [reason code uid a detail] \<longleftrightarrow> code \<in> set advisory_staffing_codes"
  by (simp add: quiet_def reason_def)

lemma advisory_iff: "code \<in> set advisory_staffing_codes \<longleftrightarrow>
    code = ''independent_assurance_missing'' \<or> code = ''roster_coverage_gap''"
  by (simp add: advisory_staffing_codes_def)

lemma sorted_list_of_set_Nil_iff: "finite A \<Longrightarrow> sorted_list_of_set A = [] \<longleftrightarrow> A = {}"
  by (metis sorted_list_of_set.set_sorted_key_list_of_set set_empty)

lemma set_report [simp]: "set (report reasons es) = set reasons \<union> set es"
  by (induction es arbitrary: reasons) (auto simp: report_def)

lemma distinct_report: "distinct reasons \<Longrightarrow> distinct (report reasons es)"
  by (induction es arbitrary: reasons) (simp_all add: report_def)

lemma decide_accepted_iff:
  "accepted (decide p reasons) \<longleftrightarrow> quiet reasons \<and> (\<forall>row\<in>set (proposal_rows p). selected row \<noteq> [])"
  by (auto simp: decide_def accepted_def quiet_def Let_def filter_empty_conv list_all_iff)

lemma quiet_report [simp]: "quiet (report [] es) = quiet es"
  by (simp add: quiet_def)


subsection \<open>Snapshot\<close>

definition snapshot_bound :: "recruiter_proposal \<Rightarrow> workforce_contract list \<Rightarrow> staffing_context \<Rightarrow> bool" where
  "snapshot_bound p contracts ctx =
     (workforce_index_fingerprint contracts = Inr (proposal_fingerprint p)
       \<and> proposal_count p = int (length contracts) \<and> proposal_generation p = roster_generation ctx)"

lemma duplicate_agents_Nil_iff:
  "duplicate_agents seen cs = [] \<longleftrightarrow> distinct (map agent_id cs) \<and> seen \<inter> agent_id ` set cs = {}"
  by (induction seen cs rule: duplicate_agents.induct) auto

lemma fingerprint_Inl: "workforce_index_fingerprint cs = Inl e \<Longrightarrow> \<exists>m. e = ValueError m"
proof -
  have rel: "check_relationships self known fs = Inl e \<Longrightarrow> \<exists>m. e = ValueError m" for self known fs
    by (induction self known fs rule: check_relationships.induct) (auto split: if_splits)
  have "check_contracts known ds = Inl e \<Longrightarrow> \<exists>m. e = ValueError m" for known ds
    by (induction known ds rule: check_contracts.induct)
      (auto simp: bind_res_Inl_iff dest: rel split: if_splits)
  then show "workforce_index_fingerprint cs = Inl e \<Longrightarrow> \<exists>m. e = ValueError m"
    by (auto simp: workforce_index_fingerprint_def Let_def bind_res_Inl_iff split: if_splits)
qed

lemma check_snapshot_total: "\<exists>es. check_snapshot p contracts ctx = Inr es"
  using fingerprint_Inl [of contracts]
  by (auto simp: check_snapshot_def Let_def split: sum.splits py_error.splits)

lemma check_snapshot_quiet:
  "check_snapshot p contracts ctx = Inr es \<Longrightarrow> quiet es \<longleftrightarrow> snapshot_bound p contracts ctx"
proof -
  have "duplicate_agents {} contracts = []" if "workforce_index_fingerprint contracts = Inr fp" for fp
    using that by (simp add: fingerprint_Inr_iff index_ok_def duplicate_agents_Nil_iff)
  then show "check_snapshot p contracts ctx = Inr es \<Longrightarrow> ?thesis"
    by (auto simp: check_snapshot_def Let_def snapshot_bound_def advisory_iff
        split: sum.splits py_error.splits)
qed


subsection \<open>Ranking and selection\<close>

definition ranking_recomputed :: "work_unit \<Rightarrow> unit_recruitment \<Rightarrow> roster \<Rightarrow> staffing_context \<Rightarrow> bool" where
  "ranking_recomputed u row roster ctx =
     (rank_agent ` set (ranked_semantic row) \<subseteq> fst ` set roster
       \<and> signature_of (ranked_enabled row)
            = filtered_ranks (\<lambda>a. roster_says roster a enabled) 0 (ranked_semantic row)
       \<and> signature_of (ranked_executable row) = executable_ranks u row roster ctx)"

lemma check_ranking_quiet:
  "quiet (check_ranking u row roster ctx) \<longleftrightarrow> ranking_recomputed u row roster ctx"
  by (auto simp: check_ranking_def ranking_recomputed_def advisory_iff sorted_list_of_set_Nil_iff)

definition selection_sound :: "work_unit \<Rightarrow> unit_recruitment \<Rightarrow> roster \<Rightarrow> string list \<Rightarrow> bool" where
  "selection_sound u row roster executable =
     (set (required row @ acceptable row @ forbidden row @ selected row @ runner_up row) \<subseteq> fst ` set roster
       \<and> set (required row) \<subseteq> set (selected row)
       \<and> set (selected row) \<subseteq> set (required row) \<union> set (acceptable row)
       \<and> set (forbidden row) \<inter> set (selected row) = {}
       \<and> set (runner_up row) \<inter> (set (selected row) \<union> set (forbidden row)) = {}
       \<and> selected row \<noteq> []
       \<and> runner_up row = take (length (runner_up row))
            (filter (\<lambda>a. a \<notin> set (selected row)) executable))"

lemma check_selection_quiet:
  assumes "check_selection u row roster executable ctx budget = Inr (team, es)"
  shows "quiet es \<longleftrightarrow> selection_sound u row roster executable \<and> selected row = team
    \<and> forbidden row = expected_forbidden u row roster ctx"
proof -
  have es: "es = map (\<lambda>a. reason ''unknown_claimed_agent'' (unit_id u) a [])
            (sorted_list_of_set (set (required row @ acceptable row @ forbidden row @ selected row
               @ runner_up row) - set (map fst roster)))
          @ only_if (\<not> set (required row) \<subseteq> set (selected row))
              (reason ''required_agents_missing'' (unit_id u) [] [])
          @ only_if (\<not> set (selected row) \<subseteq> set (required row @ acceptable row))
              (reason ''selected_agents_outside_allowed_set'' (unit_id u) [] [])
          @ only_if (forbidden row \<noteq> expected_forbidden u row roster ctx)
              (reason ''forbidden_set_mismatch'' (unit_id u) [] [])
          @ only_if (set (forbidden row) \<inter> set (selected row) \<noteq> {})
              (reason ''forbidden_agent_selected'' (unit_id u) [] [])
          @ only_if (set (runner_up row) \<inter> (set (selected row) \<union> set (forbidden row)) \<noteq> {})
              (reason ''runner_up_set_invalid'' (unit_id u) [] [])
          @ map (\<lambda>token. reason ''roster_coverage_gap'' (unit_id u) [] token) (waived_tokens u roster ctx)
          @ only_if (selected row \<noteq> team)
              (reason ''selected_not_deterministic_minimum'' (unit_id u) [] [])
          @ only_if (team = []) (reason ''no_safe_sufficient_team'' (unit_id u) [] [])
          @ only_if (runner_up row \<noteq> take (length (runner_up row)) (filter (\<lambda>a. a \<notin> set team) executable))
              (reason ''runner_up_order_mismatch'' (unit_id u) [] [])"
    using assms unfolding check_selection_def Let_def bind_res_Inr_iff by blast
  have unknown: "sorted_list_of_set (A - set (map fst roster)) = [] \<longleftrightarrow> A \<subseteq> fst ` set roster"
    if "finite A" for A
    using that by (simp add: sorted_list_of_set_Nil_iff)
  show ?thesis
    unfolding es selection_sound_def quiet_append quiet_map quiet_only_if unknown [OF finite_set]
    by (simp only: advisory_iff set_append list.inject char.inject list.distinct not_False_eq_True
        simp_thms) blast
qed

lemma filtered_ranks_fst: "map fst (filtered_ranks P k rs) = filter P (map rank_agent rs)"
  by (induction P k rs rule: filtered_ranks.induct) auto

lemma executable_ids_eq:
  "executable_ids u row roster ctx = filter (is_executable u row roster ctx) (map rank_agent (ranked_semantic row))"
  by (simp add: executable_ids_def executable_ranks_def filtered_ranks_fst)

lemma roster_says_iff: "roster_says roster a P \<longleftrightarrow> (\<exists>c. map_of roster a = Some c \<and> P c)"
  by (simp add: roster_says_def split: option.splits)

lemma executable_known: "set (executable_ids u row roster ctx) \<subseteq> fst ` set roster"
  by (auto simp: executable_ids_eq is_executable_def roster_says_iff dest!: map_of_SomeD
      intro: rev_image_eqI)

lemma executable_may_work:
  "a \<in> set (executable_ids u row roster ctx) \<Longrightarrow>
     \<exists>c. map_of roster a = Some c \<and> may_work u c ctx \<and> a \<notin> set (forbidden row)"
  by (auto simp: executable_ids_eq is_executable_def roster_says_iff eligibility_Nil_iff)

lemma executable_distinct:
  "distinct (map rank_agent (ranked_semantic row)) \<Longrightarrow> distinct (executable_ids u row roster ctx)"
  by (simp add: executable_ids_eq)

lemma expected_team_exact:
  assumes "distinct (map rank_agent (ranked_semantic row))"
  shows "\<exists>team. expected_team u row roster (executable_ids u row roster ctx) ctx budget = Inr team
    \<and> smallest_team u roster (executable_ids u row roster ctx) (set (required row))
        (max_selected_per_unit budget) (set (waived_tokens u roster ctx)) team"
  unfolding expected_team_def
  by (rule minimum_team_exact [OF executable_known executable_distinct [OF assms]])

lemma check_shadows_quiet:
  "quiet (check_shadows u row roster ctx team) \<longleftrightarrow>
     shadow_signature_of (disabled_shadows row) = expected_shadows True u row roster ctx team
     \<and> shadow_signature_of (unavailable_shadows row) = expected_shadows False u row roster ctx team"
  by (simp add: check_shadows_def advisory_iff)


definition row_sound :: "roster \<Rightarrow> staffing_context \<Rightarrow> staffing_budget \<Rightarrow> work_unit \<Rightarrow> unit_recruitment \<Rightarrow> bool" where
  "row_sound roster ctx budget u row =
     (ranking_recomputed u row roster ctx
       \<and> selection_sound u row roster (executable_ids u row roster ctx)
       \<and> forbidden row = expected_forbidden u row roster ctx
       \<and> expected_team u row roster (executable_ids u row roster ctx) ctx budget = Inr (selected row)
       \<and> shadow_signature_of (disabled_shadows row) = expected_shadows True u row roster ctx (selected row)
       \<and> shadow_signature_of (unavailable_shadows row) = expected_shadows False u row roster ctx (selected row))"

lemma abstained_quiet: "quiet (abstained_reasons row) \<longleftrightarrow> selected row \<noteq> []"
  by (auto simp: abstained_reasons_def advisory_iff)

text \<open>The accepted team is determined: it is the one the search finds, hence a smallest one.\<close>

lemma row_sound_smallest:
  assumes "row_sound roster ctx budget u row" and "distinct (map rank_agent (ranked_semantic row))"
  shows "smallest_team u roster (executable_ids u row roster ctx) (set (required row))
      (max_selected_per_unit budget) (set (waived_tokens u roster ctx)) (selected row)"
  using expected_team_exact [OF assms(2), of u roster ctx budget] assms(1) by (auto simp: row_sound_def)

lemma check_row_quiet:
  assumes "check_row roster ctx budget u row = Inr es"
  shows "quiet es \<longleftrightarrow> row_sound roster ctx budget u row"
proof -
  let ?exec = "executable_ids u row roster ctx"
  obtain team choice where choice: "check_selection u row roster ?exec ctx budget = Inr (team, choice)"
    and es: "es = check_ranking u row roster ctx @ choice @ check_shadows u row roster ctx team
         @ abstained_reasons row"
    using assms by (auto simp: check_row_def bind_res_Inr_iff)
  have "expected_team u row roster ?exec ctx budget = Inr team"
    using choice by (auto simp: check_selection_def Let_def bind_res_Inr_iff)
  then show ?thesis
    using check_selection_quiet [OF choice]
    by (auto simp: es row_sound_def check_ranking_quiet check_shadows_quiet abstained_quiet selection_sound_def)
qed

lemma check_row_total:
  assumes "distinct (map rank_agent (ranked_semantic row))"
  shows "\<exists>es. check_row roster ctx budget u row = Inr es"
  using expected_team_exact [OF assms, of u roster ctx budget]
  by (auto simp: check_row_def check_selection_def Let_def)

lemma check_rows_quiet:
  assumes "check_rows roster ctx budget us rows = Inr es"
  shows "quiet es \<longleftrightarrow> list_all2 (row_sound roster ctx budget) us rows"
  using assms
proof (induction roster ctx budget us rows arbitrary: es rule: check_rows.induct)
  case (2 roster ctx budget u us row rows)
  then show ?case by (auto simp: bind_res_Inr_iff check_row_quiet)
qed simp_all

lemma check_rows_total:
  assumes "length us = length rows"
    and "\<forall>row\<in>set rows. distinct (map rank_agent (ranked_semantic row))"
  shows "\<exists>es. check_rows roster ctx budget us rows = Inr es"
  using assms
proof (induction us rows rule: list_induct2)
  case (Cons u us row rows)
  then show ?case using check_row_total [of row roster ctx budget u] by auto
qed simp

end
