(* ===== verification/Staff_Compose.thy ===== *)
theory Staff_Compose
  imports Staff_Sound
begin

text \<open>
  The composition checks of an accepted decision: dependencies between the selected workers,
  context separation and independent review, stated over the units before and after a unit.
  With one row per unit and a valid index no lookup of these checks can fail.
\<close>

section \<open>Composition on aligned proposals\<close>

text \<open>A parsed plan with a proposal that has one row per unit, in the plan's order.\<close>

definition aligned :: "work_unit_plan \<Rightarrow> recruiter_proposal \<Rightarrow> bool" where
  "aligned plan p = (units_ok (plan_units plan)
     \<and> map row_unit (proposal_rows p) = map unit_id (plan_units plan))"

lemma aligned_facts:
  assumes "aligned plan p"
  shows "units_ok (plan_units plan)" and "distinct (map row_unit (proposal_rows p))"
    and "row_unit ` set (proposal_rows p) = unit_id ` set (plan_units plan)"
    and "length (plan_units plan) = length (proposal_rows p)"
proof -
  have rows: "map row_unit (proposal_rows p) = map unit_id (plan_units plan)"
    and "units_ok (plan_units plan)"
    using assms by (auto simp: aligned_def)
  then show "units_ok (plan_units plan)" and "distinct (map row_unit (proposal_rows p))"
    by (simp_all add: units_ok_def)
  show "row_unit ` set (proposal_rows p) = unit_id ` set (plan_units plan)"
    using rows by (metis set_map)
  show "length (plan_units plan) = length (proposal_rows p)"
    using rows by (metis length_map)
qed

lemma dict_of_rows:
  assumes "distinct (map f rows)" and "row \<in> set rows"
  shows "map_of (dict_of (map (\<lambda>r. (f r, g r)) rows)) (f row) = Some (g row)"
proof -
  have "distinct (map fst (map (\<lambda>r. (f r, g r)) rows))" using assms(1) by (simp add: comp_def)
  with assms(2) show ?thesis by (simp add: dict_of_distinct map_of_is_SomeI)
qed

lemma dict_of_rows_Some:
  "map_of (dict_of (map (\<lambda>r. (f r, g r)) rows)) k = Some v \<Longrightarrow> \<exists>row\<in>set rows. f row = k \<and> g row = v"
  using dict_of_set [of "map (\<lambda>r. (f r, g r)) rows"] by (auto dest!: map_of_SomeD)

text \<open>The units before a unit and the workers selected on them.\<close>

definition before :: "work_unit_plan \<Rightarrow> string \<Rightarrow> string set" where
  "before plan uid = {b. (uid, b) \<in> {(x, y). y \<in> depends (units_by_id plan) x}\<^sup>+}"

definition upstream :: "work_unit_plan \<Rightarrow> recruiter_proposal \<Rightarrow> string \<Rightarrow> unit_recruitment set" where
  "upstream plan p uid = {r \<in> set (proposal_rows p). row_unit r \<in> before plan uid}"

definition upstream_agents :: "work_unit_plan \<Rightarrow> recruiter_proposal \<Rightarrow> string \<Rightarrow> string set" where
  "upstream_agents plan p uid = (\<Union>r\<in>upstream plan p uid. set (selected r))"

definition downstream_agents :: "work_unit_plan \<Rightarrow> recruiter_proposal \<Rightarrow> string \<Rightarrow> string set" where
  "downstream_agents plan p uid = (\<Union>r\<in>{r \<in> set (proposal_rows p). uid \<in> before plan (row_unit r)
       \<and> (\<exists>u\<in>set (plan_units plan). unit_id u = row_unit r \<and> is_assurance u r)}. set (selected r))"

definition context_of :: "unit_recruitment \<Rightarrow> string \<Rightarrow> string option" where
  "context_of row a = map_of (binding_of row) a"

text \<open>The selected worker \<open>a\<close> reviews \<open>t\<close> from another context and another independence class.\<close>

definition reviews_independently :: "work_unit_plan \<Rightarrow> recruiter_proposal \<Rightarrow> roster \<Rightarrow> unit_recruitment
    \<Rightarrow> composition_contract \<Rightarrow> string \<Rightarrow> string \<Rightarrow> bool" where
  "reviews_independently plan p roster row relation a t =
     (t \<in> upstream_agents plan p (row_unit row)
      \<and> (\<forall>r\<in>upstream plan p (row_unit row). t \<in> set (selected r)
            \<longrightarrow> get_or (binding_of r) t [] \<noteq> get_or (binding_of row) a [])
      \<and> (independence_class relation \<noteq> [] \<longrightarrow> (\<exists>c. map_of roster t = Some c
            \<and> independence_class (composition c) \<noteq> independence_class relation)))"

definition agent_composed :: "work_unit_plan \<Rightarrow> recruiter_proposal \<Rightarrow> roster \<Rightarrow> staffing_context
    \<Rightarrow> unit_recruitment \<Rightarrow> string \<Rightarrow> composition_contract \<Rightarrow> bool" where
  "agent_composed plan p roster ctx row a relation =
     ((delivery row = ''delegate'' \<longrightarrow> ''native-delegation'' \<in> available_tools ctx)
      \<and> set (selection_exclusive relation) \<inter> set (selected row) = {}
      \<and> set (requires_agents relation) \<subseteq> set (selected row) \<union> upstream_agents plan p (row_unit row)
            \<union> downstream_agents plan p (row_unit row)
      \<and> set (must_follow relation) \<subseteq> upstream_agents plan p (row_unit row)
      \<and> (\<forall>t\<in>set (same_context_conflicts relation). context_of row t \<noteq> None
            \<longrightarrow> context_of row t \<noteq> context_of row a)
      \<and> (\<forall>t\<in>set (must_review_independently relation).
            reviews_independently plan p roster row relation a t))"

definition row_composed :: "work_unit_plan \<Rightarrow> recruiter_proposal \<Rightarrow> roster \<Rightarrow> staffing_context
    \<Rightarrow> unit_recruitment \<Rightarrow> bool" where
  "row_composed plan p roster ctx row =
     (map ctx_agent (row_contexts row) = selected row \<and> distinct (selected row)
      \<and> (delivery row = ''delegate'' \<longrightarrow> distinct (map ctx_id (row_contexts row)))
      \<and> (\<forall>a\<in>set (selected row). \<forall>c. map_of roster a = Some c
            \<longrightarrow> agent_composed plan p roster ctx row a (composition c))
      \<and> (\<forall>a\<in>set (selected row). \<forall>b\<in>set (selected row). a \<noteq> b \<longrightarrow> group_of roster a \<noteq> []
            \<longrightarrow> group_of roster a = group_of roster b
            \<longrightarrow> (\<exists>c. map_of roster a = Some c \<and> b \<in> set (complements (composition c)))))"



section \<open>Each check against its condition\<close>

lemma concat_res_quiet:
  assumes "concat_res f xs = Inr es"
  shows "quiet es \<longleftrightarrow> (\<forall>x\<in>set xs. \<forall>zs. f x = Inr zs \<longrightarrow> quiet zs)"
proof
  assume "quiet es"
  then show "\<forall>x\<in>set xs. \<forall>zs. f x = Inr zs \<longrightarrow> quiet zs"
    using concat_res_set' [OF assms] by (fastforce simp: quiet_def)
next
  assume "\<forall>x\<in>set xs. \<forall>zs. f x = Inr zs \<longrightarrow> quiet zs"
  then show "quiet es"
    using concat_res_set [OF assms] by (fastforce simp: quiet_def)
qed

lemma conflict_reasons_eq:
  "map_of binding a = Some own \<Longrightarrow> conflict_reasons row a binding t =
     Inr (only_if (map_of binding t = Some own) (reason ''same_context_conflict'' (row_unit row) a t))"
  by (auto simp: conflict_reasons_def split: option.splits)

lemma relation_quiet:
  "quiet (relation_reasons row a relation before_agents needed) \<longleftrightarrow>
     set (selection_exclusive relation) \<inter> set (selected row) = {}
     \<and> set (requires_agents relation) \<subseteq> needed \<and> set (must_follow relation) \<subseteq> before_agents"
  by (auto simp: relation_reasons_def advisory_iff filter_empty_conv)

lemma selected_by_unit_row:
  "aligned plan p \<Longrightarrow> r \<in> set (proposal_rows p) \<Longrightarrow>
     map_of (selected_by_unit p) (row_unit r) = Some (selected r)"
  unfolding selected_by_unit_def by (rule dict_of_rows [OF aligned_facts(2)])

lemma contexts_by_unit_row:
  "aligned plan p \<Longrightarrow> r \<in> set (proposal_rows p) \<Longrightarrow>
     map_of (contexts_by_unit p) (row_unit r) = Some (binding_of r)"
  unfolding contexts_by_unit_def by (rule dict_of_rows [OF aligned_facts(2)])

lemma before_known:
  assumes "aligned plan p" and "r \<in> set (proposal_rows p)"
  shows "ancestors plan (row_unit r) = Inr (before plan (row_unit r))"
    and "before plan (row_unit r) \<subseteq> row_unit ` set (proposal_rows p)"
    and "finite (before plan (row_unit r))"
proof -
  have "row_unit r \<in> unit_id ` set (plan_units plan)"
    using aligned_facts(3) [OF assms(1)] assms(2) by blast
  then obtain S where S: "ancestors plan (row_unit r) = Inr S" "S \<subseteq> unit_id ` set (plan_units plan)"
    using ancestors_total aligned_facts(1) [OF assms(1)] by blast
  moreover have "S = before plan (row_unit r)"
    using ancestors_closure [OF S(1)] by (simp add: before_def)
  ultimately show "ancestors plan (row_unit r) = Inr (before plan (row_unit r))"
    and "before plan (row_unit r) \<subseteq> row_unit ` set (proposal_rows p)"
    and "finite (before plan (row_unit r))"
    using aligned_facts(3) [OF assms(1)] by (auto intro: finite_subset)
qed

lemma before_rows:
  "aligned plan p \<Longrightarrow> r \<in> set (proposal_rows p) \<Longrightarrow> name \<in> before plan (row_unit r) \<Longrightarrow>
     \<exists>s\<in>upstream plan p (row_unit r). row_unit s = name"
  using before_known(2) by (fastforce simp: upstream_def)

text \<open>A lookup for every unit before a unit, in the code's order, visits the upstream rows.\<close>

lemma map_res_before:
  assumes "aligned plan p" and "r \<in> set (proposal_rows p)"
    and "\<And>s. s \<in> upstream plan p (row_unit r) \<Longrightarrow> f (row_unit s) = Inr (g s)"
  shows "\<exists>ys. map_res f (sorted_list_of_set (before plan (row_unit r))) = Inr ys
    \<and> set ys = g ` upstream plan p (row_unit r)"
proof -
  let ?names = "sorted_list_of_set (before plan (row_unit r))"
  have names: "set ?names = before plan (row_unit r)" using before_known(3) [OF assms(1,2)] by simp
  have "\<exists>y. f name = Inr y \<and> y \<in> g ` upstream plan p (row_unit r)" if "name \<in> set ?names" for name
    using before_rows [OF assms(1,2)] that assms(3) names by blast
  then obtain h where h: "\<And>name. name \<in> set ?names \<Longrightarrow>
      f name = Inr (h name) \<and> h name \<in> g ` upstream plan p (row_unit r)" by metis
  then have "map_res f ?names = Inr (map h ?names)" by (intro map_res_Inr_all) simp
  moreover have "g s \<in> set (map h ?names)" if "s \<in> upstream plan p (row_unit r)" for s
  proof -
    have "row_unit s \<in> set ?names" using that names by (simp add: upstream_def)
    then show ?thesis using h [of "row_unit s"] assms(3) [OF that] by (auto intro: image_eqI [of _ _ "row_unit s"])
  qed
  ultimately show ?thesis using h by fastforce
qed

lemma ancestor_agents_eq:
  assumes "aligned plan p" and "r \<in> set (proposal_rows p)"
  shows "ancestor_agents_of (selected_by_unit p) (before plan (row_unit r))
    = Inr (upstream_agents plan p (row_unit r))"
proof -
  have "dict_get (selected_by_unit p) (row_unit s) = Inr (selected s)"
    if "s \<in> upstream plan p (row_unit r)" for s
    using selected_by_unit_row [OF assms(1)] that by (simp add: upstream_def)
  from map_res_before [where f = "dict_get (selected_by_unit p)" and g = selected, OF assms this] show ?thesis
    by (auto simp: ancestor_agents_of_def concat_res_def upstream_agents_def)
qed

lemma review_reasons_eq:
  assumes "aligned plan p" and "row \<in> set (proposal_rows p)"
    and own: "map_of (binding_of row) a = Some own"
    and t: "t \<in> upstream_agents plan p (row_unit row) \<longrightarrow> independence_class relation \<noteq> [] \<longrightarrow>
      map_of roster t = Some c"
  shows "review_reasons row a relation (binding_of row) (before plan (row_unit row))
      (upstream_agents plan p (row_unit row)) (selected_by_unit p) (contexts_by_unit p) roster t =
    Inr (if t \<notin> upstream_agents plan p (row_unit row)
      then [reason ''independent_review_target_missing'' (row_unit row) a t]
      else only_if (\<exists>r\<in>upstream plan p (row_unit row). t \<in> set (selected r)
             \<and> get_or (binding_of r) t [] = own) (reason ''review_context_reused'' (row_unit row) a t)
        @ only_if (independence_class relation \<noteq> []
             \<and> independence_class relation = independence_class (composition c))
            (reason ''review_independence_class_reused'' (row_unit row) a t))"
proof (cases "t \<in> upstream_agents plan p (row_unit row)")
  case False
  then show ?thesis by (simp add: review_reasons_def)
next
  case True
  have "bind_res (dict_get (selected_by_unit p) (row_unit s)) (\<lambda>team. Inr (row_unit s, team))
      = Inr (row_unit s, selected s)" if "s \<in> upstream plan p (row_unit row)" for s
    using selected_by_unit_row [OF assms(1)] that by (simp add: upstream_def)
  from map_res_before [where g = "\<lambda>s. (row_unit s, selected s)"
      and f = "\<lambda>name. bind_res (dict_get (selected_by_unit p) name) (\<lambda>team. Inr (name, team))",
      OF assms(1,2) this] obtain teams where
    teams: "map_res (\<lambda>name. bind_res (dict_get (selected_by_unit p) name) (\<lambda>team. Inr (name, team)))
        (sorted_list_of_set (before plan (row_unit row))) = Inr teams"
    and set_teams: "set teams = (\<lambda>s. (row_unit s, selected s)) ` upstream plan p (row_unit row)"
    by auto
  define names where "names = map fst (filter (\<lambda>(name, team). t \<in> set team) teams)"
  have names: "set names = row_unit ` {s \<in> upstream plan p (row_unit row). t \<in> set (selected s)}"
    by (force simp: names_def set_teams case_prod_beta)
  define g where "g name = (case map_of (contexts_by_unit p) name of None \<Rightarrow> [] | Some b \<Rightarrow> get_or b t [])" for name
  have g: "g (row_unit s) = get_or (binding_of s) t []"
    and dict: "dict_get (contexts_by_unit p) (row_unit s) = Inr (binding_of s)"
    if "s \<in> upstream plan p (row_unit row)" for s
    using contexts_by_unit_row [OF assms(1)] that by (simp_all add: upstream_def g_def)
  have "map_res (\<lambda>name. bind_res (dict_get (contexts_by_unit p) name) (\<lambda>b. Inr (get_or b t []))) names
      = Inr (map g names)"
    by (rule map_res_Inr_all) (use names g dict in auto)
  moreover have "own \<in> set (map g names) \<longleftrightarrow> (\<exists>r\<in>upstream plan p (row_unit row). t \<in> set (selected r)
             \<and> get_or (binding_of r) t [] = own)"
    using names g by (auto simp: image_iff)
  ultimately show ?thesis
    using True own t teams
    by (simp add: review_reasons_def Let_def names_def [symmetric])
qed


lemma concat_res_pointwise:
  assumes "\<And>x. x \<in> set xs \<Longrightarrow> \<exists>zs. f x = Inr zs \<and> (quiet zs \<longleftrightarrow> P x)"
  shows "\<exists>es. concat_res f xs = Inr es \<and> (quiet es \<longleftrightarrow> (\<forall>x\<in>set xs. P x))"
proof -
  obtain es where es: "concat_res f xs = Inr es" using concat_res_total [of xs f] assms by blast
  with concat_res_quiet [OF es] assms show ?thesis by fastforce
qed

text \<open>The review of an upstream worker that carries an independence class needs its contract.\<close>

definition reviewable :: "roster \<Rightarrow> composition_contract \<Rightarrow> bool" where
  "reviewable roster relation = (\<forall>t\<in>set (must_review_independently relation). t \<in> fst ` set roster)"

lemma review_pointwise:
  assumes "aligned plan p" and "row \<in> set (proposal_rows p)" and "a \<in> fst ` set (binding_of row)"
    and "reviewable roster relation" and t: "t \<in> set (must_review_independently relation)"
  shows "\<exists>zs. review_reasons row a relation (binding_of row) (before plan (row_unit row))
      (upstream_agents plan p (row_unit row)) (selected_by_unit p) (contexts_by_unit p) roster t = Inr zs
    \<and> (quiet zs \<longleftrightarrow> reviews_independently plan p roster row relation a t)"
proof -
  obtain own where own: "map_of (binding_of row) a = Some own"
    using assms(3) by (metis map_of_eq_None_iff not_Some_eq)
  obtain c where c: "map_of roster t = Some c"
    using assms(4) t by (metis map_of_eq_None_iff not_Some_eq reviewable_def)
  have "map_of roster t = Some c" if "t \<in> X" "k \<noteq> []" for X and k :: string by (rule c)
  then show ?thesis
    using review_reasons_eq [OF assms(1,2) own, of t relation roster c] c own
    by (auto simp: advisory_iff get_or_def reviews_independently_def)
qed

lemma agent_composition_pointwise:
  assumes "aligned plan p" and "row \<in> set (proposal_rows p)" and "a \<in> fst ` set (binding_of row)"
    and "\<And>c. map_of roster a = Some c \<Longrightarrow> reviewable roster (composition c)"
    and needed: "needed = set (selected row) \<union> upstream_agents plan p (row_unit row)
      \<union> downstream_agents plan p (row_unit row)"
  shows "\<exists>zs. agent_composition row (binding_of row) (before plan (row_unit row))
      (upstream_agents plan p (row_unit row)) needed (selected_by_unit p) (contexts_by_unit p) roster ctx a = Inr zs
    \<and> (quiet zs \<longleftrightarrow> (\<forall>c. map_of roster a = Some c
          \<longrightarrow> agent_composed plan p roster ctx row a (composition c)))"
proof (cases "map_of roster a")
  case None
  then show ?thesis by (simp add: agent_composition_def)
next
  case (Some c)
  obtain own where own: "map_of (binding_of row) a = Some own"
    using assms(3) by (metis map_of_eq_None_iff not_Some_eq)
  have "\<exists>zs. conflict_reasons row a (binding_of row) t = Inr zs
      \<and> (quiet zs \<longleftrightarrow> map_of (binding_of row) t \<noteq> Some own)" for t
    by (simp add: conflict_reasons_eq [OF own] advisory_iff)
  then obtain conflicts where
    conflicts: "concat_res (conflict_reasons row a (binding_of row)) (same_context_conflicts (composition c)) = Inr conflicts"
    and quiet_conflicts: "quiet conflicts \<longleftrightarrow> (\<forall>t\<in>set (same_context_conflicts (composition c)).
        map_of (binding_of row) t \<noteq> Some own)"
    using concat_res_pointwise [of "same_context_conflicts (composition c)"
      "conflict_reasons row a (binding_of row)" "\<lambda>t. map_of (binding_of row) t \<noteq> Some own"] by auto
  have reviews_exist: "\<exists>es. concat_res (review_reasons row a (composition c) (binding_of row) (before plan (row_unit row))
      (upstream_agents plan p (row_unit row)) (selected_by_unit p) (contexts_by_unit p) roster)
      (must_review_independently (composition c)) = Inr es
    \<and> (quiet es \<longleftrightarrow> (\<forall>t\<in>set (must_review_independently (composition c)).
        reviews_independently plan p roster row (composition c) a t))"
    by (rule concat_res_pointwise) (rule review_pointwise [OF assms(1-3) assms(4) [OF Some]])
  obtain reviews where
    reviews: "concat_res (review_reasons row a (composition c) (binding_of row) (before plan (row_unit row))
      (upstream_agents plan p (row_unit row)) (selected_by_unit p) (contexts_by_unit p) roster)
      (must_review_independently (composition c)) = Inr reviews"
    and quiet_reviews: "quiet reviews \<longleftrightarrow> (\<forall>t\<in>set (must_review_independently (composition c)).
        reviews_independently plan p roster row (composition c) a t)"
    using reviews_exist by blast
  have conflict_iff: "map_of (binding_of row) t \<noteq> Some own \<longleftrightarrow>
      (context_of row t \<noteq> None \<longrightarrow> context_of row t \<noteq> context_of row a)" for t
    using own by (auto simp: context_of_def)
  show ?thesis
    unfolding agent_composition_def Some agent_composed_def
    by (simp add: conflicts reviews relation_quiet quiet_conflicts quiet_reviews conflict_iff
        advisory_iff needed)
qed

lemma downstream_eq:
  assumes "aligned plan p" and "row \<in> set (proposal_rows p)"
  shows "\<exists>agents. concat_res (downstream_assurance plan row) (proposal_rows p) = Inr agents
    \<and> set agents = downstream_agents plan p (row_unit row)"
proof -
  define g where "g r = (if row_unit row \<in> before plan (row_unit r)
      \<and> (\<exists>u\<in>set (plan_units plan). unit_id u = row_unit r \<and> is_assurance u r) then selected r else [])" for r
  have "downstream_assurance plan row r = Inr (g r)" if r: "r \<in> set (proposal_rows p)" for r
  proof -
    obtain u where u: "u \<in> set (plan_units plan)" "unit_id u = row_unit r"
      using r aligned_facts(3) [OF assms(1)] by (metis image_iff)
    note look = map_of_units [OF aligned_facts(1) [OF assms(1)]]
    have uniq: "v = u" if "v \<in> set (plan_units plan)" "unit_id v = row_unit r" for v
      using look [OF u(1)] look [OF that(1)] u(2) that(2) by simp
    have "(\<exists>u\<in>set (plan_units plan). unit_id u = row_unit r \<and> is_assurance u r) = is_assurance u r"
      using u uniq by blast
    then show ?thesis
      using look [OF u(1)] u(2) before_known(1) [OF assms(1) r]
      by (simp add: downstream_assurance_def g_def)
  qed
  then have "concat_res (downstream_assurance plan row) (proposal_rows p)
      = Inr (concat (map g (proposal_rows p)))"
    by (rule concat_res_all)
  then show ?thesis by (auto simp: downstream_agents_def g_def)
qed


lemma card_values: "card (set (map snd d)) = length d \<longleftrightarrow> distinct (map snd d)"
  by (metis card_distinct distinct_card length_map)

lemma binding_aligned_iff:
  "map fst (binding_of row) = selected row \<and> length (binding_of row) = length (row_contexts row) \<longleftrightarrow>
     map ctx_agent (row_contexts row) = selected row \<and> distinct (selected row)"
proof -
  let ?kvs = "map (\<lambda>b. (ctx_agent b, ctx_id b)) (row_contexts row)"
  have fst: "map fst ?kvs = map ctx_agent (row_contexts row)" by (simp add: comp_def)
  have "distinct (map fst ?kvs)" if "length (dict_of ?kvs) = length (row_contexts row)"
  proof (rule card_distinct)
    have "card (set (map fst ?kvs)) = card (fst ` set (dict_of ?kvs))"
      unfolding dict_of_keys set_map ..
    also have "\<dots> = length (dict_of ?kvs)"
      using distinct_card [OF distinct_dict_of [of ?kvs]] by simp
    finally show "card (set (map fst ?kvs)) = length (map fst ?kvs)" using that by simp
  qed
  moreover have eq: "dict_of ?kvs = ?kvs" if "distinct (map ctx_agent (row_contexts row))"
    using that fst dict_of_distinct [of ?kvs] by metis
  ultimately have "length (dict_of ?kvs) = length (row_contexts row)
      \<longleftrightarrow> distinct (map ctx_agent (row_contexts row))"
    unfolding fst by auto
  moreover have "map fst (dict_of ?kvs) = map ctx_agent (row_contexts row)"
    if "distinct (map ctx_agent (row_contexts row))"
    using eq [OF that] fst by metis
  ultimately show ?thesis by (auto simp: binding_of_def)
qed

lemma binding_of_eq:
  "distinct (map ctx_agent (row_contexts row)) \<Longrightarrow>
     binding_of row = map (\<lambda>b. (ctx_agent b, ctx_id b)) (row_contexts row)"
  by (simp add: binding_of_def dict_of_distinct comp_def)

lemma substitution_quiet:
  assumes "distinct (selected row)"
  shows "quiet (substitution_reasons row roster) \<longleftrightarrow>
    (\<forall>a\<in>set (selected row). \<forall>b\<in>set (selected row). a \<noteq> b \<longrightarrow> group_of roster a \<noteq> []
       \<longrightarrow> group_of roster a = group_of roster b
       \<longrightarrow> (\<exists>c. map_of roster a = Some c \<and> b \<in> set (complements (composition c))))"
proof -
  let ?members = "\<lambda>g. filter (\<lambda>a. group_of roster a = g) (selected row)"
  let ?bad = "\<lambda>g. \<not> list_all (\<lambda>member. list_all (\<lambda>other. member = other
             \<or> roster_says roster member (\<lambda>c. other \<in> set (complements (composition c)))) (?members g)) (?members g)"
  have single: "length (?members g) > 1" if "?bad g" for g
  proof (rule ccontr)
    assume "\<not> length (?members g) > 1"
    then have "\<exists>m. set (?members g) \<subseteq> {m}"
      by (cases "?members g") (auto simp del: set_filter simp: Suc_le_eq not_less)
    with that show False by (auto simp: list_all_iff)
  qed
  have "quiet (substitution_reasons row roster) \<longleftrightarrow>
      (\<forall>g\<in>set (filter (\<lambda>g. g \<noteq> []) (map (group_of roster) (selected row))). \<not> ?bad g)"
    using single unfolding substitution_reasons_def Let_def quiet_concat
    by (auto simp: advisory_iff)
  also have "\<dots> \<longleftrightarrow> (\<forall>a\<in>set (selected row). \<forall>b\<in>set (selected row). a \<noteq> b \<longrightarrow> group_of roster a \<noteq> []
       \<longrightarrow> group_of roster a = group_of roster b
       \<longrightarrow> (\<exists>c. map_of roster a = Some c \<and> b \<in> set (complements (composition c))))"
  (is "?all \<longleftrightarrow> ?pairs")
  proof
    assume all: ?all
    show ?pairs
    proof (intro ballI impI)
      fix a b
      assume ab: "a \<in> set (selected row)" "b \<in> set (selected row)" "a \<noteq> b"
        "group_of roster a \<noteq> []" "group_of roster a = group_of roster b"
      then have "\<not> ?bad (group_of roster a)" using all by auto
      with ab show "\<exists>c. map_of roster a = Some c \<and> b \<in> set (complements (composition c))"
        by (auto simp: list_all_iff roster_says_iff)
    qed
  next
    assume pairs: ?pairs
    show ?all
    proof
      fix g assume "g \<in> set (filter (\<lambda>g. g \<noteq> []) (map (group_of roster) (selected row)))"
      then have "g \<noteq> []" by simp
      with pairs show "\<not> ?bad g" unfolding list_all_iff roster_says_iff by fastforce
    qed
  qed
  finally show ?thesis .
qed

lemma row_composition_pointwise:
  assumes "aligned plan p" and "row \<in> set (proposal_rows p)"
    and "\<And>a c. map_of roster a = Some c \<Longrightarrow> reviewable roster (composition c)"
  shows "\<exists>es. row_composition plan p roster ctx row = Inr es
    \<and> (quiet es \<longleftrightarrow> row_composed plan p roster ctx row)"
proof (cases "map fst (binding_of row) = selected row \<and> length (binding_of row) = length (row_contexts row)")
  case False
  then have "\<not> row_composed plan p roster ctx row"
    using binding_aligned_iff by (auto simp: row_composed_def)
  with False show ?thesis
    by (auto simp: row_composition_def Let_def contexts_by_unit_row [OF assms(1,2)] advisory_iff)
next
  case True
  then have ctx: "map ctx_agent (row_contexts row) = selected row" "distinct (selected row)"
    using binding_aligned_iff by blast+
  then have snd: "map snd (binding_of row) = map ctx_id (row_contexts row)"
    by (simp add: binding_of_eq comp_def)
  obtain downstream where down: "concat_res (downstream_assurance plan row) (proposal_rows p) = Inr downstream"
    and set_down: "set downstream = downstream_agents plan p (row_unit row)"
    using downstream_eq [OF assms(1,2)] by blast
  define needed where "needed = set (selected row) \<union> upstream_agents plan p (row_unit row) \<union> set downstream"
  have keys: "a \<in> fst ` set (binding_of row)" if "a \<in> set (selected row)" for a
    using True that by (metis set_map)
  have needed: "needed = set (selected row) \<union> upstream_agents plan p (row_unit row)
      \<union> downstream_agents plan p (row_unit row)"
    by (simp add: needed_def set_down)
  have agents_exist: "\<exists>es. concat_res (agent_composition row (binding_of row) (before plan (row_unit row))
      (upstream_agents plan p (row_unit row)) needed (selected_by_unit p) (contexts_by_unit p) roster ctx)
      (selected row) = Inr es
    \<and> (quiet es \<longleftrightarrow> (\<forall>a\<in>set (selected row). \<forall>c. map_of roster a = Some c
          \<longrightarrow> agent_composed plan p roster ctx row a (composition c)))"
    by (rule concat_res_pointwise) (rule agent_composition_pointwise [OF assms(1,2) keys assms(3) needed])
  obtain agents where agents: "concat_res (agent_composition row (binding_of row) (before plan (row_unit row))
      (upstream_agents plan p (row_unit row)) needed (selected_by_unit p) (contexts_by_unit p) roster ctx)
      (selected row) = Inr agents"
    and quiet_agents: "quiet agents \<longleftrightarrow> (\<forall>a\<in>set (selected row). \<forall>c. map_of roster a = Some c
          \<longrightarrow> agent_composed plan p roster ctx row a (composition c))"
    using agents_exist by blast
  have distinct_values: "card (set (map snd (binding_of row))) = length (binding_of row)
      \<longleftrightarrow> distinct (map ctx_id (row_contexts row))"
    using card_values [of "binding_of row"] by (simp only: snd)
  have "row_composition plan p roster ctx row = Inr (only_if (delivery row = ''delegate''
              \<and> \<not> distinct (map ctx_id (row_contexts row)))
              (reason ''delegated_context_not_distinct'' (row_unit row) [] [])
      @ agents @ substitution_reasons row roster)"
    using True distinct_values
    by (simp add: row_composition_def Let_def contexts_by_unit_row [OF assms(1,2)]
        before_known(1) [OF assms(1,2)] ancestor_agents_eq [OF assms(1,2)] down agents needed_def [symmetric])
  then show ?thesis
    by (simp add: quiet_agents substitution_quiet [OF ctx(2)] row_composed_def ctx advisory_iff)
qed

lemma check_composition_pointwise:
  assumes "aligned plan p" and "\<And>a c. map_of roster a = Some c \<Longrightarrow> reviewable roster (composition c)"
  shows "\<exists>es. check_composition plan p roster ctx = Inr es
    \<and> (quiet es \<longleftrightarrow> (\<forall>row\<in>set (proposal_rows p). row_composed plan p roster ctx row))"
  unfolding check_composition_def
  by (rule concat_res_pointwise) (rule row_composition_pointwise [OF assms(1) _ assms(2)])

end
