(* ===== verification/Staff_Accept.thy ===== *)
theory Staff_Accept
  imports Staff_Compose
begin

text \<open>
  The verifier as a whole: on a parsed plan, a parsed proposal and a valid index it returns a
  decision, and it accepts exactly the proposals that satisfy the conditions of all checks.
\<close>

section \<open>Assurance and reviewer reuse\<close>

lemma aligned_unit:
  assumes "aligned plan p" and "r \<in> set (proposal_rows p)"
  obtains u where "u \<in> set (plan_units plan)" and "unit_id u = row_unit r"
    and "dict_get (units_by_id plan) (row_unit r) = Inr u"
proof -
  have "row_unit r \<in> unit_id ` set (plan_units plan)"
    using assms aligned_facts(3) by blast
  then obtain u where "u \<in> set (plan_units plan)" "unit_id u = row_unit r" by auto
  then show ?thesis using that map_of_units [OF aligned_facts(1) [OF assms(1)]] by fastforce
qed

lemma has_assurance_total:
  assumes "aligned plan p" and "u \<in> set (plan_units plan)"
  shows "\<exists>b. has_assurance (unit_id u) plan p roster = Inr b"
proof -
  have "unit_id u \<in> row_unit ` set (proposal_rows p)"
    using assms aligned_facts(3) by blast
  then obtain source where "find (\<lambda>row. row_unit row = unit_id u) (proposal_rows p) = Some source"
    by (cases "find (\<lambda>row. row_unit row = unit_id u) (proposal_rows p)") (auto simp: find_None_iff)
  moreover define body where "body = (\<lambda>row. bind_res (dict_get (units_by_id plan) (row_unit row)) (\<lambda>v.
          bind_res (ancestors plan (unit_id v)) (\<lambda>before.
          Inr (unit_id u \<in> before \<and> is_assurance v row \<and> independent_rows roster row source))))"
  moreover have "\<exists>b. body row = Inr b" if row: "row \<in> set (proposal_rows p)" for row
  proof -
    obtain v where "dict_get (units_by_id plan) (row_unit row) = Inr v" "unit_id v = row_unit row"
      using aligned_unit [OF assms(1) row] by blast
    then show ?thesis using before_known(1) [OF assms(1) row] by (simp add: body_def)
  qed
  then have "\<exists>b. any_res body (proposal_rows p) = Inr b" by (rule any_res_total)
  ultimately show ?thesis by (simp only: has_assurance_def option.case)
qed

lemma check_assurance_total:
  assumes "aligned plan p"
  shows "\<exists>es. check_assurance plan p roster = Inr es \<and> quiet es"
proof -
  have "\<exists>zs. (if \<not> needs_assurance u then Inr []
     else bind_res (has_assurance (unit_id u) plan p roster) (\<lambda>assured.
       Inr (only_if (\<not> assured) (reason ''independent_assurance_missing'' (unit_id u) [] [])))) = Inr zs
     \<and> (quiet zs \<longleftrightarrow> True)" if "u \<in> set (plan_units plan)" for u
    using has_assurance_total [OF assms that, of roster] by (auto simp: advisory_iff)
  then have "\<exists>es. check_assurance plan p roster = Inr es \<and> (quiet es \<longleftrightarrow> (\<forall>u\<in>set (plan_units plan). True))"
    unfolding check_assurance_def by (rule concat_res_pointwise)
  then show ?thesis by simp
qed

text \<open>A review is not staffed by a worker it reviews while an independent team exists.\<close>

definition reuse_free :: "work_unit_plan \<Rightarrow> recruiter_proposal \<Rightarrow> roster \<Rightarrow> staffing_context
    \<Rightarrow> staffing_budget \<Rightarrow> work_unit \<Rightarrow> unit_recruitment \<Rightarrow> bool" where
  "reuse_free plan p roster ctx budget u row =
     (is_assurance u row \<longrightarrow> set (selected row) \<inter> upstream_agents plan p (row_unit row) = {}
        \<or> (\<forall>A. \<not> staffable u roster
              (filter (\<lambda>a. a \<notin> upstream_agents plan p (row_unit row)) (executable_ids u row roster ctx))
              {} (max_selected_per_unit budget) (set (waived_tokens u roster ctx)) A))"

lemma map_of_setdefault:
  "map_of (fold (\<lambda>(a, name) d. if map_of d a = None then d @ [(a, name)] else d) pairs d) k = None
     \<longleftrightarrow> map_of d k = None \<and> k \<notin> fst ` set pairs"
proof (induction pairs arbitrary: d)
  case (Cons kv pairs)
  obtain a name where "kv = (a, name)" by (cases kv)
  with Cons show ?case by (auto simp: map_add_def split: option.splits)
qed simp

lemma reviewed_agents_upstream:
  assumes "aligned plan p" and "row \<in> set (proposal_rows p)"
  shows "\<exists>reviewed. reviewed_agents (dict_of (map (\<lambda>r. (row_unit r, r)) (proposal_rows p)))
      (before plan (row_unit row)) = Inr reviewed
    \<and> (\<forall>a. map_of reviewed a = None \<longleftrightarrow> a \<notin> upstream_agents plan p (row_unit row))"
proof -
  let ?rows = "dict_of (map (\<lambda>r. (row_unit r, r)) (proposal_rows p))"
  have "bind_res (dict_get ?rows (row_unit s)) (\<lambda>r. Inr (map (\<lambda>a. (a, row_unit s)) (selected r)))
      = Inr (map (\<lambda>a. (a, row_unit s)) (selected s))" if "s \<in> upstream plan p (row_unit row)" for s
    using dict_of_rows [OF aligned_facts(2) [OF assms(1)], of s "\<lambda>r. r"] that by (simp add: upstream_def)
  from map_res_before [where g = "\<lambda>s. map (\<lambda>a. (a, row_unit s)) (selected s)"
      and f = "\<lambda>name. bind_res (dict_get ?rows name) (\<lambda>r. Inr (map (\<lambda>a. (a, name)) (selected r)))",
      OF assms this] obtain parts where
    parts: "map_res (\<lambda>name. bind_res (dict_get ?rows name) (\<lambda>r. Inr (map (\<lambda>a. (a, name)) (selected r))))
        (sorted_list_of_set (before plan (row_unit row))) = Inr parts"
    and set_parts: "set parts = (\<lambda>s. map (\<lambda>a. (a, row_unit s)) (selected s)) ` upstream plan p (row_unit row)"
    by auto
  have "fst ` set (concat parts) = upstream_agents plan p (row_unit row)"
    by (force simp: set_parts upstream_agents_def)
  then show ?thesis
    by (simp add: reviewed_agents_def concat_res_def parts map_of_setdefault)
qed

lemma executable_map_row:
  assumes "aligned plan p" and "(u, row) \<in> set (zip (plan_units plan) (proposal_rows p))"
  shows "get_or (executable_map plan p roster ctx) (row_unit row) [] = executable_ids u row roster ctx"
proof -
  let ?zip = "zip (plan_units plan) (proposal_rows p)"
  have "map (\<lambda>ur. row_unit (snd ur)) ?zip = map row_unit (proposal_rows p)"
    using aligned_facts(4) [OF assms(1)] by (simp add: map_snd_zip_take [symmetric] flip: map_map [unfolded comp_def])
  then have "distinct (map (\<lambda>ur. row_unit (snd ur)) ?zip)"
    using aligned_facts(2) [OF assms(1)] by simp
  from dict_of_rows [OF this assms(2), of "\<lambda>ur. executable_ids (fst ur) (snd ur) roster ctx"]
  have "map_of (executable_map plan p roster ctx) (row_unit row) = Some (executable_ids u row roster ctx)"
    unfolding executable_map_def case_prod_beta fst_conv snd_conv .
  then show ?thesis unfolding get_or_def by (simp only: option.case)
qed

lemma row_reuse_pointwise:
  assumes "aligned plan p" and zip: "(u, row) \<in> set (zip (plan_units plan) (proposal_rows p))"
    and id: "unit_id u = row_unit row"
    and distinct: "distinct (map rank_agent (ranked_semantic row))"
  shows "\<exists>es. row_reuse plan p roster ctx (executable_map plan p roster ctx) budget row = Inr es
    \<and> (quiet es \<longleftrightarrow> selected row = [] \<or> reuse_free plan p roster ctx budget u row)"
proof -
  have row: "row \<in> set (proposal_rows p)" and u: "u \<in> set (plan_units plan)"
    using zip by (auto dest: set_zip_leftD set_zip_rightD)
  have unit: "dict_get (units_by_id plan) (row_unit row) = Inr u"
    using map_of_units [OF aligned_facts(1) [OF assms(1)] u] id by simp
  obtain reviewed where reviewed: "reviewed_agents (dict_of (map (\<lambda>r. (row_unit r, r)) (proposal_rows p)))
      (before plan (row_unit row)) = Inr reviewed"
    and up: "\<And>a. map_of reviewed a = None \<longleftrightarrow> a \<notin> upstream_agents plan p (row_unit row)"
    using reviewed_agents_upstream [OF assms(1) row] by blast
  have up': "(\<exists>y. map_of reviewed a = Some y) \<longleftrightarrow> a \<in> upstream_agents plan p (row_unit row)" for a
    using up [of a] by auto
  define candidates where "candidates =
    filter (\<lambda>a. a \<notin> upstream_agents plan p (row_unit row)) (executable_ids u row roster ctx)"
  have "set candidates \<subseteq> fst ` set roster" "distinct candidates"
    using executable_known [of u row roster ctx] executable_distinct [OF distinct]
    by (auto simp: candidates_def)
  from minimum_team_smallest [OF this] obtain team where
    team: "minimum_team u candidates roster (max_selected_per_unit budget)
        (set (waived_tokens u roster ctx)) = Inr team"
    and smallest: "smallest_team u roster candidates {} (max_selected_per_unit budget)
        (set (waived_tokens u roster ctx)) team"
    by blast
  have "team = [] \<longleftrightarrow> (\<forall>A. \<not> staffable u roster candidates {} (max_selected_per_unit budget)
        (set (waived_tokens u roster ctx)) A)"
    using smallest by (auto simp: smallest_team_def)
  moreover have "filter (\<lambda>a. a \<in> upstream_agents plan p (row_unit row)) (selected row) = []
      \<longleftrightarrow> set (selected row) \<inter> upstream_agents plan p (row_unit row) = {}"
    by (auto simp: filter_empty_conv)
  ultimately show ?thesis
    by (auto simp: row_reuse_def unit before_known(1) [OF assms(1) row] reviewed Let_def up up'
        executable_map_row [OF assms(1) zip] candidates_def [symmetric] team reuse_free_def advisory_iff)
qed


section \<open>Budgets\<close>

definition within_budget :: "work_unit_plan \<Rightarrow> recruiter_proposal \<Rightarrow> staffing_budget \<Rightarrow> bool" where
  "within_budget plan p budget =
     (int (length (plan_units plan)) \<le> max_work_units_allowed budget
       \<and> selected_total (\<lambda>_. True) (proposal_rows p) \<le> max_selected_total budget
       \<and> selected_total (\<lambda>row. delivery row = ''load'') (proposal_rows p) \<le> max_loaded budget
       \<and> selected_total (\<lambda>row. delivery row = ''delegate'') (proposal_rows p) \<le> max_delegated budget
       \<and> (\<forall>row\<in>set (proposal_rows p). int (length (selected row)) \<le> max_selected_per_unit budget
            \<and> (selected row \<noteq> [] \<longrightarrow> min_confidence budget \<le> confidence row
                 \<and> min_margin budget \<le> margin row)))"

lemma check_budgets_quiet: "quiet (check_budgets plan p budget) \<longleftrightarrow> within_budget plan p budget"
  by (auto simp: check_budgets_def within_budget_def advisory_iff quiet_concat row_budget_def not_less)


section \<open>The decision\<close>

lemma proposal_distinct_ranks:
  "proposal_ok plan p \<Longrightarrow> row \<in> set (proposal_rows p) \<Longrightarrow> distinct (map rank_agent (ranked_semantic row))"
  by (auto simp: proposal_ok_def row_ok_def ranks_ok_def list_all_iff)

lemma parsed_aligned: "plan_ok plan \<Longrightarrow> proposal_ok plan p \<Longrightarrow> aligned plan p"
  by (simp add: aligned_def plan_ok_def proposal_ok_def)

lemma roster_of_keys [simp]: "fst ` set (roster_of contracts) = agent_id ` set contracts"
  by (simp add: roster_of_def image_image)

lemma roster_of_Some:
  "map_of (roster_of contracts) a = Some c \<Longrightarrow> c \<in> set contracts \<and> agent_id c = a"
  using dict_of_set [of "map (\<lambda>c. (agent_id c, c)) contracts"]
  by (auto simp: roster_of_def dest!: map_of_SomeD)

lemma index_reviewable:
  assumes "index_ok contracts" and "map_of (roster_of contracts) a = Some c"
  shows "reviewable (roster_of contracts) (composition c)"
proof -
  have "c \<in> set contracts" using roster_of_Some [OF assms(2)] by simp
  then show ?thesis
    using index_ok_targets(2) [OF assms(1), of c _ "must_review_independently (composition c)"
        "''must_review_independently''"]
    by (simp add: reviewable_def relationship_fields_def)
qed

lemma zip_ids:
  assumes "aligned plan p" and "(u, row) \<in> set (zip (plan_units plan) (proposal_rows p))"
  shows "unit_id u = row_unit row"
proof -
  obtain i where i: "i < length (plan_units plan)" "i < length (proposal_rows p)"
    "plan_units plan ! i = u" "proposal_rows p ! i = row"
    using assms(2) by (auto simp: set_zip)
  have "map row_unit (proposal_rows p) ! i = map unit_id (plan_units plan) ! i"
    using assms(1) by (simp add: aligned_def)
  with i show ?thesis by simp
qed

lemma check_reuse_pointwise:
  assumes "aligned plan p"
    and "\<And>row. row \<in> set (proposal_rows p) \<Longrightarrow> distinct (map rank_agent (ranked_semantic row))"
  shows "\<exists>es. check_reuse plan p roster ctx (executable_map plan p roster ctx) budget = Inr es
    \<and> ((\<forall>row\<in>set (proposal_rows p). selected row \<noteq> []) \<longrightarrow> (quiet es \<longleftrightarrow>
         list_all2 (reuse_free plan p roster ctx budget) (plan_units plan) (proposal_rows p)))"
proof -
  let ?zip = "zip (plan_units plan) (proposal_rows p)"
  have rows: "map snd ?zip = proposal_rows p" using aligned_facts(4) [OF assms(1)] by simp
  have "\<exists>es. concat_res (\<lambda>ur. row_reuse plan p roster ctx (executable_map plan p roster ctx) budget (snd ur)) ?zip = Inr es
      \<and> (quiet es \<longleftrightarrow> (\<forall>ur\<in>set ?zip. selected (snd ur) = [] \<or> reuse_free plan p roster ctx budget (fst ur) (snd ur)))"
  proof (rule concat_res_pointwise)
    fix ur assume ur: "ur \<in> set ?zip"
    obtain u row where "ur = (u, row)" by (cases ur)
    with ur row_reuse_pointwise [OF assms(1) _ zip_ids [OF assms(1)]] assms(2)
    show "\<exists>zs. row_reuse plan p roster ctx (executable_map plan p roster ctx) budget (snd ur) = Inr zs
      \<and> (quiet zs \<longleftrightarrow> selected (snd ur) = [] \<or> reuse_free plan p roster ctx budget (fst ur) (snd ur))"
      by (metis fst_conv snd_conv set_zip_rightD)
  qed
  moreover have "concat_res (\<lambda>ur. f (snd ur)) ?zip = concat_res f (proposal_rows p)" for f :: "unit_recruitment \<Rightarrow> abstention_reason list res"
    by (subst rows [symmetric]) (simp add: concat_res_def map_res_map)
  ultimately show ?thesis
    using aligned_facts(4) [OF assms(1)]
    by (fastforce simp: check_reuse_def list_all2_iff dest: set_zip_rightD)
qed

definition staffing_recipe :: "work_unit_plan \<Rightarrow> recruiter_proposal \<Rightarrow> workforce_contract list
    \<Rightarrow> staffing_context \<Rightarrow> staffing_budget \<Rightarrow> bool \<Rightarrow> bool" where
  "staffing_recipe plan p contracts ctx budget explicit_indivisible_unit =
     (proposal_plan_hash p = plan_hash plan \<and> snapshot_bound p contracts ctx
      \<and> list_all2 (row_sound (roster_of contracts) ctx budget) (plan_units plan) (proposal_rows p)
      \<and> (\<forall>row\<in>set (proposal_rows p). row_composed plan p (roster_of contracts) ctx row)
      \<and> (explicit_indivisible_unit \<and> length (plan_units plan) = 1
          \<or> list_all2 (reuse_free plan p (roster_of contracts) ctx budget) (plan_units plan) (proposal_rows p))
      \<and> within_budget plan p budget)"

lemma staffing_decided:
  assumes "plan_ok plan" and "proposal_ok plan p" and "index_ok contracts"
  shows "\<exists>es. all_reasons plan p contracts ctx budget single = Inr es
    \<and> (quiet es \<longleftrightarrow> staffing_recipe plan p contracts ctx budget single)"
proof -
  have al: "aligned plan p" using parsed_aligned assms by blast
  note ranks = proposal_distinct_ranks [OF assms(2)]
  note rev = index_reviewable [OF assms(3)]
  let ?roster = "roster_of contracts"
  obtain snap where snap: "check_snapshot p contracts ctx = Inr snap"
    using check_snapshot_total by blast
  obtain rows where rows: "check_rows ?roster ctx budget (plan_units plan) (proposal_rows p) = Inr rows"
    using check_rows_total [OF aligned_facts(4) [OF al]] ranks by blast
  have composed_exist: "\<exists>es. check_composition plan p ?roster ctx = Inr es
      \<and> (quiet es \<longleftrightarrow> (\<forall>row\<in>set (proposal_rows p). row_composed plan p ?roster ctx row))"
    by (rule check_composition_pointwise [OF al]) (rule rev)
  obtain comp where comp: "check_composition plan p ?roster ctx = Inr comp"
    and comp_quiet: "quiet comp \<longleftrightarrow> (\<forall>row\<in>set (proposal_rows p). row_composed plan p ?roster ctx row)"
    using composed_exist by blast
  obtain assured where assured: "check_assurance plan p ?roster = Inr assured" "quiet assured"
    using check_assurance_total [OF al] by blast
  obtain reused where reused: "check_reuse plan p ?roster ctx (executable_map plan p ?roster ctx) budget = Inr reused"
    and reuse_quiet: "(\<forall>row\<in>set (proposal_rows p). selected row \<noteq> []) \<Longrightarrow> quiet reused \<longleftrightarrow>
         list_all2 (reuse_free plan p ?roster ctx budget) (plan_units plan) (proposal_rows p)"
    using check_reuse_pointwise [OF al ranks] by blast
  have staffed: "\<forall>row\<in>set (proposal_rows p). selected row \<noteq> []"
    if "list_all2 (row_sound ?roster ctx budget) (plan_units plan) (proposal_rows p)"
    using that by (auto simp: row_sound_def selection_sound_def list_all2_conv_all_nth in_set_conv_nth)
  show ?thesis
    using check_snapshot_quiet [OF snap] check_rows_quiet [OF rows] comp_quiet reuse_quiet staffed
    by (auto simp: all_reasons_def Let_def snap rows comp assured reused staffing_recipe_def
        check_budgets_quiet advisory_iff)
qed


lemma recipe_staffed:
  assumes "staffing_recipe plan p contracts ctx budget single" and "row \<in> set (proposal_rows p)"
  shows "selected row \<noteq> []"
  using assms
  by (auto simp: staffing_recipe_def row_sound_def selection_sound_def list_all2_conv_all_nth in_set_conv_nth)

lemma verify_decides:
  assumes "plan_ok plan" and "proposal_ok plan p" and "index_ok contracts"
    and "active = (case budget of None \<Rightarrow> default_budget | Some b \<Rightarrow> b)"
  shows "\<exists>d. verify_staffing plan p contracts ctx budget single = Inr d
    \<and> (accepted d \<longleftrightarrow> staffing_recipe plan p contracts ctx active single)"
proof -
  obtain es where "all_reasons plan p contracts ctx active single = Inr es"
    and "quiet es \<longleftrightarrow> staffing_recipe plan p contracts ctx active single"
    using staffing_decided [OF assms(1-3)] by blast
  then show ?thesis
    using recipe_staffed by (auto simp: verify_staffing_def assms(4) [symmetric] decide_accepted_iff)
qed

text \<open>Whatever the roster, an accepted decision rests on a valid index.\<close>

lemma accepted_reasons:
  assumes "verify_staffing plan p contracts ctx budget single = Inr d" and "accepted d"
    and "active = (case budget of None \<Rightarrow> default_budget | Some b \<Rightarrow> b)"
  obtains es where "all_reasons plan p contracts ctx active single = Inr es" and "quiet es"
    and "d = decide p (report [] es)"
  using assms by (auto simp: verify_staffing_def bind_res_Inr_iff decide_accepted_iff)

lemma accepted_index:
  assumes "verify_staffing plan p contracts ctx budget single = Inr d" and "accepted d"
  shows "index_ok contracts"
proof -
  obtain es where "all_reasons plan p contracts ctx (case budget of None \<Rightarrow> default_budget | Some b \<Rightarrow> b) single = Inr es"
    and "quiet es"
    using accepted_reasons [OF assms refl] by blast
  then obtain snap where "check_snapshot p contracts ctx = Inr snap" and "quiet snap"
    by (auto simp: all_reasons_def Let_def bind_res_Inr_iff)
  then have "snapshot_bound p contracts ctx" using check_snapshot_quiet by blast
  then show ?thesis by (simp add: snapshot_bound_def fingerprint_Inr_iff)
qed

lemma accepted_recipe:
  assumes "plan_ok plan" and "proposal_ok plan p"
    and "verify_staffing plan p contracts ctx budget single = Inr d" and "accepted d"
  shows "staffing_recipe plan p contracts ctx
    (case budget of None \<Rightarrow> default_budget | Some b \<Rightarrow> b) single"
  using verify_decides [OF assms(1,2) accepted_index [OF assms(3,4)] refl, of ctx budget single] assms(3,4)
  by auto

lemma decide_units:
  "accepted (decide p reasons) \<Longrightarrow> decision_units (decide p reasons) = map verified_row (proposal_rows p)"
  "\<not> accepted (decide p reasons) \<Longrightarrow> decision_units (decide p reasons) = []"
  "decision_reasons (decide p reasons) = reasons"
  by (auto simp: decide_def accepted_def Let_def)

lemma paired_row_sound:
  assumes "staffing_recipe plan p contracts ctx budget single"
    and "(u, row) \<in> set (zip (plan_units plan) (proposal_rows p))"
  shows "row_sound (roster_of contracts) ctx budget u row"
  using assms by (auto simp: staffing_recipe_def list_all2_iff)

end
