(* ===== verification/Staff_Example.thy ===== *)
theory Staff_Example
  imports Staff_Accept
begin

text \<open>
  One concrete staffing on which the properties are applied: a change to Python code and its
  independent review, staffed by an implementer and a reviewer that must review it. The hashes
  are kept symbolic, so evaluating the checks never evaluates a digest.
\<close>

section \<open>Plan, roster and proposal\<close>

definition build_unit :: work_unit where
  "build_unit = \<lparr>unit_id = ''unit-b'', outcome = ''export'',
     artifact_kind = ''implementation-change'', lifecycle_phase = ''implementation'',
     unit_domains = [''code''], languages = [''python''], frameworks = [],
     required_capabilities = [''implementation''], unit_authority = ''modify'',
     mutation_scope = ''workspace_write'', risks = [], trust_boundaries = [],
     claims = [''works''], depends_on = [], resources = [''src''],
     required_tools = [''repository-read''], unit_platforms = [''linux''],
     acceptance_evidence = [''tests''], parallelization = ''parallel''\<rparr>"

definition review_unit :: work_unit where
  "review_unit = \<lparr>unit_id = ''unit-r'', outcome = ''review'',
     artifact_kind = ''review-report'', lifecycle_phase = ''review'',
     unit_domains = [''code''], languages = [], frameworks = [],
     required_capabilities = [''review''], unit_authority = ''review'',
     mutation_scope = ''read_only'', risks = [], trust_boundaries = [],
     claims = [], depends_on = [''unit-b''], resources = [''src''],
     required_tools = [''repository-read''], unit_platforms = [''linux''],
     acceptance_evidence = [''report''], parallelization = ''parallel''\<rparr>"

definition example_units :: "work_unit list" where
  "example_units = [build_unit, review_unit]"

definition example_summary :: string where
  "example_summary = ''export''"

definition example_plan :: work_unit_plan where
  "example_plan = \<lparr>request_summary = example_summary, plan_units = example_units,
     plan_hash = plan_digest example_summary example_units\<rparr>"

definition no_relations :: composition_contract where
  "no_relations = \<lparr>substitution_group = [], substitutes_for = [], complements = [],
     same_context_conflicts = [], selection_exclusive = [], requires_agents = [],
     must_follow = [], must_review_independently = [], independence_class = ''build''\<rparr>"

definition builder :: workforce_contract where
  "builder = \<lparr>contract_schema = ''2'', worker_id = ''worker-1'', agent_id = ''builder'',
     display_name = ''Builder'', archetype = ''implementer'', outcomes = [''code''],
     capability_ids = [''implementation''], artifact_kinds = [''implementation-change''],
     lifecycle_phases = [''implementation''], domains = [''code''], stacks = [''python''],
     scope_qualifiers = [], not_for = [], authority = ''modify'', context_mode = ''fresh'',
     tool_classes = [], hosts = [''claude''], platforms = [''linux''], composition = no_relations,
     audit = \<lparr>audit_status = ''approved'', audit_revision = ''r1'', contract_valid = True\<rparr>,
     version = ''1'', version_hash = ''h1'', enabled = True, employment = ''core'', origin = ''local''\<rparr>"

definition reviewer :: workforce_contract where
  "reviewer = \<lparr>contract_schema = ''2'', worker_id = ''worker-2'', agent_id = ''reviewer'',
     display_name = ''Reviewer'', archetype = ''reviewer'', outcomes = [''report''],
     capability_ids = [''review''], artifact_kinds = [''review-report''],
     lifecycle_phases = [''review''], domains = [''code''], stacks = [],
     scope_qualifiers = [], not_for = [], authority = ''review'', context_mode = ''fresh'',
     tool_classes = [], hosts = [''codex''], platforms = [''linux''],
     composition = no_relations\<lparr>must_follow := [''builder''],
       must_review_independently := [''builder''], independence_class := ''review''\<rparr>,
     audit = \<lparr>audit_status = ''approved'', audit_revision = ''r1'', contract_valid = True\<rparr>,
     version = ''1'', version_hash = ''h2'', enabled = True, employment = ''core'', origin = ''local''\<rparr>"

definition example_contracts :: "workforce_contract list" where
  "example_contracts = [builder, reviewer]"

definition example_context :: staffing_context where
  "example_context = \<lparr>staffing_host = ''zcode'', staffing_platform = ''linux'',
     available_tools = {''repository-read''}, roster_generation = 7,
     eligible_worker_ids = None, detected_stacks = []\<rparr>"

definition build_row :: unit_recruitment where
  "build_row = \<lparr>row_unit = ''unit-b'', required = [''builder''], acceptable = [], forbidden = [],
     selected = [''builder''], runner_up = [],
     ranked_semantic = [\<lparr>rank_agent = ''builder'', rank_position = 1, rank_score = 95 / 100\<rparr>],
     ranked_enabled = [\<lparr>rank_agent = ''builder'', rank_position = 1, rank_score = 95 / 100\<rparr>],
     ranked_executable = [\<lparr>rank_agent = ''builder'', rank_position = 1, rank_score = 95 / 100\<rparr>],
     disabled_shadows = [], unavailable_shadows = [],
     row_contexts = [\<lparr>ctx_agent = ''builder'', ctx_id = ''ctx-build''\<rparr>],
     confidence = 95 / 100, margin = 1 / 2, delivery = ''load'', timing = ''immediate'',
     row_abstention = []\<rparr>"

definition review_row :: unit_recruitment where
  "review_row = \<lparr>row_unit = ''unit-r'', required = [''reviewer''], acceptable = [],
     forbidden = [''builder''], selected = [''reviewer''], runner_up = [],
     ranked_semantic = [\<lparr>rank_agent = ''reviewer'', rank_position = 1, rank_score = 9 / 10\<rparr>,
       \<lparr>rank_agent = ''builder'', rank_position = 2, rank_score = 4 / 10\<rparr>],
     ranked_enabled = [\<lparr>rank_agent = ''reviewer'', rank_position = 1, rank_score = 9 / 10\<rparr>,
       \<lparr>rank_agent = ''builder'', rank_position = 2, rank_score = 4 / 10\<rparr>],
     ranked_executable = [\<lparr>rank_agent = ''reviewer'', rank_position = 1, rank_score = 9 / 10\<rparr>],
     disabled_shadows = [], unavailable_shadows = [],
     row_contexts = [\<lparr>ctx_agent = ''reviewer'', ctx_id = ''ctx-review''\<rparr>],
     confidence = 9 / 10, margin = 1 / 2, delivery = ''load'', timing = ''after_artifact'',
     row_abstention = []\<rparr>"

definition example_rows :: "unit_recruitment list" where
  "example_rows = [build_row, review_row]"

definition example_fingerprint :: string where
  "example_fingerprint = ''sha256:'' @ sha256_hex (''['' @ join '',''
      (map canonical_json (sort_key (\<lambda>c. (worker_id c, agent_id c)) example_contracts)) @ '']'')"

definition example_proposal :: recruiter_proposal where
  "example_proposal = \<lparr>proposal_plan_hash = plan_digest example_summary example_units,
     proposal_fingerprint = example_fingerprint, proposal_count = 2, proposal_generation = 7,
     proposal_rows = example_rows\<rparr>"


section \<open>It is well formed and accepted\<close>

lemma example_units_ok: "units_ok example_units"
  by code_simp

lemma example_plan_ok: "plan_ok example_plan"
proof -
  have "text_ok max_text_chars example_summary" by code_simp
  then show ?thesis using example_units_ok by (simp add: plan_ok_def example_plan_def)
qed

lemma example_rows_ok: "list_all row_ok example_rows"
  by code_simp

lemma example_proposal_ok: "proposal_ok example_plan example_proposal"
proof -
  have "is_digest (''sha256:'' @ sha256_hex m)" for m
    using sha256_hex_length [of m] sha256_hex_hex [of m] by (simp add: is_digest_def)
  moreover have "map row_unit example_rows = map unit_id example_units" by code_simp
  ultimately show ?thesis
    using example_rows_ok
    by (simp add: proposal_ok_def example_proposal_def example_plan_def example_fingerprint_def)
qed

lemma example_index_ok: "index_ok example_contracts"
  by code_simp

definition example_roster :: roster where
  "example_roster = [(''builder'', builder), (''reviewer'', reviewer)]"

lemma example_roster_of: "roster_of example_contracts = example_roster"
  by (simp add: roster_of_def dict_of_def example_contracts_def example_roster_def builder_def reviewer_def)

lemma build_row_quiet: "check_row example_roster example_context default_budget build_unit build_row = Inr []"
  by code_simp

lemma review_row_quiet: "check_row example_roster example_context default_budget review_unit review_row = Inr []"
  by code_simp

lemma example_composition_quiet:
  "check_composition \<lparr>request_summary = s, plan_units = example_units, plan_hash = h\<rparr>
     \<lparr>proposal_plan_hash = h, proposal_fingerprint = f, proposal_count = 2, proposal_generation = 7,
       proposal_rows = example_rows\<rparr> example_roster example_context = Inr []"
  by code_simp

lemma example_assurance_quiet:
  "check_assurance \<lparr>request_summary = s, plan_units = example_units, plan_hash = h\<rparr>
     \<lparr>proposal_plan_hash = h, proposal_fingerprint = f, proposal_count = 2, proposal_generation = 7,
       proposal_rows = example_rows\<rparr> example_roster = Inr []"
  by code_simp

lemma example_reuse_quiet:
  "check_reuse \<lparr>request_summary = s, plan_units = example_units, plan_hash = h\<rparr>
     \<lparr>proposal_plan_hash = h, proposal_fingerprint = f, proposal_count = 2, proposal_generation = 7,
       proposal_rows = example_rows\<rparr> example_roster example_context m default_budget = Inr []"
  by code_simp

lemma example_budgets_quiet:
  "check_budgets \<lparr>request_summary = s, plan_units = example_units, plan_hash = h\<rparr>
     \<lparr>proposal_plan_hash = h, proposal_fingerprint = f, proposal_count = 2, proposal_generation = 7,
       proposal_rows = example_rows\<rparr> default_budget = []"
  by code_simp

definition example_decision :: staffing_decision where
  "example_decision = \<lparr>decision_status = ''accepted'',
     decision_units = map verified_row example_rows, decision_reasons = []\<rparr>"

lemma example_verified:
  "verify_staffing example_plan example_proposal example_contracts example_context None False
     = Inr example_decision"
proof -
  have "check_snapshot example_proposal example_contracts example_context = Inr []"
  proof -
    have "workforce_index_fingerprint example_contracts = Inr example_fingerprint"
      using example_index_ok by (simp add: fingerprint_Inr_iff example_fingerprint_def)
    moreover have "duplicate_agents {} example_contracts = []" and "length example_contracts = 2"
      by (simp_all add: example_contracts_def builder_def reviewer_def)
    ultimately show ?thesis
      by (simp add: check_snapshot_def example_proposal_def example_context_def)
  qed
  moreover have "check_rows example_roster example_context default_budget example_units example_rows = Inr []"
    by (simp add: example_units_def example_rows_def build_row_quiet review_row_quiet)
  moreover have "length example_units = 2" by (simp add: example_units_def)
  ultimately have "all_reasons example_plan example_proposal example_contracts example_context
      default_budget False = Inr []"
    using example_composition_quiet example_assurance_quiet example_reuse_quiet example_budgets_quiet
    by (simp add: all_reasons_def example_roster_of example_plan_def example_proposal_def)
  moreover have "list_all (\<lambda>row. selected row \<noteq> []) example_rows"
    by (simp add: example_rows_def build_row_def review_row_def)
  ultimately show ?thesis
    by (simp add: verify_staffing_def report_def decide_def example_decision_def example_proposal_def)
qed

lemma example_accepted: "accepted example_decision"
  by (simp add: accepted_def example_decision_def)


section \<open>Two variations\<close>

text \<open>The build row delegated, on a host that does not offer native delegation.\<close>

definition delegated_row :: unit_recruitment where
  "delegated_row = build_row\<lparr>delivery := ''delegate''\<rparr>"

definition delegated_proposal :: recruiter_proposal where
  "delegated_proposal = example_proposal\<lparr>proposal_rows := [delegated_row, review_row]\<rparr>"

lemma delegated_proposal_ok: "proposal_ok example_plan delegated_proposal"
proof -
  have "row_ok delegated_row" by code_simp
  then show ?thesis
    using example_proposal_ok example_rows_ok
    by (simp add: proposal_ok_def delegated_proposal_def example_proposal_def example_rows_def
        delegated_row_def build_row_def)
qed

text \<open>The roster without the worker under review.\<close>

lemma unknown_target_composition:
  "check_composition \<lparr>request_summary = s, plan_units = example_units, plan_hash = h\<rparr>
     \<lparr>proposal_plan_hash = h, proposal_fingerprint = f, proposal_count = 2, proposal_generation = 7,
       proposal_rows = example_rows\<rparr> [(''reviewer'', reviewer)] example_context
   = Inl (KeyError ''builder'')"
  by code_simp

end
