(* ===== verification/Staff_Properties.thy ===== *)
theory Staff_Properties
  imports Staff_Example
begin

text \<open>
  The properties of the staffing verifier and of its parts, each with an application to the
  concrete staffing of the preceding theory.
\<close>

section \<open>Which codes a decision can carry\<close>

text \<open>The codes of \<open>_agent_composition\<close> that the published vocabulary does not hold.\<close>

definition composition_reason_codes :: "string list" where
  "composition_reason_codes = [''native_delegation_unavailable'', ''selection_exclusive_conflict'',
     ''required_composition_agent_missing'', ''composition_order_invalid'', ''same_context_conflict'',
     ''independent_review_target_missing'', ''review_context_reused'',
     ''review_independence_class_reused'']"

definition known_code :: "string \<Rightarrow> bool" where
  "known_code k = (k \<in> set staffing_verifier_reason_codes \<or> k \<in> set composition_reason_codes)"

definition coded :: "abstention_reason list \<Rightarrow> bool" where
  "coded es = (\<forall>r\<in>set es. known_code (reason_code r))"

lemma coded_simps [simp]:
  "coded []" "coded (xs @ ys) \<longleftrightarrow> coded xs \<and> coded ys"
  "coded (only_if b (reason code uid a detail)) \<longleftrightarrow> known_code code \<or> \<not> b"
  "coded (map (\<lambda>x. reason code (f x) (g x) (h x)) zs) \<longleftrightarrow> known_code code \<or> zs = []"
  "coded [reason code uid a detail] \<longleftrightarrow> known_code code"
  by (auto simp: coded_def reason_def)

lemma coded_concat: "coded (concat xss) \<longleftrightarrow> (\<forall>xs\<in>set xss. coded xs)"
  by (auto simp: coded_def)

lemma coded_concat_res:
  "concat_res f xs = Inr es \<Longrightarrow> (\<And>x zs. x \<in> set xs \<Longrightarrow> f x = Inr zs \<Longrightarrow> coded zs) \<Longrightarrow> coded es"
  using concat_res_set unfolding coded_def by metis

lemmas vocabulary = known_code_def staffing_verifier_reason_codes_def composition_reason_codes_def

lemma snapshot_coded: "check_snapshot p contracts ctx = Inr es \<Longrightarrow> coded es"
  by (auto simp: check_snapshot_def Let_def vocabulary split: sum.splits py_error.splits)

lemma row_coded: "check_row roster ctx budget u row = Inr es \<Longrightarrow> coded es"
  by (auto simp: check_row_def check_selection_def Let_def bind_res_Inr_iff check_ranking_def
      check_shadows_def abstained_reasons_def vocabulary)

lemma rows_coded: "check_rows roster ctx budget us rows = Inr es \<Longrightarrow> coded es"
  by (induction roster ctx budget us rows arbitrary: es rule: check_rows.induct)
    (auto simp: bind_res_Inr_iff dest: row_coded)

lemma relation_coded: "coded (relation_reasons row a relation xs ys)"
  by (simp add: relation_reasons_def vocabulary)

lemma agent_coded:
  assumes "agent_composition row b anc agents needed by ctxs roster ctx a = Inr es"
  shows "coded es"
proof -
  have conflict: "coded zs" if "conflict_reasons row a b t = Inr zs" for t zs
    using that by (auto simp: conflict_reasons_def bind_res_Inr_iff vocabulary split: option.splits)
  have review: "coded zs" if "review_reasons row a rel b anc agents by ctxs roster t = Inr zs" for rel t zs
    using that by (auto simp: review_reasons_def Let_def bind_res_Inr_iff vocabulary split: if_splits)
  have conflicts: "concat_res (conflict_reasons row a b) ts = Inr zs \<Longrightarrow> coded zs" for ts zs
    by (erule coded_concat_res) (rule conflict)
  have reviews: "concat_res (review_reasons row a rel b anc agents by ctxs roster) ts = Inr zs \<Longrightarrow> coded zs"
    for rel ts zs
    by (erule coded_concat_res) (rule review)
  show ?thesis
    using assms
    by (auto simp: agent_composition_def Let_def bind_res_Inr_iff relation_coded vocabulary
        split: option.splits dest: conflicts reviews)
qed

lemma composition_coded: "check_composition plan p roster ctx = Inr es \<Longrightarrow> coded es"
proof -
  have "coded zs" if "row_composition plan p roster ctx row = Inr zs" for row zs
    using that
    by (auto simp: row_composition_def Let_def bind_res_Inr_iff substitution_reasons_def coded_concat
        vocabulary split: if_splits intro: coded_concat_res [OF _ agent_coded])
  then show "check_composition plan p roster ctx = Inr es \<Longrightarrow> coded es"
    unfolding check_composition_def by (metis coded_concat_res)
qed

lemma independence_coded:
  "check_assurance plan p roster = Inr es \<Longrightarrow> coded es"
  "check_reuse plan p roster ctx m budget = Inr es' \<Longrightarrow> coded es'"
proof -
  have "coded zs" if "row_reuse plan p roster ctx m budget row = Inr zs" for row zs
    using that by (auto simp: row_reuse_def Let_def bind_res_Inr_iff vocabulary split: if_splits)
  then show "check_reuse plan p roster ctx m budget = Inr es' \<Longrightarrow> coded es'"
    unfolding check_reuse_def by (metis coded_concat_res)
  show "check_assurance plan p roster = Inr es \<Longrightarrow> coded es"
    unfolding check_assurance_def
    by (erule coded_concat_res) (auto simp: bind_res_Inr_iff vocabulary split: if_splits)
qed

lemma budgets_coded: "coded (check_budgets plan p budget)"
  by (auto simp: check_budgets_def row_budget_def coded_concat vocabulary)

lemma all_reasons_coded: "all_reasons plan p contracts ctx budget single = Inr es \<Longrightarrow> coded es"
  by (auto simp: all_reasons_def Let_def bind_res_Inr_iff budgets_coded vocabulary split: if_splits
      dest: snapshot_coded rows_coded composition_coded independence_coded)


section \<open>The verifier\<close>

definition active_budget :: "staffing_budget option \<Rightarrow> staffing_budget" where
  "active_budget budget = (case budget of None \<Rightarrow> default_budget | Some b \<Rightarrow> b)"

text \<open>C1: On a parsed plan, a parsed proposal and a valid workforce index the verifier always
  returns a decision, and it accepts exactly when the proposal is bound to the plan and the
  snapshot, every row recomputes to what it claims, the composition rules hold, no review is
  staffed by a worker it reviews while an independent team exists, and the budgets are kept.\<close>

theorem verifier_decides:
  assumes "plan_ok plan" and "proposal_ok plan p" and "index_ok contracts"
  shows "\<exists>d. verify_staffing plan p contracts ctx budget single = Inr d
    \<and> (accepted d \<longleftrightarrow> staffing_recipe plan p contracts ctx (active_budget budget) single)"
  by (rule verify_decides [OF assms]) (simp add: active_budget_def)

lemma verifier_decides_witness:
  "staffing_recipe example_plan example_proposal example_contracts example_context default_budget False"
  using verifier_decides [OF example_plan_ok example_proposal_ok example_index_ok, of example_context None False]
    example_verified example_accepted
  by (simp add: active_budget_def)

lemma accepted_pair:
  assumes "plan_ok plan" and "proposal_ok plan p"
    and "verify_staffing plan p contracts ctx budget single = Inr d" and "accepted d"
    and "(u, row) \<in> set (zip (plan_units plan) (proposal_rows p))"
  shows "row_sound (roster_of contracts) ctx (active_budget budget) u row"
  using paired_row_sound [OF accepted_recipe [OF assms(1-4)] assms(5)] by (simp add: active_budget_def)

lemma pair_of_row:
  assumes "aligned plan p" and "row \<in> set (proposal_rows p)"
  obtains u where "(u, row) \<in> set (zip (plan_units plan) (proposal_rows p))"
  using assms aligned_facts(4) [OF assms(1)] by (metis in_set_impl_in_set_zip2)

lemma selected_executable:
  assumes "row_sound roster ctx budget u row" and "distinct (map rank_agent (ranked_semantic row))"
  shows "set (selected row) \<subseteq> set (executable_ids u row roster ctx)"
  using row_sound_smallest [OF assms] by (auto simp: smallest_team_def dest: subseq_set)

text \<open>C2: Every worker selected in an accepted decision holds a contract of the roster that may do
  the work of its unit on this host: enabled and live, approved and version-bound, supporting
  the host and platform, with the tools, authority, stack and capability of the unit, and not
  declaring the work out of scope.\<close>

theorem accepted_workers_eligible:
  assumes "plan_ok plan" and "proposal_ok plan p"
    and "verify_staffing plan p contracts ctx budget single = Inr d" and "accepted d"
    and "v \<in> set (decision_units d)" and "a \<in> set (verified_selected v)"
  shows "\<exists>u\<in>set (plan_units plan). \<exists>c\<in>set contracts.
    unit_id u = verified_unit_id v \<and> agent_id c = a \<and> may_work u c ctx"
proof -
  obtain es where "d = decide p es" using accepted_reasons [OF assms(3,4) refl] by metis
  then obtain row where row: "row \<in> set (proposal_rows p)" "v = verified_row row"
    using assms(4,5) by (auto simp: decide_units)
  have al: "aligned plan p" using parsed_aligned assms(1,2) by blast
  obtain u where pair: "(u, row) \<in> set (zip (plan_units plan) (proposal_rows p))"
    using pair_of_row [OF al row(1)] .
  have "a \<in> set (executable_ids u row (roster_of contracts) ctx)"
    using selected_executable [OF accepted_pair [OF assms(1-4) pair]]
      proposal_distinct_ranks [OF assms(2) row(1)] assms(6) row(2)
    by (auto simp: verified_row_def)
  then obtain c where c: "map_of (roster_of contracts) a = Some c" "may_work u c ctx"
    using executable_may_work by blast
  moreover have "unit_id u = verified_unit_id v" using zip_ids [OF al pair] row(2) by (simp add: verified_row_def)
  ultimately show ?thesis using roster_of_Some [OF c(1)] set_zip_leftD [OF pair] by blast
qed

lemma accepted_workers_eligible_witness:
  "\<exists>u\<in>set (plan_units example_plan). \<exists>c\<in>set example_contracts.
    unit_id u = ''unit-r'' \<and> agent_id c = ''reviewer'' \<and> may_work u c example_context"
  using accepted_workers_eligible [OF example_plan_ok example_proposal_ok example_verified
      example_accepted, of "verified_row review_row" "''reviewer''"]
  by (simp add: example_decision_def example_rows_def verified_row_def review_row_def)

text \<open>C3: In an accepted decision each row selects all its required workers, nobody outside its
  required and acceptable ones, nobody forbidden, at least one worker, and lists them in the
  order of its ranking.\<close>

theorem accepted_selection:
  assumes "plan_ok plan" and "proposal_ok plan p"
    and "verify_staffing plan p contracts ctx budget single = Inr d" and "accepted d"
    and "row \<in> set (proposal_rows p)"
  shows "selected row \<noteq> [] \<and> set (required row) \<subseteq> set (selected row)
    \<and> set (selected row) \<subseteq> set (required row) \<union> set (acceptable row)
    \<and> set (forbidden row) \<inter> set (selected row) = {}
    \<and> subseq (selected row) (map rank_agent (ranked_semantic row))"
proof -
  obtain u where "(u, row) \<in> set (zip (plan_units plan) (proposal_rows p))"
    using pair_of_row [OF parsed_aligned [OF assms(1,2)] assms(5)] .
  note sound = accepted_pair [OF assms(1-4) this]
  have "subseq (selected row) (executable_ids u row (roster_of contracts) ctx)"
    using row_sound_smallest [OF sound proposal_distinct_ranks [OF assms(2,5)]]
    by (simp add: smallest_team_def)
  then have "subseq (selected row) (map rank_agent (ranked_semantic row))"
    unfolding executable_ids_eq by (rule subseq_order.trans) simp
  with sound show ?thesis unfolding row_sound_def selection_sound_def by blast
qed

lemma accepted_selection_witness:
  "subseq (selected review_row) (map rank_agent (ranked_semantic review_row))"
  using accepted_selection [OF example_plan_ok example_proposal_ok example_verified example_accepted,
      of review_row]
  by (simp add: example_proposal_def example_rows_def)



text \<open>C5: The team of an accepted row is a smallest one: any other set of ranked workers that may
  do the work, are not forbidden, include the required ones, fit the per-unit bound and cover
  every requirement that is not waived has at least as many members.\<close>

theorem accepted_minimality:
  assumes "plan_ok plan" and "proposal_ok plan p"
    and "verify_staffing plan p contracts ctx budget single = Inr d" and "accepted d"
    and "(u, row) \<in> set (zip (plan_units plan) (proposal_rows p))"
    and "A \<noteq> {}" and "set (required row) \<subseteq> A"
    and "int (card A) \<le> max_selected_per_unit (active_budget budget)"
    and "\<forall>a\<in>A. a \<in> rank_agent ` set (ranked_semantic row) \<and> a \<notin> set (forbidden row)
           \<and> (\<exists>c\<in>set contracts. agent_id c = a \<and> may_work u c ctx)"
    and "\<forall>t\<in>set (requirements u). t \<in> set (waived_tokens u (roster_of contracts) ctx)
           \<or> (\<exists>c\<in>set contracts. agent_id c \<in> A \<and> t \<in> coverage u c)"
  shows "length (selected row) \<le> card A"
proof -
  note sound = accepted_pair [OF assms(1-5)]
  have row: "row \<in> set (proposal_rows p)" using assms(5) by (rule set_zip_rightD)
  have "distinct (map agent_id contracts)"
    using accepted_index [OF assms(3,4)] by (simp add: index_ok_def)
  then have look: "map_of (roster_of contracts) (agent_id c) = Some c" if "c \<in> set contracts" for c
    using dict_of_rows [of agent_id contracts c "\<lambda>c. c"] that by (simp only: roster_of_def)
  have "A \<subseteq> set (executable_ids u row (roster_of contracts) ctx)"
    using assms(9) look
    by (fastforce simp: executable_ids_eq is_executable_def roster_says_iff eligibility_Nil_iff)
  moreover have "covers u (roster_of contracts)
      (set (requirements u) - set (waived_tokens u (roster_of contracts) ctx)) {} A"
    using assms(10) look by (fastforce simp: covers_def)
  ultimately have "staffable u (roster_of contracts) (executable_ids u row (roster_of contracts) ctx)
      (set (required row)) (max_selected_per_unit (active_budget budget))
      (set (waived_tokens u (roster_of contracts) ctx)) A"
    using assms(6-8) by (simp add: staffable_def)
  moreover have "selected row \<noteq> []" using sound by (simp add: row_sound_def selection_sound_def)
  ultimately show ?thesis
    using row_sound_smallest [OF sound proposal_distinct_ranks [OF assms(2) row]]
    by (auto simp: smallest_team_def)
qed

lemma example_pairs:
  "(build_unit, build_row) \<in> set (zip (plan_units example_plan) (proposal_rows example_proposal))"
  "(review_unit, review_row) \<in> set (zip (plan_units example_plan) (proposal_rows example_proposal))"
  by (simp_all add: example_plan_def example_units_def example_proposal_def example_rows_def)

lemma reviewer_may_work: "may_work review_unit reviewer example_context"
proof -
  have "eligibility review_unit reviewer example_context False = []" by code_simp
  then show ?thesis by (simp add: eligibility_Nil_iff)
qed

lemma accepted_minimality_witness: "length (selected review_row) \<le> 1"
proof -
  have row: "set (required review_row) \<subseteq> {''reviewer''}"
      "\<forall>a\<in>{''reviewer''}. a \<in> rank_agent ` set (ranked_semantic review_row) \<and> a \<notin> set (forbidden review_row)"
    by (simp_all add: review_row_def)
  have roster: "\<exists>c\<in>set example_contracts. agent_id c = ''reviewer'' \<and> may_work review_unit c example_context"
    using reviewer_may_work by (simp add: example_contracts_def) (simp add: reviewer_def)
  have "set (requirements review_unit) \<subseteq> coverage review_unit reviewer" by code_simp
  have covered: "\<forall>t\<in>set (requirements review_unit).
      \<exists>c\<in>set example_contracts. agent_id c \<in> {''reviewer''} \<and> t \<in> coverage review_unit c"
  proof -
    have "agent_id reviewer = ''reviewer''" by (simp add: reviewer_def)
    with \<open>set (requirements review_unit) \<subseteq> _\<close> show ?thesis by (auto simp: example_contracts_def)
  qed
  show ?thesis
    using accepted_minimality [OF example_plan_ok example_proposal_ok example_verified example_accepted
        example_pairs(2), of "{''reviewer''}"] row roster covered
    by (simp add: active_budget_def default_budget_def)
qed

text \<open>An accepted decision is bound to its inputs: the plan's hash, and the fingerprint, size
  and generation of a valid workforce index.\<close>

lemma accepted_binding:
  assumes "verify_staffing plan p contracts ctx budget single = Inr d" and "accepted d"
  shows "proposal_plan_hash p = plan_hash plan \<and> index_ok contracts
    \<and> workforce_index_fingerprint contracts = Inr (proposal_fingerprint p)
    \<and> proposal_count p = int (length contracts) \<and> proposal_generation p = roster_generation ctx"
proof -
  obtain es where "all_reasons plan p contracts ctx (active_budget budget) single = Inr es" "quiet es"
    using accepted_reasons [OF assms active_budget_def] by blast
  then obtain snap where "check_snapshot p contracts ctx = Inr snap" "quiet snap"
    and "proposal_plan_hash p = plan_hash plan"
    by (auto simp: all_reasons_def Let_def bind_res_Inr_iff advisory_iff)
  then show ?thesis
    using check_snapshot_quiet accepted_index [OF assms] by (auto simp: snapshot_bound_def)
qed

lemma accepted_binding_witness:
  "workforce_index_fingerprint example_contracts = Inr (proposal_fingerprint example_proposal)"
  using accepted_binding [OF example_verified example_accepted] by blast

text \<open>An accepted decision keeps every budget: the number of units, the workers selected in
  total, loaded and delegated, the workers per unit, and the confidence and margin floors.\<close>

lemma accepted_budgets:
  assumes "verify_staffing plan p contracts ctx budget single = Inr d" and "accepted d"
    and "b = active_budget budget"
  shows "int (length (plan_units plan)) \<le> max_work_units_allowed b
    \<and> (\<Sum>row\<leftarrow>proposal_rows p. int (length (selected row))) \<le> max_selected_total b
    \<and> (\<Sum>row\<leftarrow>filter (\<lambda>row. delivery row = ''load'') (proposal_rows p). int (length (selected row))) \<le> max_loaded b
    \<and> (\<Sum>row\<leftarrow>filter (\<lambda>row. delivery row = ''delegate'') (proposal_rows p). int (length (selected row))) \<le> max_delegated b
    \<and> (\<forall>row\<in>set (proposal_rows p). int (length (selected row)) \<le> max_selected_per_unit b
         \<and> min_confidence b \<le> confidence row \<and> min_margin b \<le> margin row)"
proof -
  obtain es where es: "all_reasons plan p contracts ctx b single = Inr es" "quiet es" "d = decide p (report [] es)"
    using accepted_reasons [OF assms(1,2)] assms(3) active_budget_def by metis
  then have "within_budget plan p b"
    by (auto simp: all_reasons_def Let_def bind_res_Inr_iff check_budgets_quiet)
  moreover have "\<forall>row\<in>set (proposal_rows p). selected row \<noteq> []"
    using assms(2) es(3) by (simp add: decide_accepted_iff)
  ultimately show ?thesis by (simp add: within_budget_def selected_total_def)
qed

lemma accepted_budgets_witness:
  "(\<Sum>row\<leftarrow>example_rows. int (length (selected row))) \<le> 16 \<and> 8 / 10 \<le> confidence review_row"
  using accepted_budgets [OF example_verified example_accepted refl]
  by (simp add: active_budget_def default_budget_def example_proposal_def) (simp add: example_rows_def)

text \<open>C6: In an accepted decision every selected worker's composition contract holds: it is given
  the context its row binds it to, delegation happens only where the host offers it, no worker it
  excludes is selected with it, everyone it requires is selected on the unit, before it or as its
  later assurance, everyone it must follow worked on an earlier unit, it shares no context with a
  conflicting worker, and whoever it must review independently worked earlier, in another context
  and in another independence class.\<close>

theorem accepted_composition:
  assumes "plan_ok plan" and "proposal_ok plan p"
    and "verify_staffing plan p contracts ctx budget single = Inr d" and "accepted d"
    and "row \<in> set (proposal_rows p)" and "c \<in> set contracts" and "agent_id c \<in> set (selected row)"
  shows "map ctx_agent (row_contexts row) = selected row
    \<and> (delivery row = ''delegate'' \<longrightarrow> ''native-delegation'' \<in> available_tools ctx
         \<and> distinct (map ctx_id (row_contexts row)))
    \<and> set (selection_exclusive (composition c)) \<inter> set (selected row) = {}
    \<and> set (requires_agents (composition c)) \<subseteq> set (selected row)
         \<union> upstream_agents plan p (row_unit row) \<union> downstream_agents plan p (row_unit row)
    \<and> set (must_follow (composition c)) \<subseteq> upstream_agents plan p (row_unit row)
    \<and> (\<forall>t\<in>set (same_context_conflicts (composition c)). t \<in> set (selected row)
         \<longrightarrow> context_of row t \<noteq> context_of row (agent_id c))
    \<and> (\<forall>t\<in>set (must_review_independently (composition c)).
         reviews_independently plan p (roster_of contracts) row (composition c) (agent_id c) t)"
proof -
  have "row_composed plan p (roster_of contracts) ctx row"
    using accepted_recipe [OF assms(1-4)] assms(5) by (simp add: staffing_recipe_def)
  moreover have "distinct (map agent_id contracts)"
    using accepted_index [OF assms(3,4)] by (simp add: index_ok_def)
  then have "map_of (roster_of contracts) (agent_id c) = Some c"
    using dict_of_rows [of agent_id contracts c "\<lambda>c. c"] assms(6) by (simp only: roster_of_def)
  ultimately have composed: "agent_composed plan p (roster_of contracts) ctx row (agent_id c) (composition c)"
    and rows: "map ctx_agent (row_contexts row) = selected row"
      "delivery row = ''delegate'' \<longrightarrow> distinct (map ctx_id (row_contexts row))"
      "distinct (selected row)"
    using assms(7) unfolding row_composed_def by blast+
  have "context_of row t \<noteq> None" if "t \<in> set (selected row)" for t
  proof -
    have "t \<in> ctx_agent ` set (row_contexts row)" using that rows(1) by (metis set_map)
    then show ?thesis
      using binding_of_eq [of row] rows by (simp add: context_of_def map_of_eq_None_iff image_image)
  qed
  with composed rows show ?thesis unfolding agent_composed_def by blast
qed

lemma accepted_composition_witness:
  "''builder'' \<in> upstream_agents example_plan example_proposal ''unit-r''
   \<and> reviews_independently example_plan example_proposal (roster_of example_contracts) review_row
        (composition reviewer) ''reviewer'' ''builder''"
proof -
  have row: "review_row \<in> set (proposal_rows example_proposal)" and c: "reviewer \<in> set example_contracts"
    and a: "agent_id reviewer \<in> set (selected review_row)"
    by (simp_all add: example_proposal_def example_rows_def example_contracts_def reviewer_def review_row_def)
  have "row_unit review_row = ''unit-r''" "agent_id reviewer = ''reviewer''"
    "must_follow (composition reviewer) = [''builder'']"
    "must_review_independently (composition reviewer) = [''builder'']"
    by (simp_all add: review_row_def reviewer_def)
  with accepted_composition [OF example_plan_ok example_proposal_ok example_verified example_accepted row c a]
  show ?thesis by simp
qed

text \<open>C7: In an accepted decision on a plan of several units, a review that follows the artifact
  is staffed by nobody who worked on a unit it depends on, unless no team of its other executable
  workers, within the per-unit bound, covers its requirements.\<close>

theorem accepted_reviews_independent:
  assumes "plan_ok plan" and "proposal_ok plan p"
    and "verify_staffing plan p contracts ctx budget False = Inr d" and "accepted d"
    and "(u, row) \<in> set (zip (plan_units plan) (proposal_rows p))" and "is_assurance u row"
  shows "set (selected row) \<inter> upstream_agents plan p (row_unit row) = {}
    \<or> (\<forall>A. \<not> staffable u (roster_of contracts)
         (filter (\<lambda>a. a \<notin> upstream_agents plan p (row_unit row)) (executable_ids u row (roster_of contracts) ctx))
         {} (max_selected_per_unit (active_budget budget)) (set (waived_tokens u (roster_of contracts) ctx)) A)"
  using accepted_recipe [OF assms(1-4)] assms(5,6)
  by (auto simp: staffing_recipe_def list_all2_iff reuse_free_def active_budget_def)

lemma accepted_reviews_independent_witness:
  "is_assurance review_unit review_row \<and>
   (set (selected review_row) \<inter> upstream_agents example_plan example_proposal ''unit-r'' = {}
    \<or> (\<forall>A. \<not> staffable review_unit (roster_of example_contracts)
         (filter (\<lambda>a. a \<notin> upstream_agents example_plan example_proposal ''unit-r'')
            (executable_ids review_unit review_row (roster_of example_contracts) example_context))
         {} 4 (set (waived_tokens review_unit (roster_of example_contracts) example_context)) A))"
proof -
  have review: "is_assurance review_unit review_row" by code_simp
  have "row_unit review_row = ''unit-r''" by (simp add: review_row_def)
  with accepted_reviews_independent [OF example_plan_ok example_proposal_ok example_verified
      example_accepted example_pairs(2) review] review
  show ?thesis by (simp add: active_budget_def default_budget_def)
qed

lemma decide_abstained: "\<not> (quiet es \<and> (\<forall>row\<in>set (proposal_rows p). selected row \<noteq> [])) \<Longrightarrow>
    decision_status (decide p es) = ''abstained''"
  by (auto simp: decide_def Let_def quiet_def filter_empty_conv list_all_iff)

text \<open>C8: A decision is all or nothing. Accepted, it repeats every row of the proposal and carries
  only advisory findings; otherwise it staffs nothing, and some finding is fatal or some row
  selects nobody.\<close>

theorem decision_all_or_nothing:
  assumes "verify_staffing plan p contracts ctx budget single = Inr d"
  shows "distinct (decision_reasons d)
    \<and> (if accepted d
       then decision_units d = map verified_row (proposal_rows p)
         \<and> (\<forall>r\<in>set (decision_reasons d). reason_code r \<in> {''independent_assurance_missing'', ''roster_coverage_gap''})
       else decision_units d = [] \<and> decision_status d = ''abstained''
         \<and> ((\<exists>r\<in>set (decision_reasons d). reason_code r \<notin> {''independent_assurance_missing'', ''roster_coverage_gap''})
            \<or> (\<exists>row\<in>set (proposal_rows p). selected row = [])))"
proof -
  obtain es where "d = decide p (report [] es)"
    using assms by (auto simp: verify_staffing_def bind_res_Inr_iff)
  then show ?thesis
    by (auto simp: decide_units decide_abstained decide_accepted_iff quiet_def advisory_iff distinct_report)
qed

lemma decision_all_or_nothing_witness:
  "decision_units example_decision = map verified_row (proposal_rows example_proposal)"
  using decision_all_or_nothing [OF example_verified] example_accepted by simp

text \<open>Every finding of a decision has a code of the published vocabulary or one of the eight
  codes of the agent composition check.\<close>

lemma decision_codes:
  assumes "verify_staffing plan p contracts ctx budget single = Inr d"
    and "r \<in> set (decision_reasons d)"
  shows "reason_code r \<in> set staffing_verifier_reason_codes \<or> reason_code r \<in> set composition_reason_codes"
proof -
  obtain es where "all_reasons plan p contracts ctx (active_budget budget) single = Inr es"
    and "d = decide p (report [] es)"
    using assms(1) by (auto simp: verify_staffing_def bind_res_Inr_iff active_budget_def)
  then show ?thesis
    using all_reasons_coded assms(2) by (auto simp: decide_units coded_def known_code_def)
qed

lemma delegated_native:
  assumes "proposal_ok plan p" and "plan_ok plan" and "index_ok contracts"
    and row: "row \<in> set (proposal_rows p)" and delegated: "delivery row = ''delegate''"
    and native: "''native-delegation'' \<notin> available_tools ctx"
    and bound: "map ctx_agent (row_contexts row) = selected row" "distinct (selected row)"
    and a: "a \<in> set (selected row)" "a \<in> agent_id ` set contracts"
  shows "\<exists>d. verify_staffing plan p contracts ctx budget single = Inr d
    \<and> reason ''native_delegation_unavailable'' (row_unit row) a [] \<in> set (decision_reasons d)"
proof -
  let ?roster = "roster_of contracts"
  have al: "aligned plan p" using parsed_aligned assms(1,2) by blast
  obtain c where c: "map_of ?roster a = Some c"
    using a(2) by (metis map_of_eq_None_iff not_Some_eq roster_of_keys)
  obtain es where es: "all_reasons plan p contracts ctx (active_budget budget) single = Inr es"
    using staffing_decided [OF assms(2,1,3)] by blast
  then obtain comp where comp: "check_composition plan p ?roster ctx = Inr comp" and sub: "set comp \<subseteq> set es"
    unfolding all_reasons_def Let_def bind_res_Inr_iff
    by (elim exE conjE) (rule that, assumption, auto)
  obtain zs where zs: "row_composition plan p ?roster ctx row = Inr zs" and sub': "set zs \<subseteq> set comp"
    using concat_res_set' [OF comp [unfolded check_composition_def] row] by blast
  have "map fst (binding_of row) = selected row \<and> length (binding_of row) = length (row_contexts row)"
    using binding_aligned_iff bound by blast
  then obtain units agents needed ag where
    ag: "concat_res (agent_composition row (binding_of row) units agents needed (selected_by_unit p)
        (contexts_by_unit p) ?roster ctx) (selected row) = Inr ag" and "set ag \<subseteq> set zs"
    using zs unfolding row_composition_def Let_def bind_res_Inr_iff dict_get_Inr_iff contexts_by_unit_row [OF al row]
    by (auto simp: bind_res_Inr_iff intro: that)
  obtain ys where "agent_composition row (binding_of row) units agents needed (selected_by_unit p)
        (contexts_by_unit p) ?roster ctx a = Inr ys" and "set ys \<subseteq> set ag"
    using concat_res_set' [OF ag a(1)] by blast
  moreover from this(1) have "reason ''native_delegation_unavailable'' (row_unit row) a [] \<in> set ys"
    using c delegated native by (auto simp: agent_composition_def Let_def bind_res_Inr_iff only_if_def)
  ultimately have "reason ''native_delegation_unavailable'' (row_unit row) a [] \<in> set es"
    using sub sub' \<open>set ag \<subseteq> set zs\<close> by blast
  then show ?thesis
    using es by (simp add: verify_staffing_def active_budget_def [symmetric] decide_units)
qed

lemma decision_codes_witness:
  "\<exists>d. verify_staffing example_plan delegated_proposal example_contracts example_context None False = Inr d
    \<and> (\<forall>r\<in>set (decision_reasons d). reason_code r \<in> set staffing_verifier_reason_codes
         \<or> reason_code r \<in> set composition_reason_codes)"
proof -
  obtain d where "verify_staffing example_plan delegated_proposal example_contracts example_context None False = Inr d"
    using verify_decides [OF example_plan_ok delegated_proposal_ok example_index_ok refl] by blast
  with decision_codes [OF this] show ?thesis by blast
qed

text \<open>A worker delegated on a host without native delegation is reported with a code that the
  published vocabulary of the verifier does not hold: the set that claims to list every code the
  verifier can put on a decision is incomplete.\<close>

theorem delegation_code_unlisted:
  assumes "plan_ok plan" and "proposal_ok plan p" and "index_ok contracts"
    and "row \<in> set (proposal_rows p)" and "delivery row = ''delegate''"
    and "''native-delegation'' \<notin> available_tools ctx"
    and "map ctx_agent (row_contexts row) = selected row" and "distinct (selected row)"
    and "a \<in> set (selected row)" and "a \<in> agent_id ` set contracts"
  shows "\<exists>d. verify_staffing plan p contracts ctx budget single = Inr d
    \<and> (\<exists>r\<in>set (decision_reasons d). reason_agent r = a \<and> reason_unit r = row_unit row
         \<and> reason_code r \<notin> set staffing_verifier_reason_codes)"
proof -
  have code: "''native_delegation_unavailable'' \<notin> set staffing_verifier_reason_codes"
    by (simp add: staffing_verifier_reason_codes_def)
  obtain d where "verify_staffing plan p contracts ctx budget single = Inr d"
    and "reason ''native_delegation_unavailable'' (row_unit row) a [] \<in> set (decision_reasons d)"
    using delegated_native [OF assms(2,1,3-10)] by blast
  then show ?thesis using code by (intro exI conjI bexI) (auto simp: reason_def)
qed

lemma delegation_code_unlisted_witness:
  "\<exists>d. verify_staffing example_plan delegated_proposal example_contracts example_context None False = Inr d
    \<and> (\<exists>r\<in>set (decision_reasons d). reason_code r \<notin> set staffing_verifier_reason_codes)"
proof -
  have "delegated_row \<in> set (proposal_rows delegated_proposal)" "delivery delegated_row = ''delegate''"
    "''native-delegation'' \<notin> available_tools example_context"
    "map ctx_agent (row_contexts delegated_row) = selected delegated_row" "distinct (selected delegated_row)"
    "''builder'' \<in> set (selected delegated_row)" "''builder'' \<in> agent_id ` set example_contracts"
    by (simp_all add: delegated_proposal_def delegated_row_def build_row_def example_context_def
        example_contracts_def builder_def)
  from delegation_code_unlisted [OF example_plan_ok delegated_proposal_ok example_index_ok this]
  show ?thesis by blast
qed

text \<open>When the roster lacks a worker that a selected reviewer must review independently, the
  verifier does not report the invalid snapshot: the \<open>KeyError\<close> of the lookup escapes.\<close>

theorem verifier_key_error:
  "verify_staffing example_plan example_proposal [reviewer] example_context None False
     = Inl (KeyError ''builder'')"
proof -
  have al: "aligned example_plan example_proposal"
    using parsed_aligned example_plan_ok example_proposal_ok by blast
  have roster: "roster_of [reviewer] = [(''reviewer'', reviewer)]"
    by (simp add: roster_of_def dict_of_def reviewer_def)
  obtain snap where "check_snapshot example_proposal [reviewer] example_context = Inr snap"
    using check_snapshot_total by blast
  moreover obtain rows where "check_rows (roster_of [reviewer]) example_context default_budget
      (plan_units example_plan) (proposal_rows example_proposal) = Inr rows"
    using check_rows_total [OF aligned_facts(4) [OF al]] proposal_distinct_ranks [OF example_proposal_ok]
    by blast
  moreover have "check_composition example_plan example_proposal (roster_of [reviewer]) example_context
      = Inl (KeyError ''builder'')"
    using unknown_target_composition by (simp add: roster example_plan_def example_proposal_def)
  ultimately show ?thesis by (simp add: verify_staffing_def all_reasons_def)
qed


section \<open>Parts of the verifier\<close>

text \<open>C9: The team search returns without a lookup error on ranked workers of the roster, and what
  it returns is exact: a nonempty result is a subsequence of the ranking that holds the required
  workers, fits the bound, covers what is needed and is smallest; an empty one means that no such
  team exists.\<close>

theorem team_search_exact:
  assumes "set ranked \<subseteq> fst ` set roster" and "distinct ranked"
  shows "\<exists>team. minimum_team_with_required u ranked roster required_ids maximum waivers = Inr team
    \<and> subseq team ranked
    \<and> (if team = [] then \<forall>A. \<not> staffable u roster ranked required_ids maximum waivers A
       else staffable u roster ranked required_ids maximum waivers (set team)
         \<and> (\<forall>A. staffable u roster ranked required_ids maximum waivers A \<longrightarrow> length team \<le> card A))"
  using minimum_team_exact [OF assms, of u required_ids maximum waivers]
  by (auto simp: smallest_team_def)

lemma team_search_exact_witness:
  "\<exists>team. minimum_team_with_required review_unit [''reviewer'', ''builder''] example_roster {''reviewer''} 4 {} = Inr team
    \<and> subseq team [''reviewer'', ''builder'']"
  using team_search_exact [of "[''reviewer'', ''builder'']" example_roster]
  by (fastforce simp: example_roster_def)

text \<open>The ancestors of a unit are exactly what its dependencies reach, and on a parsed plan
  they are computed without error, name earlier units only, and never include the unit itself.\<close>

lemma ancestors_exact:
  assumes "plan_ok plan" and "i < length (plan_units plan)"
  shows "\<exists>S. ancestors plan (unit_id (plan_units plan ! i)) = Inr S
    \<and> S = before plan (unit_id (plan_units plan ! i))
    \<and> S \<subseteq> unit_id ` set (take i (plan_units plan))
    \<and> unit_id (plan_units plan ! i) \<notin> S"
proof -
  let ?uid = "unit_id (plan_units plan ! i)"
  have ok: "units_ok (plan_units plan)" using assms(1) by (simp add: plan_ok_def)
  obtain S where S: "ancestors plan ?uid = Inr S"
    using ancestors_total [OF ok, of ?uid] assms(2) by auto
  moreover have eq: "S = before plan ?uid" using ancestors_closure [OF S] by (simp add: before_def)
  moreover have "b \<in> unit_id ` set (take i (plan_units plan))" if "b \<in> S" for b
  proof -
    have "(?uid, b) \<in> {(x, y). y \<in> depends (units_by_id plan) x}\<^sup>+"
      using that eq by (simp add: before_def)
    then obtain j where "j < i" "unit_id (plan_units plan ! j) = b"
      using ancestors_earlier [OF ok assms(2)] by blast
    then show ?thesis using assms(2) by (force simp: in_set_conv_nth image_iff)
  qed
  ultimately show ?thesis using ancestors_acyclic [OF ok S] by auto
qed

lemma ancestors_exact_witness:
  "ancestors example_plan ''unit-r'' = Inr (before example_plan ''unit-r'')"
  using ancestors_exact [OF example_plan_ok, of 1]
  by (auto simp: example_plan_def example_units_def review_unit_def)

end
