(* ===== verification/Staff_Propose.thy ===== *)
theory Staff_Propose
  imports Staff_Accept
begin

text \<open>
  \<open>build_deterministic_proposal\<close> of \<open>core/workforce/staffing_verifier.py\<close>: a proposal computed
  from semantic rankings. The lemmas show that on well-formed inputs it returns a proposal that
  parses, and that the verifier, recomputing it, finds nothing against any row that is staffed.
\<close>

section \<open>Inputs\<close>

text \<open>The optional keyword arguments: staffing classes per unit and the declared gaps.\<close>

type_synonym unit_classes = "(string \<times> string set) list"

record staffing_semantics =
  semantic_required :: "unit_classes option"
  semantic_acceptable :: "unit_classes option"
  semantic_forbidden :: "unit_classes option"
  invariant_required :: "unit_classes option"
  semantic_gap_units :: "string set option"

definition class_of :: "unit_classes option \<Rightarrow> string \<Rightarrow> string set" where
  "class_of m uid = (case m of None \<Rightarrow> {} | Some d \<Rightarrow> get_or d uid {})"

definition explicit_semantics :: "staffing_semantics \<Rightarrow> bool" where
  "explicit_semantics s = (semantic_required s \<noteq> None \<or> semantic_acceptable s \<noteq> None
     \<or> semantic_forbidden s \<noteq> None)"

definition validated_gaps :: "work_unit_plan \<Rightarrow> string set option \<Rightarrow> string set res" where
  "validated_gaps plan gaps = (let declared = (case gaps of None \<Rightarrow> {} | Some g \<Rightarrow> g) in
     if \<not> declared \<subseteq> set (map unit_id (plan_units plan))
     then Inl (ValueError ''semantic gap units must belong to the plan'') else Inr declared)"

type_synonym ranking = "(string \<times> rat) list"

definition unit_score :: "py_float \<Rightarrow> rat option" where
  "unit_score f = (case f of PyFin q t \<Rightarrow> if 0 \<le> q \<and> q \<le> 1 then Some (round6 q) else None | _ \<Rightarrow> None)"

fun read_ranking :: "roster \<Rightarrow> string set \<Rightarrow> (string \<times> py_float) list \<Rightarrow> ranking res" where
  "read_ranking roster seen [] = Inr []"
| "read_ranking roster seen ((a, score) # rest) =
     (if a \<notin> set (map fst roster) \<or> a \<in> seen
      then Inl (ValueError ''deterministic ranking contains an unknown or duplicate agent'')
      else case unit_score score of
        None \<Rightarrow> Inl (ValueError ''deterministic ranking score must be between zero and one'')
      | Some q \<Rightarrow> bind_res (read_ranking roster (insert a seen) rest) (\<lambda>ranked. Inr ((a, q) # ranked)))"


section \<open>One row\<close>

definition may_execute :: "work_unit \<Rightarrow> roster \<Rightarrow> staffing_context \<Rightarrow> string \<Rightarrow> bool" where
  "may_execute u roster ctx a = roster_says roster a (\<lambda>c. eligibility u c ctx False = [])"

text \<open>\<open>enumerate(ranking, 1)\<close>\<close>

fun ranks_from :: "int \<Rightarrow> ranking \<Rightarrow> candidate_rank list" where
  "ranks_from i [] = []"
| "ranks_from i ((a, q) # rest) =
     \<lparr>rank_agent = a, rank_position = i, rank_score = q\<rparr> # ranks_from (i + 1) rest"

definition ranks_of :: "ranking \<Rightarrow> candidate_rank list" where
  "ranks_of xs = ranks_from 1 xs"

definition position_of :: "ranking \<Rightarrow> string \<Rightarrow> int" where
  "position_of xs a = (case find (\<lambda>r. rank_agent r = a) (ranks_of xs) of
     Some r \<Rightarrow> rank_position r | None \<Rightarrow> int (length xs) + 1)"

definition shadow_tradeoff_text :: string where
  "shadow_tradeoff_text =
     ''The higher deterministic match is unavailable under current policy.''"

definition shadow_rows :: "bool \<Rightarrow> work_unit \<Rightarrow> roster \<Rightarrow> staffing_context \<Rightarrow> ranking \<Rightarrow> string list
    \<Rightarrow> shadow_evidence list" where
  "shadow_rows for_disabled u roster ctx semantic team =
     (let fallback = fallback_of team in
      concat (map (\<lambda>r.
        if rank_position r \<ge> position_of semantic fallback then []
        else case map_of roster (rank_agent r) of
          None \<Rightarrow> []
        | Some c \<Rightarrow> (let failed = eligibility u c ctx False in
            only_if (failed \<noteq> [] \<and> only_disabled u c ctx = for_disabled)
              \<lparr>shadow_agent = rank_agent r, shadow_rank = rank_position r, shadow_reasons = failed,
                shadow_fallback = fallback, shadow_tradeoff = shadow_tradeoff_text\<rparr>))
        (ranks_of semantic)))"

definition team_score :: "ranking \<Rightarrow> string list \<Rightarrow> rat" where
  "team_score semantic team = (case map (\<lambda>a. get_or semantic a 0) team of
     [] \<Rightarrow> 0 | q # qs \<Rightarrow> fold min qs q)"

definition alternative_team :: "work_unit \<Rightarrow> roster \<Rightarrow> string list \<Rightarrow> string set \<Rightarrow> int \<Rightarrow> string set
    \<Rightarrow> string list \<Rightarrow> string list res" where
  "alternative_team u roster executable invariant maximum waivers team =
     (if invariant \<noteq> {}
      then bind_res (minimum_team_with_required u
          (filter (\<lambda>a. a \<notin> set team - invariant) executable) roster invariant maximum waivers)
        (\<lambda>alternative. Inr (if alternative = team then [] else alternative))
      else minimum_team u (filter (\<lambda>a. a \<notin> set team) executable) roster maximum waivers)"

definition context_name :: "string \<Rightarrow> string \<Rightarrow> string" where
  "context_name uid a = ''ctx-'' @ uid @ ''-'' @ a"

definition ranking_error :: string where
  "ranking_error = ''verified proposal requires one bounded ranking per staffed unit''"

text \<open>The executable part of a ranking and the dictionary appended for a unit.\<close>

definition executable_part :: "work_unit \<Rightarrow> roster \<Rightarrow> staffing_context \<Rightarrow> string set \<Rightarrow> ranking \<Rightarrow> ranking" where
  "executable_part u roster ctx forbidden_ids semantic =
     filter (\<lambda>(a, q). a \<notin> forbidden_ids \<and> may_execute u roster ctx a) semantic"

definition assemble_row :: "roster \<Rightarrow> staffing_context \<Rightarrow> staffing_semantics \<Rightarrow> string set \<Rightarrow> work_unit
    \<Rightarrow> ranking \<Rightarrow> string list \<Rightarrow> string list \<Rightarrow> unit_recruitment" where
  "assemble_row roster ctx semantics gaps u semantic team alternative =
     (let required_ids = class_of (semantic_required semantics) (unit_id u);
          acceptable_ids = class_of (semantic_acceptable semantics) (unit_id u);
          forbidden_ids = class_of (semantic_forbidden semantics) (unit_id u);
          explicit = explicit_semantics semantics;
          executable = executable_part u roster ctx forbidden_ids semantic;
          projected_required = (if explicit then required_ids else set team);
          projected_acceptable = (if explicit then acceptable_ids else {})
      in \<lparr>row_unit = unit_id u,
          required = filter (\<lambda>a. a \<in> projected_required) (map fst semantic),
          acceptable = filter (\<lambda>a. a \<in> projected_acceptable) (map fst semantic),
          forbidden = filter (\<lambda>a. a \<in> forbidden_ids \<or> \<not> may_execute u roster ctx a) (map fst semantic),
          selected = team,
          runner_up = take 2 (filter (\<lambda>a. a \<notin> set team) (map fst executable)),
          ranked_semantic = ranks_of semantic,
          ranked_enabled = ranks_of (filter (\<lambda>(a, q). roster_says roster a enabled) semantic),
          ranked_executable = ranks_of executable,
          disabled_shadows = shadow_rows True u roster ctx semantic team,
          unavailable_shadows = shadow_rows False u roster ctx semantic team,
          row_contexts = map (\<lambda>a. \<lparr>ctx_agent = a, ctx_id = context_name (unit_id u) a\<rparr>) team,
          confidence = team_score semantic team,
          margin = (if team = [] then 0
            else round6 (max 0 (team_score semantic team - team_score semantic alternative))),
          delivery = ''load'',
          timing = (if unit_authority u = ''review'' \<and> depends_on u \<noteq> [] then ''after_artifact''
            else ''immediate''),
          row_abstention = (if team \<noteq> [] then []
            else if unit_id u \<in> gaps then [''inference-declared-gap'']
            else [''no-safe-deterministic-team''])\<rparr>)"

definition propose_row :: "roster \<Rightarrow> staffing_context \<Rightarrow> staffing_budget \<Rightarrow> staffing_semantics \<Rightarrow> string set
    \<Rightarrow> (string \<times> (string \<times> py_float) list) list \<Rightarrow> work_unit \<Rightarrow> unit_recruitment res" where
  "propose_row roster ctx budget semantics gaps rankings u =
     (let raw_ranks = get_or rankings (unit_id u) [];
          required_ids = class_of (semantic_required semantics) (unit_id u);
          acceptable_ids = class_of (semantic_acceptable semantics) (unit_id u);
          forbidden_ids = class_of (semantic_forbidden semantics) (unit_id u);
          invariant_ids = class_of (invariant_required semantics) (unit_id u);
          waivers = set (waived_tokens u roster ctx)
      in
      bind_res (raise_if (length raw_ranks > 16 \<or> raw_ranks = [] \<and> unit_id u \<notin> gaps)
        (ValueError ranking_error)) (\<lambda>_.
      bind_res (read_ranking roster {} raw_ranks) (\<lambda>semantic.
      bind_res (raise_if (\<not> scores_descend (map snd semantic))
        (ValueError ''deterministic ranking scores must be descending'')) (\<lambda>_.
      bind_res (raise_if (\<not> invariant_ids \<subseteq> required_ids)
        (ValueError ''invariant staffing owners must also be semantically required'')) (\<lambda>_.
      bind_res (raise_if ((required_ids \<union> acceptable_ids \<union> forbidden_ids \<noteq> set (map fst semantic)
            \<or> required_ids \<inter> acceptable_ids \<noteq> {} \<or> required_ids \<inter> forbidden_ids \<noteq> {}
            \<or> acceptable_ids \<inter> forbidden_ids \<noteq> {}) \<and> explicit_semantics semantics)
        (ValueError ''semantic staffing classes must partition the complete ranking'')) (\<lambda>_.
      let executable = map fst (executable_part u roster ctx forbidden_ids semantic) in
      bind_res (minimum_team_with_required u executable roster required_ids
        (max_selected_per_unit budget) waivers) (\<lambda>team.
      bind_res (alternative_team u roster executable invariant_ids
        (max_selected_per_unit budget) waivers team) (\<lambda>alternative.
      Inr (assemble_row roster ctx semantics gaps u semantic team alternative)))))))))"

definition build_deterministic_proposal :: "work_unit_plan \<Rightarrow> workforce_contract list
    \<Rightarrow> (string \<times> (string \<times> py_float) list) list \<Rightarrow> staffing_context \<Rightarrow> staffing_budget option
    \<Rightarrow> staffing_semantics \<Rightarrow> (rat \<Rightarrow> string) \<Rightarrow> recruiter_proposal res" where
  "build_deterministic_proposal plan contracts rankings ctx budget semantics text =
     (let active = (case budget of None \<Rightarrow> default_budget | Some b \<Rightarrow> b);
          roster = roster_of contracts in
      bind_res (validated_gaps plan (semantic_gap_units semantics)) (\<lambda>gaps.
      bind_res (raise_if (length roster \<noteq> length contracts)
        (ValueError ''deterministic proposal roster contains duplicate agents'')) (\<lambda>_.
      bind_res (map_res (propose_row roster ctx active semantics gaps rankings) (plan_units plan)) (\<lambda>rows.
      bind_res (workforce_index_fingerprint contracts) (\<lambda>fingerprint.
      parse_recruiter_proposal (proposal_value text
        \<lparr>proposal_plan_hash = plan_hash plan, proposal_fingerprint = fingerprint,
          proposal_count = int (length contracts), proposal_generation = roster_generation ctx,
          proposal_rows = rows\<rparr>) plan)))))"



section \<open>What is built is well formed\<close>

lemma ranks_from_maps [simp]:
  "map rank_agent (ranks_from i xs) = map fst xs" "map rank_score (ranks_from i xs) = map snd xs"
  "length (ranks_from i xs) = length xs"
  "map rank_position (ranks_from i xs) = map (\<lambda>k. i + int k) [0..<length xs]"
proof -
  show "map rank_position (ranks_from i xs) = map (\<lambda>k. i + int k) [0..<length xs]"
  proof (induction i xs rule: ranks_from.induct)
    case (2 i a q rest)
    have "map (\<lambda>k. i + int k) [0..<Suc n] = i # map (\<lambda>k. i + 1 + int k) [0..<n]" for n
      by (simp add: map_upt_Suc add.assoc del: upt_Suc)
    with 2 show ?case by (simp del: upt_Suc)
  qed simp
qed (induction i xs rule: ranks_from.induct, simp_all)+

lemma filtered_ranks_from:
  "filtered_ranks P k (ranks_from i xs) = signature_of (ranks_from (k + 1) (filter (\<lambda>(a, q). P a) xs))"
  by (induction i xs arbitrary: k rule: ranks_from.induct) (auto simp: signature_of_def)

definition ranking_ok :: "ranking \<Rightarrow> bool" where
  "ranking_ok xs = (length xs \<le> 16 \<and> distinct (map fst xs) \<and> scores_descend (map snd xs)
     \<and> list_all (\<lambda>(a, q). is_identifier a \<and> 0 \<le> q \<and> q \<le> 1 \<and> round6 q = q) xs)"

lemma scores_descend_iff: "scores_descend qs \<longleftrightarrow> sorted (rev qs)"
proof (induction qs rule: scores_descend.induct)
  case (1 p q qs)
  have "sorted (rev (p # q # qs)) \<longleftrightarrow> sorted (rev (q # qs)) \<and> (\<forall>x\<in>set (q # qs). x \<le> p)"
    by (auto simp: sorted_append)
  also have "\<dots> \<longleftrightarrow> sorted (rev (q # qs)) \<and> q \<le> p"
    by (auto simp: sorted_append)
  finally show ?case using 1 by auto
qed simp_all

lemma ranking_ok_filter: "ranking_ok xs \<Longrightarrow> ranking_ok (filter P xs)"
proof -
  assume ok: "ranking_ok xs"
  then have "sorted (rev (map snd xs))" by (simp add: ranking_ok_def scores_descend_iff)
  then have "sorted (rev (map snd (filter P xs)))"
    by (metis sorted_filter rev_filter rev_map)
  moreover have "length (filter P xs) \<le> 16" using ok length_filter_le [of P xs] unfolding ranking_ok_def by linarith
  ultimately show ?thesis
    using ok by (auto simp: ranking_ok_def scores_descend_iff distinct_map_filter list_all_iff)
qed

lemma ranks_of_ok: "ranking_ok xs \<Longrightarrow> ranks_ok (ranks_of xs)"
proof -
  assume ok: "ranking_ok xs"
  have "r \<in> set (ranks_from i xs) \<Longrightarrow> (rank_agent r, rank_score r) \<in> set xs" for i r
    by (induction i xs rule: ranks_from.induct) auto
  then have "list_all (\<lambda>r. is_identifier (rank_agent r) \<and> 0 \<le> rank_score r \<and> rank_score r \<le> 1
      \<and> round6 (rank_score r) = rank_score r) (ranks_from 1 xs)"
    using ok by (fastforce simp: ranking_ok_def list_all_iff)
  moreover have "map (\<lambda>k. 1 + int k) [0..<n] = map int [1..<Suc n]" for n
    by (simp add: map_Suc_upt [symmetric] del: upt_Suc)
  ultimately show ?thesis
    using ok by (simp add: ranks_of_def ranks_ok_def ranking_ok_def max_items_def del: upt_Suc)
qed

definition ineligibility_codes :: "string list" where
  "ineligibility_codes = [''agent_not_live_eligible'', ''agent_disabled'', ''agent_schema_unsupported'',
     ''agent_not_approved'', ''agent_version_unbound'', ''agent_host_unsupported'',
     ''agent_platform_unsupported'', ''agent_tools_missing'', ''agent_authority_mismatch'',
     ''agent_stack_mismatch'', ''agent_capability_mismatch'', ''agent_explicitly_out_of_scope'']"

lemma subseq_only_if: "subseq ys zs \<Longrightarrow> subseq (only_if b x @ ys) (x # zs)"
  by (auto simp: only_if_def intro: list_emb_Cons)

lemma eligibility_codes: "subseq (eligibility u c ctx ignore) ineligibility_codes"
  unfolding eligibility_def contract_binding_reasons_def unit_compatibility_reasons_def
    ineligibility_codes_def append_assoc
  by (intro subseq_only_if) (simp add: only_if_def)

lemma eligibility_idents: "idents_ok (eligibility u c ctx ignore)"
proof -
  have "idents_ok ineligibility_codes" by code_simp
  then show ?thesis
    using eligibility_codes [of u c ctx ignore] subseq_set [OF eligibility_codes, of u c ctx ignore]
    by (auto simp: idents_ok_def list_all_iff dest: subseq_distinct list_emb_length)
qed

lemma subseq_idents: "subseq xs ys \<Longrightarrow> idents_ok ys \<Longrightarrow> idents_ok xs"
  using subseq_set [of xs ys] subseq_distinct [of ys xs] list_emb_length [of "(=)" xs ys]
  by (auto simp: idents_ok_def list_all_iff)

lemma ranking_idents: "ranking_ok xs \<Longrightarrow> idents_ok (map fst xs)"
  by (auto simp: ranking_ok_def idents_ok_def max_items_def list_all_iff)

lemma shadow_rows_ok:
  assumes "ranking_ok semantic" and "team = [] \<or> is_identifier (hd team)"
  shows "length (shadow_rows b u roster ctx semantic team) \<le> max_items
    \<and> list_all shadow_ok (shadow_rows b u roster ctx semantic team)"
proof
  let ?f = "\<lambda>r. if rank_position r \<ge> position_of semantic (fallback_of team) then []
        else case map_of roster (rank_agent r) of
          None \<Rightarrow> []
        | Some c \<Rightarrow> (let failed = eligibility u c ctx False in
            only_if (failed \<noteq> [] \<and> only_disabled u c ctx = b)
              \<lparr>shadow_agent = rank_agent r, shadow_rank = rank_position r, shadow_reasons = failed,
                shadow_fallback = fallback_of team, shadow_tradeoff = shadow_tradeoff_text\<rparr>)"
  have eq: "shadow_rows b u roster ctx semantic team = concat (map ?f (ranks_of semantic))"
    by (simp add: shadow_rows_def Let_def)
  have "length (concat (map ?f rs)) \<le> length rs" for rs
  proof (induction rs)
    case (Cons r rs)
    have "length (?f r) \<le> 1" by (auto simp: only_if_def Let_def split: option.splits)
    with Cons show ?case by simp
  qed simp
  then show "length (shadow_rows b u roster ctx semantic team) \<le> max_items"
    using assms(1) by (fastforce simp: eq ranks_of_def ranking_ok_def max_items_def intro: order_trans)
  have tradeoff: "text_ok 256 shadow_tradeoff_text" by code_simp
  have fallback: "fallback_of team = [] \<or> is_identifier (fallback_of team)"
    using assms(2) by (auto simp: fallback_of_def split: list.splits)
  have ranks: "is_identifier (rank_agent r) \<and> 1 \<le> rank_position r" if "r \<in> set (ranks_of semantic)" for r
  proof -
    have "rank_position r \<in> set (map int [1..<Suc (length (ranks_of semantic))])"
      using ranks_of_ok [OF assms(1)] that by (metis ranks_ok_def image_eqI set_map)
    then show ?thesis
      using ranks_of_ok [OF assms(1)] that by (auto simp: ranks_ok_def list_all_iff)
  qed
  show "list_all shadow_ok (shadow_rows b u roster ctx semantic team)"
    unfolding eq list_all_iff using fallback
    by (auto simp: shadow_ok_def Let_def tradeoff ranks eligibility_idents
        split: if_splits option.splits)
qed



section \<open>The built row\<close>

definition score_value :: "py_float \<Rightarrow> rat" where
  "score_value f = (case f of PyFin q t \<Rightarrow> q | _ \<Rightarrow> 0)"

text \<open>The semantic ranking the builder reads from one unit's input, and when it can.\<close>

definition semantic_of :: "(string \<times> py_float) list \<Rightarrow> ranking" where
  "semantic_of raw = map (\<lambda>(a, f). (a, round6 (score_value f))) raw"

definition ranking_ready :: "roster \<Rightarrow> staffing_semantics \<Rightarrow> string set
    \<Rightarrow> (string \<times> (string \<times> py_float) list) list \<Rightarrow> work_unit \<Rightarrow> bool" where
  "ranking_ready roster semantics gaps rankings u =
     (let raw = get_or rankings (unit_id u) [];
          required_ids = class_of (semantic_required semantics) (unit_id u);
          acceptable_ids = class_of (semantic_acceptable semantics) (unit_id u);
          forbidden_ids = class_of (semantic_forbidden semantics) (unit_id u) in
      length raw \<le> 16 \<and> (raw \<noteq> [] \<or> unit_id u \<in> gaps) \<and> distinct (map fst raw)
      \<and> set (map fst raw) \<subseteq> set (map fst roster)
      \<and> (\<forall>(a, f)\<in>set raw. unit_score f \<noteq> None) \<and> scores_descend (map (\<lambda>(a, f). score_value f) raw)
      \<and> class_of (invariant_required semantics) (unit_id u) \<subseteq> required_ids
      \<and> (explicit_semantics semantics \<longrightarrow> required_ids \<union> acceptable_ids \<union> forbidden_ids = set (map fst raw)
           \<and> required_ids \<inter> acceptable_ids = {} \<and> required_ids \<inter> forbidden_ids = {}
           \<and> acceptable_ids \<inter> forbidden_ids = {}))"

lemma unit_score_eq: "unit_score f \<noteq> None \<Longrightarrow> unit_score f = Some (round6 (score_value f))
    \<and> 0 \<le> score_value f \<and> score_value f \<le> 1"
  by (auto simp: unit_score_def score_value_def split: py_float.splits if_splits)

lemma read_ranking_eq:
  "set (map fst raw) \<subseteq> set (map fst roster) \<Longrightarrow> distinct (map fst raw) \<Longrightarrow> seen \<inter> set (map fst raw) = {} \<Longrightarrow>
   (\<forall>(a, f)\<in>set raw. unit_score f \<noteq> None) \<Longrightarrow> read_ranking roster seen raw = Inr (semantic_of raw)"
proof (induction roster seen raw rule: read_ranking.induct)
  case (2 roster seen a score rest)
  then have score: "unit_score score = Some (round6 (score_value score))" using unit_score_eq by auto
  have "a \<in> set (map fst roster)" "a \<notin> seen" using "2.prems" by auto
  with 2(1) [of "round6 (score_value score)"] "2.prems" score show ?case
    by (auto simp: semantic_of_def)
qed (simp add: semantic_of_def)

lemma semantic_of_fst [simp]: "map fst (semantic_of raw) = map fst raw"
  by (simp add: semantic_of_def case_prod_beta comp_def)

lemma semantic_of_ok:
  assumes "length raw \<le> 16" and "distinct (map fst raw)" and "list_all is_identifier (map fst raw)"
    and scores: "\<forall>(a, f)\<in>set raw. unit_score f \<noteq> None"
    and "scores_descend (map (\<lambda>(a, f). score_value f) raw)"
  shows "ranking_ok (semantic_of raw)"
proof -
  have "map snd (semantic_of raw) = map round6 (map (\<lambda>(a, f). score_value f) raw)"
    by (simp add: semantic_of_def case_prod_beta comp_def)
  moreover have "sorted (rev (map (\<lambda>(a, f). score_value f) raw))"
    using assms(5) by (simp add: scores_descend_iff)
  then have "sorted (map round6 (rev (map (\<lambda>(a, f). score_value f) raw)))"
    by (rule sorted_map_mono) (auto intro: round6_mono mono_onI)
  ultimately have "scores_descend (map snd (semantic_of raw))"
    by (simp add: scores_descend_iff rev_map)
  moreover have "list_all (\<lambda>(a, q). is_identifier a \<and> 0 \<le> q \<and> q \<le> 1 \<and> round6 q = q) (semantic_of raw)"
    using assms(3) scores unit_score_eq by (fastforce simp: semantic_of_def list_all_iff round6_unit)
  ultimately show ?thesis
    using assms(1,2) by (simp add: ranking_ok_def) (simp add: semantic_of_def)
qed

lemma fold_min_bounds: "(q::rat) \<in> S \<Longrightarrow> set qs \<subseteq> S \<Longrightarrow> fold min qs q \<in> S"
  by (induction qs arbitrary: q) (auto simp: min_def)

lemma team_score_unit:
  assumes "ranking_ok xs" and "set team \<subseteq> set (map fst xs)"
  shows "0 \<le> team_score xs team \<and> team_score xs team \<le> 1 \<and> round6 (team_score xs team) = team_score xs team"
proof -
  let ?S = "{q::rat. 0 \<le> q \<and> q \<le> 1 \<and> round6 q = q}"
  have "get_or xs a 0 \<in> ?S" if "a \<in> set team" for a
  proof -
    have "a \<in> fst ` set xs" using assms(2) that by auto
    then obtain q where "map_of xs a = Some q" by (metis map_of_eq_None_iff not_Some_eq)
    then show ?thesis using assms(1) by (auto simp: get_or_def ranking_ok_def list_all_iff dest!: map_of_SomeD)
  qed
  moreover have "(0::rat) \<in> ?S" using round_half_even_of_int [of 0] by (simp add: round6_def)
  ultimately have "team_score xs team \<in> ?S"
  proof (cases team)
    case (Cons b bs)
    let ?f = "\<lambda>a. get_or xs a 0"
    have "?f b \<in> ?S" "set (map ?f bs) \<subseteq> ?S" using Cons \<open>\<And>a. a \<in> set team \<Longrightarrow> ?f a \<in> ?S\<close> by auto
    then have "fold min (map ?f bs) (?f b) \<in> ?S" by (rule fold_min_bounds)
    then show ?thesis by (simp add: team_score_def Cons)
  qed (simp add: team_score_def)
  then show ?thesis by simp
qed


lemma executable_part_fst:
  "map fst (executable_part u roster ctx F semantic)
    = filter (\<lambda>a. a \<notin> F \<and> may_execute u roster ctx a) (map fst semantic)"
  by (induction semantic) (auto simp: executable_part_def)

lemma alternative_total:
  assumes "set executable \<subseteq> fst ` set roster" and "distinct executable"
  shows "\<exists>alternative. alternative_team u roster executable invariant maximum waivers team = Inr alternative
    \<and> set alternative \<subseteq> set executable"
proof -
  have "\<exists>t. minimum_team u (filter P executable) roster maximum waivers = Inr t \<and> subseq t (filter P executable)" for P
    using minimum_team_smallest [of "filter P executable" roster u maximum waivers] assms
    by (auto simp: smallest_team_def)
  moreover have "\<exists>t. minimum_team_with_required u (filter P executable) roster invariant maximum waivers = Inr t
      \<and> subseq t (filter P executable)" for P
    using minimum_team_exact [of "filter P executable" roster u invariant maximum waivers] assms
    by (auto simp: smallest_team_def)
  ultimately obtain t t' where
    t: "minimum_team u (filter (\<lambda>a. a \<notin> set team) executable) roster maximum waivers = Inr t"
      "subseq t (filter (\<lambda>a. a \<notin> set team) executable)"
    and t': "minimum_team_with_required u (filter (\<lambda>a. a \<notin> set team - invariant) executable) roster
        invariant maximum waivers = Inr t'" "subseq t' (filter (\<lambda>a. a \<notin> set team - invariant) executable)"
    by metis
  have "set t \<subseteq> set executable" "set t' \<subseteq> set executable"
    using subseq_set [OF t(2)] subseq_set [OF t'(2)] by auto
  then show ?thesis using t(1) t'(1) by (simp add: alternative_team_def)
qed

lemma semantic_of_set [simp]: "fst ` set (semantic_of raw) = fst ` set raw"
  by (metis semantic_of_fst set_map)

lemma propose_row_eq:
  fixes ctx :: staffing_context
  assumes "ranking_ready roster semantics gaps rankings u"
  defines "semantic \<equiv> semantic_of (get_or rankings (unit_id u) [])"
    and "required_ids \<equiv> class_of (semantic_required semantics) (unit_id u)"
    and "executable \<equiv> map fst (executable_part u roster ctx
           (class_of (semantic_forbidden semantics) (unit_id u)) (semantic_of (get_or rankings (unit_id u) [])))"
  shows "\<exists>team alternative. propose_row roster ctx budget semantics gaps rankings u
      = Inr (assemble_row roster ctx semantics gaps u semantic team alternative)
    \<and> minimum_team_with_required u executable roster required_ids (max_selected_per_unit budget)
        (set (waived_tokens u roster ctx)) = Inr team
    \<and> smallest_team u roster executable required_ids (max_selected_per_unit budget)
        (set (waived_tokens u roster ctx)) team
    \<and> set alternative \<subseteq> set (map fst semantic)"
proof -
  let ?raw = "get_or rankings (unit_id u) []"
  have raw: "set (map fst ?raw) \<subseteq> set (map fst roster)" "distinct (map fst ?raw)"
    "\<forall>(a, f)\<in>set ?raw. unit_score f \<noteq> None"
    using assms(1) by (auto simp: ranking_ready_def Let_def)
  have read: "read_ranking roster {} ?raw = Inr semantic"
    unfolding semantic_def by (rule read_ranking_eq [OF raw(1,2) _ raw(3)]) simp
  have "sorted (rev (map (\<lambda>(a, f). score_value f) ?raw))"
    using assms(1) by (simp add: ranking_ready_def Let_def scores_descend_iff)
  then have "sorted (map round6 (rev (map (\<lambda>(a, f). score_value f) ?raw)))"
    by (rule sorted_map_mono) (auto intro: round6_mono mono_onI)
  moreover have "map snd semantic = map round6 (map (\<lambda>(a, f). score_value f) ?raw)"
    by (simp add: semantic_def semantic_of_def case_prod_beta comp_def)
  ultimately have descend: "scores_descend (map snd semantic)"
    by (simp add: scores_descend_iff rev_map)
  have exec: "set executable \<subseteq> fst ` set roster" "distinct executable"
    "set executable \<subseteq> set (map fst semantic)"
    using raw(1,2) by (auto simp: executable_def executable_part_fst semantic_def)
  obtain team where team: "minimum_team_with_required u executable roster required_ids
      (max_selected_per_unit budget) (set (waived_tokens u roster ctx)) = Inr team"
    and smallest: "smallest_team u roster executable required_ids (max_selected_per_unit budget)
        (set (waived_tokens u roster ctx)) team"
    using minimum_team_exact [OF exec(1,2)] by blast
  obtain alternative where alternative: "alternative_team u roster executable
      (class_of (invariant_required semantics) (unit_id u)) (max_selected_per_unit budget)
      (set (waived_tokens u roster ctx)) team = Inr alternative" "set alternative \<subseteq> set executable"
    using alternative_total [OF exec(1,2)] by blast
  have "propose_row roster ctx budget semantics gaps rankings u
      = Inr (assemble_row roster ctx semantics gaps u semantic team alternative)"
    using assms(1) descend team alternative(1) read
    unfolding propose_row_def ranking_ready_def Let_def required_ids_def executable_def semantic_def
    by (cases "explicit_semantics semantics") (simp_all add: raise_if_def)
  with team smallest alternative(2) exec(3) show ?thesis by blast
qed


section \<open>The verifier agrees with the builder\<close>

text \<open>The semantic ranking, what it may execute, and the team chosen for a built row.\<close>

definition built_from :: "roster \<Rightarrow> staffing_context \<Rightarrow> staffing_budget \<Rightarrow> staffing_semantics \<Rightarrow> work_unit
    \<Rightarrow> ranking \<Rightarrow> string list \<Rightarrow> bool" where
  "built_from roster ctx budget semantics u semantic team =
     (let required_ids = class_of (semantic_required semantics) (unit_id u);
          acceptable_ids = class_of (semantic_acceptable semantics) (unit_id u);
          forbidden_ids = class_of (semantic_forbidden semantics) (unit_id u);
          executable = map fst (executable_part u roster ctx forbidden_ids semantic) in
      ranking_ok semantic \<and> set (map fst semantic) \<subseteq> fst ` set roster
      \<and> (explicit_semantics semantics \<longrightarrow> required_ids \<union> acceptable_ids \<union> forbidden_ids = set (map fst semantic)
           \<and> required_ids \<inter> forbidden_ids = {})
      \<and> minimum_team_with_required u executable roster required_ids (max_selected_per_unit budget)
          (set (waived_tokens u roster ctx)) = Inr team
      \<and> smallest_team u roster executable required_ids (max_selected_per_unit budget)
          (set (waived_tokens u roster ctx)) team)"

lemma take_again: "take (length (take n xs)) xs = take n xs"
  by (cases "n \<le> length xs") simp_all

lemma not_explicit_classes:
  "\<not> explicit_semantics s \<Longrightarrow> class_of (semantic_required s) uid = {}
    \<and> class_of (semantic_acceptable s) uid = {} \<and> class_of (semantic_forbidden s) uid = {}"
  by (simp add: explicit_semantics_def class_of_def)

lemma may_execute_known: "may_execute u roster ctx a \<Longrightarrow> a \<in> fst ` set roster"
  by (auto simp: may_execute_def roster_says_iff dest!: map_of_SomeD intro: rev_image_eqI)

lemma position_fallback:
  "ranked_semantic row = ranks_of semantic \<Longrightarrow> fallback_rank row a = position_of semantic a"
  by (simp add: fallback_rank_def position_of_def ranks_of_def split: option.splits)

lemma shadow_rows_expected:
  "ranked_semantic row = ranks_of semantic \<Longrightarrow>
     shadow_signature_of (shadow_rows b u roster ctx semantic team) = expected_shadows b u row roster ctx team"
  by (auto simp: shadow_signature_of_def shadow_rows_def expected_shadows_def Let_def map_concat
      position_fallback only_if_def intro!: arg_cong [where f = concat] split: option.splits)

text \<open>A team that covers the requirements is what the search finds when it is required.\<close>

lemma required_again:
  assumes smallest: "smallest_team u roster ranked {} maximum waivers team"
    and found: "minimum_team_with_required u ranked roster {} maximum waivers = Inr team"
    and known: "set ranked \<subseteq> fst ` set roster" and "distinct ranked"
  shows "minimum_team_with_required u ranked roster (set team) maximum waivers = Inr team"
proof (cases "team = []")
  case True
  with found show ?thesis by simp
next
  case False
  then have st: "staffable u roster ranked {} maximum waivers (set team)" and sub: "subseq team ranked"
    using smallest by (auto simp: smallest_team_def)
  have ordered: "filter (\<lambda>a. a \<in> set team) ranked = team" using subseq_filter_iff [OF assms(4) sub] .
  have "set team \<subseteq> set ranked" using sub by (rule subseq_set)
  moreover from this have "combined_coverage u roster {} team = Inr (joint_coverage u roster (set team))"
    using combined_coverage_eq [of team roster u "{}"] known by (auto simp: joint_coverage_def)
  ultimately show ?thesis
    using st False unfolding minimum_team_with_required_def Let_def ordered
    by (auto simp: staffable_def covers_def joint_coverage_def)
qed

text \<open>Identifiers short enough for the context names the builder makes.\<close>

definition short_ids :: "work_unit \<Rightarrow> roster \<Rightarrow> bool" where
  "short_ids u roster = (\<forall>a\<in>fst ` set roster. is_identifier a \<and> length (unit_id u) + length a \<le> 123)"

lemma context_name_ok:
  assumes "is_unit_id uid" and "is_identifier a" and "length uid + length a \<le> 123"
  shows "is_identifier (context_name uid a)"
proof -
  have "list_all ident_char uid"
  proof -
    have "list_all ident_char (take 5 uid)" and "list_all ident_char (drop 5 uid)"
      using assms(1) by (auto simp: is_unit_id_def ident_char_def is_alnum_def is_lower_def is_digit_def
          list_all_iff split: list.splits)
    then have "list_all ident_char (take 5 uid @ drop 5 uid)" by (simp only: list_all_append)
    then show ?thesis by simp
  qed
  then show ?thesis
    using is_identifier_chars [OF assms(2)] assms(3)
    by (simp add: context_name_def is_identifier_def) (simp add: ident_char_def is_alnum_def is_lower_def)
qed

lemma assemble_row_ok:
  assumes "unit_ok u" and "built_from roster ctx budget semantics u semantic team"
    and "short_ids u roster" and alt: "set alternative \<subseteq> set (map fst semantic)"
  shows "row_ok (assemble_row roster ctx semantics gaps u semantic team alternative)"
proof -
  let ?exec = "executable_part u roster ctx (class_of (semantic_forbidden semantics) (unit_id u)) semantic"
  have ok: "ranking_ok semantic" and known: "set (map fst semantic) \<subseteq> fst ` set roster"
    and sub: "subseq team (map fst ?exec)"
    using assms(2) by (auto simp: built_from_def Let_def smallest_team_def)
  have exec_sub: "subseq (map fst ?exec) (map fst semantic)" by (simp add: executable_part_fst)
  then have team_sub: "subseq team (map fst semantic)" using sub by (rule subseq_order.trans [rotated])
  note idents = subseq_idents [OF _ ranking_idents [OF ok]]
  have team_ids: "idents_ok team" using idents team_sub .
  have named: "is_identifier a \<and> is_identifier (context_name (unit_id u) a)" if "a \<in> set team" for a
  proof -
    have "a \<in> fst ` set roster" using that known subseq_set [OF team_sub] by blast
    then have "is_identifier a" and "length (unit_id u) + length a \<le> 123"
      using assms(3) unfolding short_ids_def by blast+
    then show ?thesis using assms(1) context_name_ok by (simp add: unit_ok_def)
  qed
  have "idents_ok (take 2 (filter (\<lambda>a. a \<notin> set team) (map fst ?exec)))"
    using subseq_order.trans [OF subseq_order.trans [OF prefix_imp_subseq [OF take_is_prefix] filter_subseq] exec_sub]
    by (rule idents)
  moreover have "ranks_ok (ranks_of ?exec)" unfolding executable_part_def
    by (rule ranks_of_ok [OF ranking_ok_filter [OF ok]])
  moreover have "list_all context_ok (map (\<lambda>a. \<lparr>ctx_agent = a, ctx_id = context_name (unit_id u) a\<rparr>) team)"
    using named by (simp add: list_all_iff context_ok_def)
  moreover have "0 \<le> team_score semantic team \<and> team_score semantic team \<le> 1
      \<and> round6 (team_score semantic team) = team_score semantic team"
    using team_score_unit [OF ok subseq_set [OF team_sub]] .
  moreover have "0 \<le> round6 (max 0 (team_score semantic team - team_score semantic alternative))
      \<and> round6 (max 0 (team_score semantic team - team_score semantic alternative)) \<le> 1"
    using team_score_unit [OF ok subseq_set [OF team_sub]] team_score_unit [OF ok alt]
    by (intro round6_unit) auto
  moreover have "idents_ok [''inference-declared-gap'']" "idents_ok [''no-safe-deterministic-team'']" "idents_ok []"
    by code_simp+
  moreover have "round6 (0::rat) = 0" using round_half_even_of_int [of 0] by (simp add: round6_def)
  moreover have "idents_ok (filter P (map fst semantic))" for P by (rule idents) simp
  moreover have "ranks_ok (ranks_of semantic)" "ranks_ok (ranks_of (filter P semantic))" for P
    using ranks_of_ok [OF ok] ranks_of_ok [OF ranking_ok_filter [OF ok]] by blast+
  moreover have "team = [] \<or> is_identifier (hd team)" using named by (cases team) auto
  then have "length (shadow_rows b u roster ctx semantic team) \<le> max_items
      \<and> list_all shadow_ok (shadow_rows b u roster ctx semantic team)" for b
    by (rule shadow_rows_ok [OF ok])
  moreover have "length team \<le> max_items" using team_ids by (simp add: idents_ok_def)
  moreover have "is_identifier (unit_id u)" using assms(1) by (simp add: unit_ok_def)
  ultimately show ?thesis
    using team_ids by (simp add: row_ok_def assemble_row_def Let_def plan_delivery_def plan_timing_def)
qed

lemma assemble_row_sound:
  assumes built: "built_from roster ctx budget semantics u semantic team" and staffed: "team \<noteq> []"
  shows "row_sound roster ctx budget u (assemble_row roster ctx semantics gaps u semantic team alternative)"
proof -
  define row where "row = assemble_row roster ctx semantics gaps u semantic team alternative"
  define required_ids where "required_ids = class_of (semantic_required semantics) (unit_id u)"
  define acceptable_ids where "acceptable_ids = class_of (semantic_acceptable semantics) (unit_id u)"
  define forbidden_ids where "forbidden_ids = class_of (semantic_forbidden semantics) (unit_id u)"
  define ids where "ids = map fst semantic"
  define exec where "exec = filter (\<lambda>a. a \<notin> forbidden_ids \<and> may_execute u roster ctx a) ids"
  note names = row_def required_ids_def acceptable_ids_def forbidden_ids_def ids_def
  have fields: "ranked_semantic row = ranks_of semantic" "selected row = team"
    "forbidden row = filter (\<lambda>a. a \<in> forbidden_ids \<or> \<not> may_execute u roster ctx a) ids"
    "required row = filter (\<lambda>a. a \<in> (if explicit_semantics semantics then required_ids else set team)) ids"
    "acceptable row = filter (\<lambda>a. a \<in> (if explicit_semantics semantics then acceptable_ids else {})) ids"
    "runner_up row = take 2 (filter (\<lambda>a. a \<notin> set team) exec)"
    by (simp_all add: names assemble_row_def Let_def exec_def executable_part_fst)
  have known: "set ids \<subseteq> fst ` set roster" and dist: "distinct ids"
    and partition: "explicit_semantics semantics \<Longrightarrow> required_ids \<union> acceptable_ids \<union> forbidden_ids = set ids"
    and team: "minimum_team_with_required u exec roster required_ids (max_selected_per_unit budget)
          (set (waived_tokens u roster ctx)) = Inr team"
    and smallest: "smallest_team u roster exec required_ids (max_selected_per_unit budget)
          (set (waived_tokens u roster ctx)) team"
    using built by (auto simp: built_from_def Let_def names exec_def executable_part_fst ranking_ok_def)
  have agents: "map rank_agent (ranked_semantic row) = ids"
    by (simp add: fields ranks_of_def ids_def)
  have exec_known: "set exec \<subseteq> fst ` set roster" "distinct exec" "set exec \<subseteq> set ids"
    using known dist by (auto simp: exec_def)
  have team_exec: "set team \<subseteq> set exec" and req_team: "required_ids \<subseteq> set team"
    using smallest staffed subseq_set by (auto simp: smallest_team_def staffable_def)
  have executable: "is_executable u row roster ctx a \<longleftrightarrow> a \<notin> forbidden_ids \<and> may_execute u roster ctx a"
    if "a \<in> set ids" for a
    using that by (auto simp: is_executable_def fields may_execute_def roster_says_iff)
  have "executable_ids u row roster ctx = exec"
    unfolding executable_ids_eq agents exec_def by (rule filter_cong) (simp_all add: executable)
  have set_required: "set (required row) = (if explicit_semantics semantics then required_ids else set team)"
    using team_exec exec_known(3) req_team by (auto simp: fields)
  have expected: "expected_team u row roster exec ctx budget = Inr (selected row)"
  proof (cases "explicit_semantics semantics")
    case True
    with team show ?thesis by (simp add: expected_team_def set_required fields(2))
  next
    case False
    then have "required_ids = {}" using not_explicit_classes by (simp add: required_ids_def)
    with False required_again [OF _ _ exec_known(1,2)] team smallest show ?thesis
      by (simp add: expected_team_def set_required fields(2))
  qed
  have look: "\<exists>c. map_of roster a = Some c" if "a \<in> set ids" for a
    using that known by (metis map_of_eq_None_iff not_Some_eq subsetD)
  have forbidden: "forbidden row = expected_forbidden u row roster ctx"
    unfolding expected_forbidden_def agents fields(3)
  proof (rule filter_cong [OF refl])
    fix a assume a: "a \<in> set ids"
    then obtain c where "map_of roster a = Some c" using look by blast
    with a show "(a \<in> forbidden_ids \<or> \<not> may_execute u roster ctx a) = roster_says roster a
        (\<lambda>c. a \<in> set (filter (\<lambda>a. a \<in> forbidden_ids \<or> \<not> may_execute u roster ctx a) ids)
           \<or> eligibility u c ctx False \<noteq> [])"
      by (auto simp: may_execute_def roster_says_def)
  qed
  have ranking: "ranking_recomputed u row roster ctx"
  proof -
    have "signature_of (ranked_enabled row) = filtered_ranks (\<lambda>a. roster_says roster a enabled) 0 (ranked_semantic row)"
      by (simp add: names assemble_row_def Let_def ranks_of_def filtered_ranks_from)
    moreover have "filter (\<lambda>(a, q). is_executable u row roster ctx a) semantic
        = executable_part u roster ctx forbidden_ids semantic"
      unfolding executable_part_def using executable by (intro filter_cong) (auto simp: ids_def rev_image_eqI)
    then have "signature_of (ranked_executable row) = executable_ranks u row roster ctx"
      by (simp add: executable_ranks_def fields(1) ranks_of_def filtered_ranks_from)
        (simp add: names assemble_row_def Let_def ranks_of_def)
    moreover have "rank_agent ` set (ranked_semantic row) \<subseteq> fst ` set roster"
      using known agents by (metis set_map)
    ultimately show ?thesis by (simp add: ranking_recomputed_def)
  qed
  have selection: "selection_sound u row roster exec"
  proof -
    have "set team \<subseteq> set (required row) \<union> set (acceptable row)"
      using team_exec exec_known(3) partition by (auto simp: set_required fields exec_def)
    moreover have "set (forbidden row) \<inter> set team = {}" "set (runner_up row) \<subseteq> set exec - set team"
      using team_exec by (auto simp: fields exec_def dest: in_set_takeD)
    moreover have "set (forbidden row) \<inter> set exec = {}" by (auto simp: fields exec_def)
    moreover have "runner_up row = take (length (runner_up row)) (filter (\<lambda>a. a \<notin> set team) exec)"
      by (simp only: fields(6) take_again)
    moreover have "set (required row) \<subseteq> set team" using req_team by (simp add: set_required)
    moreover have "set (forbidden row) \<subseteq> set ids" "set (acceptable row) \<subseteq> set ids" by (auto simp: fields)
    ultimately show ?thesis
      using staffed known team_exec exec_known(1) by (simp add: selection_sound_def fields(2)) blast
  qed
  have "shadow_signature_of (disabled_shadows row) = expected_shadows True u row roster ctx team"
    "shadow_signature_of (unavailable_shadows row) = expected_shadows False u row roster ctx team"
    using shadow_rows_expected [OF fields(1)] by (simp_all add: names assemble_row_def Let_def)
  with ranking selection forbidden expected \<open>executable_ids u row roster ctx = exec\<close>
  have "row_sound roster ctx budget u row" by (simp add: row_sound_def fields(2))
  then show ?thesis by (simp add: row_def)
qed


lemma propose_row_sound:
  assumes ready: "ranking_ready roster semantics gaps rankings u" and short: "short_ids u roster"
    and "unit_ok u"
  shows "\<exists>row. propose_row roster ctx budget semantics gaps rankings u = Inr row \<and> row_ok row
    \<and> row_unit row = unit_id u \<and> map ctx_agent (row_contexts row) = selected row
    \<and> (selected row \<noteq> [] \<longrightarrow> row_sound roster ctx budget u row)"
proof -
  let ?raw = "get_or rankings (unit_id u) []"
  have raw: "length ?raw \<le> 16" "distinct (map fst ?raw)" "set (map fst ?raw) \<subseteq> fst ` set roster"
    "\<forall>(a, f)\<in>set ?raw. unit_score f \<noteq> None" "scores_descend (map (\<lambda>(a, f). score_value f) ?raw)"
    using ready by (simp_all add: ranking_ready_def Let_def)
  have "list_all is_identifier (map fst ?raw)"
    using raw(3) short unfolding short_ids_def list_all_iff by blast
  then have ok: "ranking_ok (semantic_of ?raw)" using semantic_of_ok raw by blast
  obtain team alternative where
    row: "propose_row roster ctx budget semantics gaps rankings u
      = Inr (assemble_row roster ctx semantics gaps u (semantic_of ?raw) team alternative)"
    and team: "minimum_team_with_required u (map fst (executable_part u roster ctx
           (class_of (semantic_forbidden semantics) (unit_id u)) (semantic_of ?raw))) roster
        (class_of (semantic_required semantics) (unit_id u)) (max_selected_per_unit budget)
        (set (waived_tokens u roster ctx)) = Inr team"
    and smallest: "smallest_team u roster (map fst (executable_part u roster ctx
           (class_of (semantic_forbidden semantics) (unit_id u)) (semantic_of ?raw)))
        (class_of (semantic_required semantics) (unit_id u)) (max_selected_per_unit budget)
        (set (waived_tokens u roster ctx)) team"
    and alternative: "set alternative \<subseteq> set (map fst (semantic_of ?raw))"
    using propose_row_eq [OF ready, of ctx budget] by blast
  have built: "built_from roster ctx budget semantics u (semantic_of ?raw) team"
    using ok raw(3) team smallest ready by (simp add: built_from_def ranking_ready_def Let_def)
  have "row_unit (assemble_row roster ctx semantics gaps u (semantic_of ?raw) team alternative) = unit_id u"
    "selected (assemble_row roster ctx semantics gaps u (semantic_of ?raw) team alternative) = team"
    "map ctx_agent (row_contexts (assemble_row roster ctx semantics gaps u (semantic_of ?raw) team alternative)) = team"
    by (simp_all add: assemble_row_def Let_def comp_def)
  then show ?thesis
    using row assemble_row_ok [OF assms(3) built short alternative] assemble_row_sound [OF built] by auto
qed

lemma roster_of_distinct:
  "distinct (map agent_id contracts) \<Longrightarrow> roster_of contracts = map (\<lambda>c. (agent_id c, c)) contracts"
  by (simp add: roster_of_def dict_of_distinct comp_def)

lemma proposal_built:
  assumes "plan_ok plan" and "index_ok contracts" and "0 \<le> roster_generation ctx"
    and gaps: "validated_gaps plan (semantic_gap_units semantics) = Inr gaps"
    and ready: "\<forall>u\<in>set (plan_units plan). ranking_ready (roster_of contracts) semantics gaps rankings u
          \<and> short_ids u (roster_of contracts)"
    and active: "active = (case budget of None \<Rightarrow> default_budget | Some b \<Rightarrow> b)"
  shows "\<exists>p. build_deterministic_proposal plan contracts rankings ctx budget semantics text = Inr p
    \<and> proposal_ok plan p \<and> snapshot_bound p contracts ctx
    \<and> (\<forall>(u, row)\<in>set (zip (plan_units plan) (proposal_rows p)).
          map ctx_agent (row_contexts row) = selected row
          \<and> (selected row \<noteq> [] \<longrightarrow> row_sound (roster_of contracts) ctx active u row))"
proof -
  let ?roster = "roster_of contracts"
  let ?good = "\<lambda>u row. row_ok row \<and> row_unit row = unit_id u \<and> map ctx_agent (row_contexts row) = selected row
      \<and> (selected row \<noteq> [] \<longrightarrow> row_sound ?roster ctx active u row)"
  have units: "list_all unit_ok (plan_units plan)" using assms(1) by (simp add: plan_ok_def units_ok_def)
  have "\<exists>row. propose_row ?roster ctx active semantics gaps rankings u = Inr row \<and> ?good u row"
    if "u \<in> set (plan_units plan)" for u
    using propose_row_sound [of ?roster semantics gaps rankings u ctx active] ready units that
    by (auto simp: list_all_iff)
  then obtain f where f: "\<And>u. u \<in> set (plan_units plan) \<Longrightarrow>
      propose_row ?roster ctx active semantics gaps rankings u = Inr (f u) \<and> ?good u (f u)" by metis
  obtain fingerprint where fp: "workforce_index_fingerprint contracts = Inr fingerprint"
    using assms(2) by (simp add: fingerprint_Inr_iff)
  define p where "p = \<lparr>proposal_plan_hash = plan_hash plan, proposal_fingerprint = fingerprint,
          proposal_count = int (length contracts), proposal_generation = roster_generation ctx,
          proposal_rows = map f (plan_units plan)\<rparr>"
  have "is_digest fingerprint" using fp by (auto simp: fingerprint_Inr_iff is_digest_def)
  then have ok: "proposal_ok plan p"
    using f assms(3) by (simp add: proposal_ok_def p_def list_all_iff)
  have "map_res (propose_row ?roster ctx active semantics gaps rankings) (plan_units plan) = Inr (map f (plan_units plan))"
    by (rule map_res_Inr_all) (use f in blast)
  moreover have "length ?roster = length contracts"
    using assms(2) by (simp add: roster_of_distinct index_ok_def)
  ultimately have "build_deterministic_proposal plan contracts rankings ctx budget semantics text = Inr p"
    using gaps fp parse_proposal_value [OF ok]
    by (simp add: build_deterministic_proposal_def active [symmetric] p_def)
  moreover have "snapshot_bound p contracts ctx" by (simp add: snapshot_bound_def p_def fp)
  moreover have "(u, row) \<in> set (zip us (map f us)) \<Longrightarrow> row = f u \<and> u \<in> set us" for u row us
    by (auto simp: zip_map2 set_zip zip_same_conv_map)
  then have "\<forall>(u, row)\<in>set (zip (plan_units plan) (proposal_rows p)). ?good u row"
    using f by (fastforce simp: p_def)
  ultimately show ?thesis using ok by fastforce
qed

end
