(* ===== verification/Builder_Properties.thy ===== *)
theory Builder_Properties
  imports Staff_Propose Staff_Example
begin

text \<open>
  The property that binds the proposal builder to the verifier, applied to the plan and roster
  of the concrete staffing.
\<close>

definition example_rankings :: "(string \<times> (string \<times> py_float) list) list" where
  "example_rankings = [(''unit-b'', [(''builder'', PyFin (95 / 100) ''0.95'')]),
     (''unit-r'', [(''reviewer'', PyFin (9 / 10) ''0.9''), (''builder'', PyFin (4 / 10) ''0.4'')])]"

definition no_semantics :: staffing_semantics where
  "no_semantics = \<lparr>semantic_required = None, semantic_acceptable = None, semantic_forbidden = None,
     invariant_required = None, semantic_gap_units = None\<rparr>"

lemma row_ok_ranks_distinct: "row_ok row \<Longrightarrow> distinct (map rank_agent (ranked_semantic row))"
  by (simp add: row_ok_def ranks_ok_def)

text \<open>C13: on a parsed plan, a valid index and bounded rankings the proposal builder returns a
  proposal that parses and is bound to the index, and whenever it staffs a unit the verifier,
  recomputing that row, has no fatal finding against it.\<close>

theorem builder_agrees:
  assumes "plan_ok plan" and "index_ok contracts" and "0 \<le> roster_generation ctx"
    and "validated_gaps plan (semantic_gap_units semantics) = Inr gaps"
    and "\<forall>u\<in>set (plan_units plan). ranking_ready (roster_of contracts) semantics gaps rankings u
          \<and> short_ids u (roster_of contracts)"
  shows "\<exists>p. build_deterministic_proposal plan contracts rankings ctx (Some active) semantics text = Inr p
    \<and> proposal_ok plan p \<and> (\<exists>es. check_snapshot p contracts ctx = Inr es \<and> quiet es)
    \<and> (\<forall>(u, row)\<in>set (zip (plan_units plan) (proposal_rows p)). selected row \<noteq> [] \<longrightarrow>
          (\<exists>es. check_row (roster_of contracts) ctx active u row = Inr es \<and> quiet es))"
proof -
  obtain p where built: "build_deterministic_proposal plan contracts rankings ctx (Some active) semantics text = Inr p"
    and p: "proposal_ok plan p" "snapshot_bound p contracts ctx"
    and rows: "\<forall>(u, row)\<in>set (zip (plan_units plan) (proposal_rows p)).
          selected row \<noteq> [] \<longrightarrow> row_sound (roster_of contracts) ctx active u row"
    using proposal_built [OF assms, of active "Some active" "text"] by fastforce
  have "\<exists>es. check_row (roster_of contracts) ctx active u row = Inr es \<and> quiet es"
    if "(u, row) \<in> set (zip (plan_units plan) (proposal_rows p))" "selected row \<noteq> []" for u row
  proof -
    have "row_ok row" using p(1) set_zip_rightD [OF that(1)] by (auto simp: proposal_ok_def list_all_iff)
    then obtain es where "check_row (roster_of contracts) ctx active u row = Inr es"
      using check_row_total row_ok_ranks_distinct by blast
    then show ?thesis using rows that check_row_quiet by blast
  qed
  moreover have "\<exists>es. check_snapshot p contracts ctx = Inr es \<and> quiet es"
    using p(2) check_snapshot_total check_snapshot_quiet by blast
  ultimately show ?thesis using built p(1) by blast
qed

lemma example_rankings_ready:
  "ranking_ready example_roster no_semantics {} example_rankings build_unit"
  "ranking_ready example_roster no_semantics {} example_rankings review_unit"
  "short_ids build_unit example_roster" "short_ids review_unit example_roster"
  by code_simp+

lemma builder_agrees_witness:
  "\<exists>p. build_deterministic_proposal example_plan example_contracts example_rankings example_context
        (Some default_budget) no_semantics (\<lambda>_. ''0.5'') = Inr p \<and> proposal_ok example_plan p"
proof -
  have "validated_gaps example_plan (semantic_gap_units no_semantics) = Inr {}"
    by (simp add: validated_gaps_def no_semantics_def)
  moreover have "\<forall>u\<in>set (plan_units example_plan). ranking_ready (roster_of example_contracts) no_semantics {}
      example_rankings u \<and> short_ids u (roster_of example_contracts)"
    using example_rankings_ready by (simp add: example_plan_def example_units_def example_roster_of)
  moreover have "0 \<le> roster_generation example_context" by (simp add: example_context_def)
  ultimately show ?thesis
    using builder_agrees [OF example_plan_ok example_index_ok] by blast
qed

end
