(* ===== verification/Acceptance.thy ===== *)
theory Acceptance
  imports Py_Value Sha256
begin

text \<open>
  \<open>core/workforce/acceptance.py\<close>: the rule that decides whether an envelope of host-written
  evidence records one accepted outcome, and the read-back of a stored manifest. A refusal is
  the left part of a sum, carrying its reason.
\<close>

section \<open>Vocabulary and fields\<close>

definition acceptance_envelope_schema :: string where
  "acceptance_envelope_schema = ''agency.accepted-outcome.v2''"

definition host_child_proof_schema :: string where
  "host_child_proof_schema = ''agency.host-child-delivery-proof.v1''"

definition max_identity_characters :: nat where "max_identity_characters = 256"
definition max_acceptance_cards :: nat where "max_acceptance_cards = 64"
definition max_record_index :: int where "max_record_index = 65535"

definition acceptance_reasons :: "string list" where
  "acceptance_reasons = [''accepted'', ''envelope_malformed'', ''agency_only_evidence'',
     ''producer_evidence_missing'', ''producer_not_host_proven'', ''producer_artifact_digest_missing'',
     ''producer_attribution_ambiguous'', ''contractor_card_not_delivered'',
     ''contractor_identity_mismatch'', ''verifier_evidence_missing'', ''verifier_not_host_proven'',
     ''verifier_artifact_digest_missing'', ''verifier_not_inference_selected'',
     ''shared_producer_verifier_identity'', ''verdict_missing'', ''verdict_not_bound_to_verifier'',
     ''verdict_semantic_missing'', ''verdict_semantic_origin_mismatch'', ''verdict_binding_missing'',
     ''verdict_binding_mismatch'', ''verdict_rejected'', ''replayed'']"

definition accepted_verdict :: string where "accepted_verdict = ''accepted''"

record acceptance_outcome =
  outcome_accepted :: bool
  outcome_reason :: string
  outcome_key :: string
  outcome_artifact :: string
  outcome_worker :: string
  outcome_manifest :: "(string \<times> pyval) list"

text \<open>\<open>AcceptanceOutcome.__post_init__\<close>\<close>

definition check_outcome :: "acceptance_outcome \<Rightarrow> acceptance_outcome res" where
  "check_outcome out =
     (if outcome_reason out \<notin> set acceptance_reasons
      then Inl (ValueError ''acceptance reason is outside the bounded vocabulary'')
      else if outcome_accepted out \<noteq> (outcome_reason out = accepted_verdict)
      then Inl (ValueError ''acceptance reason does not agree with the verdict'')
      else Inr out)"

definition identity_text :: "pyval \<Rightarrow> string" where
  "identity_text v = (case v of
     PyStr s \<Rightarrow> (let stripped = strip s in
       if stripped = [] \<or> length stripped > max_identity_characters then [] else stripped)
   | _ \<Rightarrow> [])"

definition digest_text :: "pyval \<Rightarrow> string" where
  "digest_text v = (let digest = casefold (identity_text v) in
     if length digest \<noteq> 64 \<or> \<not> list_all is_hex digest then [] else digest)"

definition pair_text :: "pyval \<Rightarrow> string" where
  "pair_text v = (let identity = identity_text v in
     if length identity \<noteq> 32 \<or> \<not> list_all is_hex identity then [] else identity)"

definition record_index :: "pyval \<Rightarrow> int option" where
  "record_index v = (case as_int v of
     None \<Rightarrow> None | Some i \<Rightarrow> if i < 0 \<or> i > max_record_index then None else Some i)"

type_synonym card = "string \<times> string \<times> string"

definition read_card :: "pyval \<Rightarrow> card option" where
  "read_card v = (case as_mapping v of
     None \<Rightarrow> None
   | Some d \<Rightarrow> (let slug = identity_text (py_get d ''specialist_slug'');
          version = identity_text (py_get d ''specialist_version'');
          prompt_hash = identity_text (py_get d ''specialist_prompt_hash'')
        in if slug = [] \<or> version = [] \<or> prompt_hash = [] then None
           else Some (slug, version, prompt_hash)))"

text \<open>\<open>_cards\<close>: all of the first 64 entries, or none when one of them is malformed.\<close>

fun read_cards :: "pyval list \<Rightarrow> card list option" where
  "read_cards [] = Some []"
| "read_cards (v # vs) = (case read_card v of
     None \<Rightarrow> None
   | Some c \<Rightarrow> (case read_cards vs of None \<Rightarrow> None | Some cs \<Rightarrow> Some (c # cs)))"

definition cards :: "(string \<times> pyval) list \<Rightarrow> card list" where
  "cards proof = (case as_sequence (py_get proof ''cards'') of
     None \<Rightarrow> []
   | Some entries \<Rightarrow> (case read_cards (take max_acceptance_cards entries) of
       None \<Rightarrow> [] | Some cs \<Rightarrow> cs))"


section \<open>The rule\<close>

type_synonym 'a check = "string + 'a"

fun and_then :: "'a check \<Rightarrow> ('a \<Rightarrow> 'b check) \<Rightarrow> 'b check" where
  "and_then (Inl r) f = Inl r"
| "and_then (Inr x) f = f x"

definition refuse_if :: "bool \<Rightarrow> string \<Rightarrow> unit check" where
  "refuse_if bad r = (if bad then Inl r else Inr ())"

definition host_proof :: "pyval \<Rightarrow> string \<Rightarrow> (string \<times> pyval) list check" where
  "host_proof v role =
     (if v = PyNone then Inl (role @ ''_evidence_missing'')
      else case as_mapping v of
        None \<Rightarrow> Inl ''envelope_malformed''
      | Some proof \<Rightarrow>
          if identity_text (py_get proof ''schema'') \<noteq> host_child_proof_schema
          then Inl ''agency_only_evidence''
          else if py_get proof ''verified_delivery'' \<noteq> PyBool True
          then Inl (role @ ''_not_host_proven'')
          else if identity_text (py_get proof ''child_id'') = [] \<or> identity_text (py_get proof ''host'') = []
          then Inl (role @ ''_not_host_proven'')
          else if cards proof = [] then Inl (role @ ''_not_host_proven'')
          else Inr proof)"

text \<open>The fields of \<open>_outcome_key\<close>, in the order they are joined.\<close>

record outcome_identity =
  id_producer_child :: string
  id_artifact :: string
  id_verifier_child :: string
  id_verifier_decision :: string
  id_verifier_artifact :: string
  id_record_index :: int
  id_pair :: string
  id_verdict :: string
  id_prompt_hash :: string

definition key_material :: "outcome_identity \<Rightarrow> string" where
  "key_material i = join [CHR 0x00] [acceptance_envelope_schema, id_producer_child i, id_artifact i,
     id_verifier_child i, id_verifier_decision i, id_verifier_artifact i, show_int (id_record_index i),
     id_pair i, id_verdict i, id_prompt_hash i]"

definition key_of :: "outcome_identity \<Rightarrow> string" where
  "key_of i = sha256_hex (utf8 (key_material i))"

definition attribution_reason :: "(string \<times> pyval) list \<Rightarrow> card \<Rightarrow> string" where
  "attribution_reason producer contractor_card =
     (let named = filter (\<lambda>c. fst c = fst contractor_card) (cards producer) in
      if named = [] then ''contractor_card_not_delivered''
      else if card (set named) > 1 then ''producer_attribution_ambiguous''
      else if hd named \<noteq> contractor_card then ''contractor_card_not_delivered''
      else [])"

definition independence_reason :: "(string \<times> pyval) list \<Rightarrow> (string \<times> pyval) list \<Rightarrow> string \<Rightarrow> string" where
  "independence_reason producer verifier contractor_slug =
     (if identity_text (py_get producer ''child_id'') = identity_text (py_get verifier ''child_id'')
      then ''shared_producer_verifier_identity''
      else if list_ex (\<lambda>c. fst c = contractor_slug) (cards verifier)
      then ''shared_producer_verifier_identity''
      else let decision = identity_text (py_get verifier ''decision_id'') in
        if decision = [] \<or> decision = identity_text (py_get producer ''decision_id'')
        then ''verifier_not_inference_selected'' else [])"

text \<open>The joint verdict: its id, the record position and the pair id.\<close>

definition read_verdict :: "pyval \<Rightarrow> string \<Rightarrow> string \<Rightarrow> string \<Rightarrow> (string \<times> int \<times> string) check" where
  "read_verdict v verifier_child verifier_artifact producer_artifact =
     (if v = PyNone then Inl ''verdict_missing''
      else case as_mapping v of
        None \<Rightarrow> Inl ''envelope_malformed''
      | Some verdict \<Rightarrow>
          let verdict_id = identity_text (py_get verdict ''verdict_id'') in
          if verdict_id = [] then Inl ''verdict_missing''
          else case as_mapping (py_get verdict ''semantic'') of
            None \<Rightarrow> Inl ''verdict_semantic_missing''
          | Some semantic \<Rightarrow>
              let decision = casefold (identity_text (py_get semantic ''decision''));
                  pair = pair_text (py_get semantic ''pair_id'') in
              case record_index (py_get semantic ''record_index'') of
                None \<Rightarrow> Inl ''verdict_semantic_missing''
              | Some index \<Rightarrow>
                  if decision = [] \<or> pair = [] then Inl ''verdict_semantic_missing''
                  else if identity_text (py_get semantic ''authority'') \<noteq> ''verifier-host-artifact''
                       \<or> digest_text (py_get semantic ''artifact_digest'') \<noteq> verifier_artifact
                  then Inl ''verdict_semantic_origin_mismatch''
                  else case as_mapping (py_get verdict ''binding'') of
                    None \<Rightarrow> Inl ''verdict_binding_missing''
                  | Some binding \<Rightarrow>
                      if identity_text (py_get binding ''verifier_child_id'') \<noteq> verifier_child
                      then Inl ''verdict_not_bound_to_verifier''
                      else if identity_text (py_get binding ''authority'') \<noteq> ''collector''
                           \<or> digest_text (py_get binding ''producer_artifact_digest'') \<noteq> producer_artifact
                           \<or> pair_text (py_get binding ''pair_id'') \<noteq> pair
                      then Inl ''verdict_binding_mismatch''
                      else if decision \<noteq> accepted_verdict then Inl ''verdict_rejected''
                      else Inr (verdict_id, index, pair))"

definition refused :: "string \<Rightarrow> acceptance_outcome" where
  "refused r = \<lparr>outcome_accepted = False, outcome_reason = r, outcome_key = [], outcome_artifact = [],
     outcome_worker = [], outcome_manifest = []\<rparr>"

definition identity_manifest :: "string \<Rightarrow> card \<Rightarrow> (string \<times> pyval) list \<Rightarrow> (string \<times> pyval) list
    \<Rightarrow> outcome_identity \<Rightarrow> (string \<times> pyval) list" where
  "identity_manifest worker contractor_card producer verifier i =
     [(''schema'', PyStr acceptance_envelope_schema), (''acceptance_validated'', PyBool True),
      (''accepted_outcome_key'', PyStr (key_of i)), (''contractor_worker_id'', PyStr worker),
      (''contractor_specialist_slug'', PyStr (fst contractor_card)),
      (''contractor_specialist_version'', PyStr (fst (snd contractor_card))),
      (''contractor_prompt_hash'', PyStr (snd (snd contractor_card))),
      (''producer_host'', PyStr (identity_text (py_get producer ''host''))),
      (''producer_child_id'', PyStr (id_producer_child i)),
      (''producer_decision_id'', PyStr (identity_text (py_get producer ''decision_id''))),
      (''producer_artifact_digest'', PyStr (id_artifact i)),
      (''verifier_host'', PyStr (identity_text (py_get verifier ''host''))),
      (''verifier_child_id'', PyStr (id_verifier_child i)),
      (''verifier_decision_id'', PyStr (id_verifier_decision i)),
      (''verifier_artifact_digest'', PyStr (id_verifier_artifact i)),
      (''verifier_specialist_slugs'', PyList (map PyStr (sorted_list_of_set (fst ` set (cards verifier))))),
      (''verdict_id'', PyStr (id_verdict i)), (''verdict_decision'', PyStr accepted_verdict),
      (''verdict_semantic_authority'', PyStr ''verifier-host-artifact''),
      (''verdict_semantic_artifact_digest'', PyStr (id_verifier_artifact i)),
      (''verdict_semantic_record_index'', PyInt (id_record_index i)),
      (''verdict_semantic_pair_id'', PyStr (id_pair i)),
      (''verdict_binding_authority'', PyStr ''collector''),
      (''verdict_binding_producer_artifact_digest'', PyStr (id_artifact i)),
      (''verdict_binding_verifier_child_id'', PyStr (id_verifier_child i)),
      (''verdict_binding_pair_id'', PyStr (id_pair i))]"

definition validate_envelope :: "pyval \<Rightarrow> acceptance_outcome check" where
  "validate_envelope v = (case as_mapping v of
     None \<Rightarrow> Inl ''envelope_malformed''
   | Some envelope \<Rightarrow>
     and_then (refuse_if (identity_text (py_get envelope ''schema'') \<noteq> acceptance_envelope_schema)
       ''envelope_malformed'') (\<lambda>_.
     let worker = identity_text (py_get envelope ''contractor_worker_id'') in
     case read_card (py_get envelope ''contractor_card'') of
       None \<Rightarrow> Inl ''envelope_malformed''
     | Some contractor_card \<Rightarrow>
     and_then (refuse_if (worker = []) ''envelope_malformed'') (\<lambda>_.
     and_then (host_proof (py_get envelope ''producer'') ''producer'') (\<lambda>producer.
     let artifact = digest_text (py_get producer ''artifact_digest'') in
     and_then (refuse_if (artifact = []) ''producer_artifact_digest_missing'') (\<lambda>_.
     let attribution = attribution_reason producer contractor_card in
     and_then (refuse_if (attribution \<noteq> []) attribution) (\<lambda>_.
     and_then (host_proof (py_get envelope ''verifier'') ''verifier'') (\<lambda>verifier.
     let verifier_artifact = digest_text (py_get verifier ''artifact_digest'') in
     and_then (refuse_if (verifier_artifact = []) ''verifier_artifact_digest_missing'') (\<lambda>_.
     let independence = independence_reason producer verifier (fst contractor_card) in
     and_then (refuse_if (independence \<noteq> []) independence) (\<lambda>_.
     and_then (read_verdict (py_get envelope ''verdict'') (identity_text (py_get verifier ''child_id''))
       verifier_artifact artifact) (\<lambda>(verdict_id, index, pair).
     let i = \<lparr>id_producer_child = identity_text (py_get producer ''child_id''), id_artifact = artifact,
           id_verifier_child = identity_text (py_get verifier ''child_id''),
           id_verifier_decision = identity_text (py_get verifier ''decision_id''),
           id_verifier_artifact = verifier_artifact, id_record_index = index, id_pair = pair,
           id_verdict = verdict_id, id_prompt_hash = snd (snd contractor_card)\<rparr>
     in Inr \<lparr>outcome_accepted = True, outcome_reason = accepted_verdict, outcome_key = key_of i,
          outcome_artifact = artifact, outcome_worker = worker,
          outcome_manifest = identity_manifest worker contractor_card producer verifier i\<rparr>))))))))))"

definition evaluate_acceptance :: "pyval \<Rightarrow> acceptance_outcome res" where
  "evaluate_acceptance v = (case validate_envelope v of
     Inl r \<Rightarrow> check_outcome (refused r) | Inr out \<Rightarrow> check_outcome out)"


section \<open>Reading a stored manifest back\<close>

record accepted_evidence =
  evidence_key :: string
  evidence_artifact :: string
  evidence_producer :: string
  evidence_verifier :: string

text \<open>The identities a stored row names, when they are all there.\<close>

definition stored_identity :: "(string \<times> pyval) list \<Rightarrow> outcome_identity option" where
  "stored_identity refs =
     (let i = \<lparr>id_producer_child = identity_text (py_get refs ''producer_child_id''),
          id_artifact = digest_text (py_get refs ''producer_artifact_digest''),
          id_verifier_child = identity_text (py_get refs ''verifier_child_id''),
          id_verifier_decision = identity_text (py_get refs ''verifier_decision_id''),
          id_verifier_artifact = digest_text (py_get refs ''verifier_artifact_digest''),
          id_record_index = 0, id_pair = pair_text (py_get refs ''verdict_semantic_pair_id''),
          id_verdict = identity_text (py_get refs ''verdict_id''),
          id_prompt_hash = identity_text (py_get refs ''contractor_prompt_hash'')\<rparr>
      in if [] \<in> {id_artifact i, id_producer_child i, id_verifier_child i, id_verifier_decision i,
            id_verifier_artifact i, id_verdict i, id_prompt_hash i, id_pair i} then None
         else map_option (\<lambda>index. i\<lparr>id_record_index := index\<rparr>)
           (record_index (py_get refs ''verdict_semantic_record_index'')))"

definition accepted_outcome_manifest :: "pyval \<Rightarrow> accepted_evidence option" where
  "accepted_outcome_manifest v = (case as_mapping v of
     None \<Rightarrow> None
   | Some refs \<Rightarrow>
       if py_get refs ''acceptance_validated'' \<noteq> PyBool True then None
       else if identity_text (py_get refs ''schema'') \<noteq> acceptance_envelope_schema then None
       else let key = digest_text (py_get refs ''accepted_outcome_key'') in
       if key = [] then None
       else case stored_identity refs of
         None \<Rightarrow> None
       | Some i \<Rightarrow>
           if id_producer_child i = id_verifier_child i then None
           else if casefold (identity_text (py_get refs ''verdict_decision'')) \<noteq> accepted_verdict then None
           else if identity_text (py_get refs ''verdict_semantic_authority'') \<noteq> ''verifier-host-artifact''
             \<or> digest_text (py_get refs ''verdict_semantic_artifact_digest'') \<noteq> id_verifier_artifact i
             \<or> identity_text (py_get refs ''verdict_binding_authority'') \<noteq> ''collector''
             \<or> digest_text (py_get refs ''verdict_binding_producer_artifact_digest'') \<noteq> id_artifact i
             \<or> identity_text (py_get refs ''verdict_binding_verifier_child_id'') \<noteq> id_verifier_child i
             \<or> pair_text (py_get refs ''verdict_binding_pair_id'') \<noteq> id_pair i then None
           else if key_of i \<noteq> key then None
           else Some \<lparr>evidence_key = key, evidence_artifact = id_artifact i,
             evidence_producer = id_producer_child i, evidence_verifier = id_verifier_child i\<rparr>)"


section \<open>Fields are stable\<close>

lemma identity_text_idem [simp]: "identity_text (PyStr (identity_text v)) = identity_text v"
  by (auto simp: identity_text_def Let_def split: pyval.splits)

lemma is_hex_fold: "is_hex c \<Longrightarrow> fold_char c = [c] \<and> \<not> is_space c"
  by (auto simp: is_hex_def fold_char_def is_space_def Let_def)

lemma hex_stable:
  assumes "list_all is_hex s"
  shows "casefold s = s" and "strip s = s"
proof -
  show "casefold s = s" using assms unfolding casefold_def by (induction s) (auto simp: is_hex_fold)
  show "strip s = s" using assms by (intro strip_word) (auto simp: list_all_iff is_hex_fold)
qed

lemma digest_text_PyStr [simp]: "list_all is_hex s \<Longrightarrow> length s = 64 \<Longrightarrow> digest_text (PyStr s) = s"
  by (auto simp: digest_text_def identity_text_def Let_def hex_stable max_identity_characters_def)

lemma digest_text_cases: "digest_text v = [] \<or> list_all is_hex (digest_text v) \<and> length (digest_text v) = 64"
  by (simp add: digest_text_def Let_def)

lemma digest_text_idem [simp]: "digest_text (PyStr (digest_text v)) = digest_text v"
  using digest_text_cases [of v]
  by (elim disjE conjE) (simp_all add: digest_text_def [of "PyStr []"] identity_text_def Let_def)

lemma pair_text_cases: "pair_text v = [] \<or> list_all is_hex (pair_text v) \<and> length (pair_text v) = 32"
  by (simp add: pair_text_def Let_def)

lemma pair_text_PyStr [simp]: "list_all is_hex s \<Longrightarrow> length s = 32 \<Longrightarrow> pair_text (PyStr s) = s"
  by (auto simp: pair_text_def identity_text_def Let_def hex_stable max_identity_characters_def)

lemma pair_text_idem [simp]: "pair_text (PyStr (pair_text v)) = pair_text v"
  using pair_text_cases [of v]
  by (elim disjE conjE) (simp_all add: pair_text_def [of "PyStr []"] identity_text_def Let_def)

lemma key_of_digest [simp]: "digest_text (PyStr (key_of i)) = key_of i" "key_of i \<noteq> []"
  by (simp_all add: key_of_def)

lemma record_index_PyInt: "record_index v = Some n \<Longrightarrow> record_index (PyInt n) = Some n"
  by (auto simp: record_index_def split: option.splits if_splits)


section \<open>What an accepted envelope establishes\<close>

lemma and_then_Inr_iff: "and_then m f = Inr y \<longleftrightarrow> (\<exists>x. m = Inr x \<and> f x = Inr y)"
  by (cases m) auto

lemma and_then_Inl_iff: "and_then m f = Inl r \<longleftrightarrow> m = Inl r \<or> (\<exists>x. m = Inr x \<and> f x = Inl r)"
  by (cases m) auto

lemma refuse_if_Inr [simp]: "refuse_if b r = Inr x \<longleftrightarrow> \<not> b"
  by (auto simp: refuse_if_def)

lemma refuse_if_Inl [simp]: "refuse_if b r = Inl r' \<longleftrightarrow> b \<and> r = r'"
  by (auto simp: refuse_if_def)

lemma host_proof_Inr_iff:
  "host_proof v role = Inr proof \<longleftrightarrow> v = PyDict proof
     \<and> identity_text (py_get proof ''schema'') = host_child_proof_schema
     \<and> py_get proof ''verified_delivery'' = PyBool True
     \<and> identity_text (py_get proof ''child_id'') \<noteq> [] \<and> identity_text (py_get proof ''host'') \<noteq> []
     \<and> cards proof \<noteq> []"
  by (auto simp: host_proof_def split: option.splits)

definition role_reasons :: "string \<Rightarrow> string set" where
  "role_reasons role = {''envelope_malformed'', ''agency_only_evidence'',
     role @ ''_evidence_missing'', role @ ''_not_host_proven''}"

lemma host_proof_Inl: "host_proof v role = Inl r \<Longrightarrow> r \<in> role_reasons role"
  by (auto simp: host_proof_def role_reasons_def split: option.splits if_splits)

lemma attribution_codes: "attribution_reason producer c \<in>
    {[], ''contractor_card_not_delivered'', ''producer_attribution_ambiguous''}"
  by (simp add: attribution_reason_def Let_def)

lemma independence_codes: "independence_reason producer verifier slug \<in>
    {[], ''shared_producer_verifier_identity'', ''verifier_not_inference_selected''}"
  by (simp add: independence_reason_def Let_def)

lemma read_verdict_Inl: "read_verdict v c a b = Inl r \<Longrightarrow> r \<in> {''verdict_missing'', ''envelope_malformed'',
    ''verdict_semantic_missing'', ''verdict_semantic_origin_mismatch'', ''verdict_binding_missing'',
    ''verdict_not_bound_to_verifier'', ''verdict_binding_mismatch'', ''verdict_rejected''}"
  by (auto simp: read_verdict_def Let_def split: option.splits if_splits)

lemma attribution_exact:
  "attribution_reason producer c = [] \<longleftrightarrow> set (filter (\<lambda>d. fst d = fst c) (cards producer)) = {c}"
    (is "_ \<longleftrightarrow> set ?named = {c}")
proof
  assume *: "attribution_reason producer c = []"
  have "?named \<noteq> []" and le: "card (set ?named) \<le> 1" and hd: "hd ?named = c"
    using * by (auto simp: attribution_reason_def Let_def split: if_splits)
  then have "c \<in> set ?named" by (metis hd_in_set)
  moreover have "\<forall>x\<in>set ?named. \<forall>y\<in>set ?named. x = y"
    using le card_le_Suc0_iff_eq [OF finite_set, of ?named] by simp
  ultimately show "set ?named = {c}" by blast
next
  assume *: "set ?named = {c}"
  then have "?named \<noteq> []" by (metis empty_set insert_not_empty)
  moreover from this have "hd ?named = c" using * by (metis hd_in_set singletonD)
  moreover have "\<not> card (set ?named) > 1" unfolding * by simp
  ultimately show "attribution_reason producer c = []"
    by (simp only: attribution_reason_def Let_def if_False simp_thms)
qed

lemma independence_exact:
  "independence_reason producer verifier slug = [] \<longleftrightarrow>
     identity_text (py_get producer ''child_id'') \<noteq> identity_text (py_get verifier ''child_id'')
     \<and> slug \<notin> fst ` set (cards verifier)
     \<and> identity_text (py_get verifier ''decision_id'') \<noteq> []
     \<and> identity_text (py_get verifier ''decision_id'') \<noteq> identity_text (py_get producer ''decision_id'')"
  by (auto simp: independence_reason_def Let_def list_ex_iff)

text \<open>What a joint verdict that accepts says: the verifier's own record, on the verifier's
  artifact, and the collector's binding of it to that verifier and to the produced artifact.\<close>

definition accepting_verdict :: "pyval \<Rightarrow> string \<Rightarrow> string \<Rightarrow> string \<Rightarrow> string \<times> int \<times> string \<Rightarrow> bool" where
  "accepting_verdict v verifier_child verifier_artifact producer_artifact = (\<lambda>(verdict_id, index, pair).
     \<exists>verdict semantic binding. v = PyDict verdict
       \<and> verdict_id = identity_text (py_get verdict ''verdict_id'') \<and> verdict_id \<noteq> []
       \<and> py_get verdict ''semantic'' = PyDict semantic
       \<and> casefold (identity_text (py_get semantic ''decision'')) = accepted_verdict
       \<and> record_index (py_get semantic ''record_index'') = Some index
       \<and> pair = pair_text (py_get semantic ''pair_id'') \<and> pair \<noteq> []
       \<and> identity_text (py_get semantic ''authority'') = ''verifier-host-artifact''
       \<and> digest_text (py_get semantic ''artifact_digest'') = verifier_artifact
       \<and> py_get verdict ''binding'' = PyDict binding
       \<and> identity_text (py_get binding ''verifier_child_id'') = verifier_child
       \<and> identity_text (py_get binding ''authority'') = ''collector''
       \<and> digest_text (py_get binding ''producer_artifact_digest'') = producer_artifact
       \<and> pair_text (py_get binding ''pair_id'') = pair)"

lemma read_verdict_Inr_iff:
  "read_verdict v vc va pa = Inr res \<longleftrightarrow> accepting_verdict v vc va pa res"
  by (cases res) (auto simp: read_verdict_def accepting_verdict_def Let_def accepted_verdict_def
      split: option.splits)

text \<open>The evidence of one accepted outcome, as identities of the outcome.\<close>

definition evidence_of :: "(string \<times> pyval) list \<Rightarrow> (string \<times> pyval) list \<Rightarrow> (string \<times> pyval) list
    \<Rightarrow> card \<Rightarrow> outcome_identity \<Rightarrow> bool" where
  "evidence_of envelope producer verifier c i =
     (identity_text (py_get envelope ''schema'') = acceptance_envelope_schema
      \<and> identity_text (py_get envelope ''contractor_worker_id'') \<noteq> []
      \<and> host_proof (py_get envelope ''producer'') ''producer'' = Inr producer
      \<and> host_proof (py_get envelope ''verifier'') ''verifier'' = Inr verifier
      \<and> read_card (py_get envelope ''contractor_card'') = Some c
      \<and> attribution_reason producer c = [] \<and> independence_reason producer verifier (fst c) = []
      \<and> id_artifact i = digest_text (py_get producer ''artifact_digest'') \<and> id_artifact i \<noteq> []
      \<and> id_verifier_artifact i = digest_text (py_get verifier ''artifact_digest'')
      \<and> id_verifier_artifact i \<noteq> []
      \<and> id_producer_child i = identity_text (py_get producer ''child_id'')
      \<and> id_verifier_child i = identity_text (py_get verifier ''child_id'')
      \<and> id_verifier_decision i = identity_text (py_get verifier ''decision_id'')
      \<and> id_prompt_hash i = snd (snd c)
      \<and> accepting_verdict (py_get envelope ''verdict'') (id_verifier_child i) (id_verifier_artifact i)
           (id_artifact i) (id_verdict i, id_record_index i, id_pair i))"

definition accepted_outcome :: "(string \<times> pyval) list \<Rightarrow> (string \<times> pyval) list \<Rightarrow> (string \<times> pyval) list
    \<Rightarrow> card \<Rightarrow> outcome_identity \<Rightarrow> acceptance_outcome" where
  "accepted_outcome envelope producer verifier c i =
     (let worker = identity_text (py_get envelope ''contractor_worker_id'') in
      \<lparr>outcome_accepted = True, outcome_reason = accepted_verdict, outcome_key = key_of i,
       outcome_artifact = id_artifact i, outcome_worker = worker,
       outcome_manifest = identity_manifest worker c producer verifier i\<rparr>)"

lemma validate_envelope_Inr:
  assumes "validate_envelope v = Inr out"
  shows "\<exists>envelope producer verifier c i. v = PyDict envelope
    \<and> evidence_of envelope producer verifier c i \<and> out = accepted_outcome envelope producer verifier c i"
proof -
  obtain envelope where v: "v = PyDict envelope"
    using assms by (auto simp: validate_envelope_def split: option.splits)
  obtain c where c: "read_card (py_get envelope ''contractor_card'') = Some c"
    using assms by (cases "read_card (py_get envelope ''contractor_card'')")
      (simp_all add: v validate_envelope_def and_then_Inr_iff)
  obtain producer verifier verdict_id index pair i where
    steps: "identity_text (py_get envelope ''schema'') = acceptance_envelope_schema"
      "identity_text (py_get envelope ''contractor_worker_id'') \<noteq> []"
      "host_proof (py_get envelope ''producer'') ''producer'' = Inr producer"
      "digest_text (py_get producer ''artifact_digest'') \<noteq> []"
      "attribution_reason producer c = []"
      "host_proof (py_get envelope ''verifier'') ''verifier'' = Inr verifier"
      "digest_text (py_get verifier ''artifact_digest'') \<noteq> []"
      "independence_reason producer verifier (fst c) = []"
      "read_verdict (py_get envelope ''verdict'') (identity_text (py_get verifier ''child_id''))
         (digest_text (py_get verifier ''artifact_digest'')) (digest_text (py_get producer ''artifact_digest''))
       = Inr (verdict_id, index, pair)"
    and i: "i = \<lparr>id_producer_child = identity_text (py_get producer ''child_id''),
           id_artifact = digest_text (py_get producer ''artifact_digest''),
           id_verifier_child = identity_text (py_get verifier ''child_id''),
           id_verifier_decision = identity_text (py_get verifier ''decision_id''),
           id_verifier_artifact = digest_text (py_get verifier ''artifact_digest''),
           id_record_index = index, id_pair = pair,
           id_verdict = verdict_id, id_prompt_hash = snd (snd c)\<rparr>"
    and out: "out = accepted_outcome envelope producer verifier c i"
    using assms by (auto simp: v c validate_envelope_def and_then_Inr_iff Let_def accepted_outcome_def)
  have "evidence_of envelope producer verifier c i"
    using steps c by (simp add: evidence_of_def i read_verdict_Inr_iff)
  with out v show ?thesis by blast
qed

lemma evidence_validates:
  assumes "evidence_of envelope producer verifier c i"
  shows "validate_envelope (PyDict envelope) = Inr (accepted_outcome envelope producer verifier c i)"
  using assms
  by (cases i) (simp add: evidence_of_def validate_envelope_def refuse_if_def Let_def
      accepted_outcome_def read_verdict_Inr_iff [symmetric])

lemma validate_envelope_reason:
  assumes "validate_envelope v = Inl r"
  shows "r \<in> set acceptance_reasons - {accepted_verdict, ''contractor_identity_mismatch'', ''replayed''}"
proof (cases "as_mapping v")
  case None
  with assms show ?thesis by (auto simp: validate_envelope_def acceptance_reasons_def accepted_verdict_def)
next
  case (Some envelope)
  show ?thesis
  proof (cases "read_card (py_get envelope ''contractor_card'')")
    case None
    with assms Some show ?thesis
      by (auto simp: validate_envelope_def and_then_Inl_iff acceptance_reasons_def accepted_verdict_def)
  next
    case (Some c)
    consider "r = ''envelope_malformed''" | "r \<in> role_reasons ''producer''"
      | "r \<in> role_reasons ''verifier''"
      | "r = ''producer_artifact_digest_missing''" | "r = ''verifier_artifact_digest_missing''"
      | p where "r = attribution_reason p c" "r \<noteq> []"
      | p q where "r = independence_reason p q (fst c)" "r \<noteq> []"
      | x a b d where "read_verdict x a b d = Inl r"
      using assms \<open>as_mapping v = Some envelope\<close> Some
      by (auto simp: validate_envelope_def and_then_Inl_iff Let_def dest!: host_proof_Inl)
    then show ?thesis
    proof cases
      case 6
      then show ?thesis using attribution_codes [of p c]
        by (auto simp: acceptance_reasons_def accepted_verdict_def)
    next
      case 7
      then show ?thesis using independence_codes [of p q "fst c"]
        by (auto simp: acceptance_reasons_def accepted_verdict_def)
    next
      case 8
      then show ?thesis using read_verdict_Inl [of x a b d r]
        by (auto simp: acceptance_reasons_def accepted_verdict_def)
    qed (auto simp: role_reasons_def acceptance_reasons_def accepted_verdict_def)
  qed
qed

lemma evaluate_acceptance_refuses:
  assumes "validate_envelope v = Inl r"
  shows "evaluate_acceptance v = Inr (refused r)"
  using validate_envelope_reason [OF assms] assms
  by (simp add: evaluate_acceptance_def check_outcome_def refused_def)

lemma evaluate_acceptance_accepts:
  assumes "validate_envelope v = Inr out"
  shows "evaluate_acceptance v = Inr out \<and> outcome_accepted out \<and> outcome_reason out = accepted_verdict"
proof -
  have "outcome_accepted out" "outcome_reason out = accepted_verdict"
    using validate_envelope_Inr [OF assms] by (auto simp: accepted_outcome_def Let_def)
  moreover have "accepted_verdict \<in> set acceptance_reasons"
    by (simp add: accepted_verdict_def acceptance_reasons_def)
  ultimately show ?thesis using assms by (simp add: evaluate_acceptance_def check_outcome_def)
qed

lemma evaluate_acceptance_iff:
  "evaluate_acceptance v = Inr out \<and> outcome_accepted out \<longleftrightarrow> validate_envelope v = Inr out"
  using evaluate_acceptance_refuses [of v] evaluate_acceptance_accepts [of v]
  by (cases "validate_envelope v") (auto simp: refused_def)


section \<open>The manifest of an accepted outcome reads back\<close>

lemma identity_text_literals [simp]:
  "identity_text (PyStr acceptance_envelope_schema) = acceptance_envelope_schema"
  "identity_text (PyStr ''verifier-host-artifact'') = ''verifier-host-artifact''"
  "identity_text (PyStr ''collector'') = ''collector''"
  "casefold (identity_text (PyStr accepted_verdict)) = accepted_verdict"
  by code_simp+

lemma read_card_stable:
  assumes "read_card v = Some c"
  shows "identity_text (PyStr (snd (snd c))) = snd (snd c)" "snd (snd c) \<noteq> []"
  using assms by (auto simp: read_card_def Let_def split: option.splits if_splits)

lemma manifest_fields:
  fixes worker c producer verifier i
  defines "refs \<equiv> identity_manifest worker c producer verifier i"
  shows "py_get refs ''schema'' = PyStr acceptance_envelope_schema"
    and "py_get refs ''acceptance_validated'' = PyBool True"
    and "py_get refs ''accepted_outcome_key'' = PyStr (key_of i)"
    and "py_get refs ''producer_child_id'' = PyStr (id_producer_child i)"
    and "py_get refs ''producer_artifact_digest'' = PyStr (id_artifact i)"
    and "py_get refs ''verifier_child_id'' = PyStr (id_verifier_child i)"
    and "py_get refs ''verifier_decision_id'' = PyStr (id_verifier_decision i)"
    and "py_get refs ''verifier_artifact_digest'' = PyStr (id_verifier_artifact i)"
    and "py_get refs ''verdict_id'' = PyStr (id_verdict i)"
    and "py_get refs ''contractor_prompt_hash'' = PyStr (snd (snd c))"
    and "py_get refs ''verdict_semantic_record_index'' = PyInt (id_record_index i)"
    and "py_get refs ''verdict_semantic_pair_id'' = PyStr (id_pair i)"
    and "py_get refs ''verdict_decision'' = PyStr accepted_verdict"
    and "py_get refs ''verdict_semantic_authority'' = PyStr ''verifier-host-artifact''"
    and "py_get refs ''verdict_semantic_artifact_digest'' = PyStr (id_verifier_artifact i)"
    and "py_get refs ''verdict_binding_authority'' = PyStr ''collector''"
    and "py_get refs ''verdict_binding_producer_artifact_digest'' = PyStr (id_artifact i)"
    and "py_get refs ''verdict_binding_verifier_child_id'' = PyStr (id_verifier_child i)"
    and "py_get refs ''verdict_binding_pair_id'' = PyStr (id_pair i)"
  unfolding refs_def by (simp_all add: identity_manifest_def py_get_def)

text \<open>The fields of an outcome's identity are what the readers give back for their own text.\<close>

definition identity_stable :: "outcome_identity \<Rightarrow> bool" where
  "identity_stable i =
     (identity_text (PyStr (id_producer_child i)) = id_producer_child i \<and> id_producer_child i \<noteq> []
      \<and> digest_text (PyStr (id_artifact i)) = id_artifact i \<and> id_artifact i \<noteq> []
      \<and> identity_text (PyStr (id_verifier_child i)) = id_verifier_child i \<and> id_verifier_child i \<noteq> []
      \<and> identity_text (PyStr (id_verifier_decision i)) = id_verifier_decision i
      \<and> id_verifier_decision i \<noteq> []
      \<and> digest_text (PyStr (id_verifier_artifact i)) = id_verifier_artifact i
      \<and> id_verifier_artifact i \<noteq> []
      \<and> record_index (PyInt (id_record_index i)) = Some (id_record_index i)
      \<and> pair_text (PyStr (id_pair i)) = id_pair i \<and> id_pair i \<noteq> []
      \<and> identity_text (PyStr (id_verdict i)) = id_verdict i \<and> id_verdict i \<noteq> []
      \<and> identity_text (PyStr (id_prompt_hash i)) = id_prompt_hash i \<and> id_prompt_hash i \<noteq> [])"

lemma evidence_stable:
  assumes "evidence_of envelope producer verifier c i"
  shows "identity_stable i"
  using assms
  by (auto simp: identity_stable_def evidence_of_def accepting_verdict_def host_proof_Inr_iff
      independence_exact read_card_stable record_index_PyInt)

lemma stored_identity_stable: "stored_identity refs = Some i \<Longrightarrow> identity_stable i"
  by (auto simp: stored_identity_def identity_stable_def Let_def record_index_PyInt split: if_splits)

lemma stored_identity_manifest:
  assumes "identity_stable i" and "id_prompt_hash i = snd (snd c)"
  shows "stored_identity (identity_manifest worker c producer verifier i) = Some i"
  using assms by (cases i) (auto simp: stored_identity_def identity_stable_def manifest_fields)

lemma manifest_reads_back:
  assumes "evidence_of envelope producer verifier c i"
  shows "accepted_outcome_manifest (PyDict (identity_manifest worker c producer verifier i)) =
    Some \<lparr>evidence_key = key_of i, evidence_artifact = id_artifact i,
      evidence_producer = id_producer_child i, evidence_verifier = id_verifier_child i\<rparr>"
proof -
  have "identity_stable i" using assms by (rule evidence_stable)
  moreover have "id_prompt_hash i = snd (snd c)" and "id_producer_child i \<noteq> id_verifier_child i"
    using assms by (auto simp: evidence_of_def independence_exact)
  ultimately show ?thesis
    by (simp add: accepted_outcome_manifest_def stored_identity_manifest manifest_fields)
      (simp add: identity_stable_def)
qed

lemma accepted_outcome_manifest_Some_iff:
  "accepted_outcome_manifest v = Some e \<longleftrightarrow> (\<exists>refs i. v = PyDict refs \<and> stored_identity refs = Some i
     \<and> py_get refs ''acceptance_validated'' = PyBool True
     \<and> identity_text (py_get refs ''schema'') = acceptance_envelope_schema
     \<and> digest_text (py_get refs ''accepted_outcome_key'') = key_of i
     \<and> id_producer_child i \<noteq> id_verifier_child i
     \<and> casefold (identity_text (py_get refs ''verdict_decision'')) = accepted_verdict
     \<and> identity_text (py_get refs ''verdict_semantic_authority'') = ''verifier-host-artifact''
     \<and> digest_text (py_get refs ''verdict_semantic_artifact_digest'') = id_verifier_artifact i
     \<and> identity_text (py_get refs ''verdict_binding_authority'') = ''collector''
     \<and> digest_text (py_get refs ''verdict_binding_producer_artifact_digest'') = id_artifact i
     \<and> identity_text (py_get refs ''verdict_binding_verifier_child_id'') = id_verifier_child i
     \<and> pair_text (py_get refs ''verdict_binding_pair_id'') = id_pair i
     \<and> e = \<lparr>evidence_key = key_of i, evidence_artifact = id_artifact i,
         evidence_producer = id_producer_child i, evidence_verifier = id_verifier_child i\<rparr>)"
  by (auto simp: accepted_outcome_manifest_def Let_def split: option.splits)


section \<open>The replay key\<close>

definition identity_fields :: "outcome_identity \<Rightarrow> string list" where
  "identity_fields i = [acceptance_envelope_schema, id_producer_child i, id_artifact i,
     id_verifier_child i, id_verifier_decision i, id_verifier_artifact i, show_int (id_record_index i),
     id_pair i, id_verdict i, id_prompt_hash i]"

definition nul_free :: "outcome_identity \<Rightarrow> bool" where
  "nul_free i = list_all (\<lambda>w. CHR 0x00 \<notin> set w) (identity_fields i)"

lemma first_separator:
  assumes "w @ c # xs = v @ c # ys" and "c \<notin> set w" "c \<notin> set v"
  shows "w = v \<and> xs = ys"
  using assms
proof (induction w arbitrary: v)
  case Nil
  then show ?case by (cases v) auto
next
  case (Cons a w)
  then show ?case by (cases v) auto
qed

lemma join_inject:
  assumes "length ws = length vs" and "\<forall>w\<in>set ws \<union> set vs. c \<notin> set w"
    and "join [c] ws = join [c] vs"
  shows "ws = vs"
  using assms
proof (induction ws vs rule: list_induct2)
  case (Cons w ws v vs)
  show ?case
  proof (cases ws)
    case Nil
    with Cons show ?thesis by simp
  next
    case outer: (Cons w' ws')
    then obtain v' vs' where vs: "vs = v' # vs'" using Cons.hyps by (cases vs) auto
    have "w @ c # join [c] ws = v @ c # join [c] vs"
      using Cons.prems(2) by (simp add: outer vs)
    then have "w = v \<and> join [c] ws = join [c] vs"
      using Cons.prems(1) by (intro first_separator) auto
    with Cons show ?thesis by simp
  qed
qed simp

lemma digit_char_inject: "a < 10 \<Longrightarrow> b < 10 \<Longrightarrow> digit_char a = digit_char b \<Longrightarrow> a = b"
  using inj_onD [OF inj_on_char_of_nat, of "48 + a" "48 + b"] by (simp add: digit_char_def)

lemma show_nat_inject: "show_nat m = show_nat n \<Longrightarrow> m = n"
proof (induction m arbitrary: n rule: show_nat.induct)
  case (1 m)
  have len: "show_nat k \<noteq> []" for k
    by (subst show_nat.simps) simp
  show ?case
  proof (cases "m < 10 \<or> n < 10")
    case True
    then have "m < 10 \<and> n < 10"
      using "1.prems" len len [symmetric]
      by (auto simp: show_nat.simps [of m] show_nat.simps [of n] split: if_splits)
    with "1.prems" show ?thesis
      by (auto simp: show_nat.simps [of m] show_nat.simps [of n] intro: digit_char_inject)
  next
    case False
    then have "m div 10 = n div 10" "m mod 10 = n mod 10"
      using "1.prems" "1.IH" [of "n div 10"]
      by (auto simp: show_nat.simps [of m] show_nat.simps [of n] intro: digit_char_inject)
    then show ?thesis by (metis div_mult_mod_eq)
  qed
qed

lemma show_nat_digits: "c \<in> set (show_nat n) \<Longrightarrow> \<exists>d<10. c = digit_char d"
proof (induction n rule: show_nat.induct)
  case (1 n)
  then show ?case
    by (auto simp: show_nat.simps [of n] intro: exI [of _ "n mod 10"] split: if_splits)
qed

lemma identity_fields_inject:
  assumes "identity_fields i = identity_fields j" "identity_stable i" "identity_stable j"
  shows "i = j"
proof -
  have "id_record_index i \<ge> 0" "id_record_index j \<ge> 0"
    using assms(2,3) by (auto simp: identity_stable_def record_index_def split: if_splits)
  with assms(1) have "nat (id_record_index i) = nat (id_record_index j)"
    by (auto simp: identity_fields_def show_int_def intro: show_nat_inject)
  with assms(1) \<open>id_record_index i \<ge> 0\<close> \<open>id_record_index j \<ge> 0\<close> show ?thesis
    by (cases i; cases j) (simp add: identity_fields_def)
qed

lemma key_material_inject:
  assumes "key_material i = key_material j" and "nul_free i" "nul_free j"
    and "identity_stable i" "identity_stable j"
  shows "i = j"
proof -
  have "identity_fields i = identity_fields j"
    using assms(1-3) by (intro join_inject [of _ _ "CHR 0x00"])
      (auto simp: key_material_def identity_fields_def nul_free_def)
  then show ?thesis using assms(4,5) by (rule identity_fields_inject)
qed

end
