(* ===== verification/Promotion.thy ===== *)
theory Promotion
  imports Acceptance
begin

text \<open>
  \<open>core/workforce/promotion.py\<close>: which accepted outcomes count towards a promotion, and
  whether a contractor may be promoted automatically. A datetime is its local time in
  microseconds since the year 1 and its offset from UTC, when it has one. The parser
  \<open>datetime.fromisoformat\<close> is the argument \<open>fromiso\<close>.
\<close>

section \<open>Time\<close>

record moment =
  local_time :: int
  utc_offset :: "int option"

definition day_length :: int where "day_length = 86400000000"

text \<open>The first microsecond past \<open>datetime.max\<close>.\<close>

definition end_of_time :: int where "end_of_time = 3652059 * day_length"

definition utc_time :: "moment \<Rightarrow> int" where
  "utc_time t = (case utc_offset t of None \<Rightarrow> local_time t | Some off \<Rightarrow> local_time t - off)"

text \<open>\<open>t + timedelta(days=n)\<close>\<close>

definition add_days :: "moment \<Rightarrow> int \<Rightarrow> moment res" where
  "add_days t n =
     (if n > 2147483647 \<or> n < - 2147483648
      then Inl (OverflowError ''Python int too large to convert to C int'')
      else if n > 999999999 \<or> n < - 999999999
      then Inl (OverflowError (''days='' @ show_int n @ ''; must have magnitude <= 999999999''))
      else let later = local_time t + n * day_length in
        if later < 0 \<or> later \<ge> end_of_time then Inl (OverflowError ''date value out of range'')
        else Inr (t\<lparr>local_time := later\<rparr>))"

definition parse_created_at :: "(string \<Rightarrow> moment option) \<Rightarrow> pyval \<Rightarrow> moment option" where
  "parse_created_at fromiso v = (let s = strip (str_or_empty v) in if s = [] then None else fromiso s)"

definition within_review_window :: "moment option \<Rightarrow> int \<Rightarrow> moment \<Rightarrow> bool res" where
  "within_review_window created days now = (case created of
     None \<Rightarrow> Inr False
   | Some t \<Rightarrow> if days \<le> 0 then Inr False
       else bind_res (add_days t days) (\<lambda>later. Inr (utc_time later > utc_time now)))"


section \<open>Evidence\<close>

definition success_outcomes :: "string list" where
  "success_outcomes = [''accepted'', ''completed'', ''passed'', ''succeeded'', ''success'']"

type_synonym outcome_row = "(string \<times> pyval) list"

text \<open>The evidence one stored row contributes, when it is a recorded acceptance.\<close>

definition counted :: "outcome_row \<Rightarrow> accepted_evidence option" where
  "counted item =
     (if casefold (str_or_empty (py_get item ''event_type'')) \<noteq> ''acceptance'' then None
      else if casefold (str_or_empty (py_get item ''outcome'')) \<notin> set success_outcomes then None
      else accepted_outcome_manifest (py_get item ''evidence_refs''))"

definition accepted_artifacts :: "outcome_row list \<Rightarrow> string list" where
  "accepted_artifacts outcomes =
     sorted_list_of_set (set (map evidence_artifact (List.map_filter counted outcomes)))"


section \<open>Readiness\<close>

record readiness =
  ready_state :: string
  human_promotion :: bool
  policy_enabled :: bool
  auto_eligible :: bool
  in_window :: bool
  required_successes :: int
  verified_successes :: int
  remaining_successes :: int
  verified_artifacts :: "string list"
  readiness_reasons :: "string list"

definition remaining_text :: "int \<Rightarrow> string" where
  "remaining_text n = show_int n @ '' more host-evidenced accepted ''
     @ (if n = 1 then ''outcome is'' else ''outcomes are'') @ '' required.''"

definition promotion_reasons :: "bool \<Rightarrow> int \<Rightarrow> int \<Rightarrow> bool \<Rightarrow> int \<Rightarrow> bool \<Rightarrow> string list" where
  "promotion_reasons contractor needed count window days eligible =
     (if contractor then [] else [''Only an active contractor can be promoted.''])
     @ (if needed \<le> 0 then [''Automatic promotion is off; promotion requires an operator.'']
        else if count < needed then [remaining_text (needed - count)] else [])
     @ (if window then [''The contractor is within its '' @ show_int days @ ''-day review window; ''
          @ ''automatic promotion is suppressed until the window expires.''] else [])
     @ (if eligible then [''The configured automatic-promotion evidence threshold is satisfied.''] else [])"

definition promotion_readiness :: "(string \<Rightarrow> moment option) \<Rightarrow> outcome_row \<Rightarrow> outcome_row list
    \<Rightarrow> pyval \<Rightarrow> int \<Rightarrow> pyval \<Rightarrow> moment \<Rightarrow> readiness res" where
  "promotion_readiness fromiso worker outcomes successes days created now = (case as_int successes of
     None \<Rightarrow> Inl (ValueError ''required promotion successes must be a non-negative integer'')
   | Some needed \<Rightarrow>
     if needed < 0 then Inl (ValueError ''required promotion successes must be a non-negative integer'')
     else let state = casefold (str_or_empty (py_get worker ''state''));
              units = accepted_artifacts outcomes;
              count = int (length units);
              contractor = (state = ''contractor'');
              source = (if created \<noteq> PyNone then created else py_get worker ''created_at'') in
       bind_res (within_review_window (parse_created_at fromiso source) days now) (\<lambda>window.
       let eligible = (contractor \<and> needed > 0 \<and> count \<ge> needed \<and> \<not> window) in
       Inr \<lparr>ready_state = state, human_promotion = contractor, policy_enabled = (needed > 0),
         auto_eligible = eligible, in_window = window, required_successes = needed,
         verified_successes = count, remaining_successes = max 0 (needed - count),
         verified_artifacts = units,
         readiness_reasons = promotion_reasons contractor needed count window days eligible\<rparr>))"


section \<open>Which artifacts count\<close>

lemma set_map_filter: "set (List.map_filter f xs) = {y. \<exists>x\<in>set xs. f x = Some y}"
  by (induction xs) (auto simp: List.map_filter_simps split: option.splits)

lemma set_accepted_artifacts:
  "set (accepted_artifacts outcomes) = {evidence_artifact e |e item. item \<in> set outcomes \<and> counted item = Some e}"
  by (simp add: accepted_artifacts_def) (auto simp: set_map_filter)

lemma accepted_artifacts_distinct: "distinct (accepted_artifacts outcomes)" "sorted (accepted_artifacts outcomes)"
  by (simp_all add: accepted_artifacts_def)

lemma accepted_artifacts_cong:
  "set outcomes = set outcomes' \<Longrightarrow> accepted_artifacts outcomes = accepted_artifacts outcomes'"
  by (simp add: accepted_artifacts_def set_map_filter)

lemma accepted_artifacts_mono:
  assumes "set outcomes \<subseteq> set outcomes'"
  shows "length (accepted_artifacts outcomes) \<le> length (accepted_artifacts outcomes')"
proof -
  have "set (accepted_artifacts outcomes) \<subseteq> set (accepted_artifacts outcomes')"
    using assms by (auto simp: set_accepted_artifacts)
  then have "card (set (accepted_artifacts outcomes)) \<le> card (set (accepted_artifacts outcomes'))"
    by (intro card_mono) simp_all
  then show ?thesis by (simp add: distinct_card accepted_artifacts_distinct)
qed

text \<open>The row the store keeps for an accepted outcome.\<close>

definition outcome_row_of :: "acceptance_outcome \<Rightarrow> outcome_row" where
  "outcome_row_of out = [(''event_type'', PyStr ''acceptance''), (''outcome'', PyStr ''accepted''),
     (''evidence_refs'', PyDict (outcome_manifest out))]"

lemma counted_outcome_row:
  "counted (outcome_row_of out) = accepted_outcome_manifest (PyDict (outcome_manifest out))"
proof -
  have "casefold ''acceptance'' = ''acceptance''" "casefold ''accepted'' = ''accepted''" by code_simp+
  then show ?thesis by (simp add: counted_def outcome_row_of_def py_get_def success_outcomes_def)
qed

lemma add_days_Inr_iff: "add_days t n = Inr later \<longleftrightarrow> - 999999999 \<le> n \<and> n \<le> 999999999
    \<and> 0 \<le> local_time t + n * day_length \<and> local_time t + n * day_length < end_of_time
    \<and> later = t\<lparr>local_time := local_time t + n * day_length\<rparr>"
  by (auto simp: add_days_def Let_def)

lemma utc_time_shift [simp]: "utc_time (t\<lparr>local_time := local_time t + d\<rparr>) = utc_time t + d"
  by (simp add: utc_time_def split: option.splits)

text \<open>Whether the window is still open, and when that can be computed.\<close>

definition window_open :: "moment option \<Rightarrow> int \<Rightarrow> moment \<Rightarrow> bool" where
  "window_open created days now = (case created of None \<Rightarrow> False
     | Some t \<Rightarrow> days > 0 \<and> utc_time t + days * day_length > utc_time now)"

definition window_representable :: "moment option \<Rightarrow> int \<Rightarrow> bool" where
  "window_representable created days = (case created of None \<Rightarrow> True
     | Some t \<Rightarrow> days \<le> 0 \<or> days \<le> 999999999 \<and> 0 \<le> local_time t + days * day_length
          \<and> local_time t + days * day_length < end_of_time)"

lemma within_review_window_Inr_iff: "within_review_window created days now = Inr window \<longleftrightarrow>
    window_representable created days \<and> window = window_open created days now"
  by (auto simp: within_review_window_def window_representable_def window_open_def bind_res_Inr_iff
      add_days_Inr_iff split: option.splits)

lemma within_review_window_Inl: "within_review_window created days now = Inl e \<Longrightarrow>
    \<not> window_representable created days \<and> (\<exists>m. e = OverflowError m)"
  using within_review_window_Inr_iff [of created days now]
  by (auto simp: within_review_window_def bind_res_Inl_iff add_days_def Let_def split: option.splits if_splits)

lemma promotion_readiness_Inr_iff:
  "promotion_readiness fromiso worker outcomes successes days created now = Inr r \<longleftrightarrow>
     (\<exists>needed window. successes = PyInt needed \<and> 0 \<le> needed
        \<and> within_review_window (parse_created_at fromiso
             (if created \<noteq> PyNone then created else py_get worker ''created_at'')) days now = Inr window
        \<and> r = (let state = casefold (str_or_empty (py_get worker ''state''));
             units = accepted_artifacts outcomes; count = int (length units);
             contractor = (state = ''contractor'');
             eligible = (contractor \<and> needed > 0 \<and> count \<ge> needed \<and> \<not> window) in
          \<lparr>ready_state = state, human_promotion = contractor, policy_enabled = (needed > 0),
           auto_eligible = eligible, in_window = window, required_successes = needed,
           verified_successes = count, remaining_successes = max 0 (needed - count),
           verified_artifacts = units,
           readiness_reasons = promotion_reasons contractor needed count window days eligible\<rparr>))"
  by (auto simp: promotion_readiness_def Let_def bind_res_Inr_iff split: option.splits)

lemma promotion_eligible_iff:
  "(\<exists>r. promotion_readiness fromiso worker outcomes successes days created now = Inr r \<and> auto_eligible r)
     \<longleftrightarrow> (\<exists>needed. successes = PyInt needed \<and> 0 < needed
          \<and> needed \<le> int (length (accepted_artifacts outcomes))
          \<and> casefold (str_or_empty (py_get worker ''state'')) = ''contractor''
          \<and> (let start = parse_created_at fromiso
                (if created \<noteq> PyNone then created else py_get worker ''created_at'') in
             window_representable start days \<and> \<not> window_open start days now))"
  unfolding promotion_readiness_Inr_iff within_review_window_Inr_iff Let_def by force

lemma recorded_artifact:
  assumes "evidence_of envelope producer verifier c i"
  shows "counted (outcome_row_of (accepted_outcome envelope producer verifier c i)) = Some
    \<lparr>evidence_key = key_of i, evidence_artifact = id_artifact i,
     evidence_producer = id_producer_child i, evidence_verifier = id_verifier_child i\<rparr>"
  using manifest_reads_back [OF assms] by (simp add: counted_outcome_row accepted_outcome_def Let_def)

end
