(* ===== verification/Acceptance_Properties.thy ===== *)
theory Acceptance_Properties
  imports Acceptance
begin

text \<open>
  The properties of the acceptance rule, and one concrete envelope on which they are applied:
  the builder's artifact accepted by a reviewer that another decision selected. Its digests are
  fixed text, so nothing here evaluates a hash.
\<close>

section \<open>A concrete envelope\<close>

definition card_value :: "string \<Rightarrow> string \<Rightarrow> pyval" where
  "card_value slug prompt_hash = PyDict [(''specialist_slug'', PyStr slug),
     (''specialist_version'', PyStr ''1''), (''specialist_prompt_hash'', PyStr prompt_hash)]"

definition delivery :: "string \<Rightarrow> string \<Rightarrow> string \<Rightarrow> pyval list \<Rightarrow> (string \<times> pyval) list" where
  "delivery child decision digest card_values =
     [(''schema'', PyStr host_child_proof_schema), (''verified_delivery'', PyBool True),
      (''child_id'', PyStr child), (''host'', PyStr ''claude''), (''decision_id'', PyStr decision),
      (''artifact_digest'', PyStr digest), (''cards'', PyList card_values)]"

definition artifact_a :: string where "artifact_a = replicate 64 CHR ''a''"
definition artifact_b :: string where "artifact_b = replicate 64 CHR ''b''"
definition pair_c :: string where "pair_c = replicate 32 CHR ''c''"
definition builder_hash :: string where "builder_hash = replicate 64 CHR ''d''"

definition example_producer :: "(string \<times> pyval) list" where
  "example_producer = delivery ''child-1'' ''decision-1'' artifact_a [card_value ''builder'' builder_hash]"

definition example_verifier :: "pyval list \<Rightarrow> (string \<times> pyval) list" where
  "example_verifier card_values = delivery ''child-2'' ''decision-2'' artifact_b card_values"

definition example_verdict :: pyval where
  "example_verdict = PyDict [(''verdict_id'', PyStr ''verdict-1''),
     (''semantic'', PyDict [(''decision'', PyStr ''Accepted''), (''record_index'', PyInt 3),
        (''pair_id'', PyStr pair_c), (''authority'', PyStr ''verifier-host-artifact''),
        (''artifact_digest'', PyStr artifact_b)]),
     (''binding'', PyDict [(''verifier_child_id'', PyStr ''child-2''), (''authority'', PyStr ''collector''),
        (''producer_artifact_digest'', PyStr artifact_a), (''pair_id'', PyStr pair_c)])]"

definition envelope_with :: "pyval list \<Rightarrow> (string \<times> pyval) list" where
  "envelope_with verifier_cards = [(''schema'', PyStr acceptance_envelope_schema),
     (''contractor_worker_id'', PyStr ''worker-1''), (''contractor_card'', card_value ''builder'' builder_hash),
     (''producer'', PyDict example_producer), (''verifier'', PyDict (example_verifier verifier_cards)),
     (''verdict'', example_verdict)]"

definition example_identity :: outcome_identity where
  "example_identity = \<lparr>id_producer_child = ''child-1'', id_artifact = artifact_a,
     id_verifier_child = ''child-2'', id_verifier_decision = ''decision-2'',
     id_verifier_artifact = artifact_b, id_record_index = 3, id_pair = pair_c,
     id_verdict = ''verdict-1'', id_prompt_hash = builder_hash\<rparr>"

definition reviewer_cards :: "pyval list" where
  "reviewer_cards = [card_value ''reviewer'' ''h2'']"

text \<open>As many cards as are read, and then the contractor's own.\<close>

definition crowded_cards :: "pyval list" where
  "crowded_cards = replicate 64 (card_value ''reviewer'' ''h2'') @ [card_value ''builder'' builder_hash]"

lemma envelope_fields:
  "py_get (envelope_with vs) ''schema'' = PyStr acceptance_envelope_schema"
  "py_get (envelope_with vs) ''contractor_worker_id'' = PyStr ''worker-1''"
  "py_get (envelope_with vs) ''contractor_card'' = card_value ''builder'' builder_hash"
  "py_get (envelope_with vs) ''producer'' = PyDict example_producer"
  "py_get (envelope_with vs) ''verifier'' = PyDict (example_verifier vs)"
  "py_get (envelope_with vs) ''verdict'' = example_verdict"
  "py_get (example_verifier vs) ''schema'' = PyStr host_child_proof_schema"
  "py_get (example_verifier vs) ''verified_delivery'' = PyBool True"
  "py_get (example_verifier vs) ''child_id'' = PyStr ''child-2''"
  "py_get (example_verifier vs) ''host'' = PyStr ''claude''"
  "py_get (example_verifier vs) ''decision_id'' = PyStr ''decision-2''"
  "py_get (example_verifier vs) ''artifact_digest'' = PyStr artifact_b"
  "py_get (example_verifier vs) ''cards'' = PyList vs"
  by (simp_all add: envelope_with_def example_verifier_def delivery_def py_get_def)

lemma example_evidence:
  assumes "cards (example_verifier vs) \<noteq> []" and "''builder'' \<notin> fst ` set (cards (example_verifier vs))"
  shows "evidence_of (envelope_with vs) example_producer (example_verifier vs)
    (''builder'', ''1'', builder_hash) example_identity"
proof -
  have 1: "host_proof (PyDict example_producer) ''producer'' = Inr example_producer" by code_simp
  have 2: "read_card (card_value ''builder'' builder_hash) = Some (''builder'', ''1'', builder_hash)" by code_simp
  have 3: "attribution_reason example_producer (''builder'', ''1'', builder_hash) = []" by code_simp
  have 4: "read_verdict example_verdict ''child-2'' artifact_b artifact_a = Inr (''verdict-1'', 3, pair_c)"
    by code_simp
  have 5: "digest_text (py_get example_producer ''artifact_digest'') = artifact_a"
    "identity_text (py_get example_producer ''child_id'') = ''child-1''"
    "identity_text (py_get example_producer ''decision_id'') = ''decision-1''"
    "digest_text (PyStr artifact_b) = artifact_b" "artifact_a \<noteq> []" "artifact_b \<noteq> []"
    "identity_text (PyStr ''child-2'') = ''child-2''" "identity_text (PyStr ''claude'') = ''claude''"
    "identity_text (PyStr ''decision-2'') = ''decision-2''" "identity_text (PyStr ''worker-1'') = ''worker-1''"
    "identity_text (PyStr host_child_proof_schema) = host_child_proof_schema"
    by code_simp+
  show ?thesis
    using assms
    by (simp add: evidence_of_def envelope_fields 1 2 3 5 host_proof_Inr_iff independence_exact
        example_identity_def read_verdict_Inr_iff [symmetric] 4)
qed

lemma reviewer_evidence: "evidence_of (envelope_with reviewer_cards) example_producer
    (example_verifier reviewer_cards) (''builder'', ''1'', builder_hash) example_identity"
  by (rule example_evidence) code_simp+

lemma read_cards_replicate: "read_card v = Some c \<Longrightarrow> read_cards (replicate n v) = Some (replicate n c)"
  by (induction n) auto

lemma crowded_cards_read: "cards (example_verifier crowded_cards) = replicate 64 (''reviewer'', ''1'', ''h2'')"
proof -
  have "read_card (card_value ''reviewer'' ''h2'') = Some (''reviewer'', ''1'', ''h2'')" by code_simp
  then show ?thesis
    by (simp add: cards_def envelope_fields crowded_cards_def max_acceptance_cards_def read_cards_replicate)
qed

lemma crowded_evidence: "evidence_of (envelope_with crowded_cards) example_producer
    (example_verifier crowded_cards) (''builder'', ''1'', builder_hash) example_identity"
  by (rule example_evidence) (simp_all add: crowded_cards_read)

lemma reviewer_accepted:
  "evaluate_acceptance (PyDict (envelope_with reviewer_cards)) = Inr (accepted_outcome
     (envelope_with reviewer_cards) example_producer (example_verifier reviewer_cards)
     (''builder'', ''1'', builder_hash) example_identity)"
  using evidence_validates [OF reviewer_evidence] evaluate_acceptance_iff by blast


section \<open>The decision\<close>

text \<open>C10: every envelope is decided, with a reason of the bounded vocabulary: accepted with the
  reason "accepted", or refused with one of the refusal codes the rule can reach and with nothing
  else - no key to replay, no artifact to count, no worker and no manifest.\<close>

theorem acceptance_total:
  "\<exists>out. evaluate_acceptance v = Inr out
     \<and> outcome_reason out \<in> set acceptance_reasons - {''contractor_identity_mismatch'', ''replayed''}
     \<and> (outcome_accepted out \<and> outcome_reason out = accepted_verdict
        \<or> out = refused (outcome_reason out))"
proof (cases "validate_envelope v")
  case (Inl r)
  then show ?thesis
    using evaluate_acceptance_refuses [OF Inl] validate_envelope_reason [OF Inl]
    by (auto simp: refused_def)
next
  case (Inr out)
  have "accepted_verdict \<in> set acceptance_reasons - {''contractor_identity_mismatch'', ''replayed''}"
    by (simp add: accepted_verdict_def acceptance_reasons_def)
  then show ?thesis using evaluate_acceptance_accepts [OF Inr] by auto
qed

text \<open>C11: an envelope is accepted exactly when it names its contractor's worker and card, the
  producer and the verifier are two children with verified host proofs and well-formed artifact
  digests, the contractor's card is the only card of its slug the producer was delivered, no card
  read of the verifier has that slug, the verifier was selected by a decision of its own, and the
  verdict is the verifier's own accepting record on its artifact, bound by the collector to that
  verifier and to the produced artifact.\<close>

theorem accepted_exactly:
  "(\<exists>out. evaluate_acceptance v = Inr out \<and> outcome_accepted out) \<longleftrightarrow>
     (\<exists>envelope producer verifier c answer. v = PyDict envelope
        \<and> identity_text (py_get envelope ''schema'') = acceptance_envelope_schema
        \<and> identity_text (py_get envelope ''contractor_worker_id'') \<noteq> []
        \<and> read_card (py_get envelope ''contractor_card'') = Some c
        \<and> host_proof (py_get envelope ''producer'') ''producer'' = Inr producer
        \<and> host_proof (py_get envelope ''verifier'') ''verifier'' = Inr verifier
        \<and> digest_text (py_get producer ''artifact_digest'') \<noteq> []
        \<and> digest_text (py_get verifier ''artifact_digest'') \<noteq> []
        \<and> set (filter (\<lambda>d. fst d = fst c) (cards producer)) = {c}
        \<and> fst c \<notin> fst ` set (cards verifier)
        \<and> identity_text (py_get producer ''child_id'') \<noteq> identity_text (py_get verifier ''child_id'')
        \<and> identity_text (py_get verifier ''decision_id'') \<noteq> []
        \<and> identity_text (py_get verifier ''decision_id'') \<noteq> identity_text (py_get producer ''decision_id'')
        \<and> accepting_verdict (py_get envelope ''verdict'') (identity_text (py_get verifier ''child_id''))
             (digest_text (py_get verifier ''artifact_digest''))
             (digest_text (py_get producer ''artifact_digest'')) answer)" (is "?L \<longleftrightarrow> ?R")
proof
  assume ?L
  then obtain out where "validate_envelope v = Inr out" using evaluate_acceptance_iff by blast
  from validate_envelope_Inr [OF this] show ?R
    by (fastforce simp: evidence_of_def attribution_exact independence_exact)
next
  assume ?R
  then obtain envelope producer verifier c verdict_id index pair where
    v: "v = PyDict envelope" and
    evidence: "evidence_of envelope producer verifier c
      \<lparr>id_producer_child = identity_text (py_get producer ''child_id''),
       id_artifact = digest_text (py_get producer ''artifact_digest''),
       id_verifier_child = identity_text (py_get verifier ''child_id''),
       id_verifier_decision = identity_text (py_get verifier ''decision_id''),
       id_verifier_artifact = digest_text (py_get verifier ''artifact_digest''),
       id_record_index = index, id_pair = pair, id_verdict = verdict_id, id_prompt_hash = snd (snd c)\<rparr>"
    by (auto simp: evidence_of_def attribution_exact independence_exact)
  show ?L using evidence_validates [OF evidence] evaluate_acceptance_iff v by blast
qed



text \<open>a stored row counts as an acceptance only when its key is the hash of the identities
  the row itself names, its two children differ, and the verdict it records is an acceptance of
  the produced artifact by that verifier: the evidence it yields is taken from those identities.\<close>

lemma manifest_is_consistent:
  assumes "accepted_outcome_manifest v = Some e"
  shows "\<exists>refs i. v = PyDict refs \<and> stored_identity refs = Some i
    \<and> digest_text (py_get refs ''accepted_outcome_key'') = key_of i
    \<and> evidence_key e = key_of i \<and> evidence_artifact e = id_artifact i
    \<and> evidence_producer e = id_producer_child i \<and> evidence_verifier e = id_verifier_child i
    \<and> id_producer_child i \<noteq> id_verifier_child i
    \<and> casefold (identity_text (py_get refs ''verdict_decision'')) = accepted_verdict
    \<and> digest_text (py_get refs ''verdict_semantic_artifact_digest'') = id_verifier_artifact i
    \<and> digest_text (py_get refs ''verdict_binding_producer_artifact_digest'') = id_artifact i
    \<and> identity_text (py_get refs ''verdict_binding_verifier_child_id'') = id_verifier_child i"
  using assms by (auto simp: accepted_outcome_manifest_Some_iff)

lemma manifest_is_consistent_witness:
  "\<exists>v e refs. accepted_outcome_manifest v = Some e \<and> v = PyDict refs
    \<and> digest_text (py_get refs ''accepted_outcome_key'') = evidence_key e"
  using manifest_is_consistent [OF manifest_reads_back [OF reviewer_evidence]]
    manifest_reads_back [OF reviewer_evidence] by fastforce

text \<open>the text the replay key is hashed from determines the identities of the outcome, when
  none of them holds a NUL character.\<close>

lemma key_material_determines_outcome:
  assumes "key_material i = key_material j" and "nul_free i" and "nul_free j"
    and "identity_stable i" and "identity_stable j"
  shows "i = j"
  using assms by (rule key_material_inject)

lemma example_identity_stable: "identity_stable example_identity" "nul_free example_identity"
  by code_simp+

lemma key_material_determines_outcome_witness:
  "example_identity = example_identity\<lparr>id_record_index := 1 + 2\<rparr>"
  using key_material_determines_outcome [of example_identity "example_identity\<lparr>id_record_index := 1 + 2\<rparr>"]
    example_identity_stable by (simp add: example_identity_def)

definition split_early :: outcome_identity where
  "split_early = example_identity\<lparr>id_verifier_child := ''v'', id_verifier_decision := [CHR ''d'', CHR 0x00, CHR ''x'']\<rparr>"

definition split_late :: outcome_identity where
  "split_late = example_identity\<lparr>id_verifier_child := [CHR ''v'', CHR 0x00, CHR ''d''], id_verifier_decision := ''x''\<rparr>"

text \<open>An identity may hold a NUL character, and then two different outcomes - another
  verifier child, selected by another decision - have one replay key.\<close>

theorem key_collision:
  "identity_stable split_early \<and> identity_stable split_late \<and> split_early \<noteq> split_late
     \<and> key_of split_early = key_of split_late"
proof -
  have "identity_stable split_early" "identity_stable split_late" by code_simp+
  moreover have "key_material split_early = key_material split_late" by code_simp
  moreover have "split_early \<noteq> split_late" by (simp add: split_early_def split_late_def example_identity_def)
  ultimately show ?thesis by (simp add: key_of_def)
qed

text \<open>Only the first 64 delivered cards are read, so a verifier that was also delivered the
  contractor's own card, after 64 others, passes the independence check.\<close>

theorem crowded_verifier_accepted:
  "card_value ''builder'' builder_hash \<in> set crowded_cards
     \<and> py_get (envelope_with crowded_cards) ''contractor_card'' = card_value ''builder'' builder_hash
     \<and> py_get (envelope_with crowded_cards) ''verifier'' = PyDict (example_verifier crowded_cards)
     \<and> py_get (example_verifier crowded_cards) ''cards'' = PyList crowded_cards
     \<and> (\<exists>out. evaluate_acceptance (PyDict (envelope_with crowded_cards)) = Inr out \<and> outcome_accepted out)"
  using evidence_validates [OF crowded_evidence] evaluate_acceptance_iff
  by (auto simp: envelope_fields crowded_cards_def)

end
