(* ===== verification/Promotion_Properties.thy ===== *)
theory Promotion_Properties
  imports Promotion Acceptance_Properties
begin

text \<open>
  The properties of contractor promotion, applied to the concrete accepted envelope.
\<close>

text \<open>What \<open>created_at\<close> the review window is computed from.\<close>

definition window_start :: "(string \<Rightarrow> moment option) \<Rightarrow> outcome_row \<Rightarrow> pyval \<Rightarrow> moment option" where
  "window_start fromiso worker created =
     parse_created_at fromiso (if created \<noteq> PyNone then created else py_get worker ''created_at'')"

text \<open>The distinct artifacts with a recorded acceptance.\<close>

definition proven_artifacts :: "outcome_row list \<Rightarrow> string set" where
  "proven_artifacts outcomes = {evidence_artifact e |e item. item \<in> set outcomes \<and> counted item = Some e}"

lemma proven_artifacts_card: "card (proven_artifacts outcomes) = length (accepted_artifacts outcomes)"
  unfolding proven_artifacts_def set_accepted_artifacts [symmetric]
  by (rule distinct_card) (rule accepted_artifacts_distinct)

lemma proven_artifacts_Cons: "proven_artifacts (item # rows) =
    (case counted item of None \<Rightarrow> {} | Some e \<Rightarrow> {evidence_artifact e}) \<union> proven_artifacts rows"
  unfolding proven_artifacts_def by (cases "counted item") force+

definition recorded :: outcome_row where
  "recorded = outcome_row_of (accepted_outcome (envelope_with reviewer_cards)
     example_producer (example_verifier reviewer_cards) (''builder'', ''1'', builder_hash) example_identity)"

definition example_worker :: outcome_row where
  "example_worker = [(''state'', PyStr ''Contractor''), (''created_at'', PyStr ''t0'')]"

definition start_of_time :: moment where "start_of_time = \<lparr>local_time = 0, utc_offset = None\<rparr>"

text \<open>C14: readiness is computed exactly when the required count is a non-negative integer and
  the end of the review window is a representable date. The contractor is then eligible exactly
  when it is a contractor, the policy is on, at least the required number of distinct artifacts
  has a recorded acceptance, and the review window is not open.\<close>

theorem promotion_decides:
  "(\<exists>r. promotion_readiness fromiso worker outcomes (PyInt needed) days created now = Inr r
      \<and> (auto_eligible r = e) \<and> verified_successes r = int (card (proven_artifacts outcomes))
      \<and> set (verified_artifacts r) = proven_artifacts outcomes)
   \<longleftrightarrow> 0 \<le> needed \<and> window_representable (window_start fromiso worker created) days
     \<and> (e = (casefold (str_or_empty (py_get worker ''state'')) = ''contractor'' \<and> 0 < needed
          \<and> needed \<le> int (card (proven_artifacts outcomes))
          \<and> \<not> window_open (window_start fromiso worker created) days now))"
  using set_accepted_artifacts [of outcomes]
  by (auto simp: promotion_readiness_Inr_iff within_review_window_Inr_iff Let_def
      proven_artifacts_card window_start_def) (auto simp: proven_artifacts_def)

text \<open>a required count that is not a non-negative integer is a ValueError; otherwise the only
  error is an OverflowError, and only when the end of the review window is past the last date.\<close>

lemma promotion_errors:
  assumes "promotion_readiness fromiso worker outcomes successes days created now = Inl e"
  shows "e = ValueError ''required promotion successes must be a non-negative integer''
       \<and> (case successes of PyInt n \<Rightarrow> n < 0 | _ \<Rightarrow> True)
     \<or> (\<exists>m. e = OverflowError m) \<and> \<not> window_representable (window_start fromiso worker created) days"
  using assms within_review_window_Inl
  by (auto simp: promotion_readiness_def window_start_def Let_def bind_res_Inl_iff
      split: option.splits if_splits pyval.splits)

lemma promotion_errors_witness:
  "\<exists>m. promotion_readiness (\<lambda>_. Some start_of_time) example_worker [] (PyInt 1) 1000000000 PyNone
     start_of_time = Inl (OverflowError m)"
proof -
  obtain e where e: "promotion_readiness (\<lambda>_. Some start_of_time) example_worker [] (PyInt 1) 1000000000 PyNone
     start_of_time = Inl e"
    by (cases "promotion_readiness (\<lambda>_. Some start_of_time) example_worker [] (PyInt 1) 1000000000 PyNone
      start_of_time")
      (auto simp: promotion_readiness_Inr_iff within_review_window_Inr_iff window_representable_def
        parse_created_at_def example_worker_def py_get_def strip_def is_space_def split: option.splits if_splits)
  from promotion_errors [OF e] e show ?thesis by auto
qed

text \<open>C15: readiness depends on which rows are recorded, not on their order or how often a row
  is recorded.\<close>

theorem promotion_ignores_order:
  assumes "set outcomes = set outcomes'"
  shows "promotion_readiness fromiso worker outcomes successes days created now
    = promotion_readiness fromiso worker outcomes' successes days created now"
  unfolding promotion_readiness_def accepted_artifacts_cong [OF assms] by (rule refl)

lemma promotion_ignores_order_witness:
  "promotion_readiness (\<lambda>_. None) example_worker [recorded, [], recorded] (PyInt 1) 0 PyNone start_of_time
    = promotion_readiness (\<lambda>_. None) example_worker [[], recorded] (PyInt 1) 0 PyNone start_of_time"
  by (rule promotion_ignores_order) auto

text \<open>C16: recording further rows never withdraws an eligibility.\<close>

theorem promotion_evidence_monotone:
  assumes "promotion_readiness fromiso worker outcomes successes days created now = Inr r"
    and "auto_eligible r" and "set outcomes \<subseteq> set outcomes'"
  shows "\<exists>r'. promotion_readiness fromiso worker outcomes' successes days created now = Inr r'
    \<and> auto_eligible r'"
  using promotion_eligible_iff [of fromiso worker outcomes successes days created now]
    promotion_eligible_iff [of fromiso worker outcomes' successes days created now]
    accepted_artifacts_mono [OF assms(3)] assms(1,2)
  by (fastforce simp: Let_def)

lemma proven_artifacts_accepted:
  assumes "evaluate_acceptance v = Inr out" and "outcome_accepted out"
  shows "proven_artifacts (outcome_row_of out # rows) = insert (outcome_artifact out) (proven_artifacts rows)"
proof -
  have "validate_envelope v = Inr out" using assms evaluate_acceptance_iff by blast
  then obtain envelope producer verifier c i where
    evidence: "evidence_of envelope producer verifier c i" and
    out: "out = accepted_outcome envelope producer verifier c i" using validate_envelope_Inr by blast
  have "outcome_artifact out = id_artifact i" by (simp add: out accepted_outcome_def Let_def)
  with recorded_artifact [OF evidence] show ?thesis by (simp add: proven_artifacts_Cons out [symmetric])
qed

text \<open>The row stored for an accepted envelope contributes exactly the accepted artifact to
  the count of its worker, however many rows there already are for that artifact.\<close>

theorem acceptance_counts_once:
  assumes "evaluate_acceptance v = Inr out" and "outcome_accepted out"
  shows "proven_artifacts (outcome_row_of out # rows) = insert (outcome_artifact out) (proven_artifacts rows)"
  using assms by (rule proven_artifacts_accepted)

lemma acceptance_counts_once_witness:
  "proven_artifacts [recorded, recorded] = {artifact_a}"
proof -
  have "proven_artifacts [] = {}" by (simp add: proven_artifacts_def)
  then show ?thesis
    using acceptance_counts_once [OF reviewer_accepted]
    by (simp add: recorded_def accepted_outcome_def Let_def example_identity_def)
qed

lemma recorded_counts: "length (accepted_artifacts [recorded]) = 1"
  using recorded_artifact [OF reviewer_evidence]
  by (simp add: accepted_artifacts_def recorded_def List.map_filter_simps)

lemma promotion_evidence_monotone_witness:
  "\<exists>r. promotion_readiness (\<lambda>_. None) example_worker [[], recorded] (PyInt 1) 0 PyNone
     start_of_time = Inr r \<and> auto_eligible r"
proof -
  have "casefold ''Contractor'' = ''contractor''" by code_simp
  then obtain r where "promotion_readiness (\<lambda>_. None) example_worker [recorded] (PyInt 1) 0 PyNone
      start_of_time = Inr r" "auto_eligible r"
    using promotion_eligible_iff [of "\<lambda>_. None" example_worker "[recorded]" "PyInt 1" 0 PyNone start_of_time]
    by (auto simp: recorded_counts window_representable_def window_open_def
        example_worker_def py_get_def parse_created_at_def Let_def)
  from promotion_evidence_monotone [OF this, of "[[], recorded]"] show ?thesis by auto
qed

end
