(* ===== verification/Dependency_Graph.thy ===== *)
theory Dependency_Graph
  imports Py_Value "HOL-Library.While_Combinator"
begin

text \<open>
  \<open>core/delegation/lifecycle_types.py\<close> and \<open>_has_path\<close> of
  \<open>core/delegation/lifecycle_graph.py\<close>: the dependency graph of delegated work units, its
  parallel batches, and reachability in it. A Python set is the list of its elements in the order
  it is iterated; no result depends on that order. The two \<open>while\<close> loops are
  \<open>while_option\<close>, whose value \<open>None\<close> is a loop that does not end.
\<close>

section \<open>The graph\<close>

record dependency_graph =
  edges :: "(string \<times> string list) list"
  edge_reasons :: "((string \<times> string) \<times> string) list"

definition children_of :: "dependency_graph \<Rightarrow> string \<Rightarrow> string list" where
  "children_of g n = (case map_of (edges g) n of None \<Rightarrow> [] | Some cs \<Rightarrow> cs)"

definition preds_of :: "(string \<times> string list) list \<Rightarrow> string \<Rightarrow> string list" where
  "preds_of d n = (case map_of d n of None \<Rightarrow> [] | Some ps \<Rightarrow> ps)"

text \<open>\<open>d.setdefault(child, set()).add(source)\<close>\<close>

definition add_pred :: "string \<Rightarrow> string \<Rightarrow> (string \<times> string list) list \<Rightarrow> (string \<times> string list) list" where
  "add_pred source child d = AList.update child (List.insert source (preds_of d child)) d"

definition set_default :: "'k \<Rightarrow> 'v \<Rightarrow> ('k \<times> 'v) list \<Rightarrow> ('k \<times> 'v) list" where
  "set_default k v d = (if k \<in> fst ` set d then d else d @ [(k, v)])"

definition predecessors :: "dependency_graph \<Rightarrow> (string \<times> string list) list" where
  "predecessors g = fold (\<lambda>(source, children) d. fold (add_pred source) children (set_default source [] d))
     (edges g) (map (\<lambda>(n, _). (n, [])) (edges g))"


section \<open>Batches\<close>

record batching =
  incoming :: "(string \<times> string list) list"
  ready :: "string list"
  emitted :: "string set"
  batches :: "string list list"

definition release :: "string \<Rightarrow> string \<Rightarrow> batching \<Rightarrow> batching" where
  "release node child st =
     (let left = remove1 node (preds_of (incoming st) child) in
      st\<lparr>incoming := AList.update child left (incoming st),
         ready := ready st @ (if left = [] then [child] else [])\<rparr>)"

definition emit_node :: "dependency_graph \<Rightarrow> string \<Rightarrow> batching \<Rightarrow> batching" where
  "emit_node g node st =
     fold (release node) (sort (children_of g node)) (st\<lparr>emitted := insert node (emitted st)\<rparr>)"

definition batch_step :: "dependency_graph \<Rightarrow> batching \<Rightarrow> batching" where
  "batch_step g st = (let batch = sort (ready st) in
     fold (emit_node g) batch (st\<lparr>ready := [], batches := batches st @ [batch]\<rparr>))"

definition batching_start :: "dependency_graph \<Rightarrow> batching" where
  "batching_start g = (let d = predecessors g in
     \<lparr>incoming = d, ready = sort (map fst (filter (\<lambda>(n, ps). ps = []) d)), emitted = {}, batches = []\<rparr>)"

definition cycle_error :: "string list \<Rightarrow> py_error" where
  "cycle_error nodes = ValueError (''dependency graph contains a cycle: '' @ py_repr (PyList (map PyStr nodes)))"

definition topological_batches :: "dependency_graph \<Rightarrow> string list list res option" where
  "topological_batches g =
     map_option (\<lambda>st. if card (emitted st) \<noteq> length (predecessors g)
         then Inl (cycle_error (sorted_list_of_set (fst ` set (predecessors g) - emitted st)))
         else Inr (batches st))
       (while_option (\<lambda>st. ready st \<noteq> []) (batch_step g) (batching_start g))"


section \<open>Reachability\<close>

record path_search =
  pending :: "string list"
  visited :: "string set"
  found :: bool

definition path_step :: "dependency_graph \<Rightarrow> string \<Rightarrow> path_search \<Rightarrow> path_search" where
  "path_step g target st =
     (let node = last (pending st); rest = butlast (pending st) in
      if node = target then st\<lparr>pending := rest, found := True\<rparr>
      else if node \<in> visited st then st\<lparr>pending := rest\<rparr>
      else let seen = insert node (visited st) in
        st\<lparr>visited := seen, pending := rest @ filter (\<lambda>n. n \<notin> seen) (children_of g node)\<rparr>)"

definition has_path :: "dependency_graph \<Rightarrow> string \<Rightarrow> string \<Rightarrow> bool option" where
  "has_path g source target = map_option found
     (while_option (\<lambda>st. \<not> found st \<and> pending st \<noteq> []) (path_step g target)
        \<lparr>pending = children_of g source, visited = {}, found = False\<rparr>)"


section \<open>The relation of a graph\<close>

definition edge_rel :: "dependency_graph \<Rightarrow> (string \<times> string) set" where
  "edge_rel g = {(a, b). b \<in> set (children_of g a)}"

definition node_set :: "dependency_graph \<Rightarrow> string set" where
  "node_set g = fst ` set (edges g) \<union> (\<Union>(n, cs)\<in>set (edges g). set cs)"

text \<open>A dictionary of sets: no key twice, and no element of a set twice.\<close>

definition graph_ok :: "dependency_graph \<Rightarrow> bool" where
  "graph_ok g = (distinct (map fst (edges g)) \<and> list_all (\<lambda>(n, cs). distinct cs) (edges g))"

lemma finite_node_set [simp]: "finite (node_set g)"
  by (auto simp: node_set_def)

lemma children_entry: "b \<in> set (children_of g a) \<Longrightarrow> \<exists>cs. (a, cs) \<in> set (edges g) \<and> b \<in> set cs"
  unfolding children_of_def by (cases "map_of (edges g) a") (auto dest: map_of_SomeD)

lemma edge_entry:
  assumes "graph_ok g"
  shows "(a, b) \<in> edge_rel g \<longleftrightarrow> (\<exists>cs. (a, cs) \<in> set (edges g) \<and> b \<in> set cs)"
proof
  show "(a, b) \<in> edge_rel g \<Longrightarrow> \<exists>cs. (a, cs) \<in> set (edges g) \<and> b \<in> set cs"
    using children_entry by (simp add: edge_rel_def)
next
  assume "\<exists>cs. (a, cs) \<in> set (edges g) \<and> b \<in> set cs"
  then obtain cs where cs: "(a, cs) \<in> set (edges g)" "b \<in> set cs" by blast
  then have "map_of (edges g) a = Some cs" using assms by (intro map_of_is_SomeI) (simp_all add: graph_ok_def)
  with cs(2) show "(a, b) \<in> edge_rel g" by (simp add: edge_rel_def children_of_def)
qed

lemma children_known: "set (children_of g n) \<subseteq> node_set g"
  using children_entry unfolding node_set_def by fastforce

lemma node_setI: "(a, cs) \<in> set (edges g) \<Longrightarrow> a \<in> node_set g"
  unfolding node_set_def by force

lemma edge_rel_nodes: "edge_rel g \<subseteq> node_set g \<times> node_set g"
  using children_known children_entry node_setI by (fastforce simp: edge_rel_def)

lemma finite_edge_rel [simp]: "finite (edge_rel g)"
  by (rule finite_subset [OF edge_rel_nodes]) simp

lemma children_distinct: "graph_ok g \<Longrightarrow> distinct (children_of g n)"
  unfolding graph_ok_def children_of_def list_all_iff
  by (cases "map_of (edges g) n") (auto dest: map_of_SomeD)


section \<open>Incoming edges\<close>

lemma preds_of_update: "preds_of (AList.update c ps d) n = (if n = c then ps else preds_of d n)"
  by (simp add: preds_of_def update_conv')

lemma keys_update [simp]: "fst ` set (AList.update k v d) = insert k (fst ` set d)"
  by (simp add: dom_update)

lemma add_pred_facts:
  "fst ` set (add_pred s c d) = insert c (fst ` set d)"
  "distinct (map fst d) \<Longrightarrow> distinct (map fst (add_pred s c d))"
  "preds_of (add_pred s c d) n = (if n = c then List.insert s (preds_of d c) else preds_of d n)"
  by (simp_all add: add_pred_def preds_of_update distinct_update)

lemma add_preds_keys: "fst ` set (fold (add_pred s) cs d) = fst ` set d \<union> set cs"
  by (induction cs arbitrary: d) (simp_all add: add_pred_facts)

lemma add_preds_distinct_keys: "distinct (map fst d) \<Longrightarrow> distinct (map fst (fold (add_pred s) cs d))"
  by (induction cs arbitrary: d) (simp_all add: add_pred_facts)

lemma add_preds_set:
  "set (preds_of (fold (add_pred s) cs d) n) = set (preds_of d n) \<union> (if n \<in> set cs then {s} else {})"
  by (induction cs arbitrary: d) (auto simp: add_pred_facts)

lemma add_preds_distinct:
  "\<forall>m. distinct (preds_of d m) \<Longrightarrow> distinct (preds_of (fold (add_pred s) cs d) n)"
  by (induction cs arbitrary: d) (simp_all add: add_pred_facts)

lemma set_default_facts:
  "fst ` set (set_default k v d) = insert k (fst ` set d)"
  "distinct (map fst d) \<Longrightarrow> distinct (map fst (set_default k v d))"
  by (auto simp: set_default_def)

lemma map_of_snoc: "map_of (d @ [(k, v)]) n = (if n = k \<and> map_of d n = None then Some v else map_of d n)"
  by (auto simp: map_add_def split: option.splits)

lemma set_default_preds: "preds_of (set_default k [] d) n = preds_of d n"
  using map_of_eq_None_iff [of d k]
  by (auto simp: set_default_def preds_of_def map_of_snoc simp del: map_of_append)

text \<open>One source and its children, and the loop over all of them.\<close>

definition collect :: "string \<times> string list \<Rightarrow> (string \<times> string list) list \<Rightarrow> (string \<times> string list) list" where
  "collect = (\<lambda>(source, children) d. fold (add_pred source) children (set_default source [] d))"

lemma collect_keys: "fst ` set (fold collect es d) = fst ` set d \<union> fst ` set es \<union> (\<Union>(n, cs)\<in>set es. set cs)"
  by (induction es arbitrary: d) (simp, simp add: collect_def add_preds_keys set_default_facts case_prod_beta, blast)

lemma collect_distinct_keys: "distinct (map fst d) \<Longrightarrow> distinct (map fst (fold collect es d))"
  by (induction es arbitrary: d) (simp_all add: collect_def add_preds_distinct_keys set_default_facts case_prod_beta)

lemma collect_set: "set (preds_of (fold collect es d) n)
    = set (preds_of d n) \<union> {s. \<exists>cs. (s, cs) \<in> set es \<and> n \<in> set cs}"
  by (induction es arbitrary: d) (auto simp: collect_def add_preds_set set_default_preds split: if_splits)

lemma collect_distinct:
  "\<forall>m. distinct (preds_of d m) \<Longrightarrow> distinct (preds_of (fold collect es d) n)"
proof (induction es arbitrary: d)
  case (Cons e es)
  have "\<forall>m. distinct (preds_of (collect e d) m)"
    using Cons.prems by (cases e) (simp add: collect_def add_preds_distinct set_default_preds)
  then show ?case using Cons.IH by simp
qed simp

lemma predecessors_eq: "predecessors g = fold collect (edges g) (map (\<lambda>(n, _). (n, [])) (edges g))"
  by (simp add: predecessors_def collect_def)

lemma predecessors_keys: "fst ` set (predecessors g) = node_set g"
  unfolding predecessors_eq collect_keys by (force simp: node_set_def)

lemma predecessors_distinct: "graph_ok g \<Longrightarrow> distinct (map fst (predecessors g))"
  unfolding predecessors_eq by (rule collect_distinct_keys) (simp add: graph_ok_def comp_def case_prod_beta)

lemma preds_of_start: "preds_of (map (\<lambda>(n, _). (n, [])) es) n = []"
  by (induction es) (auto simp: preds_of_def)

lemma preds_of_predecessors:
  assumes "graph_ok g"
  shows "set (preds_of (predecessors g) n) = {s. (s, n) \<in> edge_rel g}"
    and "distinct (preds_of (predecessors g) n)"
  unfolding predecessors_eq
  by (simp_all add: collect_set collect_distinct preds_of_start edge_entry [OF assms])

end
