(* ===== verification/Graph_Batches.thy ===== *)
theory Graph_Batches
  imports Dependency_Graph
begin

text \<open>
  What \<open>topological_batches\<close> and \<open>_has_path\<close> compute: the batches are the levels of the graph,
  in which every node stands one level after the latest of its predecessors, and they exist
  exactly when the graph has no cycle; the search decides reachability. Both loops end.
\<close>

section \<open>Levels of a finite relation\<close>

locale finite_graph =
  fixes N :: "'a set" and E :: "('a \<times> 'a) set"
  assumes finite_nodes: "finite N" and edges_within: "E \<subseteq> N \<times> N"
begin

definition before :: "'a \<Rightarrow> 'a set" where
  "before n = {p. (p, n) \<in> E}"

text \<open>Every node has its predecessors in earlier levels, one of them in the level just before.\<close>

definition leveled :: "'a list list \<Rightarrow> bool" where
  "leveled bs = (\<forall>i<length bs. \<forall>b\<in>set (bs ! i). before b \<subseteq> set (concat (take i bs))
     \<and> (0 < i \<longrightarrow> before b \<inter> set (bs ! (i - 1)) \<noteq> {}))"

lemma leveled_Nil: "leveled []"
  by (simp add: leveled_def)

lemma leveled_snoc:
  assumes "leveled bs" and "\<forall>b\<in>set batch. before b \<subseteq> set (concat bs)"
    and "bs \<noteq> [] \<Longrightarrow> \<forall>b\<in>set batch. before b \<inter> set (last bs) \<noteq> {}"
  shows "leveled (bs @ [batch])"
  using assms by (auto simp: leveled_def nth_append last_conv_nth less_Suc_eq)

lemma stuck_cycle:
  assumes "X \<subseteq> N" and "X \<noteq> {}" and "\<forall>x\<in>X. before x \<inter> X \<noteq> {}"
  shows "\<not> acyclic E"
proof
  assume "acyclic E"
  moreover have "finite E"
    using finite_nodes edges_within by (meson finite_SigmaI finite_subset)
  ultimately have "wf E" by (rule finite_acyclic_wf [rotated])
  then obtain z where "z \<in> X" "\<forall>y. (y, z) \<in> E \<longrightarrow> y \<notin> X"
    using assms(2) by (metis wf_eq_minimal ex_in_conv)
  with assms(3) show False by (auto simp: before_def)
qed

lemma leveled_acyclic:
  assumes "leveled bs" and "N \<subseteq> set (concat bs)"
  shows "acyclic E"
proof -
  define level where "level n = (LEAST i. i < length bs \<and> n \<in> set (bs ! i))" for n
  have at: "level n < length bs \<and> n \<in> set (bs ! level n)" if "n \<in> N" for n
  proof -
    have "\<exists>i. i < length bs \<and> n \<in> set (bs ! i)"
      using assms(2) that by (fastforce simp: in_set_conv_nth)
    then show ?thesis unfolding level_def by (rule LeastI_ex)
  qed
  have "level a < level b" if ab: "(a, b) \<in> E" for a b
  proof -
    have "b \<in> N" using edges_within ab by auto
    then have "a \<in> set (concat (take (level b) bs))"
      using assms(1) at ab unfolding leveled_def before_def by blast
    then obtain l where "l \<in> set (take (level b) bs)" "a \<in> set l" by auto
    then obtain j where "j < level b" "j < length bs" "a \<in> set (bs ! j)"
      by (metis in_set_conv_nth length_take min_less_iff_conj nth_take)
    then have "level a \<le> j" unfolding level_def by (intro Least_le) simp
    with \<open>j < level b\<close> show ?thesis by simp
  qed
  then have "E \<subseteq> measure level" by auto
  then show ?thesis by (rule acyclic_subset [OF wf_acyclic [OF wf_measure]])
qed

end

interpretation dependencies: finite_graph "node_set g" "edge_rel g" for g
  by unfold_locales (auto dest: subsetD [OF edge_rel_nodes])


section \<open>One batch\<close>

abbreviation before :: "dependency_graph \<Rightarrow> string \<Rightarrow> string set" where
  "before g \<equiv> dependencies.before g"

lemma before_iff: "p \<in> before g n \<longleftrightarrow> n \<in> set (children_of g p)"
  unfolding dependencies.before_def by (simp add: edge_rel_def)

text \<open>The incoming edges kept are those from nodes not yet emitted.\<close>

definition tracks :: "dependency_graph \<Rightarrow> batching \<Rightarrow> bool" where
  "tracks g st = (\<forall>n. distinct (preds_of (incoming st) n)
     \<and> set (preds_of (incoming st) n) = before g n - emitted st)"

lemma release_all:
  assumes "distinct cs"
  shows "preds_of (incoming (fold (release node) cs st)) n =
      (if n \<in> set cs then remove1 node (preds_of (incoming st) n) else preds_of (incoming st) n)"
    and "ready (fold (release node) cs st) =
      ready st @ filter (\<lambda>c. remove1 node (preds_of (incoming st) c) = []) cs"
    and "emitted (fold (release node) cs st) = emitted st"
    and "batches (fold (release node) cs st) = batches st"
proof -
  show "preds_of (incoming (fold (release node) cs st)) n =
      (if n \<in> set cs then remove1 node (preds_of (incoming st) n) else preds_of (incoming st) n)"
    using assms by (induction cs arbitrary: st) (auto simp: release_def Let_def preds_of_update)
  show "ready (fold (release node) cs st) =
      ready st @ filter (\<lambda>c. remove1 node (preds_of (incoming st) c) = []) cs"
    using assms
  proof (induction cs arbitrary: st)
    case (Cons c cs)
    have "filter (\<lambda>d. remove1 node (preds_of (incoming (release node c st)) d) = []) cs
        = filter (\<lambda>d. remove1 node (preds_of (incoming st) d) = []) cs"
      using Cons.prems by (intro filter_cong) (auto simp: release_def Let_def preds_of_update)
    with Cons show ?case by (simp add: release_def Let_def)
  qed simp
qed (induction cs arbitrary: st, simp_all add: release_def Let_def)+

lemma emit_node_tracks:
  assumes "graph_ok g" and "tracks g st"
  shows "tracks g (emit_node g node st)" and "emitted (emit_node g node st) = insert node (emitted st)"
    and "batches (emit_node g node st) = batches st"
proof -
  have dist: "distinct (sort (children_of g node))" using children_distinct [OF assms(1)] by simp
  show "tracks g (emit_node g node st)"
    using assms(2) by (auto simp: tracks_def emit_node_def release_all [OF dist] before_iff)
qed (simp_all add: emit_node_def release_all children_distinct [OF assms(1)])

lemma emit_node_ready:
  assumes "graph_ok g" and "tracks g st" and "node \<notin> emitted st"
    and "distinct (ready st)" and "set (ready st) = {n. before g n \<subseteq> emitted st \<and> \<not> before g n \<subseteq> old}"
    and "old \<subseteq> emitted st"
  shows "distinct (ready (emit_node g node st))"
    and "set (ready (emit_node g node st))
      = {n. before g n \<subseteq> emitted (emit_node g node st) \<and> \<not> before g n \<subseteq> old}"
proof -
  have dist: "distinct (sort (children_of g node))" using children_distinct [OF assms(1)] by simp
  have left: "remove1 node (preds_of (incoming st) c) = [] \<longleftrightarrow> before g c \<subseteq> insert node (emitted st)" for c
  proof -
    have "set (remove1 node (preds_of (incoming st) c)) = before g c - emitted st - {node}"
      using assms(2) by (simp add: tracks_def)
    then show ?thesis by (metis Diff_eq_empty_iff Diff_insert2 empty_set set_empty insert_is_Un Diff_insert)
  qed
  have ready: "ready (emit_node g node st) = ready st
      @ filter (\<lambda>c. before g c \<subseteq> insert node (emitted st)) (sort (children_of g node))"
    by (simp add: emit_node_def release_all [OF dist] left)
  have mine: "node \<in> before g c" if "c \<in> set (children_of g node)" for c
    using that by (simp add: before_iff)
  show "distinct (ready (emit_node g node st))"
    using dist assms(3,4) mine by (auto simp: ready assms(5) distinct_filter)
  show "set (ready (emit_node g node st))
      = {n. before g n \<subseteq> emitted (emit_node g node st) \<and> \<not> before g n \<subseteq> old}"
    using assms(3,6) mine before_iff
    by (auto simp: ready assms(5) emit_node_tracks [OF assms(1,2)])
qed


section \<open>The loop\<close>

text \<open>The state between two rounds.\<close>

definition batching_inv :: "dependency_graph \<Rightarrow> batching \<Rightarrow> bool" where
  "batching_inv g st =
     (tracks g st \<and> distinct (ready st)
      \<and> set (ready st) = {n \<in> node_set g - emitted st. before g n \<subseteq> emitted st}
      \<and> emitted st = set (concat (batches st)) \<and> emitted st \<subseteq> node_set g
      \<and> distinct (concat (batches st)) \<and> dependencies.leveled g (batches st)
      \<and> list_all (\<lambda>b. b \<noteq> [] \<and> sorted b) (batches st)
      \<and> (batches st \<noteq> [] \<longrightarrow> (\<forall>n\<in>set (ready st). before g n \<inter> set (last (batches st)) \<noteq> {})))"

lemma emit_nodes:
  assumes "graph_ok g" and "tracks g st" and "distinct (ready st)"
    and "set (ready st) = {n. before g n \<subseteq> emitted st \<and> \<not> before g n \<subseteq> old}" and "old \<subseteq> emitted st"
    and "distinct batch" and "set batch \<inter> emitted st = {}"
  shows "tracks g (fold (emit_node g) batch st) \<and> distinct (ready (fold (emit_node g) batch st))
    \<and> set (ready (fold (emit_node g) batch st))
      = {n. before g n \<subseteq> emitted st \<union> set batch \<and> \<not> before g n \<subseteq> old}
    \<and> emitted (fold (emit_node g) batch st) = emitted st \<union> set batch
    \<and> batches (fold (emit_node g) batch st) = batches st"
  using assms(2-)
proof (induction batch arbitrary: st)
  case (Cons node batch)
  let ?st = "emit_node g node st"
  have em: "emitted ?st = insert node (emitted st)" and b: "batches ?st = batches st" and t: "tracks g ?st"
    using emit_node_tracks [OF assms(1) Cons.prems(1)] by simp_all
  have "node \<notin> emitted st" using Cons.prems(6) by simp
  note r = emit_node_ready [OF assms(1) Cons.prems(1) this Cons.prems(2-4)]
  have "old \<subseteq> emitted ?st" "distinct batch" "set batch \<inter> emitted ?st = {}"
    using Cons.prems(4-6) by (auto simp: em)
  from Cons.IH [OF t r this] show ?case by (simp add: em b)
qed simp

lemma batch_step_inv:
  assumes "graph_ok g" and "batching_inv g st" and "ready st \<noteq> []"
  shows "batching_inv g (batch_step g st)"
    and "card (node_set g - emitted (batch_step g st)) < card (node_set g - emitted st)"
proof -
  let ?batch = "sort (ready st)"
  let ?mid = "st\<lparr>ready := [], batches := batches st @ [?batch]\<rparr>"
  note inv = assms(2) [unfolded batching_inv_def]
  have "tracks g ?mid" using inv by (simp add: tracks_def)
  moreover have "set ?batch \<inter> emitted ?mid = {}" "distinct ?batch" using inv by auto
  ultimately have after: "tracks g (batch_step g st)" "distinct (ready (batch_step g st))"
    "set (ready (batch_step g st))
      = {n. before g n \<subseteq> emitted st \<union> set (ready st) \<and> \<not> before g n \<subseteq> emitted st}"
    "emitted (batch_step g st) = emitted st \<union> set (ready st)"
    "batches (batch_step g st) = batches st @ [?batch]"
    using emit_nodes [OF assms(1), of ?mid "emitted st" ?batch] by (simp_all add: batch_step_def Let_def)
  have closed: "before g n \<subseteq> emitted st" if "n \<in> emitted st" for n
  proof -
    obtain i where "i < length (batches st)" "n \<in> set (batches st ! i)"
      using inv \<open>n \<in> emitted st\<close> by (fastforce simp: in_set_conv_nth)
    then have "before g n \<subseteq> set (concat (take i (batches st)))"
      using inv unfolding dependencies.leveled_def by blast
    also have "\<dots> \<subseteq> set (concat (batches st))" using set_take_subset [of i "batches st"] by auto
    finally show ?thesis using inv by simp
  qed
  have known: "n \<in> node_set g" if "before g n \<noteq> {}" for n
    using that edge_rel_nodes [of g] unfolding dependencies.before_def by auto
  have ready': "set (ready (batch_step g st))
      = {n \<in> node_set g - emitted (batch_step g st). before g n \<subseteq> emitted (batch_step g st)}"
    unfolding after(3,4) using closed known inv by blast
  have "dependencies.leveled g (batches (batch_step g st))"
    unfolding after(5) using inv by (intro dependencies.leveled_snoc) auto
  moreover have "before g n \<inter> set (last (batches (batch_step g st))) \<noteq> {}"
    if "n \<in> set (ready (batch_step g st))" for n
    using that unfolding after(3,5) by auto
  moreover have "?batch \<noteq> []" using assms(3) by (metis set_empty set_sort)
  moreover have "set (concat (batches (batch_step g st))) = emitted (batch_step g st)"
    "distinct (concat (batches (batch_step g st)))" "emitted (batch_step g st) \<subseteq> node_set g"
    using inv by (auto simp: after(4,5))
  ultimately show "batching_inv g (batch_step g st)"
    using after(1,2) ready' inv unfolding batching_inv_def after(5) by simp
  have "set (ready st) \<subseteq> node_set g - emitted st" using inv by blast
  moreover obtain n where "n \<in> set (ready st)" using assms(3) by (meson list.set_sel(1))
  ultimately have "n \<in> node_set g - emitted st" by blast
  with \<open>n \<in> set (ready st)\<close> have "node_set g - (emitted st \<union> set (ready st)) \<subset> node_set g - emitted st" by blast
  then show "card (node_set g - emitted (batch_step g st)) < card (node_set g - emitted st)"
    unfolding after(4) by (intro psubset_card_mono) simp_all
qed

lemma batching_start_inv:
  assumes "graph_ok g"
  shows "batching_inv g (batching_start g)"
proof -
  have look: "ps = preds_of (predecessors g) n" if "(n, ps) \<in> set (predecessors g)" for n ps
    using that predecessors_distinct [OF assms] by (simp add: preds_of_def)
  have "map fst (filter (\<lambda>(n, ps). ps = []) (predecessors g))
      = filter (\<lambda>n. preds_of (predecessors g) n = []) (map fst (predecessors g))"
    using look by (auto simp: filter_map comp_def intro!: arg_cong [where f = "map fst"] filter_cong)
  moreover have "preds_of (predecessors g) n = [] \<longleftrightarrow> before g n = {}" for n
    using preds_of_predecessors [OF assms, of n] unfolding dependencies.before_def by (metis set_empty)
  ultimately have "set (ready (batching_start g)) = {n \<in> node_set g. before g n = {}}"
    "distinct (ready (batching_start g))"
    using predecessors_keys [of g] predecessors_distinct [OF assms]
    by (auto simp: batching_start_def Let_def distinct_filter simp flip: set_map)
  moreover have "tracks g (batching_start g)"
    using preds_of_predecessors [OF assms]
    by (simp add: tracks_def batching_start_def Let_def dependencies.before_def)
  ultimately show ?thesis
    by (auto simp: batching_inv_def batching_start_def Let_def dependencies.leveled_Nil)
qed

lemma topological_batches_result:
  assumes "graph_ok g"
  shows "\<exists>st. topological_batches g = Some (if emitted st = node_set g then Inr (batches st)
        else Inl (cycle_error (sorted_list_of_set (node_set g - emitted st))))
    \<and> batching_inv g st \<and> ready st = []"
proof -
  let ?loop = "while_option (\<lambda>st. ready st \<noteq> []) (batch_step g)"
  note start = batching_start_inv [OF assms]
  obtain st where st: "?loop (batching_start g) = Some st"
    using measure_while_option_Some [of "batching_inv g" "\<lambda>st. ready st \<noteq> []" "batch_step g"
        "\<lambda>st. card (node_set g - emitted st)"] batch_step_inv [OF assms] start by blast
  have inv: "batching_inv g st"
    using while_option_rule [where P = "batching_inv g", OF _ st start] batch_step_inv(1) [OF assms] by blast
  have "length (predecessors g) = card (node_set g)"
    using predecessors_keys [of g] distinct_card [OF predecessors_distinct [OF assms]] by simp
  moreover have "emitted st \<subseteq> node_set g" using inv unfolding batching_inv_def by blast
  ultimately have "card (emitted st) \<noteq> length (predecessors g) \<longleftrightarrow> emitted st \<noteq> node_set g"
    using card_subset_eq [of "node_set g" "emitted st"] by auto
  then show ?thesis
    using inv while_option_stop [OF st] st by (auto simp: topological_batches_def predecessors_keys)
qed

lemma topological_batches_Inr:
  assumes "graph_ok g" and "topological_batches g = Some (Inr bs)"
  shows "dependencies.leveled g bs \<and> set (concat bs) = node_set g \<and> distinct (concat bs)
    \<and> list_all (\<lambda>b. b \<noteq> [] \<and> sorted b) bs"
  using topological_batches_result [OF assms(1)] assms(2) by (auto simp: batching_inv_def split: if_splits)

lemma topological_batches_cases:
  assumes "graph_ok g"
  shows "(\<exists>bs. topological_batches g = Some (Inr bs)) \<and> acyclic (edge_rel g)
    \<or> (\<exists>e. topological_batches g = Some (Inl e)) \<and> \<not> acyclic (edge_rel g)"
proof -
  obtain st where st: "topological_batches g = Some (if emitted st = node_set g then Inr (batches st)
        else Inl (cycle_error (sorted_list_of_set (node_set g - emitted st))))"
    and inv: "batching_inv g st" "ready st = []"
    using topological_batches_result [OF assms] by blast
  show ?thesis
  proof (cases "emitted st = node_set g")
    case True
    have "acyclic (edge_rel g)"
      using inv(1) True by (intro dependencies.leveled_acyclic [of g "batches st"]) (auto simp: batching_inv_def)
    then show ?thesis using st True by simp
  next
    case False
    have "before g x \<inter> (node_set g - emitted st) \<noteq> {}" if "x \<in> node_set g - emitted st" for x
    proof -
      have "{n \<in> node_set g - emitted st. before g n \<subseteq> emitted st} = {}"
        using inv unfolding batching_inv_def by (metis empty_set)
      then have "\<not> before g x \<subseteq> emitted st" using that by blast
      moreover have "before g x \<subseteq> node_set g"
        using edge_rel_nodes [of g] unfolding dependencies.before_def by auto
      ultimately show ?thesis by blast
    qed
    moreover have "node_set g - emitted st \<noteq> {}" using inv False by (auto simp: batching_inv_def)
    ultimately have "\<not> acyclic (edge_rel g)"
      using dependencies.stuck_cycle [of "node_set g - emitted st" g] by blast
    then show ?thesis using st False by simp
  qed
qed


section \<open>Reachability\<close>

definition path_inv :: "dependency_graph \<Rightarrow> string \<Rightarrow> string \<Rightarrow> path_search \<Rightarrow> bool" where
  "path_inv g source target st =
     (set (children_of g source) \<subseteq> visited st \<union> set (pending st) \<union> (if found st then {target} else {})
      \<and> (found st \<or> (\<forall>v\<in>visited st. set (children_of g v) \<subseteq> visited st \<union> set (pending st)) \<and> target \<notin> visited st)
      \<and> visited st \<union> set (pending st) \<subseteq> {n. (source, n) \<in> (edge_rel g)\<^sup>+}
      \<and> (found st \<longrightarrow> (source, target) \<in> (edge_rel g)\<^sup>+))"

lemma path_step_inv:
  assumes inv: "path_inv g source target st" and running: "\<not> found st" "pending st \<noteq> []"
  shows "path_inv g source target (path_step g target st)"
    and "(path_step g target st, st) \<in> measures [\<lambda>st. card (node_set g - visited st), \<lambda>st. length (pending st)]"
proof -
  define node rest where "node = last (pending st)" and "rest = butlast (pending st)"
  have pending: "set (pending st) = insert node (set rest)" and shorter: "length rest < length (pending st)"
    using running(2) snoc_pending [OF running(2)] by (simp_all add: node_def rest_def)
  have reach: "(source, node) \<in> (edge_rel g)\<^sup>+"
    and sub: "visited st \<union> set rest \<subseteq> {n. (source, n) \<in> (edge_rel g)\<^sup>+}"
    using inv pending by (auto simp: path_inv_def)
  have next_reach: "(source, c) \<in> (edge_rel g)\<^sup>+" if "c \<in> set (children_of g node)" for c
    using reach that by (auto simp: edge_rel_def intro: trancl_into_trancl)
  have known: "node \<in> node_set g"
  proof -
    obtain z where "(z, node) \<in> edge_rel g" using reach by (blast elim: tranclE)
    then show ?thesis using edge_rel_nodes by blast
  qed
  note step = path_step_def Let_def node_def [symmetric] rest_def [symmetric]
  consider "node = target" | "node \<noteq> target" "node \<in> visited st" | "node \<noteq> target" "node \<notin> visited st" by blast
  then have "path_inv g source target (path_step g target st)
    \<and> (path_step g target st, st) \<in> measures [\<lambda>st. card (node_set g - visited st), \<lambda>st. length (pending st)]"
  proof cases
    case 1
    then have st': "path_step g target st = st\<lparr>pending := rest, found := True\<rparr>" by (simp add: step)
    have "set (children_of g source) \<subseteq> visited st \<union> insert target (set rest)"
      using inv running(1) pending 1 by (simp add: path_inv_def)
    then have "path_inv g source target (path_step g target st)"
      using sub reach 1 by (simp add: path_inv_def st')
    then show ?thesis using shorter by (simp add: st')
  next
    case 2
    then have st': "path_step g target st = st\<lparr>pending := rest\<rparr>" by (simp add: step)
    have "path_inv g source target (path_step g target st)"
      using inv running(1) pending sub 2(2) by (simp add: path_inv_def st' insert_absorb)
    then show ?thesis using shorter by (simp add: st')
  next
    case 3
    have "card (node_set g - insert node (visited st)) < card (node_set g - visited st)"
      using known 3(2) by (intro psubset_card_mono) auto
    moreover have st': "visited (path_step g target st) = insert node (visited st)"
      "found (path_step g target st) = False"
      "set (pending (path_step g target st))
        = set rest \<union> (set (children_of g node) - insert node (visited st))"
      using 3 running(1) by (auto simp: step)
    moreover have "path_inv g source target (path_step g target st)"
    proof -
      have "set (children_of g source) \<subseteq> visited st \<union> insert node (set rest)"
        "\<forall>v\<in>visited st. set (children_of g v) \<subseteq> visited st \<union> insert node (set rest)"
        "target \<notin> visited st"
        using inv running(1) by (simp_all add: path_inv_def pending)
      then show ?thesis
        unfolding path_inv_def st' using 3 sub reach next_reach by (simp only: if_False simp_thms) blast
    qed
    ultimately show ?thesis by simp
  qed
  then show "path_inv g source target (path_step g target st)"
    and "(path_step g target st, st) \<in> measures [\<lambda>st. card (node_set g - visited st), \<lambda>st. length (pending st)]"
    by blast+
qed

lemma has_path_reachable: "has_path g source target = Some ((source, target) \<in> (edge_rel g)\<^sup>+)"
proof -
  let ?b = "\<lambda>st. \<not> found st \<and> pending st \<noteq> []"
  let ?c = "path_step g target"
  let ?s = "\<lparr>pending = children_of g source, visited = {}, found = False\<rparr>"
  let ?m = "measures [\<lambda>st. card (node_set g - visited st), \<lambda>st. length (pending st)]"
  have start: "path_inv g source target ?s"
    by (auto simp: path_inv_def edge_rel_def)
  have step: "path_inv g source target (?c st)" "(?c st, st) \<in> ?m"
    if "path_inv g source target st" "?b st" for st
    using path_step_inv that by blast+
  have "wf {(t, s). (path_inv g source target s \<and> ?b s) \<and> t = ?c s}"
    by (rule wf_subset [of ?m]) (use step in auto)
  then obtain st where st: "while_option ?b ?c ?s = Some st"
    using wf_while_option_Some [of "path_inv g source target" ?b ?c ?s] step(1) start by blast
  have inv: "path_inv g source target st"
    using while_option_rule [where P = "path_inv g source target", OF _ st start] step(1) by blast
  have "found st \<longleftrightarrow> (source, target) \<in> (edge_rel g)\<^sup>+"
  proof (cases "found st")
    case True
    then show ?thesis using inv by (simp add: path_inv_def)
  next
    case False
    then have closed: "set (children_of g source) \<subseteq> visited st" "\<forall>v\<in>visited st. set (children_of g v) \<subseteq> visited st"
      and "target \<notin> visited st"
      using inv while_option_stop [OF st] by (auto simp: path_inv_def)
    have "n \<in> visited st" if "(source, n) \<in> (edge_rel g)\<^sup>+" for n
      using that by (induction rule: trancl_induct) (use closed in \<open>auto simp: edge_rel_def\<close>)
    with \<open>target \<notin> visited st\<close> False show ?thesis by blast
  qed
  then show ?thesis by (simp add: has_path_def st)
qed

end
