(* ===== verification/Py_Regex.thy ===== *)
theory Py_Regex
  imports Agency_Prelude
begin

text \<open>
  The part of \<open>re\<close> that the code uses to ask whether a pattern occurs in a text. A pattern is a
  tree; \<open>ends r s i\<close> lists the positions where a match of \<open>r\<close> that starts at \<open>i\<close> may end, in
  every way the matcher can backtrack. Case-insensitive letters are ASCII letters.
\<close>

datatype rx =
    Chars "char \<Rightarrow> bool"
  | Seq rx rx
  | Alt rx rx
  | UpTo nat rx
  | Many rx
  | Boundary
  | Start

text \<open>\<open>\\w\<close> for code points below 256\<close>

definition is_word :: "char \<Rightarrow> bool" where
  "is_word c = (let n = (of_char c :: nat) in
     (48 \<le> n \<and> n \<le> 57) \<or> (65 \<le> n \<and> n \<le> 90) \<or> n = 95 \<or> (97 \<le> n \<and> n \<le> 122)
     \<or> n \<in> {170, 178, 179, 181, 185, 186, 188, 189, 190} \<or> (192 \<le> n \<and> n \<noteq> 215 \<and> n \<noteq> 247))"

definition word_at :: "string \<Rightarrow> nat \<Rightarrow> bool" where
  "word_at s i = (i < length s \<and> is_word (s ! i))"

text \<open>Between a word character and something else\<close>

definition boundary_at :: "string \<Rightarrow> nat \<Rightarrow> bool" where
  "boundary_at s i = ((0 < i \<and> word_at s (i - 1)) \<noteq> word_at s i)"

text \<open>At most \<open>n\<close> repetitions\<close>

fun repeat :: "nat \<Rightarrow> (nat \<Rightarrow> nat list) \<Rightarrow> nat \<Rightarrow> nat list" where
  "repeat 0 f i = [i]"
| "repeat (Suc n) f i = i # concat (map (repeat n f) (f i))"

primrec ends :: "rx \<Rightarrow> string \<Rightarrow> nat \<Rightarrow> nat list" where
  "ends (Chars P) s i = (if i < length s \<and> P (s ! i) then [Suc i] else [])"
| "ends (Seq r q) s i = concat (map (ends q s) (ends r s i))"
| "ends (Alt r q) s i = ends r s i @ ends q s i"
| "ends (UpTo n r) s i = repeat n (ends r s) i"
| "ends (Many r) s i = repeat (length s) (ends r s) i"
| "ends Boundary s i = (if boundary_at s i then [i] else [])"
| "ends Start s i = (if i = 0 then [i] else [])"

text \<open>\<open>re.search(r, s) is not None\<close>\<close>

definition occurs :: "rx \<Rightarrow> string \<Rightarrow> bool" where
  "occurs r s = list_ex (\<lambda>i. ends r s i \<noteq> []) [0..<Suc (length s)]"

text \<open>Building patterns: letters without case, white space, words.\<close>

definition letter :: "char \<Rightarrow> rx" where
  "letter l = Chars (\<lambda>c. fold_char c = [l])"

fun literal :: "string \<Rightarrow> rx" where
  "literal [] = UpTo 0 Start"
| "literal (c # cs) = Seq (letter c) (literal cs)"

definition optional :: "rx \<Rightarrow> rx" where
  "optional r = UpTo 1 r"

definition spaces :: rx where
  "spaces = Seq (Chars is_space) (Many (Chars is_space))"

fun any_of :: "string list \<Rightarrow> rx" where
  "any_of [] = Chars (\<lambda>_. False)"
| "any_of (w # ws) = Alt (literal w) (any_of ws)"

fun in_order :: "rx list \<Rightarrow> rx" where
  "in_order [] = UpTo 0 Start"
| "in_order (r # rs) = Seq r (in_order rs)"

lemma ends_bounds: "e \<in> set (ends r s i) \<Longrightarrow> i \<le> length s \<Longrightarrow> i \<le> e \<and> e \<le> length s"
proof (induction r arbitrary: i e)
  case (UpTo n r)
  have "e \<in> set (repeat n (ends r s) i) \<Longrightarrow> i \<le> length s \<Longrightarrow> i \<le> e \<and> e \<le> length s" for n i e
    by (induction n arbitrary: i e) (auto, (use UpTo.IH in \<open>meson order_trans\<close>)+)
  with UpTo.prems show ?case by simp
next
  case (Many r)
  have "e \<in> set (repeat n (ends r s) i) \<Longrightarrow> i \<le> length s \<Longrightarrow> i \<le> e \<and> e \<le> length s" for n i e
    by (induction n arbitrary: i e) (auto, (use Many.IH in \<open>meson order_trans\<close>)+)
  with Many.prems show ?case by simp
next
  case (Seq r q)
  then show ?case by (auto, meson order_trans)
qed (auto split: if_splits)

end
