(* ===== verification/Work_Units.thy ===== *)
theory Work_Units
  imports Graph_Batches Py_Regex Sha256
begin

text \<open>
  \<open>core/delegation/lifecycle_graph.py\<close>: the fields of delegated work units and the dependency
  graph built from declared dependencies, sequencing language and shared files. A path is its
  text, as on POSIX systems; \<open>Path.expanduser\<close> and \<open>Path.resolve\<close> are arguments. A Python set
  is the list of its elements in iteration order.
\<close>

section \<open>Bounds\<close>

definition max_lifecycle_units :: nat where "max_lifecycle_units = 16"
definition max_unit_id_chars :: nat where "max_unit_id_chars = 80"
definition max_description_chars :: nat where "max_description_chars = 10 * 1024"
definition max_agent_chars :: nat where "max_agent_chars = 128"
definition max_files_per_unit :: nat where "max_files_per_unit = 128"
definition max_dependencies :: nat where "max_dependencies = max_lifecycle_units - 1"
definition max_path_chars :: nat where "max_path_chars = 4096"

record lifecycle_unit =
  lu_id :: string
  lu_description :: string
  lu_agent :: string
  lu_repo :: "string option"
  lu_files :: "string list"
  lu_depends :: "string list"
  lu_raw :: pyval

definition dep_pattern :: rx where
  "dep_pattern = (let earlier = any_of [''previous'', ''prior'', ''above'', ''first''];
       the = optional (Seq (literal ''the'') spaces);
       gap = UpTo 40 (Chars (\<lambda>c. c \<noteq> CHR 0x0A)) in
     Alt (in_order [Start, Many (Chars is_space),
          Alt (Seq (literal ''after'') (optional (Seq spaces (literal ''that'')))) (any_of [''then'', ''once'']),
          Boundary])
     (Alt (in_order [Boundary, literal ''depend'', optional (literal ''s''), spaces, literal ''on'', Boundary])
     (Alt (in_order [Boundary, any_of [''use'', ''using''], spaces, the, earlier, Boundary, gap, Boundary,
          literal ''output'', Boundary])
     (in_order [Boundary, literal ''when'', spaces, the, earlier, Boundary, gap, Boundary,
          literal ''complete'', optional (literal ''s''), Boundary]))))"


section \<open>Fields\<close>

definition limit_text :: "string \<Rightarrow> nat \<Rightarrow> string" where
  "limit_text label limit = label @ '' cannot contain more than '' @ show_nat limit @ '' entries''"

definition chars_text :: "string \<Rightarrow> nat \<Rightarrow> string" where
  "chars_text label limit = label @ '' exceeds the '' @ show_nat limit @ ''-character limit''"

definition bounded_items :: "'a list \<Rightarrow> nat \<Rightarrow> string \<Rightarrow> 'a list res" where
  "bounded_items xs limit label =
     (if length xs > limit then Inl (ValueError (limit_text label limit)) else Inr xs)"

definition unit_items :: "pyval \<Rightarrow> pyval list res" where
  "unit_items v = (case v of
     PyNone \<Rightarrow> Inr []
   | PyDict d \<Rightarrow> (case as_sequence (py_get d ''units'') of
       Some units \<Rightarrow> bounded_items units max_lifecycle_units ''work_units'' | None \<Rightarrow> Inr [v])
   | PyList xs \<Rightarrow> bounded_items xs max_lifecycle_units ''work_units''
   | PyTuple xs \<Rightarrow> bounded_items xs max_lifecycle_units ''work_units''
   | _ \<Rightarrow> Inr [v])"

definition unit_description :: "pyval \<Rightarrow> string" where
  "unit_description item = (case item of
     PyStr s \<Rightarrow> strip s
   | PyDict d \<Rightarrow> (case find (\<lambda>k. truthy (py_get d k))
         [''description'', ''task'', ''unit'', ''title'', ''summary''] of
       Some k \<Rightarrow> strip (py_str (py_get d k)) | None \<Rightarrow> strip (py_str item))
   | _ \<Rightarrow> strip (py_str item))"

definition id_char :: "char \<Rightarrow> bool" where
  "id_char c = (let n = (of_char c :: nat) in is_alnum c \<or> (65 \<le> n \<and> n \<le> 90) \<or> n \<in> {45, 46, 95})"

text \<open>Every run of other characters becomes one hyphen.\<close>

fun hyphenate :: "string \<Rightarrow> string" where
  "hyphenate [] = []"
| "hyphenate (c # cs) = (if id_char c then c # hyphenate cs
     else CHR ''-'' # hyphenate (dropWhile (\<lambda>d. \<not> id_char d) cs))"

definition trim :: "(char \<Rightarrow> bool) \<Rightarrow> string \<Rightarrow> string" where
  "trim P s = rev (dropWhile P (rev (dropWhile P s)))"

definition safe_unit_id :: "string \<Rightarrow> string" where
  "safe_unit_id value = (let safe = take max_unit_id_chars (trim (\<lambda>c. c \<in> set ''-.'') (hyphenate (strip value)))
     in if safe = [] then ''unit'' else safe)"

definition stable_id :: "nat \<Rightarrow> string \<Rightarrow> string" where
  "stable_id index description =
     ''unit-'' @ show_nat (index + 1) @ ''-'' @ take 8 (sha256_hex (utf8 description))"

definition check_unit_id :: "string \<Rightarrow> string \<Rightarrow> string res" where
  "check_unit_id label s =
     (if s = [] \<or> s \<noteq> strip s
      then Inl (ValueError (label @ '' must be non-empty and cannot have surrounding whitespace''))
      else if length s > max_unit_id_chars then Inl (ValueError (chars_text label max_unit_id_chars))
      else if s \<noteq> safe_unit_id s
      then Inl (ValueError (label @ '' must contain only canonical id characters''))
      else Inr s)"

definition validated_unit_id :: "string \<Rightarrow> pyval \<Rightarrow> string res" where
  "validated_unit_id label v = (case v of
     PyStr s \<Rightarrow> check_unit_id label s
   | _ \<Rightarrow> Inl (TypeError (label @ '' must be a string'')))"

definition controls :: "string \<Rightarrow> bool" where
  "controls s = list_ex (\<lambda>c. is_control c \<or> (of_char c :: nat) = 127) s"

definition check_description :: "string \<Rightarrow> unit res" where
  "check_description s =
     (if length s > max_description_chars
      then Inl (ValueError (chars_text ''work-unit description'' max_description_chars))
      else if CHR 0x00 \<in> set s
      then Inl (ValueError ''work-unit description must not contain NUL bytes'')
      else Inr ())"

definition check_agent :: "string \<Rightarrow> unit res" where
  "check_agent s =
     (if length s > max_agent_chars then Inl (ValueError (chars_text ''recommended_agent'' max_agent_chars))
      else if controls s
      then Inl (ValueError ''recommended_agent must not contain control characters'') else Inr ())"

definition check_unit_bounds :: "lifecycle_unit \<Rightarrow> unit res" where
  "check_unit_bounds u =
     bind_res (check_unit_id ''work-unit id'' (lu_id u)) (\<lambda>_.
     bind_res (raise_if (strip (lu_description u) = [])
       (ValueError ''work-unit description must be a non-empty string'')) (\<lambda>_.
     bind_res (check_description (lu_description u)) (\<lambda>_.
     bind_res (check_agent (lu_agent u)) (\<lambda>_.
     bind_res (raise_if (length (lu_files u) > max_files_per_unit)
       (ValueError (limit_text ''files'' max_files_per_unit))) (\<lambda>_.
     bind_res (raise_if (list_ex (\<lambda>p. length p > max_path_chars) (lu_files u))
       (ValueError (chars_text ''file path'' max_path_chars))) (\<lambda>_.
     bind_res (raise_if (length (lu_depends u) > max_dependencies)
       (ValueError (limit_text ''depends_on'' max_dependencies))) (\<lambda>_.
     bind_res (map_res (check_unit_id ''depends_on entry'') (lu_depends u)) (\<lambda>_. Inr ()))))))))"

fun repeated :: "string set \<Rightarrow> string list \<Rightarrow> string set" where
  "repeated seen [] = {}"
| "repeated seen (x # xs) = (if x \<in> seen then {x} else {}) \<union> repeated (insert x seen) xs"

definition rendered :: "string list \<Rightarrow> string" where
  "rendered ids = join '', '' (map repr_str ids)"

definition validate_unique_unit_ids :: "lifecycle_unit list \<Rightarrow> unit res" where
  "validate_unique_unit_ids units =
     bind_res (raise_if (length units > max_lifecycle_units)
       (ValueError (limit_text ''work_units'' max_lifecycle_units))) (\<lambda>_.
     bind_res (map_res check_unit_bounds units) (\<lambda>_.
     let duplicates = repeated {} (map lu_id units) in
     raise_if (duplicates \<noteq> {})
       (ValueError (''duplicate work-unit id(s): '' @ rendered (sorted_list_of_set duplicates)))))"

text \<open>\<open>_explicit_files\<close>; \<open>expand\<close> is \<open>Path(\<dots>).expanduser()\<close>\<close>

definition check_file :: "(string \<Rightarrow> string) \<Rightarrow> pyval \<Rightarrow> string res" where
  "check_file expand v = (case v of
     PyStr s \<Rightarrow> if strip s = [] then Inl (ValueError ''files entries must be non-empty paths'')
       else if length s > max_path_chars then Inl (ValueError (chars_text ''file path'' max_path_chars))
       else Inr (expand s)
   | _ \<Rightarrow> Inl (ValueError ''files entries must be non-empty paths''))"

definition explicit_files :: "(string \<Rightarrow> string) \<Rightarrow> pyval \<Rightarrow> string list res" where
  "explicit_files expand item = (case as_mapping item of
     None \<Rightarrow> Inr []
   | Some d \<Rightarrow> (let value = (if truthy (py_get d ''files'') then py_get d ''files''
          else if truthy (py_get d ''paths'') then py_get d ''paths'' else PyList []);
          entries = (case value of PyStr s \<Rightarrow> Some [value] | _ \<Rightarrow> as_sequence value) in
       case entries of
         None \<Rightarrow> Inl (TypeError ''files must be a path or iterable of paths'')
       | Some vs \<Rightarrow> bind_res (bounded_items vs max_files_per_unit ''files'') (\<lambda>vs.
           bind_res (map_res (check_file expand) vs) (\<lambda>paths. Inr (fromkeys paths)))))"

definition explicit_dependencies :: "pyval \<Rightarrow> string list res" where
  "explicit_dependencies item = (case as_mapping item of
     None \<Rightarrow> Inr []
   | Some d \<Rightarrow> (let value = py_get d ''depends_on'' in
       if value = PyNone then Inr []
       else case (case value of PyStr s \<Rightarrow> Some [value] | _ \<Rightarrow> as_sequence value) of
         None \<Rightarrow> Inl (TypeError ''depends_on must be a work-unit id or iterable of ids'')
       | Some vs \<Rightarrow> bind_res (bounded_items vs max_dependencies ''depends_on'') (\<lambda>vs.
           bind_res (map_res (validated_unit_id ''depends_on entry'') vs) (\<lambda>ids. Inr (fromkeys ids)))))"

text \<open>\<open>_unit_contract\<close>; \<open>resolve\<close> is \<open>Path(\<dots>).expanduser().resolve()\<close>\<close>

definition unit_contract :: "(string \<Rightarrow> string) \<Rightarrow> nat \<Rightarrow> pyval
    \<Rightarrow> (string \<times> string \<times> string \<times> string option) option res" where
  "unit_contract resolve index item =
     (let description = unit_description item in
      if description = [] then Inr None
      else bind_res (check_description description) (\<lambda>_.
      let d = (case as_mapping item of None \<Rightarrow> [] | Some d \<Rightarrow> d);
          agent = strip (str_or_empty (if truthy (py_get d ''recommended_agent'')
             then py_get d ''recommended_agent'' else py_get d ''agent''));
          raw_repo = str_or_empty (py_get d ''repo_path'') in
      bind_res (case map_of d ''id'' of
          None \<Rightarrow> Inr (stable_id index description)
        | Some v \<Rightarrow> validated_unit_id ''work-unit id'' v) (\<lambda>raw_id.
      bind_res (check_agent agent) (\<lambda>_.
      bind_res (raise_if (length raw_repo > max_path_chars)
        (ValueError (chars_text ''repo_path'' max_path_chars))) (\<lambda>_.
      Inr (Some (description, raw_id, agent, if raw_repo = [] then None else Some (resolve raw_repo))))))))"


section \<open>The dependency graph of a list of units\<close>

text \<open>A computation that may raise, and whose loops may in principle not end.\<close>

type_synonym 'a run = "'a res option"

fun bind_run :: "'a run \<Rightarrow> ('a \<Rightarrow> 'b run) \<Rightarrow> 'b run" where
  "bind_run None f = None"
| "bind_run (Some (Inl e)) f = Some (Inl e)"
| "bind_run (Some (Inr x)) f = f x"

definition add_edge :: "string \<Rightarrow> string \<Rightarrow> dependency_graph \<Rightarrow> dependency_graph" where
  "add_edge a b g = g\<lparr>edges := AList.update a (List.insert b (children_of g a)) (edges g)\<rparr>"

definition note_reason :: "string \<Rightarrow> string \<Rightarrow> string \<Rightarrow> dependency_graph \<Rightarrow> dependency_graph" where
  "note_reason a b why g = g\<lparr>edge_reasons := set_default (a, b) why (edge_reasons g)\<rparr>"

text \<open>One unit's declared dependencies, and all of them\<close>

definition declare_unit :: "string set \<Rightarrow> lifecycle_unit \<Rightarrow> dependency_graph \<Rightarrow> dependency_graph res" where
  "declare_unit known u g =
     (let unknown = sorted_list_of_set (set (lu_depends u) - known) in
      if unknown \<noteq> [] then Inl (ValueError (''work unit '' @ repr_str (lu_id u)
        @ '' depends on unknown work-unit id(s): '' @ rendered unknown))
      else if lu_id u \<in> set (lu_depends u)
      then Inl (ValueError (''work unit '' @ repr_str (lu_id u) @ '' cannot depend on itself''))
      else Inr (fold (\<lambda>p g. let g' = add_edge p (lu_id u) g in
          g'\<lparr>edge_reasons := AList.update (p, lu_id u) ''explicit depends_on'' (edge_reasons g')\<rparr>)
        (sort (lu_depends u)) g))"

fun declare_units :: "string set \<Rightarrow> lifecycle_unit list \<Rightarrow> dependency_graph \<Rightarrow> dependency_graph res" where
  "declare_units known [] g = Inr g"
| "declare_units known (u # us) g = bind_res (declare_unit known u g) (declare_units known us)"

text \<open>A unit whose description speaks of what comes before it follows the unit listed before it.\<close>

fun sequence_units :: "lifecycle_unit list \<Rightarrow> dependency_graph \<Rightarrow> dependency_graph" where
  "sequence_units (u # v # us) g = sequence_units (v # us)
     (if occurs dep_pattern (lu_description v)
      then note_reason (lu_id u) (lu_id v) ''sequencing language in work-unit description''
        (add_edge (lu_id u) (lu_id v) g) else g)"
| "sequence_units us g = g"

definition check_acyclic :: "dependency_graph \<Rightarrow> unit run" where
  "check_acyclic g = bind_run (topological_batches g) (\<lambda>_. Some (Inr ()))"

fun unit_pairs :: "lifecycle_unit list \<Rightarrow> (lifecycle_unit \<times> lifecycle_unit) list" where
  "unit_pairs [] = []"
| "unit_pairs (u # us) = map (Pair u) us @ unit_pairs us"

definition shared_files :: "lifecycle_unit \<Rightarrow> lifecycle_unit \<Rightarrow> string set" where
  "shared_files u v = (if lu_repo u \<noteq> None \<and> lu_repo u = lu_repo v
     then set (lu_files u) \<inter> set (lu_files v) else {})"

definition serialize_pair :: "lifecycle_unit \<Rightarrow> lifecycle_unit \<Rightarrow> dependency_graph \<Rightarrow> dependency_graph run" where
  "serialize_pair u v g =
     (if shared_files u v = {} then Some (Inr g)
      else bind_run (map_option Inr (has_path g (lu_id u) (lu_id v))) (\<lambda>forward.
      if forward then Some (Inr g)
      else bind_run (map_option Inr (has_path g (lu_id v) (lu_id u))) (\<lambda>backward.
      if backward then Some (Inr g)
      else Some (Inr (note_reason (lu_id u) (lu_id v)
        (''shared file(s): '' @ join '', '' (sorted_list_of_set (shared_files u v)))
        (add_edge (lu_id u) (lu_id v) g))))))"

fun serialize_pairs :: "(lifecycle_unit \<times> lifecycle_unit) list \<Rightarrow> dependency_graph \<Rightarrow> dependency_graph run" where
  "serialize_pairs [] g = Some (Inr g)"
| "serialize_pairs ((u, v) # ps) g = bind_run (serialize_pair u v g) (serialize_pairs ps)"

definition empty_graph :: "lifecycle_unit list \<Rightarrow> dependency_graph" where
  "empty_graph units = \<lparr>edges = dict_of (map (\<lambda>u. (lu_id u, [])) units), edge_reasons = []\<rparr>"

definition build_dependency_graph :: "lifecycle_unit list \<Rightarrow> dependency_graph run" where
  "build_dependency_graph units =
     bind_run (Some (validate_unique_unit_ids units)) (\<lambda>_.
     bind_run (Some (declare_units (set (map lu_id units)) units (empty_graph units))) (\<lambda>declared.
     let sequenced = sequence_units units declared in
     bind_run (check_acyclic sequenced) (\<lambda>_.
     bind_run (serialize_pairs (unit_pairs units) sequenced) (\<lambda>g.
     bind_run (check_acyclic g) (\<lambda>_. Some (Inr g))))))"

end
