(* ===== verification/Unit_Graph.thy ===== *)
theory Unit_Graph
  imports Work_Units
begin

text \<open>
  \<open>build_dependency_graph\<close> on checked units: it ends, it fails exactly when the declared and the
  sequencing dependencies have a cycle, and the edges it adds for shared files neither create a
  cycle nor leave two units that share a file unordered.
\<close>

section \<open>Adding an edge\<close>

lemma reasons_simps [simp]:
  "children_of (g\<lparr>edge_reasons := r\<rparr>) = children_of g" "edge_rel (g\<lparr>edge_reasons := r\<rparr>) = edge_rel g"
  "node_set (g\<lparr>edge_reasons := r\<rparr>) = node_set g" "graph_ok (g\<lparr>edge_reasons := r\<rparr>) = graph_ok g"
  by (simp_all add: children_of_def fun_eq_iff edge_rel_def node_set_def graph_ok_def)

lemma note_reason_simps [simp]:
  "edge_rel (note_reason a b why g) = edge_rel g" "node_set (note_reason a b why g) = node_set g"
  "graph_ok (note_reason a b why g) = graph_ok g"
  by (simp_all add: note_reason_def)

lemma children_of_edges_update:
  "children_of (g\<lparr>edges := AList.update a cs (edges g)\<rparr>) n = (if n = a then cs else children_of g n)"
  by (simp add: children_of_def update_conv')

lemma children_of_add_edge:
  "children_of (add_edge a b g) n = (if n = a then List.insert b (children_of g a) else children_of g n)"
  unfolding add_edge_def by (rule children_of_edges_update)

lemma edge_rel_add_edge [simp]: "edge_rel (add_edge a b g) = insert (a, b) (edge_rel g)"
  by (auto simp: edge_rel_def children_of_add_edge split: if_splits)

lemma set_update_subset: "set (AList.update k v d) \<subseteq> insert (k, v) (set d)"
  by (induction d) auto

lemma graph_ok_add_edge [simp]:
  assumes "graph_ok g"
  shows "graph_ok (add_edge a b g)"
  using assms children_distinct [OF assms, of a] set_update_subset [of a "List.insert b (children_of g a)" "edges g"]
  by (auto simp: graph_ok_def add_edge_def distinct_update list_all_iff)

lemma node_set_eq: "graph_ok g \<Longrightarrow> node_set g = fst ` set (edges g) \<union> Range (edge_rel g)"
proof -
  assume ok: "graph_ok g"
  have "(\<Union>(n, cs)\<in>set (edges g). set cs) = Range (edge_rel g)"
    by (auto simp: Range_iff edge_entry [OF ok]) (blast, force)
  then show ?thesis by (simp only: node_set_def)
qed

lemma node_set_add_edge: "graph_ok g \<Longrightarrow> node_set (add_edge a b g) = insert a (insert b (node_set g))"
  by (simp add: node_set_eq) (simp add: add_edge_def insert_commute)

text \<open>A well-formed graph over the ids \<open>K\<close>\<close>

definition over :: "string set \<Rightarrow> dependency_graph \<Rightarrow> bool" where
  "over K g = (graph_ok g \<and> node_set g = K)"

lemma over_add_edge [simp]: "over K g \<Longrightarrow> a \<in> K \<Longrightarrow> b \<in> K \<Longrightarrow> over K (add_edge a b g)"
  by (auto simp: over_def node_set_add_edge)

lemma over_reason [simp]: "over K (g\<lparr>edge_reasons := r\<rparr>) = over K g" "over K (note_reason a b why g) = over K g"
  by (simp_all add: over_def)

lemma over_empty: "distinct (map lu_id units) \<Longrightarrow>
    over (set (map lu_id units)) (empty_graph units) \<and> edge_rel (empty_graph units) = {}"
proof -
  assume d: "distinct (map lu_id units)"
  then have eq: "edges (empty_graph units) = map (\<lambda>u. (lu_id u, [])) units"
    by (simp add: empty_graph_def dict_of_distinct comp_def)
  have "(case map_of (map (\<lambda>u. (lu_id u, [])) us) n of None \<Rightarrow> [] | Some cs \<Rightarrow> cs) = ([] :: string list)" for us n
    by (induction us) auto
  then have "children_of (empty_graph units) n = []" for n by (simp add: children_of_def eq)
  then have rel: "edge_rel (empty_graph units) = {}" by (simp add: edge_rel_def)
  have ok: "graph_ok (empty_graph units)"
    using d by (simp add: graph_ok_def eq comp_def list_all_iff)
  then show ?thesis using rel by (simp add: over_def node_set_eq) (force simp: eq)
qed


section \<open>Declared dependencies and sequencing\<close>

definition declared_rel :: "lifecycle_unit list \<Rightarrow> (string \<times> string) set" where
  "declared_rel units = {(p, lu_id u) |p u. u \<in> set units \<and> p \<in> set (lu_depends u)}"

fun sequence_rel :: "lifecycle_unit list \<Rightarrow> (string \<times> string) set" where
  "sequence_rel (u # v # us) = (if occurs dep_pattern (lu_description v) then {(lu_id u, lu_id v)} else {})
     \<union> sequence_rel (v # us)"
| "sequence_rel us = {}"

definition dependencies_known :: "lifecycle_unit list \<Rightarrow> bool" where
  "dependencies_known units = (\<forall>u\<in>set units. set (lu_depends u) \<subseteq> set (map lu_id units)
     \<and> lu_id u \<notin> set (lu_depends u))"

lemma declare_edges:
  assumes "over K g" and "set ps \<subseteq> K" and "b \<in> K"
  shows "over K (fold (\<lambda>p g. let g' = add_edge p b g in
           g'\<lparr>edge_reasons := AList.update (p, b) why (edge_reasons g')\<rparr>) ps g)
    \<and> edge_rel (fold (\<lambda>p g. let g' = add_edge p b g in
           g'\<lparr>edge_reasons := AList.update (p, b) why (edge_reasons g')\<rparr>) ps g)
      = edge_rel g \<union> set ps \<times> {b}"
  using assms by (induction ps arbitrary: g) (auto simp: Let_def)

lemma declare_unit_Inr_iff:
  assumes "finite K"
  shows "(\<exists>g'. declare_unit K u g = Inr g') \<longleftrightarrow> set (lu_depends u) \<subseteq> K \<and> lu_id u \<notin> set (lu_depends u)"
  using assms by (auto simp: declare_unit_def Let_def)

lemma declare_unit_result:
  assumes "over K g" and "declare_unit K u g = Inr g'" and "lu_id u \<in> K"
  shows "over K g' \<and> edge_rel g' = edge_rel g \<union> declared_rel [u]"
proof -
  have "finite K" using assms(1) finite_node_set by (auto simp: over_def)
  then have deps: "set (lu_depends u) \<subseteq> K" using declare_unit_Inr_iff assms(2) by blast
  then have "set (sort (lu_depends u)) \<subseteq> K" by simp
  from declare_edges [OF assms(1) this assms(3)] show ?thesis
    using assms(2) \<open>finite K\<close>
    by (auto simp: declare_unit_def Let_def declared_rel_def split: if_splits)
qed

lemma declare_units_result:
  assumes "over K g" and "lu_id ` set us \<subseteq> K"
  shows "declare_units K us g = Inr g' \<Longrightarrow> over K g' \<and> edge_rel g' = edge_rel g \<union> declared_rel us"
    and "(\<exists>g'. declare_units K us g = Inr g') \<longleftrightarrow>
      (\<forall>u\<in>set us. set (lu_depends u) \<subseteq> K \<and> lu_id u \<notin> set (lu_depends u))"
proof -
  have K: "finite K" using assms(1) finite_node_set by (auto simp: over_def)
  show "declare_units K us g = Inr g' \<Longrightarrow> over K g' \<and> edge_rel g' = edge_rel g \<union> declared_rel us"
    using assms
  proof (induction us arbitrary: g)
    case (Cons u us)
    then obtain g1 where g1: "declare_unit K u g = Inr g1" "declare_units K us g1 = Inr g'"
      by (auto simp: bind_res_Inr_iff)
    with Cons declare_unit_result [OF Cons.prems(2) g1(1)] show ?case
      by (auto simp: declared_rel_def)
  qed (simp add: declared_rel_def)
  show "(\<exists>g'. declare_units K us g = Inr g') \<longleftrightarrow>
      (\<forall>u\<in>set us. set (lu_depends u) \<subseteq> K \<and> lu_id u \<notin> set (lu_depends u))"
  proof (induction us arbitrary: g)
    case (Cons u us)
    then show ?case using declare_unit_Inr_iff [OF K, of u g] by (auto simp: bind_res_Inr_iff)
  qed simp
qed

lemma sequence_units_result:
  "over K g \<Longrightarrow> lu_id ` set us \<subseteq> K \<Longrightarrow>
     over K (sequence_units us g) \<and> edge_rel (sequence_units us g) = edge_rel g \<union> sequence_rel us"
proof (induction us g rule: sequence_units.induct)
  case (1 u v us g)
  then show ?case by auto
qed simp_all


section \<open>Shared files\<close>

lemma serialize_pair_result:
  assumes "over K g" and "acyclic (edge_rel g)" and "lu_id u \<in> K" "lu_id v \<in> K" "lu_id u \<noteq> lu_id v"
  shows "\<exists>g'. serialize_pair u v g = Some (Inr g') \<and> over K g' \<and> acyclic (edge_rel g')
    \<and> edge_rel g \<subseteq> edge_rel g'
    \<and> edge_rel g' \<subseteq> edge_rel g \<union> (if shared_files u v = {} then {} else {(lu_id u, lu_id v)})
    \<and> (shared_files u v \<noteq> {} \<longrightarrow> (lu_id u, lu_id v) \<in> (edge_rel g')\<^sup>+ \<or> (lu_id v, lu_id u) \<in> (edge_rel g')\<^sup>+)"
proof -
  have "(lu_id v, lu_id u) \<notin> (edge_rel g)\<^sup>*" if "(lu_id v, lu_id u) \<notin> (edge_rel g)\<^sup>+"
    using that assms(5) by (metis rtrancl_eq_or_trancl)
  then have "acyclic (insert (lu_id u, lu_id v) (edge_rel g))" if "(lu_id v, lu_id u) \<notin> (edge_rel g)\<^sup>+"
    using that assms(2) by (simp add: acyclic_insert)
  moreover have "(a, b) \<in> (insert (a, b) R)\<^sup>+" for a b :: string and R by (rule r_into_trancl) simp
  ultimately show ?thesis
    using assms by (auto simp: serialize_pair_def has_path_reachable)
qed

definition ordered_pairs :: "(lifecycle_unit \<times> lifecycle_unit) list \<Rightarrow> (string \<times> string) set \<Rightarrow> bool" where
  "ordered_pairs ps E = (\<forall>(u, v)\<in>set ps. shared_files u v \<noteq> {} \<longrightarrow>
     (lu_id u, lu_id v) \<in> E\<^sup>+ \<or> (lu_id v, lu_id u) \<in> E\<^sup>+)"

definition sharing_rel :: "(lifecycle_unit \<times> lifecycle_unit) list \<Rightarrow> (string \<times> string) set" where
  "sharing_rel ps = {(lu_id u, lu_id v) |u v. (u, v) \<in> set ps \<and> shared_files u v \<noteq> {}}"

lemma serialize_pairs_result:
  assumes "over K g" and "acyclic (edge_rel g)"
    and "\<forall>(u, v)\<in>set ps. lu_id u \<in> K \<and> lu_id v \<in> K \<and> lu_id u \<noteq> lu_id v"
  shows "\<exists>g'. serialize_pairs ps g = Some (Inr g') \<and> over K g' \<and> acyclic (edge_rel g')
    \<and> edge_rel g \<subseteq> edge_rel g' \<and> edge_rel g' \<subseteq> edge_rel g \<union> sharing_rel ps
    \<and> ordered_pairs ps (edge_rel g')"
  using assms
proof (induction ps arbitrary: g)
  case (Cons p ps)
  obtain u v where p: "p = (u, v)" by (cases p)
  have uv: "lu_id u \<in> K" "lu_id v \<in> K" "lu_id u \<noteq> lu_id v" using Cons.prems(3) by (auto simp: p)
  obtain g1 where g1: "serialize_pair u v g = Some (Inr g1)" "over K g1" "acyclic (edge_rel g1)"
      "edge_rel g \<subseteq> edge_rel g1"
      "edge_rel g1 \<subseteq> edge_rel g \<union> (if shared_files u v = {} then {} else {(lu_id u, lu_id v)})"
      "shared_files u v \<noteq> {} \<longrightarrow> (lu_id u, lu_id v) \<in> (edge_rel g1)\<^sup>+ \<or> (lu_id v, lu_id u) \<in> (edge_rel g1)\<^sup>+"
    using serialize_pair_result [OF Cons.prems(1,2) uv] by blast
  obtain g2 where g2: "serialize_pairs ps g1 = Some (Inr g2)" "over K g2" "acyclic (edge_rel g2)"
      "edge_rel g1 \<subseteq> edge_rel g2" "edge_rel g2 \<subseteq> edge_rel g1 \<union> sharing_rel ps"
      "ordered_pairs ps (edge_rel g2)"
    using Cons.IH [OF g1(2,3)] Cons.prems(3) by auto
  have "ordered_pairs (p # ps) (edge_rel g2)"
    using g2(6) g1(6) trancl_mono [OF _ g2(4)] by (fastforce simp: ordered_pairs_def p)
  moreover have "edge_rel g2 \<subseteq> edge_rel g \<union> sharing_rel (p # ps)"
    using g1(5) g2(5) by (fastforce simp: sharing_rel_def p split: if_splits)
  ultimately show ?case using g1(1,4) g2(1-4) by (auto simp: p)
qed (simp add: sharing_rel_def ordered_pairs_def)

lemma unit_pairs_members:
  "(u, v) \<in> set (unit_pairs us) \<Longrightarrow> distinct (map lu_id us) \<Longrightarrow>
     lu_id u \<in> set (map lu_id us) \<and> lu_id v \<in> set (map lu_id us) \<and> lu_id u \<noteq> lu_id v"
  by (induction us) auto


section \<open>The whole construction\<close>

lemma repeated_Nil_iff: "repeated seen xs = {} \<longleftrightarrow> distinct xs \<and> seen \<inter> set xs = {}"
  by (induction seen xs rule: repeated.induct) auto

lemma unique_distinct: "validate_unique_unit_ids units = Inr () \<Longrightarrow> distinct (map lu_id units)"
  by (auto simp: validate_unique_unit_ids_def bind_res_Inr_iff raise_if_Inr_iff Let_def repeated_Nil_iff)

lemma check_acyclic_result:
  assumes "graph_ok g"
  shows "if acyclic (edge_rel g) then check_acyclic g = Some (Inr ()) else \<exists>e. check_acyclic g = Some (Inl e)"
  using topological_batches_cases [OF assms] by (auto simp: check_acyclic_def)

lemma build_graph_result:
  assumes "validate_unique_unit_ids units = Inr ()" and "dependencies_known units"
  shows "if acyclic (declared_rel units \<union> sequence_rel units)
    then \<exists>g. build_dependency_graph units = Some (Inr g) \<and> over (set (map lu_id units)) g
      \<and> acyclic (edge_rel g) \<and> declared_rel units \<union> sequence_rel units \<subseteq> edge_rel g
      \<and> edge_rel g \<subseteq> declared_rel units \<union> sequence_rel units \<union> sharing_rel (unit_pairs units)
      \<and> ordered_pairs (unit_pairs units) (edge_rel g)
    else \<exists>e. build_dependency_graph units = Some (Inl e)"
proof -
  let ?K = "set (map lu_id units)"
  have d: "distinct (map lu_id units)" using assms(1) by (rule unique_distinct)
  note empty = over_empty [OF d]
  have ids: "lu_id ` set units \<subseteq> ?K" by simp
  obtain declared where declared: "declare_units ?K units (empty_graph units) = Inr declared"
    using declare_units_result(2) [OF conjunct1 [OF empty] ids] assms(2) by (auto simp: dependencies_known_def)
  then have over: "over ?K declared" "edge_rel declared = declared_rel units"
    using declare_units_result(1) [OF conjunct1 [OF empty] ids] empty by auto
  define g where "g = sequence_units units declared"
  have g: "over ?K g" "edge_rel g = declared_rel units \<union> sequence_rel units"
    using sequence_units_result [OF over(1) ids] over(2) by (simp_all add: g_def)
  have built: "build_dependency_graph units = bind_run (check_acyclic g) (\<lambda>_.
     bind_run (serialize_pairs (unit_pairs units) g) (\<lambda>g'. bind_run (check_acyclic g') (\<lambda>_. Some (Inr g'))))"
    using assms(1) declared by (simp add: build_dependency_graph_def g_def Let_def)
  have ok: "graph_ok g" using g(1) by (simp add: over_def)
  show ?thesis
  proof (cases "acyclic (edge_rel g)")
    case True
    then have "check_acyclic g = Some (Inr ())" using check_acyclic_result [OF ok] by simp
    moreover obtain g' where g': "serialize_pairs (unit_pairs units) g = Some (Inr g')" "over ?K g'"
      "acyclic (edge_rel g')" "edge_rel g \<subseteq> edge_rel g'"
      "edge_rel g' \<subseteq> edge_rel g \<union> sharing_rel (unit_pairs units)" "ordered_pairs (unit_pairs units) (edge_rel g')"
      using serialize_pairs_result [OF g(1) True, of "unit_pairs units"] unit_pairs_members [OF _ d] by blast
    moreover have "check_acyclic g' = Some (Inr ())"
      using check_acyclic_result [of g'] g'(2,3) by (simp add: over_def)
    ultimately show ?thesis using True built g(2) by auto
  next
    case False
    then show ?thesis using check_acyclic_result [OF ok] built g(2) by auto
  qed
qed

lemma build_graph_total: "\<exists>r. build_dependency_graph units = Some r"
proof (cases "validate_unique_unit_ids units")
  case (Inl e)
  then show ?thesis by (simp add: build_dependency_graph_def)
next
  case (Inr x)
  then have d: "distinct (map lu_id units)" using unique_distinct by (cases x) simp
  show ?thesis
  proof (cases "dependencies_known units")
    case True
    have "validate_unique_unit_ids units = Inr ()" using Inr by (cases x) simp
    from build_graph_result [OF this True] show ?thesis by (auto split: if_splits)
  next
    case False
    then have "\<nexists>g. declare_units (set (map lu_id units)) units (empty_graph units) = Inr g"
      using declare_units_result(2) [OF conjunct1 [OF over_empty [OF d]], of units]
      by (auto simp: dependencies_known_def)
    then obtain e where "declare_units (set (map lu_id units)) units (empty_graph units) = Inl e"
      by (cases "declare_units (set (map lu_id units)) units (empty_graph units)") auto
    then show ?thesis using Inr by (simp add: build_dependency_graph_def)
  qed
qed

end
