(* ===== verification/Graph_Properties.thy ===== *)
theory Graph_Properties
  imports Unit_Graph
begin

text \<open>
  The properties of the dependency graph of delegated work units, applied to three units of one
  repository: the second declares the first, the third speaks of what came before and shares a
  file with the first.
\<close>

definition example_unit :: "string \<Rightarrow> string \<Rightarrow> string list \<Rightarrow> string list \<Rightarrow> lifecycle_unit" where
  "example_unit uid description paths deps = \<lparr>lu_id = uid, lu_description = description, lu_agent = [],
     lu_repo = Some ''/repo'', lu_files = paths, lu_depends = deps, lu_raw = PyNone\<rparr>"

definition three_units :: "lifecycle_unit list" where
  "three_units = [example_unit ''u1'' ''edit the parser'' [''a.py'', ''b.py''] [],
     example_unit ''u2'' ''edit the tests'' [''t.py''] [''u1''],
     example_unit ''u3'' ''then update the docs'' [''a.py''] []]"

lemma three_units_ok: "validate_unique_unit_ids three_units = Inr ()" "dependencies_known three_units"
proof -
  have "check_unit_id label ''u1'' = Inr ''u1''" "check_unit_id label ''u2'' = Inr ''u2''"
    "check_unit_id label ''u3'' = Inr ''u3''" for label
    unfolding check_unit_id_def by code_simp+
  moreover have "strip ''edit the parser'' \<noteq> []" "strip ''edit the tests'' \<noteq> []"
    "strip ''then update the docs'' \<noteq> []" by code_simp+
  ultimately show "validate_unique_unit_ids three_units = Inr ()"
    by (simp add: validate_unique_unit_ids_def three_units_def example_unit_def check_unit_bounds_def
        check_description_def check_agent_def controls_def max_lifecycle_units_def max_description_chars_def
        max_agent_chars_def max_files_per_unit_def max_path_chars_def max_dependencies_def)
  show "dependencies_known three_units" by code_simp
qed

lemma declared_rel_Cons: "declared_rel (u # us) = set (lu_depends u) \<times> {lu_id u} \<union> declared_rel us"
  by (auto simp: declared_rel_def)

lemma declared_rel_Nil: "declared_rel [] = {}"
  by (simp add: declared_rel_def)

lemma acyclic_pairs: "(\<And>a b. (a, b) \<in> r \<Longrightarrow> a < b) \<Longrightarrow> acyclic r" for r :: "(string \<times> string) set"
  unfolding acyclic_converse [of r, symmetric] by (rule acyclicI_order [where f = id]) auto

lemma pairs_less: "''u1'' < (''u2'' :: string)" "''u2'' < (''u3'' :: string)" "''u1'' < (''u3'' :: string)"
  by code_simp+

lemma three_units_rel: "declared_rel three_units \<union> sequence_rel three_units = {(''u1'', ''u2''), (''u2'', ''u3'')}"
proof -
  have "occurs dep_pattern ''then update the docs''" "\<not> occurs dep_pattern ''edit the tests''" by code_simp+
  then show ?thesis by (auto simp: three_units_def example_unit_def declared_rel_Cons declared_rel_Nil)
qed

definition chain :: dependency_graph where
  "chain = \<lparr>edges = [(''u2'', [''u3'']), (''u1'', [''u2'', ''u3'']), (''u4'', [])], edge_reasons = []\<rparr>"

text \<open>C17: the parallel batches of a graph are computed in finitely many rounds. If the graph has no
  cycle they list every node once, each batch sorted and not empty, every node after all its
  predecessors and directly after the batch of one of them, so that no node waits longer than
  its longest chain of predecessors; if it has a cycle the result is the error that names it.\<close>

theorem batches_exact:
  assumes "graph_ok g"
  shows "acyclic (edge_rel g) \<and> (\<exists>bs. topological_batches g = Some (Inr bs)
        \<and> set (concat bs) = node_set g \<and> distinct (concat bs) \<and> list_all (\<lambda>b. b \<noteq> [] \<and> sorted b) bs
        \<and> (\<forall>i<length bs. \<forall>n\<in>set (bs ! i). {p. (p, n) \<in> edge_rel g} \<subseteq> set (concat (take i bs))
             \<and> (0 < i \<longrightarrow> {p. (p, n) \<in> edge_rel g} \<inter> set (bs ! (i - 1)) \<noteq> {})))
    \<or> \<not> acyclic (edge_rel g) \<and> (\<exists>e. topological_batches g = Some (Inl e))"
  using topological_batches_cases [OF assms]
proof (elim disjE conjE exE)
  fix bs assume bs: "topological_batches g = Some (Inr bs)" and "acyclic (edge_rel g)"
  with topological_batches_Inr [OF assms bs] show ?thesis
    unfolding dependencies.leveled_def dependencies.before_def by blast
qed blast

lemma batches_exact_witness:
  "\<exists>bs. topological_batches chain = Some (Inr bs) \<and> set (concat bs) = node_set chain"
proof -
  have "graph_ok chain" by code_simp
  moreover have "edge_rel chain \<subseteq> {(''u2'', ''u3''), (''u1'', ''u2''), (''u1'', ''u3'')}"
    by (auto simp: edge_rel_def children_of_def chain_def split: if_splits)
  then have "acyclic (edge_rel chain)" using pairs_less by (intro acyclic_pairs) blast
  ultimately show ?thesis using batches_exact [of chain] by blast
qed

text \<open>C18: for units that pass the checks and name known dependencies, building the graph fails
  exactly when the declared and the sequencing dependencies have a cycle. Otherwise it yields a
  graph over the unit ids without a cycle, which holds all these dependencies, adds edges only
  between units that share a file, and orders any two units that share a file.\<close>

theorem build_graph_exact:
  assumes "validate_unique_unit_ids units = Inr ()" and "dependencies_known units"
  shows "if acyclic (declared_rel units \<union> sequence_rel units)
    then \<exists>g. build_dependency_graph units = Some (Inr g) \<and> graph_ok g \<and> node_set g = set (map lu_id units)
      \<and> acyclic (edge_rel g) \<and> declared_rel units \<union> sequence_rel units \<subseteq> edge_rel g
      \<and> edge_rel g \<subseteq> declared_rel units \<union> sequence_rel units \<union> sharing_rel (unit_pairs units)
      \<and> (\<forall>(u, v)\<in>set (unit_pairs units). shared_files u v \<noteq> {} \<longrightarrow>
            (lu_id u, lu_id v) \<in> (edge_rel g)\<^sup>+ \<or> (lu_id v, lu_id u) \<in> (edge_rel g)\<^sup>+)
    else \<exists>e. build_dependency_graph units = Some (Inl e)"
  using build_graph_result [OF assms] unfolding over_def ordered_pairs_def by auto

lemma build_graph_exact_witness:
  "\<exists>g. build_dependency_graph three_units = Some (Inr g) \<and> acyclic (edge_rel g)
     \<and> (''u1'', ''u2'') \<in> edge_rel g \<and> (''u2'', ''u3'') \<in> edge_rel g"
proof -
  have "acyclic (declared_rel three_units \<union> sequence_rel three_units)"
    unfolding three_units_rel using pairs_less by (intro acyclic_pairs) blast
  then show ?thesis
    using build_graph_exact [OF three_units_ok] unfolding three_units_rel by auto
qed

text \<open>Building the graph ends on every list of units, whatever its fields hold.\<close>

theorem build_graph_terminates: "build_dependency_graph units \<noteq> None"
  using build_graph_total [of units] by auto

lemma hyphenate_id_chars: "list_all id_char (hyphenate s)"
proof (induction s rule: hyphenate.induct)
  case (2 c cs)
  have "id_char CHR ''-''" by code_simp
  with 2 show ?case by auto
qed simp

lemma set_trim: "set (trim P s) \<subseteq> set s"
  unfolding trim_def by (metis set_dropWhileD set_rev subsetI)

lemma safe_unit_id_chars: "list_all id_char (safe_unit_id s)"
proof -
  have unit: "list_all id_char ''unit''" by code_simp
  let ?safe = "take max_unit_id_chars (trim (\<lambda>c. c \<in> set ''-.'') (hyphenate (strip s)))"
  have "set ?safe \<subseteq> set (hyphenate (strip s))"
    using set_trim set_take_subset by (rule order_trans [rotated])
  then have "list_all id_char ?safe" using hyphenate_id_chars [of "strip s"] by (auto simp: list_all_iff)
  with unit show ?thesis unfolding safe_unit_id_def Let_def by (cases "?safe = []") (simp_all only: if_True if_False simp_thms)
qed

text \<open>An accepted unit id is not empty, has at most 80 characters and only letters, digits and
  the three marks, and is left alone by the normalisation.\<close>

theorem accepted_unit_id:
  assumes "validated_unit_id label v = Inr s"
  shows "v = PyStr s \<and> s \<noteq> [] \<and> length s \<le> 80 \<and> list_all id_char s \<and> safe_unit_id s = s"
proof -
  have v: "v = PyStr s" and s: "s \<noteq> []" "length s \<le> 80" "s = safe_unit_id s"
    using assms by (auto simp: validated_unit_id_def check_unit_id_def max_unit_id_chars_def
        split: pyval.splits if_splits)
  have "list_all id_char s" using safe_unit_id_chars [of s] s(3) by simp
  with v s show ?thesis by simp
qed

lemma accepted_unit_id_witness:
  "list_all id_char ''unit-1'' \<and> safe_unit_id ''unit-1'' = ''unit-1''"
proof -
  have "validated_unit_id ''id'' (PyStr ''unit-1'') = Inr ''unit-1''" by code_simp
  from accepted_unit_id [OF this] show ?thesis by simp
qed

definition long_name :: string where
  "long_name = replicate 79 CHR ''a'' @ ''-b''"

text \<open>Normalising an id cuts it after trimming it, so the result of a long name may end in a
  hyphen, is not normal itself, and is refused as a unit id.\<close>

theorem normalised_id_refused:
  "last (safe_unit_id long_name) = CHR ''-''
     \<and> safe_unit_id (safe_unit_id long_name) \<noteq> safe_unit_id long_name
     \<and> validated_unit_id ''work-unit id'' (PyStr (safe_unit_id long_name))
       = Inl (ValueError ''work-unit id must contain only canonical id characters'')"
proof -
  have "safe_unit_id long_name = replicate 79 CHR ''a'' @ ''-''"
    "safe_unit_id (replicate 79 CHR ''a'' @ ''-'') = replicate 79 CHR ''a''"
    "strip (replicate 79 CHR ''a'' @ ''-'') = replicate 79 CHR ''a'' @ ''-''" by code_simp+
  then show ?thesis by (simp add: validated_unit_id_def check_unit_id_def max_unit_id_chars_def)
qed

end
