(* ===== verification/Contract_Fields.thy ===== *)
theory Contract_Fields
  imports Plan_Contracts
begin

text \<open>
  The field readers of \<open>core/workforce/contract.py\<close>: bounded text, identifiers, content hashes
  and item lists, with their messages, and what each returns.
\<close>

named_theorems field_simps "readers applied to values that are already normal"

section \<open>Bounds\<close>

definition max_contract_bytes :: nat where "max_contract_bytes = 8192"
definition max_text_bytes :: nat where "max_text_bytes = 192"
definition max_outcomes :: nat where "max_outcomes = 8"
definition max_taxonomy_items :: nat where "max_taxonomy_items = 8"
definition max_relationships :: nat where "max_relationships = 16"

lemmas contract_bounds = max_contract_bytes_def max_text_bytes_def max_outcomes_def
  max_taxonomy_items_def max_relationships_def


section \<open>Readers\<close>

text \<open>\<open>d.get(k, default)\<close>, which returns a stored \<open>None\<close>\<close>

definition py_get_or :: "(string \<times> pyval) list \<Rightarrow> string \<Rightarrow> pyval \<Rightarrow> pyval" where
  "py_get_or d k dflt = (case map_of d k of None \<Rightarrow> dflt | Some v \<Rightarrow> v)"

definition not_iterable :: "string \<Rightarrow> py_error" where
  "not_iterable kind = TypeError (CHR 0x27 # kind @ CHR 0x27 # '' object is not iterable'')"

text \<open>\<open>for item in value\<close>: text yields its characters and a dictionary its keys.\<close>

fun py_iter :: "pyval \<Rightarrow> pyval list res" where
  "py_iter (PyList xs) = Inr xs"
| "py_iter (PyTuple xs) = Inr xs"
| "py_iter (PyStr s) = Inr (map (\<lambda>c. PyStr [c]) s)"
| "py_iter (PyDict d) = Inr (map (\<lambda>(k, v). PyStr k) d)"
| "py_iter PyNone = Inl (not_iterable ''NoneType'')"
| "py_iter (PyBool b) = Inl (not_iterable ''bool'')"
| "py_iter (PyInt i) = Inl (not_iterable ''int'')"
| "py_iter (PyFloat f) = Inl (not_iterable ''float'')"

text \<open>\<open>[str(item).casefold() for item in value]\<close>\<close>

definition folded_items :: "pyval \<Rightarrow> string list res" where
  "folded_items v = bind_res (py_iter v) (\<lambda>xs. Inr (map (\<lambda>x. casefold (py_str x)) xs))"

definition contract_text :: "nat \<Rightarrow> string \<Rightarrow> pyval \<Rightarrow> string res" where
  "contract_text maximum field v =
     (let text = squeeze (str_or_empty v) in
      if text = [] then Inr []
      else if length (utf8 text) > maximum
      then Inl (ValueError (''workforce '' @ field @ '' exceeds '' @ show_nat maximum @ '' bytes''))
      else Inr text)"

definition contract_identifier :: "bool \<Rightarrow> string \<Rightarrow> pyval \<Rightarrow> string res" where
  "contract_identifier required field v =
     bind_res (contract_text 128 field v) (\<lambda>t. let text = casefold t in
       if text = [] \<and> \<not> required then Inr []
       else if is_identifier text then Inr text
       else Inl (ValueError (''workforce '' @ field @ '' must be a normalized identifier'')))"

text \<open>\<open>_CONTENT_HASH\<close>: \<open>(?:sha256:)?[a-f0-9]{64}\<close>, and \<open>removeprefix\<close>\<close>

definition without_prefix :: "string \<Rightarrow> string" where
  "without_prefix digest = (if take 7 digest = ''sha256:'' then drop 7 digest else digest)"

definition content_hash :: "pyval \<Rightarrow> string res" where
  "content_hash v = bind_res (contract_text 71 ''version_hash'' v) (\<lambda>t. let digest = casefold t in
     if length (without_prefix digest) = 64 \<and> list_all is_hex (without_prefix digest)
     then Inr (without_prefix digest)
     else Inl (ValueError ''workforce version_hash must be an exact SHA-256 identity''))"

fun items_loop :: "nat \<Rightarrow> bool \<Rightarrow> string \<Rightarrow> string list \<Rightarrow> pyval list \<Rightarrow> string list res" where
  "items_loop maximum identifiers field result [] = Inr result"
| "items_loop maximum identifiers field result (item # rest) =
     bind_res (if identifiers then contract_identifier True field item
               else contract_text max_text_bytes field item) (\<lambda>normalized.
     let result = (if normalized \<noteq> [] \<and> normalized \<notin> set result then result @ [normalized] else result) in
     if length result > maximum
     then Inl (ValueError (''workforce '' @ field @ '' exceeds '' @ show_nat maximum @ '' items''))
     else items_loop maximum identifiers field result rest)"

definition contract_items :: "nat \<Rightarrow> bool \<Rightarrow> string \<Rightarrow> pyval \<Rightarrow> string list res" where
  "contract_items maximum identifiers field v =
     (if v = PyNone then Inr []
      else case as_sequence v of
        None \<Rightarrow> Inl (ValueError (''workforce '' @ field @ '' must be a sequence''))
      | Some xs \<Rightarrow> items_loop maximum identifiers field [] xs)"

definition explicit_items :: "nat \<Rightarrow> bool \<Rightarrow> (string \<times> pyval) list \<Rightarrow> string \<Rightarrow> pyval \<Rightarrow> string list res" where
  "explicit_items maximum identifiers agent field fallback =
     contract_items maximum identifiers field (py_get_or agent field fallback)"


section \<open>What the readers return\<close>

definition squeezed_text :: "nat \<Rightarrow> string \<Rightarrow> bool" where
  "squeezed_text maximum s = (squeeze s = s \<and> length (utf8 s) \<le> maximum)"

definition item_ok :: "bool \<Rightarrow> string \<Rightarrow> bool" where
  "item_ok identifiers s = (if identifiers then is_identifier s else squeezed_text max_text_bytes s \<and> s \<noteq> [])"

definition contract_items_ok :: "nat \<Rightarrow> bool \<Rightarrow> string list \<Rightarrow> bool" where
  "contract_items_ok maximum identifiers xs = (distinct xs \<and> length xs \<le> maximum \<and> list_all (item_ok identifiers) xs)"

lemma utf8_Nil [simp]: "utf8 [] = []"
  by (simp add: utf8_def)

lemma contract_text_Inr:
  "contract_text m field v = Inr t \<Longrightarrow> t = squeeze (str_or_empty v) \<and> squeezed_text m t"
  by (auto simp: contract_text_def squeezed_text_def Let_def split: if_splits)

lemma contract_text_PyStr [field_simps]: "squeezed_text m s \<Longrightarrow> contract_text m field (PyStr s) = Inr s"
  by (simp add: contract_text_def squeezed_text_def)

lemma utf8_ident_chars: "list_all ident_char s \<Longrightarrow> utf8 s = s"
proof (induction s)
  case (Cons c s)
  then have "(of_char c :: nat) < 128"
    by (auto simp: ident_char_def is_alnum_def is_lower_def is_digit_def Let_def)
  with Cons show ?case by (simp add: utf8_def utf8_char_def)
qed simp

lemma is_identifier_text: "is_identifier s \<Longrightarrow> squeezed_text 128 s"
  using is_identifier_length [of s] by (simp add: squeezed_text_def utf8_ident_chars is_identifier_chars)

lemma contract_identifier_ok: "contract_identifier True field v = Inr s \<Longrightarrow> is_identifier s"
  by (auto simp: contract_identifier_def res_simps Let_def split: if_splits)

lemma contract_identifier_optional:
  "contract_identifier False field v = Inr s \<Longrightarrow> s = [] \<or> is_identifier s"
  by (auto simp: contract_identifier_def res_simps Let_def split: if_splits)

lemma contract_identifier_PyStr [field_simps]:
  "is_identifier s \<Longrightarrow> contract_identifier r field (PyStr s) = Inr s"
  by (simp add: contract_identifier_def contract_text_PyStr is_identifier_text)

lemma contract_identifier_empty [field_simps]: "contract_identifier False field (PyStr []) = Inr []"
  by (simp add: contract_identifier_def contract_text_def)

lemma content_hash_ok: "content_hash v = Inr h \<Longrightarrow> length h = 64 \<and> list_all is_hex h"
  by (auto simp: content_hash_def res_simps Let_def split: if_splits)

lemma is_hex_ident: "is_hex c \<Longrightarrow> ident_char c"
  by (auto simp: is_hex_def ident_char_def is_alnum_def is_lower_def is_digit_def Let_def)

lemma content_hash_PyStr [field_simps]:
  assumes "length h = 64" and "list_all is_hex h"
  shows "content_hash (PyStr h) = Inr h"
proof -
  have chars: "list_all ident_char h" using assms(2) by (auto simp: list_all_iff is_hex_ident)
  then have "squeezed_text 71 h"
    using assms(1) by (auto simp: squeezed_text_def utf8_ident_chars list_all_iff intro!: squeeze_word')
  moreover have "take 7 h \<noteq> ''sha256:''"
  proof
    assume "take 7 h = ''sha256:''"
    then have "CHR ''s'' \<in> set h" by (metis in_set_takeD list.set_intros(1))
    with assms(2) show False by (auto simp: list_all_iff is_hex_def)
  qed
  ultimately show ?thesis
    using assms chars by (simp add: content_hash_def contract_text_PyStr casefold_chars without_prefix_def)
qed

lemma item_reader_ok:
  "(if ids then contract_identifier True field v else contract_text max_text_bytes field v) = Inr s \<Longrightarrow>
     s = [] \<or> item_ok ids s"
  by (auto simp: item_ok_def dest: contract_identifier_ok contract_text_Inr split: if_splits)

lemma items_loop_ok:
  "items_loop m ids field acc vs = Inr ys \<Longrightarrow> contract_items_ok m ids acc \<Longrightarrow> contract_items_ok m ids ys"
proof (induction m ids field acc vs rule: items_loop.induct)
  case (2 m ids field acc v vs)
  then obtain s where s: "(if ids then contract_identifier True field v else contract_text max_text_bytes field v) = Inr s"
    by (auto simp: res_simps)
  let ?acc = "if s \<noteq> [] \<and> s \<notin> set acc then acc @ [s] else acc"
  have "length ?acc \<le> m" and rest: "items_loop m ids field ?acc vs = Inr ys"
    using "2.prems"(1) s by (auto simp: Let_def split: if_splits)
  then have "contract_items_ok m ids ?acc"
    using "2.prems"(2) item_reader_ok [OF s] by (auto simp: contract_items_ok_def)
  then show ?case using "2.IH" [OF s refl] rest \<open>length ?acc \<le> m\<close> by (simp add: not_less [symmetric])
qed simp

lemma contract_items_ok:
  "contract_items m ids field v = Inr ys \<Longrightarrow> contract_items_ok m ids ys"
  using items_loop_ok [of m ids field "[]"]
  by (auto simp: contract_items_def contract_items_ok_def split: if_splits option.splits)

lemma item_reader_PyStr:
  "item_ok ids s \<Longrightarrow> (if ids then contract_identifier True field (PyStr s)
     else contract_text max_text_bytes field (PyStr s)) = Inr s \<and> s \<noteq> []"
  by (auto simp: item_ok_def field_simps)

lemma items_loop_strs:
  "distinct (acc @ xs) \<Longrightarrow> list_all (item_ok ids) xs \<Longrightarrow> length (acc @ xs) \<le> m \<Longrightarrow>
     items_loop m ids field acc (map PyStr xs) = Inr (acc @ xs)"
proof (induction xs arbitrary: acc)
  case (Cons x xs)
  moreover from Cons.prems have "items_loop m ids field (acc @ [x]) (map PyStr xs) = Inr ((acc @ [x]) @ xs)"
    by (intro Cons.IH) simp_all
  ultimately show ?case
    using item_reader_PyStr [of ids x field] by (simp add: Let_def)
qed simp

lemma contract_items_PyList [field_simps]:
  "contract_items_ok m ids xs \<Longrightarrow> contract_items m ids field (PyList (map PyStr xs)) = Inr xs"
  using items_loop_strs [of "[]" xs ids m field] by (simp add: contract_items_def contract_items_ok_def)

lemma py_get_or_Some [simp]: "map_of d k = Some v \<Longrightarrow> py_get_or d k dflt = v"
  by (simp add: py_get_or_def)

end
