(* ===== verification/Tool_Capabilities.thy ===== *)
theory Tool_Capabilities
  imports Py_Value
begin

text \<open>
  The tool vocabulary of \<open>core/host_capabilities.py\<close>: which reviewed roster labels name which
  operational capability, and the canonical form of a list of labels.
\<close>

section \<open>The tables\<close>

definition max_tool_capabilities :: nat where "max_tool_capabilities = 64"

text \<open>The groups of \<open>_alias_map\<close>: a capability and the labels that stand for it.\<close>

definition tool_groups :: "(string \<times> string list) list" where
  "tool_groups =
    [(''repository-read'', [''repository-read'', ''repository'', ''repository-reader'', ''source'',
            ''source-code-reader'', ''file-read'', ''filesystem-reader'', ''filesystem-search'',
            ''artifact-reader'', ''architecture-document-reader'', ''requirements-reader'']),
     (''repository-write'', [''repository-write'', ''file-write'', ''filesystem-editor'', ''source-code-editor'']),
     (''shell-execution'', [''shell-execution'', ''shell'']),
     (''source-control'', [''source-control'', ''git'', ''git-history-reader'']),
     (''code-execution'', [''code-execution'', ''node'', ''nodejs'', ''python'', ''python-runtime'',
            ''prototype-runtime'']),
     (''test-execution'', [''test-execution'', ''test-runner'', ''test-results-reader'', ''coverage-reader'',
            ''benchmark-runner'', ''evaluation-runner'', ''experiment-runner'',
            ''documentation-test-runner'']),
     (''package-management'', [''package-management'', ''package-manager'']),
     (''build-toolchain'', [''build-toolchain'']),
     (''web-research'', [''web-research'', ''documentation-search'', ''official-documentation-search'',
            ''market-research'']),
     (''browser-interaction'', [''browser-interaction'', ''browser'']),
     (''browser-automation'', [''browser-automation'', ''playwright'', ''browser-test-runner'']),
     (''screenshot-capture'', [''screenshot-capture'']),
     (''network-access'', [''network-access'', ''network'', ''network-client'']),
     (''api-access'', [''api-access'', ''api-client'', ''service-client'']),
     (''database-access'', [''database-access'', ''database'', ''database-client'', ''database-reader'', ''sql'']),
     (''data-analysis'', [''data-analysis'', ''data-analysis-runtime'', ''dataframe-runtime'', ''statistical-runtime'']),
     (''spreadsheet-access'', [''spreadsheet-access'', ''spreadsheet'', ''safe-spreadsheet-reader'']),
     (''document-access'', [''document-access'', ''document-reader'', ''secure-document-reader'']),
     (''media-processing'', [''media-processing'', ''media-generation'', ''media-packager'', ''ffmpeg'']),
     (''security-analysis'', [''security-analysis'', ''security-analyzer'', ''security-scanner'']),
     (''cloud-infrastructure'', [''cloud-infrastructure'', ''cloud-cli'']),
     (''infrastructure-as-code'', [''infrastructure-as-code'', ''terraform'']),
     (''monitoring-observability'', [''monitoring-observability'', ''monitoring'', ''metrics-reader'', ''telemetry-store'']),
     (''model-runtime'', [''model-runtime'', ''ml-runtime'', ''gpu-runtime'', ''cloud-or-local-model-runtime'']),
     (''device-testing'', [''device-testing'', ''device-lab'', ''device-test-host'', ''device-test-rig'']),
     (''performance-profiling'', [''performance-profiling'', ''performance-profiler'', ''profiler'']),
     (''runtime-evidence'', [''runtime-evidence'', ''staffing-plan-reader'', ''workforce-index'']),
     (''native-delegation'', [''native-delegation''])]"

text \<open>\<open>_REVIEWED_TOOL_LABELS\<close>\<close>

definition reviewed_tool_labels :: "string list" where
  "reviewed_tool_labels =
    [''accessibility-tester'', ''accessibility-testing'', ''account-research'',
     ''accounting-data-reader'', ''aggregate-recruiting-analytics'',
     ''aggregate-workforce-data-reader'', ''analytics-reader'', ''analytics-store'', ''api-client'',
     ''api-schema-validator'', ''apple-build-toolchain'', ''apple-platform-documentation'',
     ''application-document-reader'', ''architecture-document-reader'', ''architecture-evidence'',
     ''artifact-reader'', ''artifact-validator'', ''asset-pipeline'',
     ''assistive-technology-test-host'', ''ats-reader'', ''audio-evaluation-set'', ''audio-middleware'',
     ''audio-profiler'', ''audit-log-reader'', ''authorized-cloud-test-environment'',
     ''authorized-crm-reader'', ''authorized-customer-data-reader'', ''authorized-market-data-reader'',
     ''authorized-product-analytics-reader'', ''authorized-test-environment'',
     ''authorized-test-infrastructure'', ''axe'', ''backup-verifier'', ''benchmark-runner'',
     ''bim-toolchain'', ''blender'', ''browser'', ''browser-test-runner'', ''budget-calculator'',
     ''build-toolchain'', ''cache-test-host'', ''calculation-tool'', ''call-recording-reader'',
     ''ci-reader'', ''ci-runner'', ''claim-evidence-reader'', ''cloud-billing-data'', ''cloud-cli'',
     ''cloud-or-local-model-runtime'', ''communication-context-reader'', ''communications-draft'',
     ''community-data-reader'', ''configuration-validator'', ''conflict-system-reader'',
     ''contract-reader'', ''cost-model'', ''coverage-reader'', ''cpp-toolchain'', ''crm-reader'',
     ''cross-compiler'', ''cross-platform-test-host'', ''cryptographic-test-tool'',
     ''csharp-toolchain'', ''current-cultural-research'', ''current-legal-research'',
     ''current-policy-research'', ''current-regulation-research'', ''current-tax-research'',
     ''customer-record-reader'', ''dashboard'', ''dashboard-builder'', ''data-analysis-runtime'',
     ''data-flow-reader'', ''data-runtime'', ''data-store'', ''database'', ''database-client'',
     ''database-reader'', ''dataframe-runtime'', ''deal-document-reader'', ''delivery-audit-reader'',
     ''demo-environment'', ''desktop-test-host'', ''device-lab'', ''device-test-host'',
     ''device-test-rig'', ''diff-tool'', ''document-reader'', ''document-runtime'',
     ''documentation-search'', ''documentation-test-runner'', ''email-data-source'',
     ''email-platform-reader'', ''engineering-calculation-tool'', ''evaluation-dataset'',
     ''evaluation-runner'', ''experiment-platform-reader'', ''experiment-runner'', ''feishu-sandbox'',
     ''ffmpeg'', ''file-read'', ''file-write'', ''filesystem-editor'', ''filesystem-reader'',
     ''filesystem-search'', ''filings-reader'', ''financial-calculator'', ''financial-data-reader'',
     ''financial-document-reader'', ''financial-modeling'', ''financial-record-reader'',
     ''fleet-sandbox'', ''fraud-case-reader'', ''game-engine'', ''gdal-toolchain'',
     ''gdscript-or-dotnet-toolchain'', ''geospatial-data-reader'', ''geospatial-ml-toolchain'',
     ''gis-automation'', ''gis-desktop'', ''gis-sdk'', ''gis-validator'', ''git'',
     ''git-history-reader'', ''godot-editor'', ''gpu-profiler'', ''gpu-runtime'', ''graphics-debugger'',
     ''hardware-debugger'', ''healthcare-policy-reader'', ''hotline-lookup'', ''hr-policy-reader'',
     ''identity-data-reader'', ''identity-system-reader'', ''identity-test-provider'',
     ''incident-data'', ''incident-timeline'', ''infrastructure-tooling'', ''intake-form-reader'',
     ''jira'', ''k6'', ''knowledge-base-reader'', ''language-server-runtime'',
     ''learning-content-tool'', ''legal-billing-record-reader'', ''licensed-code-reference'',
     ''lighthouse'', ''link-validator'', ''loan-record-reader'', ''local-chain'',
     ''locale-test-runtime'', ''market-data-reader'', ''market-research'',
     ''marketing-artifact-reader'', ''matching-evaluation'', ''media-generation'', ''media-packager'',
     ''metrics-reader'', ''ml-runtime'', ''mobile-build-toolchain'', ''model-converter'',
     ''model-evaluation'', ''model-evaluation-provider'', ''monitoring'', ''network'',
     ''network-client'', ''network-fault-injector'', ''network-lab'', ''network-profiler'',
     ''network-simulator'', ''network-test-harness'', ''official-documentation-search'',
     ''official-employment-research'', ''official-ethics-research'', ''official-france-research'',
     ''official-government-research'', ''official-immigration-research'', ''official-legal-research'',
     ''official-lending-research'', ''official-marketing-law-research'', ''official-mcp-documentation'',
     ''official-payer-research'', ''official-procurement-research'', ''official-real-estate-research'',
     ''official-regulation-research'', ''official-school-research'', ''official-solicitation-research'',
     ''official-trade-research'', ''operations-data-reader'', ''organizational-data-reader'',
     ''orgscript-cli'', ''oscal-validator'', ''package-manager'', ''patient-record-reader'',
     ''payment-sandbox'', ''peer-reviewed-research'', ''performance-profiler'',
     ''photogrammetry-toolchain'', ''pipeline-runner'', ''planning-data-reader'', ''playwright'',
     ''policy-reader'', ''portfolio-data-reader'', ''process-data-reader'',
     ''product-analytics-reader'', ''program-data-reader'', ''property-policy-reader'',
     ''protocol-documentation'', ''prototype-runtime'', ''python'', ''python-runtime'',
     ''realtime-test-harness'', ''recipient-directory-reader'', ''rendering-inspector'',
     ''rendering-profiler'', ''report-reader'', ''repository'', ''repository-reader'',
     ''requirements-reader'', ''reservation-record-reader'', ''return-policy-reader'',
     ''roblox-studio'', ''runtime-evidence'', ''safe-spreadsheet-reader'', ''salesforce-cli'',
     ''salesforce-documentation'', ''sandbox-environment'', ''scene-profiler'', ''screen-reader'',
     ''screenshot-capture'', ''search-sandbox'', ''secure-data-reader'', ''secure-document-reader'',
     ''secure-evidence-reader'', ''secure-health-record-reader'', ''security-analyzer'',
     ''security-document-reader'', ''security-documentation'', ''security-scanner'', ''service-client'',
     ''service-management-data'', ''shell'', ''solidity-toolchain'', ''source-code-editor'',
     ''source-code-reader'', ''source-control'', ''spatial-query'', ''speech-model-runtime'',
     ''spreadsheet'', ''sql'', ''statistical-runtime'', ''statistical-test-tool'',
     ''store-console-evidence'', ''store-sandbox'', ''supply-chain-data-reader'',
     ''support-policy-reader'', ''survey-analysis'', ''sustainability-data-reader'',
     ''synthetic-credentials'', ''target-build-toolchain'', ''target-gpu'', ''target-import-validator'',
     ''telemetry-store'', ''terraform'', ''test-environment'', ''test-results-reader'', ''test-runner'',
     ''ticket-reader'', ''tracker-reader'', ''transaction-document-reader'',
     ''transaction-record-reader'', ''translation-catalog'', ''translation-reference'',
     ''unity-editor'', ''unity-networking-packages'', ''unreal-editor'', ''unreal-insights'',
     ''visionos-build-toolchain'', ''wasi-runtime'', ''wasm-toolchain'', ''web-3d-toolchain'',
     ''web-research'', ''web-toolchain'', ''web-xr-toolchain'', ''wechat-devtools'', ''wechat-sandbox'',
     ''woocommerce-test-host'', ''workflow-platform-reader'', ''xr-device-profiler'']"


section \<open>Canonical labels\<close>

text \<open>\<open>_TOKEN\<close>: \<open>[a-z0-9][a-z0-9._+-]{0,63}\<close>\<close>

definition tool_char :: "char \<Rightarrow> bool" where
  "tool_char c = (is_alnum c \<or> c \<in> set ''._+-'')"

definition is_tool_token :: "string \<Rightarrow> bool" where
  "is_tool_token s = (case s of [] \<Rightarrow> False
     | c # cs \<Rightarrow> is_alnum c \<and> list_all tool_char cs \<and> length cs \<le> 63)"

definition tool_token :: "pyval \<Rightarrow> string" where
  "tool_token v = (let normalized = casefold (strip (str_or_empty v)) in
     if is_tool_token normalized then normalized else [])"

text \<open>\<open>TOOL_CAPABILITY_ALIASES.get\<close>: a label of a group stands for its capability, every other
  reviewed label for itself.\<close>

definition tool_alias :: "string \<Rightarrow> string option" where
  "tool_alias label = (case find (\<lambda>(capability, labels). label \<in> set labels) tool_groups of
     Some (capability, labels) \<Rightarrow> Some capability
   | None \<Rightarrow> if label \<in> set reviewed_tool_labels then Some label else None)"

definition canonical_tool_capability :: "pyval \<Rightarrow> string option" where
  "canonical_tool_capability v =
     (let normalized = tool_token v in if normalized = [] then None else tool_alias normalized)"

text \<open>The capabilities and the unknown labels found so far, from the label at \<open>index\<close> on.\<close>

fun collect_tools :: "nat \<Rightarrow> string set \<Rightarrow> string set \<Rightarrow> pyval list \<Rightarrow> string set \<times> string set" where
  "collect_tools index canonical unknown [] = (canonical, unknown)"
| "collect_tools index canonical unknown (v # vs) =
     (if index \<ge> max_tool_capabilities then (canonical, insert ''capability-list-overflow'' unknown)
      else let normalized = tool_token v in
        if normalized = []
        then collect_tools (Suc index) canonical (insert ''invalid-capability-label'' unknown) vs
        else case canonical_tool_capability (PyStr normalized) of
          None \<Rightarrow> collect_tools (Suc index) canonical (insert normalized unknown) vs
        | Some capability \<Rightarrow> collect_tools (Suc index) (insert capability canonical) unknown vs)"

definition canonicalize_tool_capabilities :: "pyval list \<Rightarrow> string list \<times> string list" where
  "canonicalize_tool_capabilities values =
     (let (canonical, unknown) = collect_tools 0 {} {} values in
      (sorted_list_of_set canonical, sorted_list_of_set unknown))"


section \<open>The table is idempotent\<close>

lemma tool_groups_ok:
  "list_all (\<lambda>(capability, labels). find (\<lambda>(c, ls). capability \<in> set ls) tool_groups = Some (capability, labels))
     tool_groups"
  by code_simp

lemma tool_alias_idem:
  assumes "tool_alias label = Some capability"
  shows "tool_alias capability = Some capability"
proof (cases "find (\<lambda>(capability, labels). label \<in> set labels) tool_groups")
  case None
  with assms have "capability = label" by (simp add: tool_alias_def split: if_splits)
  with assms show ?thesis by simp
next
  case (Some g)
  then have "(fst g, snd g) \<in> set tool_groups" by (auto simp: find_Some_iff intro: nth_mem)
  then have "find (\<lambda>(c, ls). fst g \<in> set ls) tool_groups = Some (fst g, snd g)"
    using tool_groups_ok by (fastforce simp: list_all_iff)
  moreover have "capability = fst g" using assms Some by (simp add: tool_alias_def split: prod.splits)
  ultimately show ?thesis by (cases g) (simp add: tool_alias_def)
qed


lemma tool_groups_tokens: "list_all (\<lambda>(capability, labels). is_tool_token capability) tool_groups"
  by code_simp

lemma tool_alias_token: "is_tool_token label \<Longrightarrow> tool_alias label = Some capability \<Longrightarrow> is_tool_token capability"
  using tool_groups_tokens
  by (auto simp: tool_alias_def list_all_iff find_Some_iff split: option.splits if_splits)
    (metis case_prodD nth_mem)

lemma tool_char_fold: "tool_char c \<Longrightarrow> fold_char c = [c] \<and> \<not> is_space c"
  by (auto simp: tool_char_def is_alnum_def is_lower_def is_digit_def fold_char_def is_space_def Let_def)

lemma is_tool_token_chars: "is_tool_token s \<Longrightarrow> list_all tool_char s \<and> s \<noteq> []"
  by (cases s) (auto simp: is_tool_token_def tool_char_def)

lemma fold_chars_stable: "list_all (\<lambda>c. fold_char c = [c]) s \<Longrightarrow> casefold s = s"
  unfolding casefold_def by (induction s) auto

lemma tool_token_stable: "is_tool_token s \<Longrightarrow> tool_token (PyStr s) = s"
proof -
  assume *: "is_tool_token s"
  then have "casefold s = s" "strip s = s"
    using is_tool_token_chars [OF *] by (auto intro!: fold_chars_stable strip_word simp: list_all_iff tool_char_fold)
  with * show ?thesis by (simp add: tool_token_def)
qed

lemma tool_token_cases: "tool_token v = [] \<or> is_tool_token (tool_token v)"
  by (simp add: tool_token_def Let_def)

definition known_tool :: "string \<Rightarrow> bool" where
  "known_tool t = (is_tool_token t \<and> tool_alias t = Some t)"

definition unknown_tool :: "string \<Rightarrow> bool" where
  "unknown_tool t = (is_tool_token t \<and> tool_alias t = None)"

lemma special_labels_unknown: "unknown_tool ''capability-list-overflow''" "unknown_tool ''invalid-capability-label''"
  by code_simp+

lemma collect_tools_ok:
  "(\<forall>t\<in>C. known_tool t) \<Longrightarrow> (\<forall>t\<in>U. unknown_tool t) \<Longrightarrow> finite C \<Longrightarrow> finite U \<Longrightarrow>
     collect_tools i C U vs = (C', U') \<Longrightarrow>
     (\<forall>t\<in>C'. known_tool t) \<and> (\<forall>t\<in>U'. unknown_tool t) \<and> finite C' \<and> finite U'"
proof (induction i C U vs rule: collect_tools.induct)
  case (2 i C U v vs)
  let ?t = "tool_token v"
  have token: "?t \<noteq> [] \<Longrightarrow> is_tool_token ?t" using tool_token_cases by blast
  then have stable: "?t \<noteq> [] \<Longrightarrow> canonical_tool_capability (PyStr ?t) = tool_alias ?t"
    by (simp add: canonical_tool_capability_def tool_token_stable)
  have known: "known_tool c" if "?t \<noteq> []" "tool_alias ?t = Some c" for c
    using that token tool_alias_idem tool_alias_token by (simp add: known_tool_def)
  have unknown: "unknown_tool ?t" if "?t \<noteq> []" "tool_alias ?t = None"
    using that token by (simp add: unknown_tool_def)
  show ?case
    using "2.prems" "2.IH" known unknown stable special_labels_unknown
    by (simp add: Let_def split: if_splits option.splits) blast+
qed simp

lemma canonicalize_ok:
  assumes "canonicalize_tool_capabilities vs = (cs, us)"
  shows "sorted cs \<and> distinct cs \<and> list_all known_tool cs \<and> sorted us \<and> distinct us \<and> list_all unknown_tool us"
proof -
  obtain C U where cu: "collect_tools 0 {} {} vs = (C, U)" by fastforce
  then have "(\<forall>t\<in>C. known_tool t) \<and> (\<forall>t\<in>U. unknown_tool t) \<and> finite C \<and> finite U"
    using collect_tools_ok [of "{}" "{}" 0 vs C U] by simp
  with assms cu show ?thesis by (auto simp: canonicalize_tool_capabilities_def list_all_iff)
qed

lemma collect_canonical:
  assumes "list_all known_tool cs" and "list_all unknown_tool us" and "i + length cs + length us \<le> max_tool_capabilities"
  shows "collect_tools i C U (map PyStr (cs @ us)) = (C \<union> set cs, U \<union> set us)"
  using assms
proof (induction cs arbitrary: i C)
  case Nil
  then show ?case
  proof (induction us arbitrary: i U)
    case (Cons u us)
    then have "tool_token (PyStr u) = u" "u \<noteq> []" "tool_alias u = None"
      using tool_token_stable is_tool_token_chars by (auto simp: unknown_tool_def)
    with Cons.prems Cons.IH [of "Suc i" "insert u U"] show ?case
      by (simp add: canonical_tool_capability_def)
  qed simp
next
  case (Cons c cs)
  then have "tool_token (PyStr c) = c" "c \<noteq> []" "tool_alias c = Some c"
    using tool_token_stable is_tool_token_chars by (auto simp: known_tool_def)
  with Cons.prems Cons.IH [of "Suc i" "insert c C"] show ?case
    by (simp add: canonical_tool_capability_def)
qed

lemma canonicalize_again:
  assumes "list_all known_tool cs" "list_all unknown_tool us" "length cs + length us \<le> max_tool_capabilities"
    and "sorted cs" "distinct cs" "sorted us" "distinct us"
  shows "canonicalize_tool_capabilities (map PyStr (cs @ us)) = (cs, us)"
  using assms collect_canonical [of cs us 0 "{}" "{}"]
  by (simp add: canonicalize_tool_capabilities_def sorted_list_of_set_sort_remdups distinct_remdups_id sorted_sort_id
      del: map_append)

end
