(* ===== verification/Worker_Identity.thy ===== *)
theory Worker_Identity
  imports Sha256 Py_Value
begin

text \<open>
  \<open>core/workforce/identity.py\<close> and \<open>core/agent_identity.py\<close>: the slug of an agent record and
  the immutable identity derived from it, a version 5 UUID. \<open>uuid.uuid5\<close> of the standard library
  is written out here over the SHA-1 rounds (FIPS 180-4, RFC 9562) on 32-bit words.
\<close>

unbundle bit_operations_syntax

section \<open>SHA-1 and \<open>uuid.uuid5\<close>\<close>

type_synonym sha1_state = "u32 \<times> u32 \<times> u32 \<times> u32 \<times> u32"

definition rotl :: "nat \<Rightarrow> u32 \<Rightarrow> u32" where
  "rotl n x = push_bit n x OR drop_bit (32 - n) x"

definition sha1_initial :: sha1_state where
  "sha1_initial = (0x67452301, 0xEFCDAB89, 0x98BADCFE, 0x10325476, 0xC3D2E1F0)"

definition sha1_mix :: "nat \<Rightarrow> u32 \<Rightarrow> u32 \<Rightarrow> u32 \<Rightarrow> u32" where
  "sha1_mix t b c d =
     (if t < 20 then ((b AND c) OR (NOT b AND d)) + 0x5A827999
      else if t < 40 then (b XOR c XOR d) + 0x6ED9EBA1
      else if t < 60 then ((b AND c) OR (b AND d) OR (c AND d)) + 0x8F1BBCDC
      else (b XOR c XOR d) + 0xCA62C1D6)"

definition sha1_round :: "nat \<Rightarrow> u32 \<Rightarrow> sha1_state \<Rightarrow> sha1_state" where
  "sha1_round t w st = (case st of (a, b, c, d, e) \<Rightarrow>
     (rotl 5 a + sha1_mix t b c d + e + w, a, rotl 30 b, c, d))"

fun sha1_schedule :: "nat \<Rightarrow> u32 list \<Rightarrow> u32 list" where
  "sha1_schedule 0 ws = ws"
| "sha1_schedule (Suc n) ws =
     sha1_schedule n (rotl 1 (ws ! 2 XOR ws ! 7 XOR ws ! 13 XOR ws ! 15) # ws)"

definition sha1_block :: "sha1_state \<Rightarrow> u32 list \<Rightarrow> sha1_state" where
  "sha1_block st block = (case st of (a, b, c, d, e) \<Rightarrow>
     case fold (\<lambda>(t, w) s. sha1_round t w s) (zip [0..<80] (rev (sha1_schedule 64 (rev block)))) st of
       (a', b', c', d', e') \<Rightarrow> (a + a', b + b', c + c', d + d', e + e'))"

definition sha1_digest :: "nat list \<Rightarrow> sha1_state" where
  "sha1_digest bytes = foldl sha1_block sha1_initial (chunks 15 (map word_of_bytes (chunks 3 (sha_pad bytes))))"

text \<open>\<open>str(uuid.uuid5(namespace, name))\<close>: the first 16 bytes of the digest with the version and
  variant bits set.\<close>

definition uuid5 :: "nat list \<Rightarrow> string \<Rightarrow> string" where
  "uuid5 namespace name =
     (case sha1_digest (namespace @ map of_char (utf8 name)) of (a, b, c, d, e) \<Rightarrow>
      let low = hex_word ((b AND 0xFFFF0FFF) OR 0x5000); high = hex_word ((c AND 0x3FFFFFFF) OR 0x80000000) in
      hex_word a @ ''-'' @ take 4 low @ ''-'' @ drop 4 low @ ''-'' @ take 4 high @ ''-''
        @ drop 4 high @ hex_word d)"


section \<open>Identities\<close>

definition worker_namespace :: "nat list" where
  "worker_namespace = [0x6f, 0x09, 0xf5, 0x3f, 0xf4, 0xc2, 0x5d, 0xf5, 0x8d, 0xb9, 0xf7, 0x16, 0xeb, 0xc8,
     0xdb, 0x38]"

text \<open>\<open>_SLUG\<close>: \<open>[a-z0-9][a-z0-9._-]{1,127}\<close>\<close>

definition is_worker_slug :: "string \<Rightarrow> bool" where
  "is_worker_slug s = (case s of [] \<Rightarrow> False
     | c # cs \<Rightarrow> is_alnum c \<and> list_all (\<lambda>d. is_alnum d \<or> d \<in> set ''._-'') cs
         \<and> 1 \<le> length cs \<and> length cs \<le> 127)"

definition stable_worker_id :: "pyval \<Rightarrow> string res" where
  "stable_worker_id agent_slug = (let slug = casefold (strip (str_or_empty agent_slug)) in
     if is_worker_slug slug then Inr (uuid5 worker_namespace slug)
     else Inl (ValueError ''worker slug is invalid''))"

text \<open>\<open>a or b\<close>\<close>

definition py_or :: "pyval \<Rightarrow> pyval \<Rightarrow> pyval" where
  "py_or a b = (if truthy a then a else b)"

definition agent_identity :: "(string \<times> pyval) list \<Rightarrow> string" where
  "agent_identity agent = strip (py_str
     (py_or (py_or (py_get agent ''slug'') (py_get agent ''agent_slug'')) (PyStr [])))"


lemma uuid5_length: "length (uuid5 ns name) = 36"
  by (simp add: uuid5_def Let_def split: prod.splits)

lemma uuid5_chars: "c \<in> set (uuid5 ns name) \<Longrightarrow> is_hex c \<or> c = CHR ''-''"
proof -
  have hex: "c \<in> set (hex_word w) \<Longrightarrow> is_hex c" for w using hex_word_hex [of w] by (simp add: list_all_iff)
  then have "c \<in> set (take n (hex_word w)) \<Longrightarrow> is_hex c" "c \<in> set (drop n (hex_word w)) \<Longrightarrow> is_hex c" for n w
    by (meson in_set_takeD in_set_dropD)+
  with hex show "c \<in> set (uuid5 ns name) \<Longrightarrow> ?thesis"
    by (auto simp: uuid5_def Let_def split: prod.splits)
qed

lemma uuid5_hd: "uuid5 ns name \<noteq> [] \<and> is_hex (hd (uuid5 ns name))"
proof -
  have "hex_word w \<noteq> [] \<and> is_hex (hd (hex_word w))" for w
    using hex_word_length [of w] hex_word_hex [of w] by (cases "hex_word w") auto
  then show ?thesis by (simp add: uuid5_def Let_def split: prod.splits)
qed

end
