(* ===== verification/Contract_Project.thy ===== *)
theory Contract_Project
  imports Contract_Fields Roster_Contract Tool_Capabilities Worker_Identity
begin

text \<open>
  \<open>project_workforce_contract\<close> and \<open>parse_workforce_contract\<close> of
  \<open>core/workforce/contract.py\<close>: how an audited roster record becomes a recruitment contract,
  which defaults are derived from its division, categories and task types, and how a stored
  contract is read back. Both stop at the first error, in the order of the code.
\<close>

section \<open>Tables\<close>

definition contract_authorities :: "string list" where
  "contract_authorities = [''advise'', ''modify'', ''plan'', ''review'']"

definition contract_context_modes :: "string list" where
  "contract_context_modes = [''direct_safe'', ''isolated_only'']"

definition employment_states :: "string list" where
  "employment_states = [''contractor'', ''disabled'', ''employee'', ''merged'', ''retired'', ''suspended'']"

definition audit_states :: "string list" where
  "audit_states = [''approved'', ''quarantined'', ''retired'']"

definition contract_hosts :: "string list" where
  "contract_hosts = [''claude'', ''codex'', ''hermes'', ''openclaw'', ''zcode'']"

definition contract_platforms :: "string list" where
  "contract_platforms = [''linux'', ''windows'']"

definition residents :: "string list" where
  "residents = [''agency-steward'']"

definition division_domains :: "(string \<times> string) list" where
  "division_domains = [
    (''academic'', ''research''), (''design'', ''design''),
     (''engineering'', ''software-engineering''), (''finance'', ''finance''),
     (''game-development'', ''game-development''), (''gis'', ''geospatial''),
     (''healthcare'', ''healthcare''), (''marketing'', ''marketing''),
     (''paid-media'', ''marketing''), (''product'', ''product''),
     (''project-management'', ''project-delivery''), (''sales'', ''sales''),
     (''security'', ''security''), (''spatial-computing'', ''spatial-computing''),
     (''specialized'', ''specialist-services''), (''support'', ''customer-operations''),
     (''testing'', ''quality-assurance'')]"

definition category_domains :: "(string \<times> string) list" where
  "category_domains = [
    (''api-design'', ''backend''), (''backend-systems'', ''backend''), (''cms'', ''cms''),
     (''codebase-discovery'', ''codebase-discovery''), (''data-engineering'', ''data''),
     (''data-quality'', ''data''), (''databases'', ''data''),
     (''desktop-applications'', ''desktop''), (''distributed-systems'', ''backend''),
     (''drupal'', ''cms''), (''frontend'', ''frontend''), (''infrastructure'', ''platform''),
     (''machine-learning'', ''machine-learning''), (''mlops'', ''machine-learning''),
     (''mobile'', ''mobile''), (''operations'', ''operations''),
     (''performance'', ''performance''), (''pipelines'', ''data''),
     (''reliability'', ''operations''), (''web-development'', ''frontend''),
     (''wordpress'', ''cms'')]"

definition phase_of_task :: "(string \<times> string) list" where
  "phase_of_task = [(''analysis'', ''discovery''), (''research'', ''discovery''), (''planning'', ''planning''),
     (''architecture'', ''design''), (''design'', ''design''), (''implementation'', ''implementation''),
     (''review'', ''review''), (''review-report'', ''review''), (''testing'', ''testing''),
     (''documentation'', ''documentation''), (''writing'', ''documentation'')]"


section \<open>Derived fields\<close>

definition no_items :: pyval where "no_items = PyTuple []"

text \<open>\<open>if b: result.append(x)\<close>, and the same when \<open>x\<close> is new\<close>

definition append_if :: "bool \<Rightarrow> 'a \<Rightarrow> 'a list \<Rightarrow> 'a list" where
  "append_if b x result = (if b then result @ [x] else result)"

definition add_if :: "bool \<Rightarrow> 'a \<Rightarrow> 'a list \<Rightarrow> 'a list" where
  "add_if b x result = (if b then add_new x result else result)"

definition insert_if :: "bool \<Rightarrow> 'a \<Rightarrow> 'a list \<Rightarrow> 'a list" where
  "insert_if b x result = (if b then x # result else result)"

text \<open>\<open>set(names) & values\<close> as a condition\<close>

definition shares :: "string list \<Rightarrow> string list \<Rightarrow> bool" where
  "shares names values = list_ex (\<lambda>n. n \<in> set values) names"

definition archetype_of :: "string \<Rightarrow> string \<Rightarrow> string \<Rightarrow> (string \<times> pyval) list \<Rightarrow> string res" where
  "archetype_of agent rights division record = (case map_of record ''archetype'' of
     Some v \<Rightarrow> contract_identifier True ''archetype'' v
   | None \<Rightarrow>
       bind_res (folded_items (py_get_or record ''task_types'' no_items)) (\<lambda>task_types.
       bind_res (folded_items (py_get_or record ''categories'' no_items)) (\<lambda>categories. Inr (
         if agent \<in> set residents then ''resident-manager''
         else if division = ''testing'' then ''tester''
         else if shares [''documentation'', ''technical-writing''] categories
           \<or> shares [''documentation'', ''writing''] task_types then ''writer''
         else if rights = ''modify'' then ''implementer''
         else if rights = ''review'' then ''reviewer''
         else if rights = ''advise'' then ''advisor''
         else if ''architecture'' \<in> set task_types
           \<or> list_ex (\<lambda>c. c = ''architecture'' \<or> suffix ''-architecture'' c) categories then ''architect''
         else ''planner''))))"

definition explicit_kinds :: "pyval \<Rightarrow> string list res" where
  "explicit_kinds v =
     bind_res (contract_items max_taxonomy_items True ''artifact_kinds'' v) (\<lambda>items.
     let explicit = fromkeys (map (replace_char (CHR ''_'') (CHR ''-'')) items) in
     if explicit = []
     then Inl (ValueError (''workforce artifact_kinds must not be explicitly empty; ''
            @ ''omit the field to derive artifact kinds''))
     else if \<not> list_ex (\<lambda>k. map_of artifact_capabilities k \<noteq> None) explicit
     then Inl (ValueError (''workforce artifact_kinds must include at least one ''
            @ ''artifact-vocabulary kind; got only: '' @ join '', '' (sort explicit)))
     else Inr explicit)"

definition derived_kinds :: "string list \<Rightarrow> string \<Rightarrow> string \<Rightarrow> string list" where
  "derived_kinds tasks rights kind =
     (let result = append_if (kind = ''writer'') ''documentation'' [];
          result = append_if (kind = ''tester'') ''test-evidence'' result;
          result = append_if (kind = ''tester'' \<and> rights = ''modify'') ''test-code'' result;
          result = append_if (''architecture'' \<in> set tasks \<or> kind = ''architect'') ''architecture-record'' result;
          result = append_if (''implementation'' \<in> set tasks \<and> kind = ''implementer'') ''implementation-change'' result;
          result = append_if (''planning'' \<in> set tasks) ''plan'' result;
          result = append_if (shares [''analysis'', ''research''] tasks) ''analysis'' result;
          result = append_if (shares [''review'', ''review-report''] tasks) ''review-report'' result;
          result = append_if (result = []) ''analysis'' result
      in fromkeys result)"

definition artifact_kinds_of :: "(string \<times> pyval) list \<Rightarrow> string \<Rightarrow> string list res" where
  "artifact_kinds_of record kind = (case map_of record ''artifact_kinds'' of
     Some v \<Rightarrow> explicit_kinds v
   | None \<Rightarrow> bind_res (folded_items (py_get_or record ''task_types'' no_items)) (\<lambda>tasks.
       Inr (derived_kinds tasks (casefold (py_str (py_get_or record ''authority'' (PyStr [])))) kind)))"

definition lifecycle_phases_of :: "(string \<times> pyval) list \<Rightarrow> string \<Rightarrow> string list res" where
  "lifecycle_phases_of record kind = (case map_of record ''lifecycle_phases'' of
     Some v \<Rightarrow> contract_items max_taxonomy_items True ''lifecycle_phases'' v
   | None \<Rightarrow>
       bind_res (folded_items (py_get_or record ''task_types'' no_items)) (\<lambda>tasks.
       bind_res (folded_items (py_get_or record ''categories'' no_items)) (\<lambda>categories.
       let phases = List.map_filter (map_of phase_of_task) tasks;
           phases = insert_if (kind = ''writer'' \<and> ''technical-writing'' \<in> set categories) ''documentation'' phases;
           phases = insert_if (kind = ''tester'') ''testing'' phases;
           phases = insert_if (kind = ''architect'') ''design'' phases;
           phases = insert_if (kind = ''resident-manager'') ''coordination'' phases
       in Inr (if phases = [] then [''discovery''] else fromkeys phases))))"

definition derived_domains :: "string list \<Rightarrow> string \<Rightarrow> string \<Rightarrow> string list" where
  "derived_domains categories owned division =
     (let result = [get_or division_domains division (if division = [] then ''specialist-services'' else division)];
          result = add_if (sublist ''security'' owned) ''security'' result;
          result = add_if (''quality'' \<in> set categories) ''quality-assurance'' result;
          result = add_if (shares [''accessibility'', ''inclusive-testing'', ''wcag''] categories) ''accessibility'' result;
          result = add_if (shares [''accounts-payable'', ''finance''] categories) ''finance'' result;
          result = add_if (shares [''code-intelligence'', ''lsp''] categories) ''software-engineering'' result;
          result = add_if (division = ''security'' \<and> shares [''application-security'', ''code-review''] categories)
            ''software-engineering'' result
      in fold (\<lambda>category result. case map_of category_domains category of
           None \<Rightarrow> result | Some promoted \<Rightarrow> add_new promoted result)
         (sorted_list_of_set (set categories)) result)"

definition domains_of :: "(string \<times> pyval) list \<Rightarrow> string \<Rightarrow> string list res" where
  "domains_of record division = (case map_of record ''domains'' of
     Some v \<Rightarrow> contract_items max_taxonomy_items True ''domains'' v
   | None \<Rightarrow>
       bind_res (folded_items (py_get_or record ''categories'' no_items)) (\<lambda>categories.
       bind_res (py_iter (py_get_or record ''capabilities'' no_items)) (\<lambda>capabilities.
       Inr (derived_domains categories (casefold (join '' '' (map py_str capabilities))) division))))"

definition tool_classes_of :: "(string \<times> pyval) list \<Rightarrow> string list" where
  "tool_classes_of record =
     (let raw = py_get_or record ''required_tools'' (py_get_or record ''tool_classes'' no_items);
          values = (case as_sequence raw of None \<Rightarrow> [] | Some xs \<Rightarrow> xs);
          (canonical, unknown) = canonicalize_tool_capabilities values
      in take max_taxonomy_items (canonical @ unknown))"

definition relation_of :: "(string \<times> pyval) list \<Rightarrow> string \<Rightarrow> pyval \<Rightarrow> string list res" where
  "relation_of raw field fallback =
     contract_items max_relationships True (''composition.'' @ field) (py_get_or raw field fallback)"

definition composition_of :: "(string \<times> pyval) list \<Rightarrow> composition_contract res" where
  "composition_of record =
     (let v = py_get_or record ''composition'' (PyDict []) in
      case as_mapping (if v = PyNone then PyDict [] else v) of
        None \<Rightarrow> Inl (ValueError ''workforce composition must be an object'')
      | Some raw \<Rightarrow>
          bind_res (contract_identifier False ''composition.substitution_group''
            (py_get_or raw ''substitution_group'' (PyStr []))) (\<lambda>group.
          bind_res (relation_of raw ''substitutes_for'' no_items) (\<lambda>substitutes.
          bind_res (relation_of raw ''complements'' no_items) (\<lambda>complementary.
          bind_res (relation_of raw ''same_context_conflicts''
            (py_get_or record ''conflicts_with'' no_items)) (\<lambda>conflicts.
          bind_res (relation_of raw ''selection_exclusive'' no_items) (\<lambda>exclusive.
          bind_res (relation_of raw ''requires'' (py_get_or record ''requires'' no_items)) (\<lambda>required.
          bind_res (relation_of raw ''must_follow'' no_items) (\<lambda>follows.
          bind_res (relation_of raw ''must_review_independently'' no_items) (\<lambda>reviews.
          bind_res (contract_identifier False ''composition.independence_class''
            (py_get_or raw ''independence_class'' (py_get_or record ''independence_group'' (PyStr [])))) (\<lambda>independence.
          Inr \<lparr>substitution_group = group, substitutes_for = substitutes, complements = complementary,
            same_context_conflicts = conflicts, selection_exclusive = exclusive, requires_agents = required,
            must_follow = follows, must_review_independently = reviews,
            independence_class = independence\<rparr>))))))))))"


section \<open>Projection\<close>

text \<open>Who the record is about: agent id, authority, context mode, division and archetype.\<close>

definition contract_identity ::
  "(string \<times> pyval) list \<Rightarrow> (string \<times> string \<times> string \<times> string \<times> string) res" where
  "contract_identity record =
     bind_res (contract_identifier True ''agent_id'' (PyStr (agent_identity record))) (\<lambda>agent.
     bind_res (contract_identifier True ''authority'' (py_get record ''authority'')) (\<lambda>rights.
     bind_res (contract_identifier True ''context_mode'' (py_get record ''context_mode'')) (\<lambda>mode.
     bind_res (raise_if (rights \<notin> set contract_authorities)
       (ValueError (''unsupported workforce authority: '' @ rights))) (\<lambda>_.
     bind_res (raise_if (mode \<notin> set contract_context_modes)
       (ValueError (''unsupported workforce context mode: '' @ mode))) (\<lambda>_.
     bind_res (contract_identifier True ''division'' (py_get record ''division'')) (\<lambda>division.
     bind_res (archetype_of agent rights division record) (\<lambda>kind.
     Inr (agent, rights, mode, division, kind))))))))"

text \<open>Whether it works: the enabled flag and the employment state.\<close>

definition contract_standing ::
  "string list \<Rightarrow> (string \<times> pyval) list \<Rightarrow> string \<Rightarrow> (bool \<times> string) res" where
  "contract_standing disabled record agent =
     (case py_get_or record ''enabled'' (PyBool (agent \<notin> set disabled \<or> agent \<in> set residents)) of
        PyBool enabled_value \<Rightarrow>
          let enabled = (enabled_value \<or> agent \<in> set residents) in
          bind_res (contract_identifier True ''employment''
            (py_get_or record ''employment'' (PyStr (if enabled then ''employee'' else ''disabled'')))) (\<lambda>state.
          bind_res (raise_if (state \<notin> set employment_states)
            (ValueError (''unsupported workforce employment state: '' @ state))) (\<lambda>_.
          bind_res (raise_if (enabled \<noteq> (state \<in> {''contractor'', ''employee''}))
            (ValueError ''workforce employment must agree with enabled state'')) (\<lambda>_.
          Inr (enabled, state))))
      | _ \<Rightarrow> Inl (ValueError ''workforce enabled must be a boolean''))"

text \<open>Where it runs, and its audit status.\<close>

definition contract_reach ::
  "(string \<times> pyval) list \<Rightarrow> (string list \<times> string list \<times> string) res" where
  "contract_reach record =
     bind_res (contract_items max_taxonomy_items True ''hosts''
       (py_get_or record ''supported_hosts'' no_items)) (\<lambda>host_ids.
     bind_res (contract_items max_taxonomy_items True ''platforms''
       (py_get_or record ''supported_platforms'' no_items)) (\<lambda>platform_ids.
     bind_res (raise_if (host_ids = [] \<or> \<not> set host_ids \<subseteq> set contract_hosts)
       (ValueError ''workforce hosts must be non-empty supported host identifiers'')) (\<lambda>_.
     bind_res (raise_if (platform_ids = [] \<or> \<not> set platform_ids \<subseteq> set contract_platforms)
       (ValueError ''workforce platforms must be non-empty supported platform identifiers'')) (\<lambda>_.
     bind_res (contract_identifier True ''audit.status'' (py_get record ''audit_status'')) (\<lambda>status.
     bind_res (raise_if (status \<notin> set audit_states)
       (ValueError (''unsupported workforce audit status: '' @ status))) (\<lambda>_.
     Inr (host_ids, platform_ids, status)))))))"

text \<open>What it can do: artifact kinds, origin and capability ids.\<close>

definition contract_abilities ::
  "string \<Rightarrow> (string \<times> pyval) list \<Rightarrow> string \<Rightarrow> (string list \<times> string \<times> string list) res" where
  "contract_abilities given_origin record kind =
     bind_res (artifact_kinds_of record kind) (\<lambda>kinds.
     bind_res (contract_identifier True ''origin'' (py_get_or record ''origin'' (PyStr given_origin))) (\<lambda>source.
     bind_res (normalize_capability_ids
       (py_get_or record ''capability_ids'' (py_get_or record ''task_types'' no_items)) kinds kind) (\<lambda>abilities.
     bind_res (raise_if (source \<noteq> ''agency'' \<and> \<not> set abilities \<subseteq> set core_capability_ids)
       (ValueError (''external workforce capability ids require ontology review: ''
          @ join '','' (sorted_list_of_set (set abilities - set core_capability_ids))))) (\<lambda>_.
     Inr (kinds, source, abilities)))))"

text \<open>The arguments of the constructor, in the order they are evaluated. The default of
  \<open>worker_id\<close> is computed whether or not it is used.\<close>

definition contract_record ::
  "(string \<times> pyval) list \<Rightarrow> (string \<times> string \<times> string \<times> string \<times> string) \<Rightarrow> (bool \<times> string)
     \<Rightarrow> (string list \<times> string list \<times> string) \<Rightarrow> (string list \<times> string \<times> string list)
     \<Rightarrow> workforce_contract res" where
  "contract_record record identity standing reach abilities =
     (case identity of (agent, rights, mode, division, kind) \<Rightarrow> case standing of (active, state) \<Rightarrow>
      case reach of (host_ids, platform_ids, status) \<Rightarrow> case abilities of (kinds, source, capable) \<Rightarrow>
      bind_res (stable_worker_id (PyStr agent)) (\<lambda>stable.
      bind_res (contract_identifier True ''worker_id'' (py_get_or record ''worker_id'' (PyStr stable))) (\<lambda>worker.
      bind_res (contract_text 128 ''display_name''
        (py_or (py_or (py_get record ''name'') (py_get record ''display_name'')) (PyStr agent))) (\<lambda>shown.
      bind_res (explicit_items max_outcomes False record ''outcomes''
        (py_get_or record ''capabilities'' no_items)) (\<lambda>outcome_texts.
      bind_res (lifecycle_phases_of record kind) (\<lambda>phases.
      bind_res (domains_of record division) (\<lambda>subjects.
      bind_res (explicit_items max_taxonomy_items True record ''stacks'' no_items) (\<lambda>stack_ids.
      bind_res (explicit_items 4 False record ''scope_qualifiers''
        (py_get_or record ''preferred_when'' no_items)) (\<lambda>qualifiers.
      bind_res (explicit_items 4 False record ''not_for'' (py_get_or record ''avoid_when'' no_items)) (\<lambda>excluded.
      bind_res (composition_of record) (\<lambda>relations.
      bind_res (contract_text 32 ''audit.revision'' (py_get record ''audit_revision'')) (\<lambda>revision.
      bind_res (contract_text 96 ''version'' (py_get record ''version'')) (\<lambda>release.
      bind_res (content_hash (py_or (py_or (py_or (py_get record ''version_hash'') (py_get record ''hash''))
        (py_get record ''prompt_hash'')) (py_get record ''source_content_hash''))) (\<lambda>digest.
      Inr \<lparr>contract_schema = contract_schema_version, worker_id = worker, agent_id = agent,
        display_name = shown, archetype = kind, outcomes = outcome_texts, capability_ids = capable,
        artifact_kinds = kinds, lifecycle_phases = phases, domains = subjects, stacks = stack_ids,
        scope_qualifiers = qualifiers, not_for = excluded, authority = rights, context_mode = mode,
        tool_classes = tool_classes_of record, hosts = host_ids, platforms = platform_ids,
        composition = relations,
        audit = \<lparr>audit_status = status, audit_revision = revision,
          contract_valid = truthy (py_get_or record ''routing_contract_valid'' (PyBool True))\<rparr>,
        version = release, version_hash = digest, enabled = active, employment = state,
        origin = source\<rparr>))))))))))))))"

definition check_contract :: "workforce_contract \<Rightarrow> unit res" where
  "check_contract c =
     (if outcomes c = [] then Inl (ValueError ''workforce outcomes must not be empty'')
      else if hosts c = [] \<or> platforms c = []
      then Inl (ValueError ''workforce hosts and platforms must not be empty'')
      else if audit_revision (audit c) = [] \<or> version c = []
      then Inl (ValueError ''workforce audit revision and version must not be empty'')
      else if length (canonical_json c) > max_contract_bytes
      then Inl (ValueError (''workforce contract exceeds '' @ show_nat max_contract_bytes @ '' bytes''))
      else Inr ())"

definition project_workforce_contract ::
  "string list \<Rightarrow> string \<Rightarrow> (string \<times> pyval) list \<Rightarrow> workforce_contract res" where
  "project_workforce_contract disabled given_origin record =
     bind_res (contract_identity record) (\<lambda>identity.
     bind_res (contract_standing disabled record (fst identity)) (\<lambda>standing.
     bind_res (contract_reach record) (\<lambda>reach.
     bind_res (contract_abilities given_origin record (snd (snd (snd (snd identity))))) (\<lambda>abilities.
     bind_res (contract_record record identity standing reach abilities) (\<lambda>c.
     bind_res (check_contract c) (\<lambda>_. Inr c))))))"


section \<open>Reading a stored contract\<close>

definition composition_field_names :: "string list" where
  "composition_field_names = [''substitution_group'', ''substitutes_for'', ''complements'',
     ''same_context_conflicts'', ''selection_exclusive'', ''requires'', ''must_follow'',
     ''must_review_independently'', ''independence_class'']"

definition audit_field_names :: "string list" where
  "audit_field_names = [''status'', ''revision'', ''contract_valid'']"

definition contract_field_names :: "string list" where
  "contract_field_names = [''schema_version'', ''worker_id'', ''agent_id'', ''display_name'', ''archetype'',
     ''outcomes'', ''capability_ids'', ''artifact_kinds'', ''lifecycle_phases'', ''domains'', ''stacks'',
     ''scope_qualifiers'', ''not_for'', ''authority'', ''context_mode'', ''tool_classes'', ''hosts'',
     ''platforms'', ''composition'', ''audit'', ''version'', ''version_hash'', ''enabled'', ''employment'',
     ''origin'']"

text \<open>\<open>tuple(document.get("artifact_kinds") or ())\<close>\<close>

definition stored_items :: "(string \<times> pyval) list \<Rightarrow> pyval list res" where
  "stored_items document = py_iter (py_or (py_get document ''artifact_kinds'') no_items)"

definition upgrade_document :: "(string \<times> pyval) list \<Rightarrow> (string \<times> pyval) list res" where
  "upgrade_document document =
     (if fst ` set document = set contract_field_names - {''capability_ids''}
         \<and> py_str_eq (py_get document ''schema_version'') ''1''
      then bind_res (stored_items document) (\<lambda>kinds.
        bind_res (normalize_capability_ids no_items (map py_str kinds)
          (str_or_empty (py_get document ''archetype''))) (\<lambda>ids.
        Inr (AList.update ''capability_ids'' (PyTuple (map PyStr ids))
          (AList.update ''schema_version'' (PyStr contract_schema_version) document))))
      else Inr document)"

definition mapping_with :: "pyval \<Rightarrow> string list \<Rightarrow> py_error \<Rightarrow> (string \<times> pyval) list res" where
  "mapping_with v names e = (case as_mapping v of
     Some d \<Rightarrow> if fst ` set d = set names then Inr d else Inl e
   | None \<Rightarrow> Inl e)"

definition projection_source ::
  "(string \<times> pyval) list \<Rightarrow> (string \<times> pyval) list \<Rightarrow> (string \<times> pyval) list \<Rightarrow> (string \<times> pyval) list" where
  "projection_source document relations review =
     [(''slug'', py_get document ''agent_id''), (''worker_id'', py_get document ''worker_id''),
      (''display_name'', py_get document ''display_name''), (''division'', PyStr ''specialized''),
      (''archetype'', py_get document ''archetype''), (''outcomes'', py_get document ''outcomes''),
      (''capability_ids'', py_get document ''capability_ids''),
      (''lifecycle_phases'', py_get document ''lifecycle_phases''),
      (''domains'', py_get document ''domains''), (''stacks'', py_get document ''stacks''),
      (''scope_qualifiers'', py_get document ''scope_qualifiers''),
      (''not_for'', py_get document ''not_for''), (''authority'', py_get document ''authority''),
      (''context_mode'', py_get document ''context_mode''),
      (''tool_classes'', py_get document ''tool_classes''),
      (''supported_hosts'', py_get document ''hosts''),
      (''supported_platforms'', py_get document ''platforms''), (''composition'', PyDict relations),
      (''audit_status'', py_get review ''status''), (''audit_revision'', py_get review ''revision''),
      (''routing_contract_valid'', py_get review ''contract_valid''),
      (''version'', py_get document ''version''), (''version_hash'', py_get document ''version_hash''),
      (''enabled'', py_get document ''enabled''), (''employment'', py_get document ''employment''),
      (''origin'', py_get document ''origin'')]"

definition stored_kind :: "pyval \<Rightarrow> string" where
  "stored_kind v = replace_char (CHR ''_'') (CHR ''-'') (py_str v)"

definition parse_workforce_contract :: "pyval \<Rightarrow> workforce_contract res" where
  "parse_workforce_contract v = (case as_mapping v of
     None \<Rightarrow> Inl (ValueError ''stored workforce contract must be an object'')
   | Some given \<Rightarrow>
       bind_res (upgrade_document given) (\<lambda>document.
       bind_res (raise_if (fst ` set document \<noteq> set contract_field_names)
         (ValueError ''stored workforce contract has an unsupported shape'')) (\<lambda>_.
       bind_res (mapping_with (py_get document ''composition'') composition_field_names
         (ValueError ''stored workforce composition has an unsupported shape'')) (\<lambda>relations.
       bind_res (mapping_with (py_get document ''audit'') audit_field_names
         (ValueError ''stored workforce audit has an unsupported shape'')) (\<lambda>review.
       bind_res (stored_items document) (\<lambda>items.
       let kinds = map stored_kind items;
           source = projection_source document relations review @
             (if list_ex (\<lambda>k. map_of artifact_capabilities k \<noteq> None) kinds
              then [(''artifact_kinds'', PyList (map PyStr kinds))] else []) in
       bind_res (project_workforce_contract [] (py_str (py_get document ''origin'')) source) (\<lambda>projected.
       bind_res (raise_if (\<not> py_str_eq (py_get document ''schema_version'') (contract_schema projected))
         (ValueError ''stored workforce contract schema_version is unsupported'')) (\<lambda>_.
       Inr projected))))))))"

end
