(* ===== verification/Contract_Ok.thy ===== *)
theory Contract_Ok
  imports Contract_Project
begin

text \<open>
  What every projected contract satisfies (\<open>contract_ok\<close>), field by field: each group of fields
  has a predicate, a lemma that the code's derivation establishes it, and a lemma that reading
  the stored field gives the field back.
\<close>

named_theorems contract_back "reading a stored field gives the field back"

section \<open>Capability ids\<close>

definition settled_capability :: "string \<Rightarrow> bool" where
  "settled_capability s = (is_capability_id s \<and> map_of capability_aliases s = None)"

definition archetype_default :: "string \<Rightarrow> string option" where
  "archetype_default kind = map_of [(''writer'', ''documentation''), (''tester'', ''testing''),
     (''resident-manager'', ''coordination'')] kind"

definition capabilities_ok :: "string list \<Rightarrow> string \<Rightarrow> string list \<Rightarrow> bool" where
  "capabilities_ok kinds kind ids = (distinct ids \<and> list_all settled_capability ids \<and> ids \<noteq> []
     \<and> length ids \<le> max_capability_ids
     \<and> (\<forall>k\<in>set kinds. \<forall>c. map_of artifact_capabilities (casefold k) = Some c \<longrightarrow> c \<in> set ids)
     \<and> (\<forall>c. archetype_default kind = Some c \<longrightarrow> c \<in> set ids))"

lemma add_archetype_default_alt:
  "add_archetype_default kind ids = (case archetype_default kind of None \<Rightarrow> ids | Some c \<Rightarrow> add_new c ids)"
  by (simp add: add_archetype_default_def archetype_default_def)

lemma table_all: "map_of t k = Some d \<Longrightarrow> list_all (\<lambda>(k, d). P d) t \<Longrightarrow> P d"
  by (auto simp: list_all_iff dest!: map_of_SomeD)

lemma settled_tables:
  "list_all (\<lambda>(k, c). settled_capability c) capability_aliases"
  "list_all (\<lambda>(k, c). settled_capability c) artifact_capabilities"
  "list_all (\<lambda>(k, c). settled_capability c) [(''writer'', ''documentation''), (''tester'', ''testing''),
     (''resident-manager'', ''coordination'')]"
  by code_simp+

lemma capability_aliases_settled: "map_of capability_aliases k = Some c \<Longrightarrow> settled_capability c"
  by (rule table_all [OF _ settled_tables(1)])

lemma artifact_capabilities_settled: "map_of artifact_capabilities k = Some c \<Longrightarrow> settled_capability c"
  by (rule table_all [OF _ settled_tables(2)])

lemma archetype_default_settled: "archetype_default k = Some c \<Longrightarrow> settled_capability c"
  unfolding archetype_default_def by (rule table_all [OF _ settled_tables(3)])

lemma is_alnum_ident: "is_alnum c \<Longrightarrow> ident_char c \<and> c \<noteq> CHR ''_''"
  by (auto simp: ident_char_def) (simp add: is_alnum_def is_lower_def is_digit_def)

lemma normalize_capability_settled: "normalize_capability_id v = Inr c \<Longrightarrow> settled_capability c"
proof -
  assume *: "normalize_capability_id v = Inr c"
  define t where "t = replace_char (CHR ''_'') (CHR ''-'') (casefold (strip (str_or_empty v)))"
  have "c = get_or capability_aliases t t" and "is_capability_id c"
    using * by (auto simp: normalize_capability_id_def Let_def t_def split: if_splits)
  then show ?thesis
    using capability_aliases_settled [of t]
    by (cases "map_of capability_aliases t") (auto simp: get_or_def settled_capability_def)
qed

lemma dash_ident: "ident_char (CHR ''-'') \<and> CHR ''-'' \<noteq> CHR ''_''"
  by (simp add: ident_char_def)

lemma capability_chars: "is_capability_id s \<Longrightarrow> list_all (\<lambda>c. ident_char c \<and> c \<noteq> CHR ''_'') s"
proof (cases s)
  case (Cons c cs)
  assume "is_capability_id s"
  with Cons have "is_alnum c" "\<forall>d\<in>set cs. is_alnum d \<or> d = CHR ''-''"
    by (simp_all add: is_capability_id_def list_all_iff)
  have "ident_char d \<and> d \<noteq> CHR ''_''" if d: "d \<in> set s" for d
  proof -
    consider "is_alnum d" | "d = CHR ''-''"
      using d \<open>is_alnum c\<close> \<open>\<forall>d\<in>set cs. is_alnum d \<or> d = CHR ''-''\<close> Cons by auto
    then show ?thesis by cases (use is_alnum_ident dash_ident in blast)+
  qed
  then show ?thesis by (simp add: list_all_iff)
qed (simp add: is_capability_id_def)

lemma replace_char_absent: "a \<notin> set s \<Longrightarrow> replace_char a b s = s"
  by (induction s) (auto simp: replace_char_def)

lemma normalize_settled: "settled_capability s \<Longrightarrow> normalize_capability_id (PyStr s) = Inr s"
proof -
  assume *: "settled_capability s"
  then have chars: "list_all (\<lambda>c. ident_char c \<and> c \<noteq> CHR ''_'') s"
    by (simp add: settled_capability_def capability_chars)
  have "casefold s = s" by (rule casefold_chars) (use chars in \<open>simp add: list_all_iff\<close>)
  moreover have "strip s = s" by (rule strip_word) (use chars in \<open>simp add: list_all_iff\<close>)
  moreover have "replace_char (CHR ''_'') (CHR ''-'') s = s"
    by (rule replace_char_absent) (use chars in \<open>fastforce simp: list_all_iff\<close>)
  ultimately show ?thesis using * by (simp add: normalize_capability_id_def settled_capability_def get_or_def)
qed

lemma add_normalized_settled:
  "add_normalized acc raws = Inr ys \<Longrightarrow> distinct acc \<Longrightarrow> list_all settled_capability acc \<Longrightarrow>
     distinct ys \<and> list_all settled_capability ys"
proof (induction acc raws rule: add_normalized.induct)
  case (2 acc raw rest)
  then obtain item where item: "normalize_capability_id raw = Inr item"
    and rest: "add_normalized (add_new item acc) rest = Inr ys"
    by (auto simp: res_simps)
  then show ?case
    using 2 normalize_capability_settled [OF item] by (auto simp: list_all_iff)
qed simp

lemma add_normalized_back:
  "distinct (acc @ ids) \<Longrightarrow> list_all settled_capability ids \<Longrightarrow>
     add_normalized acc (map PyStr ids) = Inr (acc @ ids)"
  by (induction ids arbitrary: acc) (auto simp: normalize_settled add_new_def)

lemma add_artifact_defaults_settled:
  "distinct ids \<Longrightarrow> list_all settled_capability ids \<Longrightarrow>
     distinct (add_artifact_defaults kinds ids) \<and> list_all settled_capability (add_artifact_defaults kinds ids)
     \<and> (\<forall>k\<in>set kinds. \<forall>c. map_of artifact_capabilities (casefold k) = Some c
          \<longrightarrow> c \<in> set (add_artifact_defaults kinds ids))"
proof (induction kinds arbitrary: ids)
  case Nil
  then show ?case by (simp add: add_artifact_defaults_def)
next
  case (Cons k kinds)
  show ?case
  proof (cases "map_of artifact_capabilities (casefold k)")
    case None
    with Cons show ?thesis by (simp add: add_artifact_defaults_def)
  next
    case (Some c)
    let ?ids = "add_new c ids"
    have settled: "distinct ?ids" "list_all settled_capability ?ids"
      using Cons.prems artifact_capabilities_settled [OF Some] by (auto simp: list_all_iff)
    then have "list_all is_capability_id ?ids" by (simp add: list_all_iff settled_capability_def)
    then have "c \<in> set (add_artifact_defaults kinds ?ids)"
      using settled(1) add_artifact_defaults_ok [of ?ids kinds] by auto
    moreover have "add_artifact_defaults (k # kinds) ids = add_artifact_defaults kinds ?ids"
      using Some by (simp add: add_artifact_defaults_def)
    ultimately show ?thesis using Cons.IH [OF settled] Some by simp
  qed
qed

lemma add_artifact_defaults_back:
  "\<forall>k\<in>set kinds. \<forall>c. map_of artifact_capabilities (casefold k) = Some c \<longrightarrow> c \<in> set ids \<Longrightarrow>
     add_artifact_defaults kinds ids = ids"
  by (induction kinds) (auto simp: add_artifact_defaults_def add_new_def split: option.splits)

lemma normalize_ids_ok:
  assumes "normalize_capability_ids v kinds kind = Inr ids"
  shows "capabilities_ok kinds kind ids"
proof -
  obtain raws where "(if v = PyNone then Some [] else as_sequence v) = Some raws"
    using assms by (cases "if v = PyNone then Some [] else as_sequence v")
      (auto simp: normalize_capability_ids_def)
  then obtain named where named: "add_normalized [] raws = Inr named"
    and ids: "ids = add_archetype_default kind (add_artifact_defaults kinds named)"
    and len: "ids \<noteq> []" "length ids \<le> max_capability_ids"
    using assms by (simp add: normalize_capability_ids_def res_simps Let_def split: if_splits)
  have "distinct named" "list_all settled_capability named"
    using add_normalized_settled [OF named] by simp_all
  then show ?thesis
    using len add_artifact_defaults_settled [of named kinds] archetype_default_settled [of kind]
    by (auto simp: capabilities_ok_def ids add_archetype_default_alt list_all_iff split: option.splits)
qed

lemma normalize_ids_back [contract_back]:
  "capabilities_ok kinds kind ids \<Longrightarrow> normalize_capability_ids (PyList (map PyStr ids)) kinds kind = Inr ids"
  using add_normalized_back [of "[]" ids]
  by (auto simp: normalize_capability_ids_def capabilities_ok_def add_artifact_defaults_back
      add_archetype_default_alt add_new_def Let_def split: option.splits)


section \<open>Artifact kinds\<close>

definition kind_ok :: "string \<Rightarrow> bool" where
  "kind_ok k = (is_identifier k \<and> CHR ''_'' \<notin> set k)"

definition kinds_ok :: "string list \<Rightarrow> bool" where
  "kinds_ok ks = (distinct ks \<and> length ks \<le> max_taxonomy_items \<and> list_all kind_ok ks
     \<and> list_ex (\<lambda>k. map_of artifact_capabilities k \<noteq> None) ks)"

lemma replace_char_kind: "is_identifier s \<Longrightarrow> kind_ok (replace_char (CHR ''_'') (CHR ''-'') s)"
proof (cases s)
  case (Cons c cs)
  assume "is_identifier s"
  with Cons have "is_alnum c" "list_all ident_char cs" "length cs \<le> 127" by (simp_all add: is_identifier_def)
  moreover have "ident_char (CHR ''-'')" by (simp add: ident_char_def)
  ultimately show ?thesis
    using is_alnum_ident [of c] Cons
    by (auto simp: kind_ok_def is_identifier_def replace_char_def list_all_iff)
qed (simp add: is_identifier_def)

lemma explicit_kinds_ok: "explicit_kinds v = Inr ks \<Longrightarrow> kinds_ok ks"
proof -
  assume "explicit_kinds v = Inr ks"
  then obtain items where items: "contract_items max_taxonomy_items True ''artifact_kinds'' v = Inr items"
    and ks: "ks = fromkeys (map (replace_char (CHR ''_'') (CHR ''-'')) items)"
    and ex: "list_ex (\<lambda>k. map_of artifact_capabilities k \<noteq> None) ks"
    by (auto simp: explicit_kinds_def res_simps Let_def split: if_splits)
  have ok: "length items \<le> max_taxonomy_items" "\<forall>i\<in>set items. is_identifier i"
    using contract_items_ok [OF items] by (auto simp: contract_items_ok_def item_ok_def list_all_iff)
  have "length ks \<le> length items"
    unfolding ks by (metis distinct_card distinct_fromkeys set_fromkeys card_length length_map)
  then show ?thesis
    using ok ex by (auto simp: kinds_ok_def ks list_all_iff replace_char_kind)
qed

lemma explicit_kinds_back [contract_back]:
  assumes "kinds_ok ks"
  shows "explicit_kinds (PyList (map PyStr ks)) = Inr ks"
proof -
  have items: "contract_items_ok max_taxonomy_items True ks"
    using assms by (auto simp: kinds_ok_def contract_items_ok_def item_ok_def kind_ok_def list_all_iff)
  have "map (replace_char (CHR ''_'') (CHR ''-'')) ks = ks"
    using assms by (auto simp: kinds_ok_def kind_ok_def list_all_iff replace_char_absent intro: map_idI)
  then show ?thesis
    using assms contract_items_PyList [OF items]
    by (auto simp: explicit_kinds_def kinds_ok_def fromkeys_distinct)
qed

lemma append_if_subset: "set xs \<subseteq> A \<Longrightarrow> x \<in> A \<Longrightarrow> set (append_if b x xs) \<subseteq> A"
  by (simp add: append_if_def)

lemma append_if_Nil: "append_if (xs = []) x xs \<noteq> []"
  by (simp add: append_if_def)

lemma derived_kinds_ok: "kinds_ok (derived_kinds tasks rights kind)"
proof -
  let ?vocabulary = "map fst artifact_capabilities"
  define ks where "ks = derived_kinds tasks rights kind"
  have sub: "set ks \<subseteq> set ?vocabulary"
    unfolding ks_def derived_kinds_def Let_def set_fromkeys
    by (intro append_if_subset) (simp_all add: artifact_capabilities_def)
  have ne: "ks \<noteq> []"
    unfolding ks_def derived_kinds_def Let_def fromkeys_Nil_iff by (rule append_if_Nil)
  have "distinct ks" by (simp add: ks_def derived_kinds_def Let_def)
  then have "length ks \<le> length ?vocabulary"
    using sub by (metis card_mono card_length distinct_card finite_set order_trans)
  moreover have "length ?vocabulary = max_taxonomy_items"
    by (simp add: artifact_capabilities_def max_taxonomy_items_def)
  moreover have "list_all (\<lambda>k. kind_ok k \<and> map_of artifact_capabilities k \<noteq> None) ?vocabulary"
    by code_simp
  ultimately show ?thesis
    using sub ne \<open>distinct ks\<close> unfolding kinds_ok_def ks_def [symmetric]
    by (cases ks) (auto simp: list_all_iff list_ex_iff)
qed

lemma artifact_kinds_ok: "artifact_kinds_of record kind = Inr ks \<Longrightarrow> kinds_ok ks"
  by (auto simp: artifact_kinds_of_def res_simps derived_kinds_ok dest: explicit_kinds_ok split: option.splits)


section \<open>Phases, domains and tools\<close>

lemma contract_items_ids: "contract_items_ok m True xs \<longleftrightarrow> distinct xs \<and> length xs \<le> m \<and> list_all is_identifier xs"
  by (simp add: contract_items_ok_def item_ok_def cong: list.pred_cong)

definition phase_names :: "string list" where
  "phase_names = [''discovery'', ''planning'', ''design'', ''implementation'', ''review'', ''testing'',
     ''documentation'', ''coordination'']"

lemma phase_table: "list_all (\<lambda>(k, p). p \<in> set phase_names) phase_of_task" "list_all is_identifier phase_names"
  by code_simp+

lemma insert_if_subset: "set xs \<subseteq> A \<Longrightarrow> x \<in> A \<Longrightarrow> set (insert_if b x xs) \<subseteq> A"
  by (simp add: insert_if_def)

lemma phases_of_tasks: "set (List.map_filter (map_of phase_of_task) ts) \<subseteq> set phase_names"
  using table_all [OF _ phase_table(1)] by (fastforce simp: map_filter_def)

lemma lifecycle_phases_ok:
  assumes "lifecycle_phases_of record kind = Inr ps"
  shows "contract_items_ok max_taxonomy_items True ps"
proof (cases "map_of record ''lifecycle_phases''")
  case (Some v)
  with assms show ?thesis by (simp add: lifecycle_phases_of_def contract_items_ok)
next
  case None
  then obtain tasks b1 b2 b3 b4 base where ps: "ps = (if base = [] then [''discovery''] else fromkeys base)"
    and base: "base = insert_if b1 ''coordination'' (insert_if b2 ''design'' (insert_if b3 ''testing''
      (insert_if b4 ''documentation'' (List.map_filter (map_of phase_of_task) tasks))))"
    using assms by (auto simp only: lifecycle_phases_of_def bind_res_Inr_iff Let_def option.case sum.inject)
  have "set base \<subseteq> set phase_names"
    unfolding base by (intro insert_if_subset phases_of_tasks) (simp_all add: phase_names_def)
  then have sub: "set ps \<subseteq> set phase_names" and dist: "distinct ps" by (auto simp: ps phase_names_def)
  then have "length ps \<le> length phase_names"
    by (metis card_mono card_length distinct_card finite_set order_trans)
  also have "\<dots> = max_taxonomy_items" by (simp add: phase_names_def max_taxonomy_items_def)
  finally show ?thesis
    using sub dist phase_table(2) by (auto simp: contract_items_ids list_all_iff)
qed

lemma tables_identifiers:
  "list_all (\<lambda>(k, d). is_identifier d) division_domains" "list_all (\<lambda>(k, d). is_identifier d) category_domains"
  by code_simp+

definition subjects_ok :: "string list \<Rightarrow> bool" where
  "subjects_ok xs = (distinct xs \<and> list_all is_identifier xs)"

lemma subjects_ok_add: "subjects_ok xs \<Longrightarrow> is_identifier x \<Longrightarrow> subjects_ok (add_new x xs)"
  by (auto simp: subjects_ok_def add_new_def)

lemma subjects_ok_add_if: "subjects_ok xs \<Longrightarrow> is_identifier x \<Longrightarrow> subjects_ok (add_if b x xs)"
  by (simp add: add_if_def subjects_ok_add)

lemma subject_names:
  "list_all is_identifier [''security'', ''quality-assurance'', ''accessibility'', ''finance'', ''software-engineering'']"
  by code_simp

lemma derived_domains_ok:
  assumes "is_identifier division"
  shows "subjects_ok (derived_domains categories owned division)"
proof -
  note table = table_all [where P = is_identifier]
  have fold: "subjects_ok xs \<Longrightarrow> subjects_ok (fold (\<lambda>category result. case map_of category_domains category of
      None \<Rightarrow> result | Some promoted \<Rightarrow> add_new promoted result) cs xs)" for cs xs
    by (induction cs arbitrary: xs)
      (auto simp: subjects_ok_add table [OF _ tables_identifiers(2)] split: option.splits)
  have "is_identifier (get_or division_domains division (if division = [] then ''specialist-services'' else division))"
    using assms table [OF _ tables_identifiers(1)] by (auto simp: get_or_def split: option.splits)
  then have "subjects_ok [get_or division_domains division (if division = [] then ''specialist-services'' else division)]"
    by (simp add: subjects_ok_def)
  then show ?thesis
    using subject_names unfolding derived_domains_def Let_def
    by (intro fold subjects_ok_add_if) simp_all
qed

lemma domains_ok:
  "domains_of record division = Inr ds \<Longrightarrow> is_identifier division \<Longrightarrow> subjects_ok ds"
  by (auto simp: domains_of_def res_simps derived_domains_ok subjects_ok_def contract_items_ids
      dest!: contract_items_ok split: option.splits)
    (use derived_domains_ok in \<open>auto simp: subjects_ok_def\<close>)

definition tools_ok :: "string list \<Rightarrow> bool" where
  "tools_ok ts = (length ts \<le> max_taxonomy_items \<and> (\<exists>cs us. ts = cs @ us \<and> sorted cs \<and> distinct cs
     \<and> list_all known_tool cs \<and> sorted us \<and> distinct us \<and> list_all unknown_tool us))"

lemma tool_classes_ok: "tools_ok (tool_classes_of record)"
proof -
  obtain cs us where c: "canonicalize_tool_capabilities
      (case as_sequence (py_get_or record ''required_tools'' (py_get_or record ''tool_classes'' no_items)) of
        None \<Rightarrow> [] | Some xs \<Rightarrow> xs) = (cs, us)" by fastforce
  let ?n = max_taxonomy_items
  have "tool_classes_of record = take ?n cs @ take (?n - length cs) us"
    using c by (simp add: tool_classes_of_def Let_def)
  moreover have "sorted (take ?n cs) \<and> distinct (take ?n cs) \<and> list_all known_tool (take ?n cs)
      \<and> sorted (take (?n - length cs) us) \<and> distinct (take (?n - length cs) us)
      \<and> list_all unknown_tool (take (?n - length cs) us)"
    using canonicalize_ok [OF c] by (auto simp: list_all_iff sorted_wrt_take dest: in_set_takeD)
  moreover have "length (take ?n cs @ take (?n - length cs) us) \<le> ?n" by simp
  ultimately show ?thesis unfolding tools_ok_def by metis
qed

lemma tool_classes_back:
  assumes "tools_ok ts" and "map_of record ''required_tools'' = None"
    and "map_of record ''tool_classes'' = Some (PyList (map PyStr ts))"
  shows "tool_classes_of record = ts"
proof -
  obtain cs us where ts: "ts = cs @ us" "sorted cs" "distinct cs" "list_all known_tool cs" "sorted us"
      "distinct us" "list_all unknown_tool us" and len: "length ts \<le> max_taxonomy_items"
    using assms(1) by (auto simp: tools_ok_def)
  then have "length cs + length us \<le> max_tool_capabilities"
    by (simp add: max_taxonomy_items_def max_tool_capabilities_def)
  then have "canonicalize_tool_capabilities (map PyStr (cs @ us)) = (cs, us)"
    using ts by (intro canonicalize_again) simp_all
  then show ?thesis
    using assms(2,3) ts(1) len by (simp add: tool_classes_of_def py_get_or_def)
qed

end
