(* ===== verification/Contract_Roundtrip.thy ===== *)
theory Contract_Roundtrip
  imports Contract_Ok
begin

text \<open>
  The invariant of recruitment contracts: every projected contract satisfies \<open>contract_ok\<close>, and a
  contract that does is read back from its stored form, stage by stage of the projection.
\<close>

section \<open>Relationships\<close>

definition optional_id :: "string \<Rightarrow> bool" where
  "optional_id s = (s = [] \<or> is_identifier s)"

definition relations_ok :: "composition_contract \<Rightarrow> bool" where
  "relations_ok r = (optional_id (substitution_group r) \<and> optional_id (independence_class r)
     \<and> list_all (\<lambda>(field, targets). contract_items_ok max_relationships True targets) (relationship_fields r))"

definition strings_value :: "string list \<Rightarrow> pyval" where
  "strings_value xs = PyList (map PyStr xs)"

definition relations_value :: "composition_contract \<Rightarrow> (string \<times> pyval) list" where
  "relations_value r =
     [(''substitution_group'', PyStr (substitution_group r)),
      (''substitutes_for'', strings_value (substitutes_for r)),
      (''complements'', strings_value (complements r)),
      (''same_context_conflicts'', strings_value (same_context_conflicts r)),
      (''selection_exclusive'', strings_value (selection_exclusive r)),
      (''requires'', strings_value (requires_agents r)), (''must_follow'', strings_value (must_follow r)),
      (''must_review_independently'', strings_value (must_review_independently r)),
      (''independence_class'', PyStr (independence_class r))]"

definition review_value :: "audit_contract \<Rightarrow> (string \<times> pyval) list" where
  "review_value a = [(''status'', PyStr (audit_status a)), (''revision'', PyStr (audit_revision a)),
     (''contract_valid'', PyBool (contract_valid a))]"

text \<open>The value a stored contract is loaded as\<close>

definition contract_value :: "workforce_contract \<Rightarrow> pyval" where
  "contract_value c = json_value (contract_json c)"

definition contract_entries :: "workforce_contract \<Rightarrow> (string \<times> pyval) list" where
  "contract_entries c =
     [(''schema_version'', PyStr (contract_schema c)), (''worker_id'', PyStr (worker_id c)),
      (''agent_id'', PyStr (agent_id c)), (''display_name'', PyStr (display_name c)),
      (''archetype'', PyStr (archetype c)), (''outcomes'', strings_value (outcomes c)),
      (''capability_ids'', strings_value (capability_ids c)),
      (''artifact_kinds'', strings_value (artifact_kinds c)),
      (''lifecycle_phases'', strings_value (lifecycle_phases c)),
      (''domains'', strings_value (domains c)), (''stacks'', strings_value (stacks c)),
      (''scope_qualifiers'', strings_value (scope_qualifiers c)),
      (''not_for'', strings_value (not_for c)), (''authority'', PyStr (authority c)),
      (''context_mode'', PyStr (context_mode c)), (''tool_classes'', strings_value (tool_classes c)),
      (''hosts'', strings_value (hosts c)), (''platforms'', strings_value (platforms c)),
      (''composition'', PyDict (relations_value (composition c))), (''audit'', PyDict (review_value (audit c))),
      (''version'', PyStr (version c)), (''version_hash'', PyStr (version_hash c)),
      (''enabled'', PyBool (enabled c)), (''employment'', PyStr (employment c)),
      (''origin'', PyStr (origin c))]"

lemma contract_value_entries: "contract_value c = PyDict (contract_entries c)"
  by (simp add: contract_value_def contract_json_def contract_entries_def strings_json_def strings_value_def
      composition_json_def relations_value_def audit_json_def review_value_def)

lemma optional_id_back [contract_back]:
  "optional_id s \<Longrightarrow> contract_identifier False field (PyStr s) = Inr s"
  by (auto simp: optional_id_def field_simps)

lemma items_back [contract_back]:
  "contract_items_ok m ids xs \<Longrightarrow> contract_items m ids field (strings_value xs) = Inr xs"
  by (simp add: strings_value_def field_simps)

lemma composition_ok: "composition_of record = Inr r \<Longrightarrow> relations_ok r"
  by (auto simp: composition_of_def relation_of_def res_simps relations_ok_def relationship_fields_def
      optional_id_def Let_def dest: contract_items_ok contract_identifier_optional split: option.splits)

lemma relations_value_get:
  "map_of (relations_value r) ''substitution_group'' = Some (PyStr (substitution_group r))"
  "map_of (relations_value r) ''substitutes_for'' = Some (strings_value (substitutes_for r))"
  "map_of (relations_value r) ''complements'' = Some (strings_value (complements r))"
  "map_of (relations_value r) ''same_context_conflicts'' = Some (strings_value (same_context_conflicts r))"
  "map_of (relations_value r) ''selection_exclusive'' = Some (strings_value (selection_exclusive r))"
  "map_of (relations_value r) ''requires'' = Some (strings_value (requires_agents r))"
  "map_of (relations_value r) ''must_follow'' = Some (strings_value (must_follow r))"
  "map_of (relations_value r) ''must_review_independently'' = Some (strings_value (must_review_independently r))"
  "map_of (relations_value r) ''independence_class'' = Some (PyStr (independence_class r))"
  by (simp_all add: relations_value_def)

lemma composition_back:
  assumes "relations_ok r" and "map_of record ''composition'' = Some (PyDict rel)" and "map_of rel = map_of (relations_value r)"
  shows "composition_of record = Inr r"
  using assms by (simp add: composition_of_def relation_of_def relations_value_get
      relations_ok_def relationship_fields_def contract_back)


section \<open>Contracts\<close>

definition standing_ok :: "string \<Rightarrow> bool \<Rightarrow> string \<Rightarrow> bool" where
  "standing_ok agent active state = (is_identifier state \<and> state \<in> set employment_states
     \<and> active = (state \<in> {''contractor'', ''employee''}) \<and> (agent \<in> set residents \<longrightarrow> active))"

definition named_subset :: "string list \<Rightarrow> string list \<Rightarrow> bool" where
  "named_subset names xs = (contract_items_ok max_taxonomy_items True xs \<and> xs \<noteq> [] \<and> set xs \<subseteq> set names)"

definition contract_ok :: "workforce_contract \<Rightarrow> bool" where
  "contract_ok c = (contract_schema c = contract_schema_version
     \<and> is_identifier (worker_id c) \<and> is_identifier (agent_id c) \<and> is_worker_slug (agent_id c)
     \<and> squeezed_text 128 (display_name c) \<and> is_identifier (archetype c)
     \<and> contract_items_ok max_outcomes False (outcomes c) \<and> outcomes c \<noteq> []
     \<and> capabilities_ok (artifact_kinds c) (archetype c) (capability_ids c)
     \<and> kinds_ok (artifact_kinds c)
     \<and> contract_items_ok max_taxonomy_items True (lifecycle_phases c)
     \<and> subjects_ok (domains c)
     \<and> contract_items_ok max_taxonomy_items True (stacks c)
     \<and> contract_items_ok 4 False (scope_qualifiers c) \<and> contract_items_ok 4 False (not_for c)
     \<and> is_identifier (authority c) \<and> authority c \<in> set contract_authorities
     \<and> is_identifier (context_mode c) \<and> context_mode c \<in> set contract_context_modes
     \<and> tools_ok (tool_classes c)
     \<and> named_subset contract_hosts (hosts c) \<and> named_subset contract_platforms (platforms c)
     \<and> relations_ok (composition c)
     \<and> is_identifier (audit_status (audit c)) \<and> audit_status (audit c) \<in> set audit_states
     \<and> squeezed_text 32 (audit_revision (audit c)) \<and> audit_revision (audit c) \<noteq> []
     \<and> squeezed_text 96 (version c) \<and> version c \<noteq> []
     \<and> length (version_hash c) = 64 \<and> list_all is_hex (version_hash c)
     \<and> standing_ok (agent_id c) (enabled c) (employment c)
     \<and> is_identifier (origin c)
     \<and> (origin c = ''agency'' \<or> set (capability_ids c) \<subseteq> set core_capability_ids)
     \<and> length (canonical_json c) \<le> max_contract_bytes)"

definition archetype_names :: "string list" where
  "archetype_names = [''resident-manager'', ''tester'', ''writer'', ''implementer'', ''reviewer'',
     ''advisor'', ''architect'', ''planner'']"

lemma archetype_names_ids: "list_all is_identifier archetype_names"
  by code_simp

lemma if_member: "x \<in> A \<Longrightarrow> y \<in> A \<Longrightarrow> (if b then x else y) \<in> A"
  by simp

lemma archetype_ok:
  assumes "archetype_of agent rights division record = Inr kind"
  shows "is_identifier kind"
proof (cases "map_of record ''archetype''")
  case None
  have "kind \<in> set archetype_names"
    using assms unfolding archetype_of_def None option.case bind_res_Inr_iff sum.inject
    by (elim exE conjE) (erule subst, intro if_member, simp_all add: archetype_names_def)
  then show ?thesis using archetype_names_ids by (simp add: list_all_iff)
next
  case (Some v)
  with assms show ?thesis by (auto simp: archetype_of_def contract_identifier_ok)
qed

lemma contract_identity_ok:
  assumes "contract_identity record = Inr (agent, rights, mode, division, kind)"
  shows "is_identifier agent \<and> is_identifier rights \<and> rights \<in> set contract_authorities \<and> is_identifier mode
     \<and> mode \<in> set contract_context_modes \<and> is_identifier division \<and> is_identifier kind"
  using assms by (auto simp: contract_identity_def res_simps dest: contract_identifier_ok archetype_ok)

lemma contract_standing_ok:
  "contract_standing disabled record agent = Inr (active, state) \<Longrightarrow> standing_ok agent active state"
  by (auto simp: contract_standing_def standing_ok_def res_simps Let_def dest: contract_identifier_ok
      split: pyval.splits)

lemma contract_reach_ok:
  assumes "contract_reach record = Inr (host_ids, platform_ids, status)"
  shows "named_subset contract_hosts host_ids \<and> named_subset contract_platforms platform_ids
     \<and> is_identifier status \<and> status \<in> set audit_states"
  using assms by (auto simp: contract_reach_def named_subset_def res_simps
      dest: contract_identifier_ok contract_items_ok)

lemma contract_abilities_ok:
  assumes "contract_abilities given record kind = Inr (kinds, source, ids)"
  shows "kinds_ok kinds \<and> is_identifier source \<and> capabilities_ok kinds kind ids
     \<and> (source = ''agency'' \<or> set ids \<subseteq> set core_capability_ids)"
  using assms by (auto simp: contract_abilities_def res_simps
      dest: contract_identifier_ok artifact_kinds_ok normalize_ids_ok)

lemma stable_worker_id_identifier: "is_identifier s \<Longrightarrow> stable_worker_id (PyStr s) = Inr w \<Longrightarrow> is_worker_slug s"
  by (auto simp: stable_worker_id_def Let_def split: if_splits)

text \<open>What the successful stages of a projection say\<close>

lemma project_stages:
  assumes "project_workforce_contract disabled given record = Inr c"
  obtains division where
    "contract_identity record = Inr (agent_id c, authority c, context_mode c, division, archetype c)"
    "contract_standing disabled record (agent_id c) = Inr (enabled c, employment c)"
    "contract_reach record = Inr (hosts c, platforms c, audit_status (audit c))"
    "contract_abilities given record (archetype c) = Inr (artifact_kinds c, origin c, capability_ids c)"
    "contract_record record (agent_id c, authority c, context_mode c, division, archetype c)
       (enabled c, employment c) (hosts c, platforms c, audit_status (audit c))
       (artifact_kinds c, origin c, capability_ids c) = Inr c"
    "domains_of record division = Inr (domains c)"
    "contract_text 128 ''display_name'' (py_or (py_or (py_get record ''name'') (py_get record ''display_name''))
       (PyStr (agent_id c))) = Inr (display_name c)"
    "check_contract c = Inr ()"
proof -
  obtain identity standing reach abilities where stages: "contract_identity record = Inr identity"
    "contract_standing disabled record (fst identity) = Inr standing" "contract_reach record = Inr reach"
    "contract_abilities given record (snd (snd (snd (snd identity)))) = Inr abilities"
    "contract_record record identity standing reach abilities = Inr c" "check_contract c = Inr ()"
    using assms by (auto simp: project_workforce_contract_def bind_res_Inr_iff)
  obtain agent rights mode division kind where identity: "identity = (agent, rights, mode, division, kind)"
    by (cases identity)
  obtain active state where standing: "standing = (active, state)" by (cases standing)
  obtain hs ps status where reach: "reach = (hs, ps, status)" by (cases reach)
  obtain ks source ids where abilities: "abilities = (ks, source, ids)" by (cases abilities)
  note built = stages(5) [unfolded identity standing reach abilities]
  have c: "agent_id c = agent" "authority c = rights" "context_mode c = mode" "archetype c = kind"
    "enabled c = active" "employment c = state" "hosts c = hs" "platforms c = ps"
    "audit_status (audit c) = status" "artifact_kinds c = ks" "origin c = source" "capability_ids c = ids"
    "domains_of record division = Inr (domains c)"
    "contract_text 128 ''display_name'' (py_or (py_or (py_get record ''name'') (py_get record ''display_name''))
       (PyStr agent)) = Inr (display_name c)"
    using built by (auto simp: contract_record_def res_simps)
  show ?thesis
    by (rule that [of division]) (use stages c in \<open>simp_all add: identity standing reach abilities\<close>)
qed


lemma contract_record_ok:
  assumes "contract_record record (agent, rights, mode, division, kind) standing reach abilities = Inr c"
    and "is_identifier division" and "is_identifier agent"
  shows "contract_schema c = contract_schema_version \<and> is_identifier (worker_id c) \<and> is_worker_slug agent
     \<and> squeezed_text 128 (display_name c) \<and> contract_items_ok max_outcomes False (outcomes c)
     \<and> contract_items_ok max_taxonomy_items True (lifecycle_phases c) \<and> subjects_ok (domains c)
     \<and> contract_items_ok max_taxonomy_items True (stacks c)
     \<and> contract_items_ok 4 False (scope_qualifiers c) \<and> contract_items_ok 4 False (not_for c)
     \<and> tools_ok (tool_classes c) \<and> relations_ok (composition c)
     \<and> squeezed_text 32 (audit_revision (audit c)) \<and> squeezed_text 96 (version c)
     \<and> length (version_hash c) = 64 \<and> list_all is_hex (version_hash c)"
  using assms
  by (cases standing, cases reach, cases abilities)
    (auto simp: contract_record_def explicit_items_def res_simps tool_classes_ok
      dest: contract_identifier_ok contract_items_ok lifecycle_phases_ok domains_ok composition_ok content_hash_ok
        contract_text_Inr stable_worker_id_identifier)

lemma projected_ok:
  assumes "project_workforce_contract disabled given record = Inr c"
  shows "contract_ok c"
proof -
  obtain division where stages:
    "contract_identity record = Inr (agent_id c, authority c, context_mode c, division, archetype c)"
    "contract_standing disabled record (agent_id c) = Inr (enabled c, employment c)"
    "contract_reach record = Inr (hosts c, platforms c, audit_status (audit c))"
    "contract_abilities given record (archetype c) = Inr (artifact_kinds c, origin c, capability_ids c)"
    "contract_record record (agent_id c, authority c, context_mode c, division, archetype c)
       (enabled c, employment c) (hosts c, platforms c, audit_status (audit c))
       (artifact_kinds c, origin c, capability_ids c) = Inr c"
    "check_contract c = Inr ()"
    using project_stages [OF assms] by blast
  have checked: "outcomes c \<noteq> []" "audit_revision (audit c) \<noteq> []" "version c \<noteq> []"
    "length (canonical_json c) \<le> max_contract_bytes"
    using stages(6) by (simp_all add: check_contract_def not_less split: if_splits)
  note ids = contract_identity_ok [OF stages(1)]
  show ?thesis
    unfolding contract_ok_def
    using checked ids contract_standing_ok [OF stages(2)] contract_reach_ok [OF stages(3)]
      contract_abilities_ok [OF stages(4)] contract_record_ok [OF stages(5)] by simp
qed


section \<open>Reading back\<close>

text \<open>The projection source of a stored contract\<close>

definition stored_source :: "(string \<times> pyval) list \<Rightarrow> workforce_contract \<Rightarrow> (string \<times> pyval) list" where
  "stored_source rel c =
     [(''slug'', PyStr (agent_id c)), (''worker_id'', PyStr (worker_id c)),
      (''display_name'', PyStr (display_name c)), (''division'', PyStr ''specialized''),
      (''archetype'', PyStr (archetype c)), (''outcomes'', strings_value (outcomes c)),
      (''capability_ids'', strings_value (capability_ids c)),
      (''lifecycle_phases'', strings_value (lifecycle_phases c)),
      (''domains'', strings_value (domains c)), (''stacks'', strings_value (stacks c)),
      (''scope_qualifiers'', strings_value (scope_qualifiers c)),
      (''not_for'', strings_value (not_for c)), (''authority'', PyStr (authority c)),
      (''context_mode'', PyStr (context_mode c)), (''tool_classes'', strings_value (tool_classes c)),
      (''supported_hosts'', strings_value (hosts c)), (''supported_platforms'', strings_value (platforms c)),
      (''composition'', PyDict rel),
      (''audit_status'', PyStr (audit_status (audit c))), (''audit_revision'', PyStr (audit_revision (audit c))),
      (''routing_contract_valid'', PyBool (contract_valid (audit c))),
      (''version'', PyStr (version c)), (''version_hash'', PyStr (version_hash c)),
      (''enabled'', PyBool (enabled c)), (''employment'', PyStr (employment c)),
      (''origin'', PyStr (origin c)), (''artifact_kinds'', strings_value (artifact_kinds c))]"

lemma source_get:
  "map_of (stored_source rel c) ''slug'' = Some (PyStr (agent_id c))"
  "map_of (stored_source rel c) ''worker_id'' = Some (PyStr (worker_id c))"
  "map_of (stored_source rel c) ''display_name'' = Some (PyStr (display_name c))"
  "map_of (stored_source rel c) ''division'' = Some (PyStr ''specialized'')"
  "map_of (stored_source rel c) ''archetype'' = Some (PyStr (archetype c))"
  "map_of (stored_source rel c) ''outcomes'' = Some (strings_value (outcomes c))"
  "map_of (stored_source rel c) ''capability_ids'' = Some (strings_value (capability_ids c))"
  "map_of (stored_source rel c) ''lifecycle_phases'' = Some (strings_value (lifecycle_phases c))"
  "map_of (stored_source rel c) ''domains'' = Some (strings_value (domains c))"
  "map_of (stored_source rel c) ''stacks'' = Some (strings_value (stacks c))"
  "map_of (stored_source rel c) ''scope_qualifiers'' = Some (strings_value (scope_qualifiers c))"
  "map_of (stored_source rel c) ''not_for'' = Some (strings_value (not_for c))"
  "map_of (stored_source rel c) ''authority'' = Some (PyStr (authority c))"
  "map_of (stored_source rel c) ''context_mode'' = Some (PyStr (context_mode c))"
  "map_of (stored_source rel c) ''tool_classes'' = Some (strings_value (tool_classes c))"
  "map_of (stored_source rel c) ''supported_hosts'' = Some (strings_value (hosts c))"
  "map_of (stored_source rel c) ''supported_platforms'' = Some (strings_value (platforms c))"
  "map_of (stored_source rel c) ''composition'' = Some (PyDict rel)"
  "map_of (stored_source rel c) ''audit_status'' = Some (PyStr (audit_status (audit c)))"
  "map_of (stored_source rel c) ''audit_revision'' = Some (PyStr (audit_revision (audit c)))"
  "map_of (stored_source rel c) ''routing_contract_valid'' = Some (PyBool (contract_valid (audit c)))"
  "map_of (stored_source rel c) ''version'' = Some (PyStr (version c))"
  "map_of (stored_source rel c) ''version_hash'' = Some (PyStr (version_hash c))"
  "map_of (stored_source rel c) ''enabled'' = Some (PyBool (enabled c))"
  "map_of (stored_source rel c) ''employment'' = Some (PyStr (employment c))"
  "map_of (stored_source rel c) ''origin'' = Some (PyStr (origin c))"
  "map_of (stored_source rel c) ''artifact_kinds'' = Some (strings_value (artifact_kinds c))"
  "map_of (stored_source rel c) ''name'' = None" "map_of (stored_source rel c) ''required_tools'' = None"
  by (simp_all add: stored_source_def)

lemma source_identity:
  assumes "contract_ok c"
  shows "contract_identity (stored_source rel c) = Inr (agent_id c, authority c, context_mode c, ''specialized'', archetype c)"
proof -
  have "is_identifier ''specialized''" by code_simp
  moreover have "agent_identity (stored_source rel c) = agent_id c"
    using assms by (simp add: agent_identity_def py_or_def py_get_def source_get contract_ok_def)
  ultimately show ?thesis
    using assms by (simp add: contract_identity_def contract_ok_def field_simps archetype_of_def py_get_def source_get)
qed

lemma source_standing:
  "contract_ok c \<Longrightarrow> contract_standing [] (stored_source rel c) (agent_id c) = Inr (enabled c, employment c)"
  by (auto simp: contract_standing_def contract_ok_def standing_ok_def field_simps source_get)

lemma source_reach:
  "contract_ok c \<Longrightarrow> contract_reach (stored_source rel c) = Inr (hosts c, platforms c, audit_status (audit c))"
  by (simp add: contract_reach_def contract_ok_def named_subset_def field_simps contract_back py_get_def source_get)

lemma source_abilities:
  assumes "contract_ok c"
  shows "contract_abilities given (stored_source rel c) (archetype c) = Inr (artifact_kinds c, origin c, capability_ids c)"
  using assms explicit_kinds_back [of "artifact_kinds c"] normalize_ids_back [of "artifact_kinds c" "archetype c" "capability_ids c"]
  by (auto simp: contract_abilities_def contract_ok_def field_simps artifact_kinds_of_def source_get
      strings_value_def)

lemma stable_worker_id_back: "is_identifier s \<Longrightarrow> is_worker_slug s \<Longrightarrow> \<exists>w. stable_worker_id (PyStr s) = Inr w"
  by (simp add: stable_worker_id_def)

lemma source_record:
  assumes "contract_ok c" and "length (domains c) \<le> max_taxonomy_items" and "display_name c \<noteq> []"
    and rel: "map_of rel = map_of (relations_value (composition c))"
  shows "contract_record (stored_source rel c) (agent_id c, authority c, context_mode c, division, archetype c)
      (enabled c, employment c) (hosts c, platforms c, audit_status (audit c))
      (artifact_kinds c, origin c, capability_ids c) = Inr c"
proof -
  obtain w where "stable_worker_id (PyStr (agent_id c)) = Inr w"
    using assms(1) stable_worker_id_back by (auto simp: contract_ok_def)
  moreover have "contract_items_ok max_taxonomy_items True (domains c)"
    using assms by (simp add: contract_ok_def subjects_ok_def contract_items_ids)
  moreover have "tool_classes_of (stored_source rel c) = tool_classes c"
    by (rule tool_classes_back) (use assms(1) in \<open>simp_all add: contract_ok_def source_get strings_value_def\<close>)
  moreover have "composition_of (stored_source rel c) = Inr (composition c)"
    by (rule composition_back [OF _ _ rel]) (use assms(1) in \<open>simp_all add: contract_ok_def source_get\<close>)
  moreover have "version_hash c \<noteq> []" using assms(1) by (auto simp: contract_ok_def)
  ultimately show ?thesis
    using assms by (simp add: contract_record_def contract_ok_def field_simps contract_back explicit_items_def
        lifecycle_phases_of_def domains_of_def py_get_def py_or_def source_get)
qed

lemma source_project:
  assumes "contract_ok c" and "length (domains c) \<le> max_taxonomy_items" and "display_name c \<noteq> []"
    and rel: "map_of rel = map_of (relations_value (composition c))"
  shows "project_workforce_contract [] given (stored_source rel c) = Inr c"
proof -
  have "check_contract c = Inr ()"
    using assms(1) by (auto simp: check_contract_def contract_ok_def named_subset_def)
  then show ?thesis
    using assms by (simp add: project_workforce_contract_def source_identity source_standing source_reach
        source_abilities source_record)
qed

lemma entries_keys: "fst ` set (contract_entries c) = set contract_field_names"
  by (simp add: contract_entries_def contract_field_names_def)

lemma entries_kinds:
  assumes "contract_ok c"
  shows "stored_items (contract_entries c) = Inr (map PyStr (artifact_kinds c))"
    and "map stored_kind (map PyStr (artifact_kinds c)) = artifact_kinds c"
    and "list_ex (\<lambda>k. map_of artifact_capabilities k \<noteq> None) (artifact_kinds c)"
  using assms
  by (auto simp: stored_items_def py_or_def py_get_def contract_entries_def strings_value_def contract_ok_def
      kinds_ok_def kind_ok_def list_all_iff stored_kind_def replace_char_absent intro!: map_idI)

text \<open>A document that holds the fields of a contract, in any order of its keys\<close>

definition presents :: "(string \<times> pyval) list \<Rightarrow> (string \<times> pyval) list \<Rightarrow> (string \<times> pyval) list \<Rightarrow> workforce_contract \<Rightarrow> bool" where
  "presents document rel review c = (map_of document =
       (map_of (contract_entries c))(''composition'' \<mapsto> PyDict rel, ''audit'' \<mapsto> PyDict review)
     \<and> map_of rel = map_of (relations_value (composition c)) \<and> map_of review = map_of (review_value (audit c)))"

lemma keys_of_map: "map_of xs = map_of ys \<Longrightarrow> fst ` set xs = fst ` set ys"
  by (metis dom_map_of_conv_image_fst)

lemma presented_keys:
  assumes "presents document rel review c"
  shows "fst ` set document = set contract_field_names" and "fst ` set rel = set composition_field_names"
    and "fst ` set review = set audit_field_names"
proof -
  have "dom (map_of document) = insert ''audit'' (insert ''composition'' (set contract_field_names))"
    using assms by (simp add: presents_def dom_map_of_conv_image_fst entries_keys)
  moreover have "''audit'' \<in> set contract_field_names" "''composition'' \<in> set contract_field_names"
    by (simp_all add: contract_field_names_def)
  ultimately show "fst ` set document = set contract_field_names" by (simp add: dom_map_of_conv_image_fst insert_absorb)
  show "fst ` set rel = set composition_field_names" "fst ` set review = set audit_field_names"
    using assms keys_of_map [of rel "relations_value (composition c)"] keys_of_map [of review "review_value (audit c)"]
    by (simp_all add: presents_def relations_value_def composition_field_names_def review_value_def audit_field_names_def)
qed

lemma presented_source:
  assumes "presents document rel review c"
  shows "projection_source document rel review @ [(''artifact_kinds'', strings_value (artifact_kinds c))] = stored_source rel c"
  using assms by (simp add: presents_def projection_source_def stored_source_def contract_entries_def review_value_def py_get_def)

lemma parse_presented:
  assumes "contract_ok c" and p: "presents document rel review c"
  shows "parse_workforce_contract (PyDict document) =
    bind_res (project_workforce_contract [] (origin c) (stored_source rel c)) (\<lambda>projected.
    bind_res (raise_if (contract_schema c \<noteq> contract_schema projected)
      (ValueError ''stored workforce contract schema_version is unsupported'')) (\<lambda>_. Inr projected))"
proof -
  have "''capability_ids'' \<in> set contract_field_names" by (simp add: contract_field_names_def)
  then have "set contract_field_names \<noteq> set contract_field_names - {''capability_ids''}" by blast
  then have "upgrade_document document = Inr document"
    by (simp add: upgrade_document_def presented_keys [OF p])
  moreover have "py_get document ''composition'' = PyDict rel" "py_get document ''audit'' = PyDict review"
    "py_get document ''origin'' = PyStr (origin c)" "py_get document ''schema_version'' = PyStr (contract_schema c)"
    "py_get document ''artifact_kinds'' = py_get (contract_entries c) ''artifact_kinds''"
    using p by (simp_all add: presents_def contract_entries_def py_get_def)
  moreover have "mapping_with (PyDict rel) composition_field_names e = Inr rel"
    "mapping_with (PyDict review) audit_field_names e = Inr review" for e
    by (simp_all add: mapping_with_def presented_keys [OF p])
  ultimately show ?thesis
    using entries_kinds [OF assms(1)] presented_source [OF p]
    by (simp add: parse_workforce_contract_def presented_keys [OF p] Let_def strings_value_def stored_items_def
        del: map_map)
qed

lemma entries_present: "presents (contract_entries c) (relations_value (composition c)) (review_value (audit c)) c"
  by (simp add: presents_def contract_entries_def fun_eq_iff)

lemmas parse_stored = parse_presented [OF _ entries_present, folded contract_value_entries]

lemma parse_presented_back:
  assumes "contract_ok c" and "length (domains c) \<le> max_taxonomy_items" and "display_name c \<noteq> []" and "presents document rel review c"
  shows "parse_workforce_contract (PyDict document) = Inr c"
proof -
  have "map_of rel = map_of (relations_value (composition c))" using assms(4) by (simp add: presents_def)
  from source_project [OF assms(1-3) this] show ?thesis by (simp add: parse_presented [OF assms(1,4)])
qed

lemma parse_back:
  assumes "contract_ok c" and "length (domains c) \<le> max_taxonomy_items" and "display_name c \<noteq> []"
  shows "parse_workforce_contract (contract_value c) = Inr c"
  using parse_presented_back [OF assms entries_present] by (simp add: contract_value_entries)

lemma parse_back_only:
  assumes "contract_ok c" and "presents document rel review c" and "parse_workforce_contract (PyDict document) = Inr d"
  shows "length (domains d) \<le> max_taxonomy_items" and "display_name c = [] \<Longrightarrow> display_name d = agent_id d"
proof -
  have p: "project_workforce_contract [] (origin c) (stored_source rel c) = Inr d"
    using assms(3) by (auto simp: parse_presented [OF assms(1,2)] res_simps)
  obtain division where domains: "domains_of (stored_source rel c) division = Inr (domains d)"
    and shown: "contract_text 128 ''display_name'' (py_or (py_or (py_get (stored_source rel c) ''name'')
       (py_get (stored_source rel c) ''display_name'')) (PyStr (agent_id d))) = Inr (display_name d)"
    using project_stages [OF p] by blast
  show "length (domains d) \<le> max_taxonomy_items"
    using domains by (auto simp: domains_of_def source_get contract_items_ok_def dest!: contract_items_ok)
  show "display_name c = [] \<Longrightarrow> display_name d = agent_id d"
    using shown projected_ok [OF p]
    by (simp add: source_get py_get_def py_or_def contract_ok_def field_simps is_identifier_text)
qed

lemma parsed_ok:
  assumes "parse_workforce_contract v = Inr d"
  shows "contract_ok d \<and> length (domains d) \<le> max_taxonomy_items"
proof -
  obtain document relations review rest where
    p: "project_workforce_contract [] (py_str (py_get document ''origin''))
      (projection_source document relations review @ rest) = Inr d"
    using assms by (auto simp: parse_workforce_contract_def res_simps Let_def split: option.splits)
  obtain division where "domains_of (projection_source document relations review @ rest) division = Inr (domains d)"
    using project_stages [OF p] by blast
  then have "contract_items max_taxonomy_items True ''domains'' (py_get document ''domains'') = Inr (domains d)"
    by (simp add: domains_of_def projection_source_def)
  then show ?thesis using projected_ok [OF p] by (auto simp: contract_items_ok_def dest: contract_items_ok)
qed

end
