(* ===== verification/Contract_Example.thy ===== *)
theory Contract_Example
  imports Contract_Roundtrip
begin

text \<open>
  A roster record and the contract it projects to, evaluated step by step, for the instances of
  the properties of recruitment contracts.
\<close>

definition sample_record :: "(string \<times> pyval) list" where
  "sample_record =
     [(''slug'', PyStr ''code-reviewer''), (''worker_id'', PyStr ''worker-7''), (''name'', PyStr ''Code  Reviewer''),
      (''authority'', PyStr ''Review''), (''context_mode'', PyStr ''direct_safe''),
      (''division'', PyStr ''engineering''), (''task_types'', PyList [PyStr ''review'', PyStr ''Analysis'']),
      (''categories'', PyTuple [PyStr ''quality'', PyStr ''api-design'']),
      (''capabilities'', PyList [PyStr ''Finds security defects'']),
      (''required_tools'', PyList [PyStr ''git'', PyStr ''quantum-lathe'']),
      (''supported_hosts'', PyList [PyStr ''codex'', PyStr ''claude'']),
      (''supported_platforms'', PyList [PyStr ''linux'']), (''requires'', PyList [PyStr ''team-planner'']),
      (''origin'', PyStr ''upstream''), (''employment'', PyStr ''employee''), (''enabled'', PyBool True),
      (''audit_status'', PyStr ''approved''), (''audit_revision'', PyStr ''r4''), (''version'', PyStr ''1.0''),
      (''hash'', PyStr (replicate 64 (CHR ''a''))), (''version_hash'', PyStr (replicate 64 (CHR ''a'')))]"

definition sample_contract :: workforce_contract where
  "sample_contract = \<lparr>contract_schema = ''2'', worker_id = ''worker-7'', agent_id = ''code-reviewer'',
     display_name = ''Code Reviewer'', archetype = ''reviewer'', outcomes = [''Finds security defects''],
     capability_ids = [''review'', ''analysis''], artifact_kinds = [''analysis'', ''review-report''],
     lifecycle_phases = [''review'', ''discovery''],
     domains = [''software-engineering'', ''security'', ''quality-assurance'', ''backend''],
     stacks = [], scope_qualifiers = [], not_for = [], authority = ''review'', context_mode = ''direct_safe'',
     tool_classes = [''source-control'', ''quantum-lathe''], hosts = [''codex'', ''claude''],
     platforms = [''linux''],
     composition = \<lparr>substitution_group = [], substitutes_for = [], complements = [],
       same_context_conflicts = [], selection_exclusive = [], requires_agents = [''team-planner''],
       must_follow = [], must_review_independently = [], independence_class = []\<rparr>,
     audit = \<lparr>audit_status = ''approved'', audit_revision = ''r4'', contract_valid = True\<rparr>,
     version = ''1.0'', version_hash = replicate 64 (CHR ''a''), enabled = True, employment = ''employee'',
     origin = ''upstream''\<rparr>"

lemma sample_identity:
  "contract_identity sample_record = Inr (''code-reviewer'', ''review'', ''direct_safe'', ''engineering'', ''reviewer'')"
  by code_simp

lemma sample_standing: "contract_standing [] sample_record ''code-reviewer'' = Inr (True, ''employee'')"
  by code_simp

lemma sample_reach: "contract_reach sample_record = Inr ([''codex'', ''claude''], [''linux''], ''approved'')"
  by code_simp

lemma sample_abilities:
  "contract_abilities ''upstream'' sample_record ''reviewer''
     = Inr ([''analysis'', ''review-report''], ''upstream'', [''review'', ''analysis''])"
  by code_simp

lemma sample_checked: "check_contract sample_contract = Inr ()"
  by code_simp

lemmas sample_stages = sample_identity sample_standing sample_reach sample_abilities sample_checked

lemma sample_worker:
  "contract_identifier True ''worker_id'' (py_get_or sample_record ''worker_id'' v) = Inr ''worker-7''"
  by code_simp

lemma sample_shown:
  "contract_text 128 ''display_name'' (py_or (py_or (py_get sample_record ''name'') (py_get sample_record ''display_name''))
     (PyStr ''code-reviewer'')) = Inr ''Code Reviewer''"
  by code_simp

lemma sample_outcomes:
  "explicit_items max_outcomes False sample_record ''outcomes'' (py_get_or sample_record ''capabilities'' no_items)
     = Inr [''Finds security defects'']"
  by code_simp

lemma sample_phases:
  "lifecycle_phases_of sample_record ''reviewer'' = Inr [''review'', ''discovery'']"
  by code_simp

lemma sample_domains:
  "domains_of sample_record ''engineering'' = Inr [''software-engineering'', ''security'', ''quality-assurance'', ''backend'']"
  by code_simp

lemma sample_stacks:
  "explicit_items max_taxonomy_items True sample_record ''stacks'' no_items = Inr []"
  by code_simp

lemma sample_qualifiers:
  "explicit_items 4 False sample_record ''scope_qualifiers'' (py_get_or sample_record ''preferred_when'' no_items) = Inr []"
  by code_simp

lemma sample_excluded:
  "explicit_items 4 False sample_record ''not_for'' (py_get_or sample_record ''avoid_when'' no_items) = Inr []"
  by code_simp

lemma sample_tools:
  "tool_classes_of sample_record = [''source-control'', ''quantum-lathe'']"
  by code_simp

lemma sample_relations:
  "composition_of sample_record = Inr (composition sample_contract)"
  by code_simp

lemma sample_revision:
  "contract_text 32 ''audit.revision'' (py_get sample_record ''audit_revision'') = Inr ''r4''"
  by code_simp

lemma sample_release:
  "contract_text 96 ''version'' (py_get sample_record ''version'') = Inr ''1.0''"
  by code_simp

lemma sample_digest:
  "content_hash (py_or (py_or (py_or (py_get sample_record ''version_hash'') (py_get sample_record ''hash''))
     (py_get sample_record ''prompt_hash'')) (py_get sample_record ''source_content_hash''))
     = Inr (replicate 64 (CHR ''a''))"
  using content_hash_PyStr [of "replicate 64 (CHR ''a'')"]
  by (simp add: sample_record_def py_get_def py_or_def list_all_iff is_hex_def)

lemma sample_valid:
  "truthy (py_get_or sample_record ''routing_contract_valid'' (PyBool True))"
  by code_simp

lemmas sample_parts = sample_worker sample_shown sample_outcomes sample_phases sample_domains sample_stacks sample_qualifiers
  sample_excluded sample_tools sample_relations sample_revision sample_release sample_digest sample_valid

lemma sample_projected: "project_workforce_contract [] ''upstream'' sample_record = Inr sample_contract"
proof -
  have "is_worker_slug ''code-reviewer''" "is_identifier ''code-reviewer''" by code_simp+
  then obtain w where "stable_worker_id (PyStr ''code-reviewer'') = Inr w" using stable_worker_id_back by blast
  then have "contract_record sample_record (''code-reviewer'', ''review'', ''direct_safe'', ''engineering'', ''reviewer'')
      (True, ''employee'') ([''codex'', ''claude''], [''linux''], ''approved'')
      ([''analysis'', ''review-report''], ''upstream'', [''review'', ''analysis'']) = Inr sample_contract"
    by (simp add: contract_record_def sample_parts) (simp add: sample_contract_def contract_schema_version_def)
  then show ?thesis by (simp add: project_workforce_contract_def sample_stages)
qed

lemma sample_parsed: "parse_workforce_contract (contract_value sample_contract) = Inr sample_contract"
proof -
  have "length (domains sample_contract) \<le> max_taxonomy_items" "display_name sample_contract \<noteq> []"
    by (simp_all add: sample_contract_def max_taxonomy_items_def)
  then show ?thesis using projected_ok [OF sample_projected] by (rule parse_back [rotated])
qed

end
