(* ===== verification/Workforce_Store.thy ===== *)
theory Workforce_Store
  imports Promotion Worker_Identity
begin

text \<open>
  The employment part of \<open>core/store/workforce.py\<close>: the worker table, the append-only worker
  events, the recorded outcomes, and the handlers that change them. A table is the list of its
  rows in insertion order, and \<open>SELECT ... LIMIT 1\<close> takes the first row that matches. A
  handler runs in one transaction: it returns the new store or raises, and then nothing is
  written. An evidence document is kept as the value it serialises. The clock, the new row id,
  the configured policy and \<open>datetime.fromisoformat\<close> are arguments.
\<close>

section \<open>Tables\<close>

datatype employment_class = Contractor | Employee
datatype worker_standing = Active | Suspended | Retired | Merged

fun class_text :: "employment_class \<Rightarrow> string" where
  "class_text Contractor = ''contractor''"
| "class_text Employee = ''employee''"

fun standing_text :: "worker_standing \<Rightarrow> string" where
  "standing_text Active = ''active''"
| "standing_text Suspended = ''suspended''"
| "standing_text Retired = ''retired''"
| "standing_text Merged = ''merged''"

text \<open>\<open>agent_workers\<close>\<close>

record worker_row =
  w_id :: string
  w_slug :: string
  w_name :: string
  w_origin :: string
  w_class :: employment_class
  w_standing :: worker_standing
  w_version_id :: string
  w_version :: string
  w_hash :: string
  w_merged :: "string option"
  w_revision :: int
  w_created :: string

text \<open>\<open>agent_worker_events\<close>\<close>

record event_row =
  e_sequence :: int
  e_worker :: string
  e_type :: string
  e_from_class :: string
  e_to_class :: string
  e_from_standing :: string
  e_to_standing :: string
  e_version :: string
  e_merged :: "string option"
  e_case :: "string option"
  e_actor :: string
  e_surface :: string
  e_reason :: string
  e_evidence :: string

text \<open>\<open>agent_performance_events\<close>\<close>

record performance_row =
  p_id :: string
  p_key :: string
  p_worker :: string
  p_version :: string
  p_version_hash :: string
  p_event :: string
  p_outcome :: string
  p_evidence_hash :: string
  p_refs :: pyval
  p_created :: string
  p_session :: string
  p_trace :: string
  p_unit :: string
  p_activation :: string
  p_score :: "rat option"

record workforce_store =
  worker_table :: "worker_row list"
  worker_events :: "event_row list"
  performance :: "performance_row list"
  roster_counter :: int


section \<open>Texts and documents\<close>

definition max_document_bytes :: nat where "max_document_bytes = 256 * 1024"

definition bounded_text :: "string \<Rightarrow> nat \<Rightarrow> pyval \<Rightarrow> string res" where
  "bounded_text field maximum v = (let text = strip (str_or_empty v) in
     if text = [] \<or> length (utf8 text) > maximum then Inl (ValueError (field @ '' is invalid''))
     else Inr text)"

text \<open>\<open>json.dumps(value, ensure_ascii=False, sort_keys=True, separators=(",", ":"))\<close>\<close>

fun value_dumps :: "pyval \<Rightarrow> string" where
  "value_dumps PyNone = ''null''"
| "value_dumps (PyBool b) = (if b then ''true'' else ''false'')"
| "value_dumps (PyInt i) = show_int i"
| "value_dumps (PyFloat f) = (case f of PyNan \<Rightarrow> ''NaN''
     | PyInf neg \<Rightarrow> (if neg then ''-Infinity'' else ''Infinity'') | PyFin q text \<Rightarrow> text)"
| "value_dumps (PyStr s) = json_string s"
| "value_dumps (PyList xs) = ''['' @ join '','' (map value_dumps xs) @ '']''"
| "value_dumps (PyTuple xs) = ''['' @ join '','' (map value_dumps xs) @ '']''"
| "value_dumps (PyDict d) =
     ''{'' @ join '',''
       (map (\<lambda>(k, s). json_string k @ '':'' @ s)
         (sort_key fst (map (\<lambda>(k, v). (k, value_dumps v)) d))) @ ''}''"

definition document_text :: "string \<Rightarrow> (string \<times> pyval) list \<Rightarrow> string res" where
  "document_text field d = (let document = value_dumps (PyDict d) in
     if length (utf8 document) > max_document_bytes
     then Inl (ValueError (field @ '' exceeds the workforce evidence limit'')) else Inr document)"

definition document_hash :: "string \<Rightarrow> string" where
  "document_hash document = sha256_hex (utf8 document)"


section \<open>Rows\<close>

definition worker_with :: "worker_row list \<Rightarrow> string \<Rightarrow> worker_row option" where
  "worker_with ws i = find (\<lambda>w. w_id w = i) ws"

text \<open>\<open>WHERE worker_id = ? OR agent_slug = ? LIMIT 1\<close>\<close>

definition select_worker :: "worker_row list \<Rightarrow> string \<Rightarrow> worker_row option" where
  "select_worker ws v = find (\<lambda>w. w_id w = v \<or> w_slug w = casefold v) ws"

definition update_workers :: "(worker_row \<Rightarrow> bool) \<Rightarrow> (worker_row \<Rightarrow> worker_row) \<Rightarrow> worker_row list \<Rightarrow> worker_row list" where
  "update_workers P f ws = map (\<lambda>w. if P w then f w else w) ws"

definition next_event_sequence :: "event_row list \<Rightarrow> int" where
  "next_event_sequence es = (if es = [] then 0 else Max (e_sequence ` set es)) + 1"

definition record_worker_event :: "event_row \<Rightarrow> workforce_store \<Rightarrow> workforce_store" where
  "record_worker_event e st =
     st\<lparr>worker_events := worker_events st @ [e\<lparr>e_sequence := next_event_sequence (worker_events st)\<rparr>]\<rparr>"

definition bump_roster :: "workforce_store \<Rightarrow> workforce_store" where
  "bump_roster st = st\<lparr>roster_counter := roster_counter st + 1\<rparr>"


section \<open>Changing the state of a worker\<close>

text \<open>The walk from the merge target along the merges that were made before. An id without a row
  ends the walk after one more step.\<close>

function merge_walk :: "worker_row list \<Rightarrow> string set \<Rightarrow> string \<Rightarrow> unit res" where
  "merge_walk ws seen cursor =
     (if cursor = [] then Inr ()
      else if cursor \<in> seen then Inl (ValueError ''workforce merge would create a cycle'')
      else merge_walk ws (insert cursor seen) (case worker_with ws cursor of
        None \<Rightarrow> [] | Some w \<Rightarrow> (case w_merged w of None \<Rightarrow> [] | Some t \<Rightarrow> t)))"
  by pat_completeness auto
termination
proof (relation "measure (\<lambda>(ws, seen, cursor). if cursor = [] then 0 else Suc (card (w_id ` set ws - seen)))")
  fix ws :: "worker_row list" and seen and cursor :: string
  assume new: "cursor \<noteq> []" "cursor \<notin> seen"
  let ?next = "case worker_with ws cursor of None \<Rightarrow> []
    | Some w \<Rightarrow> (case w_merged w of None \<Rightarrow> [] | Some t \<Rightarrow> t)"
  show "((ws, insert cursor seen, ?next), (ws, seen, cursor))
      \<in> measure (\<lambda>(ws, seen, cursor). if cursor = [] then 0 else Suc (card (w_id ` set ws - seen)))"
  proof (cases "worker_with ws cursor")
    case None
    with new show ?thesis by simp
  next
    case (Some w)
    then have "cursor \<in> w_id ` set ws" by (auto simp: worker_with_def find_Some_iff)
    then have "card (w_id ` set ws - insert cursor seen) < card (w_id ` set ws - seen)"
      using new by (intro psubset_card_mono) auto
    with new show ?thesis by simp
  qed
qed simp

declare merge_walk.simps [simp del]

text \<open>\<open>_transition_state\<close>: the new class, standing and merge target of a row.\<close>

definition transition_state :: "worker_row list \<Rightarrow> worker_row \<Rightarrow> string \<Rightarrow> string option
    \<Rightarrow> (employment_class \<times> worker_standing \<times> string option) res" where
  "transition_state ws row action target =
     (if w_standing row \<in> {Retired, Merged}
      then Inl (ValueError ''terminal workforce state cannot transition'')
      else if action = ''promote'' then
        (if w_class row \<noteq> Contractor \<or> w_standing row \<noteq> Active
         then Inl (ValueError ''only an active contractor can be promoted'')
         else Inr (Employee, w_standing row, None))
      else if action = ''suspend'' then
        (if w_standing row \<noteq> Active then Inl (ValueError ''only an active worker can be suspended'')
         else Inr (w_class row, Suspended, None))
      else if action = ''resume'' then
        (if w_standing row \<noteq> Suspended then Inl (ValueError ''only a suspended worker can resume'')
         else Inr (w_class row, Active, None))
      else if action = ''retire'' then Inr (w_class row, Retired, None)
      else case target of
        None \<Rightarrow> Inl (ValueError ''merge target is invalid'')
      | Some t \<Rightarrow>
          if t = w_id row then Inl (ValueError ''merge target is invalid'')
          else case worker_with ws t of
            None \<Rightarrow> Inl (ValueError ''merge target must be an active worker'')
          | Some target_row \<Rightarrow>
              if w_standing target_row \<noteq> Active
              then Inl (ValueError ''merge target must be an active worker'')
              else bind_res (merge_walk ws {w_id row} t) (\<lambda>_. Inr (w_class row, Merged, Some t)))"

definition worker_actions :: "string list" where
  "worker_actions = [''promote'', ''suspend'', ''resume'', ''retire'', ''merge'']"

definition read_revision :: "pyval \<Rightarrow> int res" where
  "read_revision v = (case as_int v of
     None \<Rightarrow> Inl (TypeError ''expected_revision must be an integer'')
   | Some n \<Rightarrow> if n < 0 then Inl (ValueError ''expected_revision is invalid'') else Inr n)"

text \<open>The merge target named by the caller, which must exist and be enabled.\<close>

definition merge_target :: "worker_row list \<Rightarrow> string list \<Rightarrow> string option \<Rightarrow> string option res" where
  "merge_target ws disabled identity = (case identity of
     None \<Rightarrow> Inr None
   | Some v \<Rightarrow> (case select_worker ws v of
       None \<Rightarrow> Inl (ValueError ''merge target is invalid'')
     | Some w \<Rightarrow> if w_slug w \<in> set disabled then Inl (ValueError ''merge target must be enabled'')
         else Inr (Some (w_id w))))"

definition set_state :: "employment_class \<Rightarrow> worker_standing \<Rightarrow> string option \<Rightarrow> worker_row \<Rightarrow> worker_row" where
  "set_state c s t w = w\<lparr>w_class := c, w_standing := s, w_merged := t, w_revision := w_revision w + 1\<rparr>"

definition transition_event :: "worker_row \<Rightarrow> string \<Rightarrow> employment_class \<Rightarrow> worker_standing \<Rightarrow> string option
    \<Rightarrow> string \<Rightarrow> string \<Rightarrow> string \<Rightarrow> event_row" where
  "transition_event w action c s t actor surface reason_text =
     \<lparr>e_sequence = 0, e_worker = w_id w, e_type = action, e_from_class = class_text (w_class w),
      e_to_class = class_text c, e_from_standing = standing_text (w_standing w),
      e_to_standing = standing_text s, e_version = w_version w, e_merged = t, e_case = None, e_actor = actor,
      e_surface = surface, e_reason = reason_text, e_evidence = ''{}''\<rparr>"

text \<open>The transaction of \<open>transition_workforce_worker\<close> once its arguments are read.\<close>

definition commit_transition :: "string \<Rightarrow> string \<Rightarrow> int \<Rightarrow> string \<Rightarrow> string option \<Rightarrow> pyval \<Rightarrow> pyval
    \<Rightarrow> string list \<Rightarrow> workforce_store \<Rightarrow> workforce_store res" where
  "commit_transition identity action expected reason_text target_identity actor surface disabled st =
     (case select_worker (worker_table st) identity of
        None \<Rightarrow> Inl (KeyError ''workforce worker not found'')
      | Some row \<Rightarrow>
          bind_res (raise_if (w_revision row \<noteq> expected) (RuntimeError ''workforce revision conflict'')) (\<lambda>_.
          bind_res (raise_if (action = ''promote'' \<and> w_slug row \<in> set disabled)
            (ValueError ''a disabled contractor must be enabled before promotion'')) (\<lambda>_.
          bind_res (merge_target (worker_table st) disabled target_identity) (\<lambda>target.
          bind_res (transition_state (worker_table st) row action target) (\<lambda>(c, s, t).
          let matches = (\<lambda>w. w_id w = w_id row \<and> w_revision w = expected) in
          bind_res (raise_if (length (filter matches (worker_table st)) \<noteq> 1)
            (RuntimeError ''workforce revision conflict'')) (\<lambda>_.
          bind_res (bounded_text ''actor'' 128 actor) (\<lambda>actor_text.
          bind_res (bounded_text ''surface'' 64 surface) (\<lambda>surface_text.
          Inr (bump_roster (record_worker_event
            (transition_event row action c s t actor_text surface_text reason_text)
            (st\<lparr>worker_table := update_workers matches (set_state c s t) (worker_table st)\<rparr>)))))))))))"

definition transition_workforce_worker :: "pyval \<Rightarrow> pyval \<Rightarrow> pyval \<Rightarrow> pyval \<Rightarrow> pyval \<Rightarrow> pyval \<Rightarrow> pyval
    \<Rightarrow> string list \<Rightarrow> workforce_store \<Rightarrow> workforce_store res" where
  "transition_workforce_worker worker action expected_revision reason_value merged_into actor surface disabled st =
     bind_res (bounded_text ''worker identity'' 256 worker) (\<lambda>identity.
     let normalized = casefold (strip (str_or_empty action)) in
     bind_res (raise_if (normalized \<notin> set worker_actions) (ValueError ''workforce action is invalid'')) (\<lambda>_.
     bind_res (read_revision expected_revision) (\<lambda>expected.
     bind_res (bounded_text ''reason'' 2048 reason_value) (\<lambda>reason_text.
     bind_res (if truthy merged_into
         then bind_res (bounded_text ''merged_into_worker_id'' 256 merged_into) (\<lambda>t. Inr (Some t))
         else Inr None) (\<lambda>target_identity.
     commit_transition identity normalized expected reason_text target_identity actor surface disabled st)))))"


section \<open>Recording an accepted outcome\<close>

text \<open>\<open>content_digest_identity\<close>: the bare digest of \<open>(?:sha256:)?([a-f0-9]{64})\<close>\<close>

definition content_digest_identity :: "string \<Rightarrow> string option" where
  "content_digest_identity s =
     (let digest = (if take 7 s = ''sha256:'' then drop 7 s else s) in
      if length digest = 64 \<and> list_all is_hex digest then Some digest else None)"

record promotion_policy =
  policy_successes :: int
  policy_disabled :: "string list"
  policy_review_days :: int

text \<open>\<open>_outcome_promotion_policy\<close>: the configured policy, unless the caller gives a count.\<close>

definition outcome_promotion_policy :: "promotion_policy \<Rightarrow> string list \<Rightarrow> pyval \<Rightarrow> string list option
    \<Rightarrow> promotion_policy res" where
  "outcome_promotion_policy configured store_disabled successes disabled_agents =
     (if successes = PyNone then Inr configured
      else case as_int successes of
        None \<Rightarrow> Inl (ValueError ''auto promotion successes must be a non-negative integer'')
      | Some n \<Rightarrow>
          if n < 0 then Inl (ValueError ''auto promotion successes must be a non-negative integer'')
          else Inr \<lparr>policy_successes = n, policy_disabled = (case disabled_agents of
            None \<Rightarrow> store_disabled | Some ds \<Rightarrow> ds), policy_review_days = 0\<rparr>)"

text \<open>One recorded outcome as \<open>promotion_readiness\<close> reads it\<close>

definition performance_item :: "performance_row \<Rightarrow> outcome_row" where
  "performance_item p = [(''id'', PyStr (p_id p)), (''idempotency_key'', PyStr (p_key p)),
     (''worker_id'', PyStr (p_worker p)), (''version'', PyStr (p_version p)),
     (''version_hash'', PyStr (p_version_hash p)), (''event_type'', PyStr (p_event p)),
     (''outcome'', PyStr (p_outcome p)), (''evidence_hash'', PyStr (p_evidence_hash p)),
     (''evidence_refs'', p_refs p), (''created_at'', PyStr (p_created p))]"

definition promotion_state :: "string list \<Rightarrow> worker_row \<Rightarrow> string" where
  "promotion_state disabled w = (if w_slug w \<in> set disabled then ''disabled''
     else if w_standing w = Active then class_text (w_class w) else standing_text (w_standing w))"

definition evidence_rule :: string where
  "evidence_rule = ''Distinct produced artifacts, each proven delivered by a host-written producer ''
     @ ''artifact and accepted by a distinct inference-selected verifier''
     @ [CHR 0x27] @ ''s bound verdict.''"

definition readiness_document :: "readiness \<Rightarrow> (string \<times> pyval) list" where
  "readiness_document r = [(''state'', PyStr (ready_state r)),
     (''human_promotion_available'', PyBool (human_promotion r)),
     (''automatic_policy_enabled'', PyBool (policy_enabled r)),
     (''eligible_for_automatic_promotion'', PyBool (auto_eligible r)),
     (''in_review_window'', PyBool (in_window r)),
     (''required_successes'', PyInt (required_successes r)),
     (''verified_successes'', PyInt (verified_successes r)),
     (''remaining_successes'', PyInt (remaining_successes r)),
     (''verified_artifacts'', PyList (map PyStr (verified_artifacts r))),
     (''evidence_rule'', PyStr evidence_rule),
     (''reasons'', PyList (map PyStr (readiness_reasons r)))]"

definition promoted_event :: "worker_row \<Rightarrow> readiness \<Rightarrow> string \<Rightarrow> event_row" where
  "promoted_event w r document =
     \<lparr>e_sequence = 0, e_worker = w_id w, e_type = ''promote'', e_from_class = ''contractor'',
      e_to_class = ''employee'', e_from_standing = standing_text (w_standing w),
      e_to_standing = standing_text (w_standing w), e_version = w_version w, e_merged = None,
      e_case = None, e_actor = ''promotion-policy'', e_surface = ''outcome-recorder'',
      e_reason = ''automatic promotion after '' @ show_int (verified_successes r)
        @ '' host-evidenced accepted outcomes'', e_evidence = document\<rparr>"

definition worker_items :: "workforce_store \<Rightarrow> string \<Rightarrow> outcome_row list" where
  "worker_items st i = map performance_item (filter (\<lambda>p. p_worker p = i) (performance st))"

definition worker_readiness :: "(string \<Rightarrow> moment option) \<Rightarrow> moment \<Rightarrow> promotion_policy \<Rightarrow> worker_row
    \<Rightarrow> workforce_store \<Rightarrow> readiness res" where
  "worker_readiness fromiso now policy w st = promotion_readiness fromiso
     [(''worker_id'', PyStr (w_id w)), (''state'', PyStr (promotion_state (policy_disabled policy) w)),
      (''created_at'', PyStr (w_created w))]
     (worker_items st (w_id w)) (PyInt (policy_successes policy)) (policy_review_days policy) PyNone now"

definition auto_promote_if_ready :: "(string \<Rightarrow> moment option) \<Rightarrow> moment \<Rightarrow> promotion_policy \<Rightarrow> worker_row
    \<Rightarrow> workforce_store \<Rightarrow> workforce_store res" where
  "auto_promote_if_ready fromiso now policy w st =
     bind_res (worker_readiness fromiso now policy w st) (\<lambda>r.
     if \<not> auto_eligible r then Inr st
     else bind_res (document_text ''automatic promotion evidence'' (readiness_document r)) (\<lambda>document.
       Inr (bump_roster (record_worker_event (promoted_event w r document)
         (st\<lparr>worker_table := update_workers (\<lambda>v. w_id v = w_id w)
           (\<lambda>v. v\<lparr>w_class := Employee, w_revision := w_revision w + 1\<rparr>) (worker_table st)\<rparr>)))))"

record recording =
  rec_recorded :: bool
  rec_promoted :: bool
  rec_reason :: string
  rec_event_id :: string
  rec_worker :: string
  rec_key :: string
  rec_artifact :: string

definition not_recorded :: "string \<Rightarrow> string \<Rightarrow> recording" where
  "not_recorded reason_text worker = \<lparr>rec_recorded = False, rec_promoted = False, rec_reason = reason_text,
     rec_event_id = [], rec_worker = worker, rec_key = [], rec_artifact = []\<rparr>"

text \<open>Whether the manifest names the exact current revision of the worker\<close>

definition names_revision :: "(string \<times> pyval) list \<Rightarrow> worker_row \<Rightarrow> bool" where
  "names_revision manifest w =
     (py_get manifest ''contractor_specialist_slug'' = PyStr (w_slug w)
      \<and> py_get manifest ''contractor_specialist_version'' = PyStr (w_version w)
      \<and> (case content_digest_identity (w_hash w) of None \<Rightarrow> False
         | Some digest \<Rightarrow> py_get manifest ''contractor_prompt_hash'' = PyStr digest))"

definition new_performance :: "string \<Rightarrow> string \<Rightarrow> worker_row \<Rightarrow> acceptance_outcome \<Rightarrow> string \<Rightarrow> performance_row" where
  "new_performance event_id clock w out digest =
     \<lparr>p_id = event_id, p_key = outcome_key out, p_worker = w_id w,
      p_version = py_str (py_get (outcome_manifest out) ''contractor_specialist_version''),
      p_version_hash = py_str (py_get (outcome_manifest out) ''contractor_prompt_hash''),
      p_event = ''acceptance'', p_outcome = ''accepted'', p_evidence_hash = digest,
      p_refs = PyDict (outcome_manifest out), p_created = clock, p_session = [], p_trace = [], p_unit = [],
      p_activation = [], p_score = Some 1\<rparr>"

text \<open>The transaction of \<open>record_accepted_outcome\<close> for an accepted envelope.\<close>

definition commit_outcome :: "(string \<Rightarrow> moment option) \<Rightarrow> moment \<Rightarrow> string \<Rightarrow> string \<Rightarrow> promotion_policy
    \<Rightarrow> acceptance_outcome \<Rightarrow> string \<Rightarrow> workforce_store \<Rightarrow> (workforce_store \<times> recording) res" where
  "commit_outcome fromiso now clock event_id policy out digest st =
     (case worker_with (worker_table st) (outcome_worker out) of
        None \<Rightarrow> Inl (KeyError ''workforce worker not found'')
      | Some w \<Rightarrow>
          if \<not> names_revision (outcome_manifest out) w
          then Inr (st, not_recorded ''contractor_identity_mismatch'' (w_id w))
          else case find (\<lambda>p. p_key p = outcome_key out) (performance st) of
            Some p \<Rightarrow>
              if p_worker p \<noteq> w_id w \<or> p_evidence_hash p \<noteq> digest
              then Inl (RuntimeError ''accepted outcome evidence conflicts with its replay'')
              else Inr (st, \<lparr>rec_recorded = False, rec_promoted = False, rec_reason = ''replayed'',
                rec_event_id = p_id p, rec_worker = w_id w, rec_key = outcome_key out,
                rec_artifact = outcome_artifact out\<rparr>)
          | None \<Rightarrow>
              bind_res (auto_promote_if_ready fromiso now policy w
                (st\<lparr>performance := performance st @ [new_performance event_id clock w out digest]\<rparr>)) (\<lambda>st'.
              let promoted = (case worker_with (worker_table st') (w_id w) of None \<Rightarrow> False
                | Some v \<Rightarrow> w_class v = Employee \<and> w_class w \<noteq> Employee) in
              Inr (st', \<lparr>rec_recorded = True, rec_promoted = promoted, rec_reason = ''accepted'',
                rec_event_id = event_id, rec_worker = w_id w, rec_key = outcome_key out,
                rec_artifact = outcome_artifact out\<rparr>)))"

definition record_accepted_outcome :: "(string \<Rightarrow> moment option) \<Rightarrow> moment \<Rightarrow> string \<Rightarrow> string
    \<Rightarrow> promotion_policy \<Rightarrow> string list \<Rightarrow> pyval \<Rightarrow> pyval \<Rightarrow> string list option
    \<Rightarrow> workforce_store \<Rightarrow> (workforce_store \<times> recording) res" where
  "record_accepted_outcome fromiso now clock event_id configured store_disabled envelope successes disabled_agents st =
     bind_res (evaluate_acceptance envelope) (\<lambda>out.
     if \<not> outcome_accepted out then Inr (st, not_recorded (outcome_reason out) [])
     else bind_res (document_text ''evidence_refs'' (outcome_manifest out)) (\<lambda>document.
       bind_res (outcome_promotion_policy configured store_disabled successes disabled_agents) (\<lambda>policy.
       commit_outcome fromiso now clock event_id policy out (document_hash document) st)))"

text \<open>\<open>record_workforce_enablement\<close>: one event per worker, kind and configuration revision.\<close>

definition commit_enablement :: "string \<Rightarrow> string \<Rightarrow> string \<Rightarrow> string \<Rightarrow> pyval \<Rightarrow> pyval
    \<Rightarrow> workforce_store \<Rightarrow> workforce_store res" where
  "commit_enablement identity event_type evidence reason_text actor surface st =
     (case select_worker (worker_table st) identity of
        None \<Rightarrow> Inl (KeyError ''workforce worker not found'')
      | Some w \<Rightarrow>
          if list_ex (\<lambda>e. e_worker e = w_id w \<and> e_type e = event_type \<and> e_evidence e = evidence) (worker_events st)
          then Inr st
          else bind_res (bounded_text ''actor'' 128 actor) (\<lambda>actor_text.
            bind_res (bounded_text ''surface'' 64 surface) (\<lambda>surface_text.
            Inr (record_worker_event ((transition_event w event_type (w_class w) (w_standing w) None
              actor_text surface_text reason_text)\<lparr>e_evidence := evidence\<rparr>) st))))"

definition record_workforce_enablement :: "pyval \<Rightarrow> pyval \<Rightarrow> pyval \<Rightarrow> pyval \<Rightarrow> pyval \<Rightarrow> pyval
    \<Rightarrow> workforce_store \<Rightarrow> workforce_store res" where
  "record_workforce_enablement worker enabled_value config_revision reason_value actor surface st =
     (case enabled_value of PyBool on \<Rightarrow>
       bind_res (bounded_text ''worker identity'' 256 worker) (\<lambda>identity.
       bind_res (bounded_text ''config revision'' 128 config_revision) (\<lambda>revision.
       bind_res (bounded_text ''reason'' 2048 reason_value) (\<lambda>reason_text.
       bind_res (document_text ''enablement evidence''
         [(''config_revision'', PyStr revision), (''enabled'', PyBool on)]) (\<lambda>evidence.
       commit_enablement identity (if on then ''enable'' else ''disable'') evidence reason_text actor surface st))))
     | _ \<Rightarrow> Inl (TypeError ''enabled must be a boolean''))"

end
