(* ===== verification/Json_Scan.thy ===== *)
theory Json_Scan
  imports Py_Value
begin

text \<open>
  The standard scanner behind \<open>json.loads\<close>, as the code configures it: objects go through
  \<open>unique_object\<close> and the constants \<open>NaN\<close>, \<open>Infinity\<close> and \<open>-Infinity\<close>
  through \<open>reject_non_finite\<close>. The conversion \<open>float(text)\<close> is an argument. A unicode
  escape above 255 names a character that the text model does not have: \<open>OutsideModel\<close>. The
  recursion takes fuel, and the fuel of \<open>json_loads\<close> is shown to be enough.
\<close>

section \<open>Results\<close>

datatype json_error =
    InvalidArgument py_error
  | BoundedJSONError string
  | DuplicateJSONKeyError
  | NonFiniteJSONNumberError
  | OutsideModel
  | OutOfFuel

type_synonym 'a json_res = "json_error + 'a"

fun bind_json :: "'a json_res \<Rightarrow> ('a \<Rightarrow> 'b json_res) \<Rightarrow> 'b json_res" where
  "bind_json (Inl e) f = Inl e"
| "bind_json (Inr x) f = f x"

lemma bind_json_Inr_iff: "bind_json m f = Inr y \<longleftrightarrow> (\<exists>x. m = Inr x \<and> f x = Inr y)"
  by (cases m) auto

lemma bind_json_Inl_iff: "bind_json m f = Inl e \<longleftrightarrow> m = Inl e \<or> (\<exists>x. m = Inr x \<and> f x = Inl e)"
  by (cases m) auto

lemma bind_json_assoc: "bind_json (bind_json m f) g = bind_json m (\<lambda>x. bind_json (f x) g)"
  by (cases m) auto

lemma bind_json_cong [fundef_cong]:
  "m = m' \<Longrightarrow> (\<And>x. m' = Inr x \<Longrightarrow> f x = g x) \<Longrightarrow> bind_json m f = bind_json m' g"
  by (cases m') auto

definition not_json :: "'a json_res" where
  "not_json = Inl (BoundedJSONError ''JSON is not valid bounded data'')"


section \<open>Tokens\<close>

definition json_space :: "char \<Rightarrow> bool" where
  "json_space c = (c \<in> {CHR '' '', CHR 0x09, CHR 0x0A, CHR 0x0D})"

definition skip :: "string \<Rightarrow> string" where
  "skip s = dropWhile json_space s"

definition hex_value :: "char \<Rightarrow> nat option" where
  "hex_value c = (let n = (of_char c :: nat) in
     if 48 \<le> n \<and> n \<le> 57 then Some (n - 48)
     else if 97 \<le> n \<and> n \<le> 102 then Some (n - 87)
     else if 65 \<le> n \<and> n \<le> 70 then Some (n - 55) else None)"

definition escape_char :: "char \<Rightarrow> char option" where
  "escape_char c = map_of [(CHR 0x22, CHR 0x22), (CHR 0x5C, CHR 0x5C), (CHR ''/'', CHR ''/''), (CHR ''b'', CHR 0x08),
     (CHR ''f'', CHR 0x0C), (CHR ''n'', CHR 0x0A), (CHR ''r'', CHR 0x0D), (CHR ''t'', CHR 0x09)] c"

definition unicode_escape :: "char \<Rightarrow> char \<Rightarrow> char \<Rightarrow> char \<Rightarrow> nat option" where
  "unicode_escape a b c d = (case (hex_value a, hex_value b, hex_value c, hex_value d) of
     (Some w, Some x, Some y, Some z) \<Rightarrow> Some (4096 * w + 256 * x + 16 * y + z) | _ \<Rightarrow> None)"

text \<open>The rest of a string after its opening quote; control characters are refused.\<close>

fun scan_string :: "string \<Rightarrow> (string \<times> string) json_res" where
  "scan_string [] = not_json"
| "scan_string (c # s) =
     (if c = CHR 0x22 then Inr ([], s)
      else if c = CHR 0x5C then (case s of
        [] \<Rightarrow> not_json
      | e # r \<Rightarrow>
          if e = CHR ''u'' then (case r of
            w # x # y # z # t \<Rightarrow> (case unicode_escape w x y z of
              None \<Rightarrow> not_json
            | Some n \<Rightarrow> if n > 255 then Inl OutsideModel
                else bind_json (scan_string t) (\<lambda>(v, rest). Inr (char_of n # v, rest)))
          | _ \<Rightarrow> not_json)
          else (case escape_char e of
            None \<Rightarrow> not_json
          | Some d \<Rightarrow> bind_json (scan_string r) (\<lambda>(v, rest). Inr (d # v, rest))))
      else if is_control c then not_json
      else bind_json (scan_string s) (\<lambda>(v, rest). Inr (c # v, rest)))"

definition digits_value :: "string \<Rightarrow> int" where
  "digits_value s = foldl (\<lambda>n c. 10 * n + (int (of_char c) - 48)) 0 s"

text \<open>\<open>sys.get_int_max_str_digits()\<close>\<close>

definition max_int_digits :: nat where "max_int_digits = 4300"

text \<open>The integer part, the fraction and the exponent of
  \<open>(-?(?:0|[1-9][0-9]*))(\.[0-9]+)?([eE][-+]?[0-9]+)?\<close>\<close>

definition scan_whole :: "string \<Rightarrow> string \<times> string" where
  "scan_whole s = (case s of [] \<Rightarrow> ([], [])
     | c # r \<Rightarrow> if \<not> is_digit c then ([], s) else if c = CHR ''0'' then ([c], r) else (takeWhile is_digit s, dropWhile is_digit s))"

definition scan_fraction :: "string \<Rightarrow> string \<times> string" where
  "scan_fraction s = (case s of [] \<Rightarrow> ([], [])
     | c # r \<Rightarrow> if c = CHR ''.'' \<and> takeWhile is_digit r \<noteq> [] then (c # takeWhile is_digit r, dropWhile is_digit r) else ([], s))"

definition scan_exponent :: "string \<Rightarrow> string \<times> string" where
  "scan_exponent s = (case s of [] \<Rightarrow> ([], [])
     | c # r \<Rightarrow> if c \<notin> {CHR ''e'', CHR ''E''} then ([], s)
         else let sign = (case r of d # t \<Rightarrow> if d \<in> {CHR ''+'', CHR ''-''} then [d] else [] | [] \<Rightarrow> []);
                  t = drop (length sign) r in
           if takeWhile is_digit t = [] then ([], s) else (c # sign @ takeWhile is_digit t, dropWhile is_digit t))"

definition scan_number :: "(string \<Rightarrow> py_float) \<Rightarrow> string \<Rightarrow> (pyval \<times> string) json_res" where
  "scan_number to_float s =
     (let minus = (case s of c # r \<Rightarrow> c = CHR ''-'' | [] \<Rightarrow> False);
          (whole, r) = scan_whole (if minus then tl s else s) in
      if whole = [] then not_json
      else let (fraction, r) = scan_fraction r; (exponent, r) = scan_exponent r in
      if fraction = [] \<and> exponent = []
      then if length whole > max_int_digits then not_json
           else Inr (PyInt (if minus then - digits_value whole else digits_value whole), r)
      else Inr (PyFloat (to_float ((if minus then ''-'' else []) @ whole @ fraction @ exponent)), r))"


section \<open>Values\<close>

text \<open>\<open>unique_object\<close>\<close>

definition unique_object :: "(string \<times> pyval) list \<Rightarrow> (string \<times> pyval) list json_res" where
  "unique_object pairs = (if distinct (map fst pairs) then Inr pairs else Inl DuplicateJSONKeyError)"

definition starts :: "string \<Rightarrow> string \<Rightarrow> bool" where
  "starts word s = (take (length word) s = word)"

definition scan_scalar :: "(string \<Rightarrow> py_float) \<Rightarrow> string \<Rightarrow> (pyval \<times> string) json_res" where
  "scan_scalar to_float s =
     (if starts ''null'' s then Inr (PyNone, drop 4 s)
      else if starts ''true'' s then Inr (PyBool True, drop 4 s)
      else if starts ''false'' s then Inr (PyBool False, drop 5 s)
      else if starts ''NaN'' s \<or> starts ''Infinity'' s \<or> starts ''-Infinity'' s then Inl NonFiniteJSONNumberError
      else scan_number to_float s)"

definition expect :: "char \<Rightarrow> string \<Rightarrow> string json_res" where
  "expect c s = (case s of [] \<Rightarrow> not_json | d # r \<Rightarrow> if d = c then Inr r else not_json)"

text \<open>After an item of a container: whether another one follows, and where.\<close>

definition separator :: "char \<Rightarrow> string \<Rightarrow> (bool \<times> string) json_res" where
  "separator close s = (case s of [] \<Rightarrow> not_json
     | d # r \<Rightarrow> if d = close then Inr (False, r) else if d = CHR '','' then Inr (True, skip r) else not_json)"

fun scan_value :: "(string \<Rightarrow> py_float) \<Rightarrow> nat \<Rightarrow> string \<Rightarrow> (pyval \<times> string) json_res"
  and scan_pairs :: "(string \<Rightarrow> py_float) \<Rightarrow> nat \<Rightarrow> string \<Rightarrow> ((string \<times> pyval) list \<times> string) json_res"
  and scan_elements :: "(string \<Rightarrow> py_float) \<Rightarrow> nat \<Rightarrow> string \<Rightarrow> (pyval list \<times> string) json_res" where
  "scan_value to_float 0 s = Inl OutOfFuel"
| "scan_value to_float (Suc n) s =
     (if starts [CHR 0x22] s then bind_json (scan_string (tl s)) (\<lambda>(t, r). Inr (PyStr t, r))
      else if starts ''{'' s then
        (if starts ''}'' (skip (tl s)) then Inr (PyDict [], tl (skip (tl s)))
         else bind_json (scan_pairs to_float n (skip (tl s))) (\<lambda>(ps, r).
           bind_json (unique_object ps) (\<lambda>d. Inr (PyDict d, r))))
      else if starts ''['' s then
        (if starts '']'' (skip (tl s)) then Inr (PyList [], tl (skip (tl s)))
         else bind_json (scan_elements to_float n (skip (tl s))) (\<lambda>(vs, r). Inr (PyList vs, r)))
      else scan_scalar to_float s)"
| "scan_pairs to_float 0 s = Inl OutOfFuel"
| "scan_pairs to_float (Suc n) s =
     bind_json (expect (CHR 0x22) s) (\<lambda>r.
     bind_json (scan_string r) (\<lambda>(k, r).
     bind_json (expect (CHR '':'') (skip r)) (\<lambda>r.
     bind_json (scan_value to_float n (skip r)) (\<lambda>(v, r).
     bind_json (separator (CHR ''}'') (skip r)) (\<lambda>(more, r).
     if more then bind_json (scan_pairs to_float n r) (\<lambda>(ps, r). Inr ((k, v) # ps, r)) else Inr ([(k, v)], r))))))"
| "scan_elements to_float 0 s = Inl OutOfFuel"
| "scan_elements to_float (Suc n) s =
     bind_json (scan_value to_float n s) (\<lambda>(v, r).
     bind_json (separator (CHR '']'') (skip r)) (\<lambda>(more, r).
     if more then bind_json (scan_elements to_float n r) (\<lambda>(vs, r). Inr (v # vs, r)) else Inr ([v], r)))"

declare scan_value.simps [simp del] scan_pairs.simps [simp del] scan_elements.simps [simp del]

definition json_loads :: "(string \<Rightarrow> py_float) \<Rightarrow> string \<Rightarrow> pyval json_res" where
  "json_loads to_float s = bind_json (scan_value to_float (2 * length s + 1) (skip s))
     (\<lambda>(v, rest). if skip rest = [] then Inr v else not_json)"


section \<open>The fuel is enough\<close>

lemma length_skip: "length (skip s) \<le> length s"
  by (simp add: skip_def length_dropWhile_le)

lemma scan_string_shorter: "scan_string s = Inr (v, rest) \<Longrightarrow> length rest < length s"
  by (induction s arbitrary: v rest rule: scan_string.induct)
    (fastforce simp: not_json_def bind_json_Inr_iff split: if_splits list.splits option.splits)+

lemma scan_whole_shorter: "scan_whole s = (w, r) \<Longrightarrow> w \<noteq> [] \<Longrightarrow> length r < length s"
  using length_dropWhile_le [of is_digit "tl s"]
  by (cases s) (auto simp: scan_whole_def length_dropWhile_le less_Suc_eq_le split: if_splits)

lemma scan_fraction_shorter: "length (snd (scan_fraction s)) \<le> length s"
  by (cases s) (auto simp: scan_fraction_def length_dropWhile_le le_SucI)

lemma scan_exponent_shorter: "length (snd (scan_exponent s)) \<le> length s"
proof -
  have "length (dropWhile is_digit (drop n r)) \<le> Suc (length r)" for n r
    using length_dropWhile_le [of is_digit "drop n r"] by simp
  then show ?thesis by (cases s) (auto simp: scan_exponent_def Let_def)
qed

lemma scan_number_shorter:
  assumes "scan_number to_float s = Inr (v, rest)"
  shows "length rest < length s"
proof -
  let ?t = "if (case s of c # r \<Rightarrow> c = CHR ''-'' | [] \<Rightarrow> False) then tl s else s"
  obtain w r where w: "scan_whole ?t = (w, r)" by fastforce
  moreover have "w \<noteq> []" using assms w by (auto simp: scan_number_def not_json_def)
  ultimately have "length r < length ?t" using scan_whole_shorter by blast
  moreover have "rest = snd (scan_exponent (snd (scan_fraction r)))"
    using assms w by (auto simp: scan_number_def not_json_def Let_def split: prod.splits if_splits)
  ultimately show ?thesis
    using scan_fraction_shorter [of r] scan_exponent_shorter [of "snd (scan_fraction r)"] by (simp split: if_splits)
qed

lemma starts_long: "starts word s \<Longrightarrow> length word \<le> length s"
  by (auto simp: starts_def dest: arg_cong [of _ _ length])

lemma scan_scalar_shorter: "scan_scalar to_float s = Inr (v, rest) \<Longrightarrow> length rest < length s"
  using starts_long [of "''null''" s] starts_long [of "''true''" s] starts_long [of "''false''" s]
  by (auto simp: scan_scalar_def dest: scan_number_shorter split: if_splits)

lemma skip_Cons_length: "skip s = c # r \<Longrightarrow> Suc (length r) \<le> length s"
  using length_skip [of s] by simp

lemma expect_Inr_iff: "expect c s = Inr r \<longleftrightarrow> s = c # r"
  by (cases s) (auto simp: expect_def not_json_def)

lemma separator_shorter: "separator c s = Inr (more, r) \<Longrightarrow> length r < length s"
  using length_skip [of "tl s"] by (cases s) (auto simp: separator_def not_json_def less_Suc_eq_le split: if_splits)

lemma starts_one: "starts [c] s \<longleftrightarrow> (\<exists>r. s = c # r)"
  by (cases s) (auto simp: starts_def)

lemma scan_shorter:
  "scan_value to_float n s = Inr (v, rest) \<Longrightarrow> length rest < length s"
  "scan_pairs to_float n s = Inr (ps, rest) \<Longrightarrow> length rest < length s"
  "scan_elements to_float n s = Inr (vs, rest) \<Longrightarrow> length rest < length s"
proof (induction n arbitrary: s v ps vs rest)
  case (Suc n)
  {
    case 1
    have "length (skip (tl s)) < length s \<or> s = []" using length_skip [of "tl s"] by (cases s) auto
    with 1 show ?case
      using Suc.IH(2) [of "skip (tl s)"] Suc.IH(3) [of "skip (tl s)"]
      by (auto simp: scan_value.simps starts_one bind_json_Inr_iff dest!: scan_string_shorter scan_scalar_shorter
          split: if_splits)
  next
    case 2
    then obtain r k r1 r2 w r3 more r4 where s: "s = CHR 0x22 # r" "scan_string r = Inr (k, r1)" "skip r1 = CHR '':'' # r2"
      "scan_value to_float n (skip r2) = Inr (w, r3)" "separator (CHR ''}'') (skip r3) = Inr (more, r4)"
      and last: "rest = r4 \<or> (\<exists>qs. scan_pairs to_float n r4 = Inr (qs, rest))"
      by (fastforce simp: scan_pairs.simps bind_json_Inr_iff expect_Inr_iff split: if_splits)
    then have "length rest \<le> length r4" using Suc.IH(2) by (auto dest: less_imp_le)
    then show ?case
      using s(1) scan_string_shorter [OF s(2)] skip_Cons_length [OF s(3)] Suc.IH(1) [OF s(4)] separator_shorter [OF s(5)]
        length_skip [of r2] length_skip [of r3] by simp
  next
    case 3
    then obtain w r more r1 where s: "scan_value to_float n s = Inr (w, r)" "separator (CHR '']'') (skip r) = Inr (more, r1)"
      and last: "rest = r1 \<or> (\<exists>ws. scan_elements to_float n r1 = Inr (ws, rest))"
      by (fastforce simp: scan_elements.simps bind_json_Inr_iff split: if_splits)
    then have "length rest \<le> length r1" using Suc.IH(3) by (auto dest: less_imp_le)
    then show ?case
      using Suc.IH(1) [OF s(1)] separator_shorter [OF s(2)] length_skip [of r] by simp
  }
qed (simp_all add: scan_value.simps scan_pairs.simps scan_elements.simps)

lemma not_json_fuel [simp]: "not_json \<noteq> Inl OutOfFuel" "not_json \<noteq> Inr x"
  by (simp_all add: not_json_def)

lemma scan_string_fuel: "scan_string s \<noteq> Inl OutOfFuel"
proof (induction s rule: scan_string.induct)
  case (2 c s)
  note ih = "2.IH"
  show ?case
    by (subst scan_string.simps) (use ih in \<open>fastforce simp: bind_json_Inl_iff simp del: scan_string.simps
      split: if_splits list.splits option.splits\<close>)
qed simp

lemma scan_scalar_fuel: "scan_scalar to_float s \<noteq> Inl OutOfFuel"
  by (auto simp: scan_scalar_def scan_number_def Let_def split: prod.splits)

lemma token_fuel: "expect c s \<noteq> Inl OutOfFuel" "separator c s \<noteq> Inl OutOfFuel" "unique_object ps \<noteq> Inl OutOfFuel"
  by (auto simp: expect_def separator_def unique_object_def split: list.splits)

lemma scan_fuel:
  "2 * length s + 1 \<le> n \<Longrightarrow> scan_value to_float n s \<noteq> Inl OutOfFuel"
  "2 * length s + 2 \<le> n \<Longrightarrow> scan_pairs to_float n s \<noteq> Inl OutOfFuel"
  "2 * length s + 2 \<le> n \<Longrightarrow> scan_elements to_float n s \<noteq> Inl OutOfFuel"
proof (induction n arbitrary: s)
  case (Suc n)
  {
    case 1
    show ?case
    proof (cases s)
      case Nil
      then show ?thesis by (simp add: scan_value.simps starts_def scan_scalar_fuel)
    next
      case (Cons c r)
      then have fits: "2 * length (skip (tl s)) + 2 \<le> n" using 1 length_skip [of r] by simp
      show ?thesis
        by (simp add: scan_value.simps bind_json_Inl_iff Suc.IH(2) [OF fits] Suc.IH(3) [OF fits]
            scan_string_fuel scan_scalar_fuel token_fuel split: prod.splits)
    qed
  next
    case 2
    have v: "scan_value to_float n (skip r2) \<noteq> Inl OutOfFuel"
      if "s = CHR 0x22 # r" "scan_string r = Inr (k, r1)" "skip r1 = CHR '':'' # r2" for r k r1 r2
      using 2 that(1) scan_string_shorter [OF that(2)] skip_Cons_length [OF that(3)] length_skip [of r2]
      by (intro Suc.IH(1)) simp
    have more: "scan_pairs to_float n r4 \<noteq> Inl OutOfFuel"
      if "s = CHR 0x22 # r" "scan_string r = Inr (k, r1)" "skip r1 = CHR '':'' # r2"
        "scan_value to_float n (skip r2) = Inr (w, r3)" "separator (CHR ''}'') (skip r3) = Inr (True, r4)" for r k r1 r2 w r3 r4
      using 2 that(1) scan_string_shorter [OF that(2)] skip_Cons_length [OF that(3)] length_skip [of r2]
        scan_shorter(1) [OF that(4)] separator_shorter [OF that(5)] length_skip [of r3]
      by (intro Suc.IH(2)) simp
    show ?case
      using v more scan_string_fuel token_fuel
      by (auto simp: scan_pairs.simps bind_json_Inl_iff expect_Inr_iff split: if_splits)
  next
    case 3
    have v: "scan_value to_float n s \<noteq> Inl OutOfFuel" using 3 by (intro Suc.IH(1)) simp
    have more: "scan_elements to_float n r1 \<noteq> Inl OutOfFuel"
      if "scan_value to_float n s = Inr (w, r)" "separator (CHR '']'') (skip r) = Inr (True, r1)" for w r r1
      using 3 scan_shorter(1) [OF that(1)] separator_shorter [OF that(2)] length_skip [of r]
      by (intro Suc.IH(3)) simp
    show ?case
      using v more token_fuel by (auto simp: scan_elements.simps bind_json_Inl_iff split: if_splits)
  }
qed simp_all

lemma json_loads_fuel: "json_loads to_float s \<noteq> Inl OutOfFuel"
  using scan_fuel(1) [of "skip s" "2 * length s + 1" to_float] length_skip [of s]
  by (auto simp: json_loads_def bind_json_Inl_iff)


section \<open>What a scanned value looks like\<close>

text \<open>Lists and dictionaries only, with distinct keys in every dictionary\<close>

fun json_shape :: "pyval \<Rightarrow> bool" where
  "json_shape (PyList vs) = list_all json_shape vs"
| "json_shape (PyDict d) = (distinct (map fst d) \<and> list_all (\<lambda>(k, v). json_shape v) d)"
| "json_shape (PyTuple vs) = False"
| "json_shape v = True"

lemma scan_shape:
  "scan_value to_float n s = Inr (v, rest) \<Longrightarrow> json_shape v"
  "scan_pairs to_float n s = Inr (ps, rest) \<Longrightarrow> list_all (\<lambda>(k, v). json_shape v) ps"
  "scan_elements to_float n s = Inr (vs, rest) \<Longrightarrow> list_all json_shape vs"
proof (induction n arbitrary: s v ps vs rest)
  case (Suc n)
  {
    case 1
    then show ?case
      using Suc.IH(2,3)
      by (auto simp: scan_value.simps bind_json_Inr_iff unique_object_def scan_scalar_def scan_number_def Let_def
          split: if_splits prod.splits)
  next
    case 2
    then show ?case
      using Suc.IH(1,2) by (fastforce simp: scan_pairs.simps bind_json_Inr_iff split: if_splits)
  next
    case 3
    then show ?case
      using Suc.IH(1,3) by (fastforce simp: scan_elements.simps bind_json_Inr_iff split: if_splits)
  }
qed (simp_all add: scan_value.simps scan_pairs.simps scan_elements.simps)

lemma json_loads_shape: "json_loads to_float s = Inr v \<Longrightarrow> json_shape v"
  by (auto simp: json_loads_def bind_json_Inr_iff dest: scan_shape(1) split: if_splits)

end
