(* ===== verification/Bounded_Json.thy ===== *)
theory Bounded_Json
  imports Json_Scan
begin

text \<open>
  \<open>core/bounded_json.py\<close>: JSON text is loaded only when its size, its nesting and the number
  of its values stay within limits. The structure is bounded twice: by a pass over the characters
  before anything is allocated, and by a walk over the loaded value. Input is text here; the code
  also takes bytes, which it decodes first.
\<close>

section \<open>The size of the input\<close>

definition decode_bounded :: "nat \<Rightarrow> pyval \<Rightarrow> string json_res" where
  "decode_bounded maximum_bytes value = (case value of
     PyStr s \<Rightarrow>
       if length s > maximum_bytes then Inl (BoundedJSONError ''JSON exceeds the input-byte limit'')
       else if length (utf8 s) > maximum_bytes then Inl (BoundedJSONError ''JSON exceeds the input-byte limit'')
       else Inr s
   | _ \<Rightarrow> Inl (InvalidArgument (TypeError ''JSON input must be text or bytes'')))"


section \<open>The pass over the characters\<close>

record preflight_state =
  pre_depth :: nat
  pre_nodes :: nat
  pre_in_string :: bool
  pre_escaped :: bool
  pre_containers :: "(char \<times> bool) list"

text \<open>\<open>add_node\<close>\<close>

definition add_node :: "nat \<Rightarrow> preflight_state \<Rightarrow> preflight_state json_res" where
  "add_node maximum_nodes st = (if pre_nodes st + 1 > maximum_nodes
     then Inl (BoundedJSONError ''JSON exceeds the structural-node limit'')
     else Inr (st\<lparr>pre_nodes := pre_nodes st + 1\<rparr>))"

text \<open>The first value of an array is counted at its first character.\<close>

definition first_element :: "nat \<Rightarrow> char \<Rightarrow> preflight_state \<Rightarrow> preflight_state json_res" where
  "first_element maximum_nodes c st = (case pre_containers st of
     (open_char, filled) # rest \<Rightarrow>
       if open_char = CHR ''['' \<and> \<not> filled \<and> \<not> is_space c \<and> c \<noteq> CHR '']''
       then bind_json (add_node maximum_nodes st) (\<lambda>st. Inr (st\<lparr>pre_containers := (open_char, True) # rest\<rparr>))
       else Inr st
   | [] \<Rightarrow> Inr st)"

definition structural_char :: "nat \<Rightarrow> nat \<Rightarrow> char \<Rightarrow> preflight_state \<Rightarrow> preflight_state json_res" where
  "structural_char maximum_depth maximum_nodes c st =
     (if c = CHR 0x22 then Inr (st\<lparr>pre_in_string := True\<rparr>)
      else if c = CHR ''['' \<or> c = CHR ''{'' then
        (if pre_depth st + 1 > maximum_depth then Inl (BoundedJSONError ''JSON exceeds the nesting-depth limit'')
         else Inr (st\<lparr>pre_depth := pre_depth st + 1, pre_containers := (c, False) # pre_containers st\<rparr>))
      else if c = CHR '':'' \<or> (c = CHR '','' \<and> (case pre_containers st of (d, _) # _ \<Rightarrow> d = CHR ''['' | [] \<Rightarrow> False))
      then add_node maximum_nodes st
      else if c = CHR '']'' \<or> c = CHR ''}''
      then Inr (st\<lparr>pre_depth := pre_depth st - 1, pre_containers := tl (pre_containers st)\<rparr>)
      else Inr st)"

definition preflight_char :: "nat \<Rightarrow> nat \<Rightarrow> preflight_state \<Rightarrow> char \<Rightarrow> preflight_state json_res" where
  "preflight_char maximum_depth maximum_nodes st c =
     (if pre_in_string st then
        Inr (if pre_escaped st then st\<lparr>pre_escaped := False\<rparr>
             else if c = CHR 0x5C then st\<lparr>pre_escaped := True\<rparr>
             else if c = CHR 0x22 then st\<lparr>pre_in_string := False\<rparr> else st)
      else bind_json (first_element maximum_nodes c st) (structural_char maximum_depth maximum_nodes c))"

fun preflight_loop :: "nat \<Rightarrow> nat \<Rightarrow> preflight_state \<Rightarrow> string \<Rightarrow> preflight_state json_res" where
  "preflight_loop maximum_depth maximum_nodes st [] = Inr st"
| "preflight_loop maximum_depth maximum_nodes st (c # s) =
     bind_json (preflight_char maximum_depth maximum_nodes st c) (\<lambda>st. preflight_loop maximum_depth maximum_nodes st s)"

definition preflight_start :: "string \<Rightarrow> preflight_state" where
  "preflight_start s = \<lparr>pre_depth = 0, pre_nodes = (if strip s \<noteq> [] then 1 else 0), pre_in_string = False,
     pre_escaped = False, pre_containers = []\<rparr>"

definition preflight_structure :: "nat \<Rightarrow> nat \<Rightarrow> string \<Rightarrow> unit json_res" where
  "preflight_structure maximum_depth maximum_nodes s =
     bind_json (preflight_loop maximum_depth maximum_nodes (preflight_start s) s) (\<lambda>st. Inr ())"


section \<open>The walk over the value\<close>

text \<open>The values to visit with their depths, the next one first.\<close>

fun tree_nodes :: "pyval \<Rightarrow> nat" where
  "tree_nodes (PyList vs) = Suc (sum_list (map tree_nodes vs))"
| "tree_nodes (PyTuple vs) = Suc (sum_list (map tree_nodes vs))"
| "tree_nodes (PyDict d) = Suc (sum_list (map (\<lambda>(k, v). tree_nodes v) d))"
| "tree_nodes v = 1"

function validate_loop :: "nat \<Rightarrow> nat \<Rightarrow> nat \<Rightarrow> (pyval \<times> nat) list \<Rightarrow> unit json_res" where
  "validate_loop maximum_depth maximum_nodes nodes [] = Inr ()"
| "validate_loop maximum_depth maximum_nodes nodes ((v, depth) # pending) =
     (if nodes + 1 > maximum_nodes then Inl (BoundedJSONError ''JSON exceeds the structural-node limit'')
      else if depth > maximum_depth then Inl (BoundedJSONError ''JSON exceeds the nesting-depth limit'')
      else case v of
        PyDict d \<Rightarrow> validate_loop maximum_depth maximum_nodes (nodes + 1)
          (rev (map (\<lambda>(k, w). (w, depth + 1)) d) @ pending)
      | PyList vs \<Rightarrow> validate_loop maximum_depth maximum_nodes (nodes + 1)
          (rev (map (\<lambda>w. (w, depth + 1)) vs) @ pending)
      | PyFloat PyNan \<Rightarrow> Inl NonFiniteJSONNumberError
      | PyFloat (PyInf negative) \<Rightarrow> Inl NonFiniteJSONNumberError
      | PyTuple vs \<Rightarrow> Inl (BoundedJSONError ''JSON contains unsupported value type tuple'')
      | _ \<Rightarrow> validate_loop maximum_depth maximum_nodes (nodes + 1) pending)"
  by pat_completeness auto
termination
  by (relation "measure (\<lambda>(_, _, _, pending). sum_list (map (tree_nodes \<circ> fst) pending))")
    (auto simp: comp_def case_prod_unfold rev_map [symmetric])

declare validate_loop.simps(2) [simp del]

definition validate_value :: "nat \<Rightarrow> nat \<Rightarrow> pyval \<Rightarrow> unit json_res" where
  "validate_value maximum_depth maximum_nodes v = validate_loop maximum_depth maximum_nodes 0 [(v, 0)]"


section \<open>Loading\<close>

text \<open>A limit is an integer, not a boolean, from 1 to its bound.\<close>

definition read_limit :: "string \<Rightarrow> int \<Rightarrow> pyval \<Rightarrow> nat json_res" where
  "read_limit name bound v = (case as_int v of
     Some n \<Rightarrow> if 1 \<le> n \<and> n \<le> bound then Inr (nat n)
       else Inl (InvalidArgument (ValueError (name @ '' must be an integer from 1 through '' @ show_int bound)))
   | None \<Rightarrow> Inl (InvalidArgument (ValueError (name @ '' must be an integer from 1 through '' @ show_int bound))))"

definition load_bounded :: "(string \<Rightarrow> py_float) \<Rightarrow> nat \<Rightarrow> nat \<Rightarrow> nat \<Rightarrow> pyval \<Rightarrow> pyval json_res" where
  "load_bounded to_float maximum_bytes maximum_depth maximum_nodes value =
     bind_json (decode_bounded maximum_bytes value) (\<lambda>s.
     bind_json (preflight_structure maximum_depth maximum_nodes s) (\<lambda>_.
     bind_json (json_loads to_float s) (\<lambda>v.
     bind_json (validate_value maximum_depth maximum_nodes v) (\<lambda>_. Inr v))))"

definition safe_load_bounded_json :: "(string \<Rightarrow> py_float) \<Rightarrow> pyval \<Rightarrow> pyval \<Rightarrow> pyval \<Rightarrow> pyval \<Rightarrow> pyval json_res" where
  "safe_load_bounded_json to_float value maximum_bytes maximum_depth maximum_nodes =
     bind_json (read_limit ''maximum_bytes'' (64 * 1024 * 1024) maximum_bytes) (\<lambda>bytes.
     bind_json (read_limit ''maximum_depth'' 256 maximum_depth) (\<lambda>depth.
     bind_json (read_limit ''maximum_nodes'' 1000000 maximum_nodes) (\<lambda>nodes.
     load_bounded to_float bytes depth nodes value)))"


section \<open>What the walk accepts\<close>

text \<open>The depth of the deepest value, and the depth of the deepest container\<close>

fun tree_depth :: "pyval \<Rightarrow> nat" where
  "tree_depth (PyList vs) = foldr (\<lambda>v n. max (Suc (tree_depth v)) n) vs 0"
| "tree_depth (PyTuple vs) = foldr (\<lambda>v n. max (Suc (tree_depth v)) n) vs 0"
| "tree_depth (PyDict d) = foldr (\<lambda>(k, v) n. max (Suc (tree_depth v)) n) d 0"
| "tree_depth v = 0"

fun nesting :: "pyval \<Rightarrow> nat" where
  "nesting (PyList vs) = Suc (foldr (\<lambda>v n. max (nesting v) n) vs 0)"
| "nesting (PyTuple vs) = Suc (foldr (\<lambda>v n. max (nesting v) n) vs 0)"
| "nesting (PyDict d) = Suc (foldr (\<lambda>(k, v) n. max (nesting v) n) d 0)"
| "nesting v = 0"

fun finite_numbers :: "pyval \<Rightarrow> bool" where
  "finite_numbers (PyFloat f) = (case f of PyFin q t \<Rightarrow> True | _ \<Rightarrow> False)"
| "finite_numbers (PyList vs) = list_all finite_numbers vs"
| "finite_numbers (PyDict d) = list_all (\<lambda>(k, v). finite_numbers v) d"
| "finite_numbers (PyTuple vs) = False"
| "finite_numbers v = True"

lemma foldr_max_le: "foldr (\<lambda>x n. max (f x) n) xs 0 \<le> (m::nat) \<longleftrightarrow> (\<forall>x\<in>set xs. f x \<le> m)"
  by (induction xs) auto

lemma tree_depth_le:
  "tree_depth (PyList vs) \<le> m \<longleftrightarrow> (\<forall>v\<in>set vs. Suc (tree_depth v) \<le> m)"
  "tree_depth (PyDict d) \<le> m \<longleftrightarrow> (\<forall>(k, v)\<in>set d. Suc (tree_depth v) \<le> m)"
  using foldr_max_le [of "\<lambda>v. Suc (tree_depth v)" vs m] foldr_max_le [of "\<lambda>(k, v). Suc (tree_depth v)" d m]
  by (simp_all add: case_prod_unfold)

lemma nesting_le:
  "nesting (PyList vs) \<le> Suc m \<longleftrightarrow> (\<forall>v\<in>set vs. nesting v \<le> m)"
  "nesting (PyDict d) \<le> Suc m \<longleftrightarrow> (\<forall>(k, v)\<in>set d. nesting v \<le> m)"
  using foldr_max_le [of nesting vs m] foldr_max_le [of "\<lambda>(k, v). nesting v" d m]
  by (simp_all add: case_prod_unfold)

lemma tree_nodes_pos: "0 < tree_nodes v"
  by (cases v) auto

definition tree_fits :: "nat \<Rightarrow> pyval \<times> nat \<Rightarrow> bool" where
  "tree_fits maximum_depth = (\<lambda>(v, depth). depth + tree_depth v \<le> maximum_depth \<and> finite_numbers v)"

lemma foldr_max_plus: "d + foldr (\<lambda>x n. max (f x) n) xs 0 \<le> (D::nat) \<longleftrightarrow> d \<le> D \<and> (\<forall>x\<in>set xs. d + f x \<le> D)"
  by (induction xs) auto

lemma tree_fits_simps:
  "tree_fits D (PyList vs, d) \<longleftrightarrow> d \<le> D \<and> (\<forall>v\<in>set vs. tree_fits D (v, Suc d))"
  "tree_fits D (PyDict ps, d) \<longleftrightarrow> d \<le> D \<and> (\<forall>p\<in>set ps. tree_fits D (snd p, Suc d))"
  using foldr_max_plus [of d "\<lambda>v. Suc (tree_depth v)" vs D] foldr_max_plus [of d "\<lambda>p. Suc (tree_depth (snd p))" ps D]
  by (auto simp: tree_fits_def list_all_iff case_prod_unfold)

lemma tree_fits_scalars:
  "tree_fits D (PyNone, d) \<longleftrightarrow> d \<le> D" "tree_fits D (PyBool b, d) \<longleftrightarrow> d \<le> D" "tree_fits D (PyInt i, d) \<longleftrightarrow> d \<le> D"
  "tree_fits D (PyStr s, d) \<longleftrightarrow> d \<le> D" "tree_fits D (PyFloat (PyFin q t), d) \<longleftrightarrow> d \<le> D"
  "\<not> tree_fits D (PyFloat PyNan, d)" "\<not> tree_fits D (PyFloat (PyInf b), d)" "\<not> tree_fits D (PyTuple vs, d)"
  by (simp_all add: tree_fits_def)

lemma tree_fits_depth: "tree_fits D (v, d) \<Longrightarrow> d \<le> D"
  by (simp add: tree_fits_def)

lemma validate_loop_Inr_iff:
  "validate_loop D N n pending = Inr u \<longleftrightarrow>
     (pending = [] \<or> n + sum_list (map (tree_nodes \<circ> fst) pending) \<le> N) \<and> list_all (tree_fits D) pending"
proof (induction D N n pending rule: validate_loop.induct)
  case (2 D N n v d pending)
  show ?case
  proof (cases "n + 1 > N \<or> d > D")
    case True
    then show ?thesis
      using tree_nodes_pos [of v] by (auto simp: validate_loop.simps(2) dest: tree_fits_depth)
  next
    case False
    note ih = "2.IH"
    show ?thesis
      using ih False
      by (cases v) (auto simp: validate_loop.simps(2) tree_fits_simps list_all_iff comp_def case_prod_unfold rev_map [symmetric]
          tree_fits_scalars split: py_float.splits)
  qed
qed (cases u; simp)

end
