(* ===== verification/Activation.thy ===== *)
theory Activation
  imports Contract_Project
begin

text \<open>
  \<open>core/agent_activation.py\<close> and \<open>core/correlation.py\<close>: canonical agent slugs, the persisted set of
  disabled agents and its changes, and the identifiers that callers supply.
\<close>

section \<open>Slugs\<close>

definition lower_char :: "char \<Rightarrow> char" where
  "lower_char c = (let n = (of_char c :: nat) in
     if (65 \<le> n \<and> n \<le> 90) \<or> (192 \<le> n \<and> n \<le> 222 \<and> n \<noteq> 215) then char_of (n + 32) else c)"

definition slug_char :: "char \<Rightarrow> bool" where
  "slug_char c = (is_alnum c \<or> c \<in> {CHR ''.'', CHR ''_'', CHR ''-''})"

definition max_agent_slug_chars :: nat where "max_agent_slug_chars = 128"

text \<open>\<open>^[a-z0-9][a-z0-9._-]{1,127}$\<close>\<close>

definition is_agent_slug :: "string \<Rightarrow> bool" where
  "is_agent_slug s = (2 \<le> length s \<and> length s \<le> 128 \<and> is_alnum (hd s) \<and> list_all slug_char s)"

definition normalize_agent_slug :: "pyval \<Rightarrow> string res" where
  "normalize_agent_slug v = (case v of
     PyStr s \<Rightarrow> (let slug = map lower_char (strip s) in
       if slug = [] \<or> length slug > max_agent_slug_chars \<or> \<not> is_agent_slug slug
       then Inl (ValueError ''agent slug must be 2-128 lowercase letters/digits plus dot, underscore, or dash'')
       else Inr slug)
   | _ \<Rightarrow> Inl (ValueError ''agent slug must be a string''))"


section \<open>Disabled agents\<close>

definition max_disabled_agents :: nat where "max_disabled_agents = 4096"

text \<open>The canonical set is a sorted list.\<close>

definition normalize_disabled_agents :: "pyval \<Rightarrow> string list res" where
  "normalize_disabled_agents v = (case as_sequence v of
     None \<Rightarrow> Inl (ValueError ''agents.disabled must be a list'')
   | Some items \<Rightarrow>
       if length items > max_disabled_agents
       then Inl (ValueError (''agents.disabled supports at most '' @ show_nat max_disabled_agents @ '' entries''))
       else bind_res (map_res normalize_agent_slug items) (\<lambda>slugs.
         if \<not> distinct slugs then Inl (ValueError ''agents.disabled must not contain duplicates'')
         else case sort (filter (\<lambda>s. s \<in> set residents) slugs) of
           p # _ \<Rightarrow> Inl (ValueError (''protected coordinator cannot be disabled: '' @ p))
         | [] \<Rightarrow> Inr (sort slugs)))"

definition updated_disabled_agents :: "string list \<Rightarrow> pyval \<Rightarrow> pyval \<Rightarrow> string list res" where
  "updated_disabled_agents current slug enabled_value = (case enabled_value of
     PyBool on \<Rightarrow>
       bind_res (normalize_agent_slug slug) (\<lambda>s.
       bind_res (normalize_disabled_agents (PyList (map PyStr current))) (\<lambda>disabled.
       bind_res (raise_if (\<not> on \<and> s \<in> set residents)
         (ValueError (''protected coordinator cannot be disabled: '' @ s))) (\<lambda>_.
       normalize_disabled_agents (PyList (map PyStr (sort
         (if on then removeAll s disabled else if s \<in> set disabled then disabled else s # disabled)))))))
   | _ \<Rightarrow> Inl (ValueError ''enabled must be a boolean''))"

definition agent_is_enabled :: "pyval \<Rightarrow> string list \<Rightarrow> bool res" where
  "agent_is_enabled slug disabled = bind_res (normalize_agent_slug slug) (\<lambda>s.
     Inr (s \<in> set residents \<or> s \<notin> set disabled))"


section \<open>Identifiers\<close>

definition is_printable :: "char \<Rightarrow> bool" where
  "is_printable c = (let n = (of_char c :: nat) in \<not> (n < 32 \<or> (127 \<le> n \<and> n \<le> 160) \<or> n = 173))"

definition max_correlation_id_bytes :: nat where "max_correlation_id_bytes = 512"

text \<open>\<open>validate_correlation_id\<close> of a required identifier\<close>

definition correlation_id :: "string \<Rightarrow> pyval \<Rightarrow> string res" where
  "correlation_id field v = (case v of
     PyNone \<Rightarrow> Inl (ValueError (field @ '' is required''))
   | PyStr s \<Rightarrow> (let normalized = strip s in
       if normalized = [] then Inl (ValueError (field @ '' is required''))
       else if \<not> list_all is_printable normalized
       then Inl (ValueError (field @ '' must contain only printable characters''))
       else if length (utf8 normalized) > max_correlation_id_bytes
       then Inl (ValueError (field @ '' exceeds the '' @ show_nat max_correlation_id_bytes @ ''-byte UTF-8 limit''))
       else Inr normalized)
   | _ \<Rightarrow> Inl (ValueError (field @ '' must be a string'')))"


section \<open>Canonical slugs\<close>

lemma slug_char_stable: "slug_char c \<Longrightarrow> \<not> is_space c \<and> lower_char c = c"
  by (auto simp: slug_char_def is_alnum_def is_lower_def is_digit_def is_space_def lower_char_def Let_def)

lemma is_agent_slug_chars: "is_agent_slug s \<Longrightarrow> list_all slug_char s \<and> s \<noteq> []"
  by (auto simp: is_agent_slug_def)

lemma normalize_agent_slug_id: "is_agent_slug s \<Longrightarrow> normalize_agent_slug (PyStr s) = Inr s"
proof -
  assume s: "is_agent_slug s"
  then have "strip s = s" using slug_char_stable is_agent_slug_chars by (intro strip_word) (auto simp: list_all_iff)
  moreover have "map lower_char s = s"
    using s slug_char_stable is_agent_slug_chars by (intro map_idI) (auto simp: list_all_iff)
  ultimately show ?thesis
    using s is_agent_slug_chars by (simp add: normalize_agent_slug_def max_agent_slug_chars_def is_agent_slug_def)
qed

lemma normalize_agent_slug_ok: "normalize_agent_slug v = Inr s \<Longrightarrow> is_agent_slug s"
  by (auto simp: normalize_agent_slug_def Let_def split: pyval.splits if_splits)

lemma map_res_slugs: "list_all is_agent_slug ss \<Longrightarrow> map_res normalize_agent_slug (map PyStr ss) = Inr ss"
  by (induction ss) (simp_all add: normalize_agent_slug_id)

lemma map_res_slugs_ok: "map_res normalize_agent_slug vs = Inr ss \<Longrightarrow> list_all is_agent_slug ss"
  by (induction vs arbitrary: ss) (auto simp: res_simps dest: normalize_agent_slug_ok)

text \<open>A disabled set as it is persisted\<close>

definition canonical_disabled :: "string list \<Rightarrow> bool" where
  "canonical_disabled ss = (sorted ss \<and> distinct ss \<and> list_all is_agent_slug ss \<and> set ss \<inter> set residents = {}
     \<and> length ss \<le> max_disabled_agents)"

lemma sort_empty_iff: "sort (filter P ss) = [] \<longleftrightarrow> (\<forall>s\<in>set ss. \<not> P s)"
  by (metis (no_types, lifting) filter_False set_empty set_filter set_sort mem_Collect_eq empty_iff length_0_conv)

lemma normalize_disabled_ok: "normalize_disabled_agents v = Inr ss \<Longrightarrow> canonical_disabled ss"
proof -
  assume v: "normalize_disabled_agents v = Inr ss"
  then obtain items where items: "as_sequence v = Some items" "length items \<le> max_disabled_agents"
    by (auto simp: normalize_disabled_agents_def split: option.splits if_splits)
  with v obtain slugs where slugs: "map_res normalize_agent_slug items = Inr slugs" "distinct slugs"
    "sort (filter (\<lambda>s. s \<in> set residents) slugs) = []" "ss = sort slugs"
    by (auto simp: normalize_disabled_agents_def res_simps split: if_splits list.splits)
  have "length slugs = length items" using slugs(1) by (induction items arbitrary: slugs) (auto simp: res_simps)
  then show ?thesis
    using slugs items map_res_slugs_ok [OF slugs(1)] by (auto simp: canonical_disabled_def sort_empty_iff list_all_iff)
qed

lemma normalize_disabled_canonical:
  assumes "distinct ss" and "list_all is_agent_slug ss" and "set ss \<inter> set residents = {}" and "length ss \<le> max_disabled_agents"
  shows "normalize_disabled_agents (PyList (map PyStr ss)) = Inr (sort ss)"
proof -
  have "sort (filter (\<lambda>s. s \<in> set residents) ss) = []" using assms(3) by (auto simp: sort_empty_iff)
  then show ?thesis using assms by (simp add: normalize_disabled_agents_def map_res_slugs)
qed

text \<open>Switching an agent on or off changes exactly that agent, and the set stays canonical.\<close>

lemma updated_disabled_exact:
  assumes "canonical_disabled current" and "is_agent_slug s" and "on \<or> s \<notin> set residents"
    and "on \<or> s \<in> set current \<or> length current < max_disabled_agents"
  shows "\<exists>ss. updated_disabled_agents current (PyStr s) (PyBool on) = Inr ss \<and> canonical_disabled ss
    \<and> set ss = (if on then set current - {s} else insert s (set current))"
proof -
  let ?next = "if on then removeAll s current else if s \<in> set current then current else s # current"
  have current: "sorted current" "distinct current" "list_all is_agent_slug current" "set current \<inter> set residents = {}"
      "length current \<le> max_disabled_agents"
    using assms(1) by (simp_all add: canonical_disabled_def)
  then have "sort current = current" by (simp add: sorted_sort_id)
  then have read: "normalize_disabled_agents (PyList (map PyStr current)) = Inr current"
    using normalize_disabled_canonical [OF current(2-5)] by simp
  have "distinct (sort ?next)" "list_all is_agent_slug (sort ?next)" "set (sort ?next) \<inter> set residents = {}"
      "length (sort ?next) \<le> max_disabled_agents"
    using current assms(2,3,4) le_trans [OF length_removeAll_less_eq [of s current] current(5)]
    by (auto simp: list_all_iff distinct_removeAll)
  from normalize_disabled_canonical [OF this]
  have "updated_disabled_agents current (PyStr s) (PyBool on) = Inr (sort (sort ?next))"
    using assms(3) by (auto simp: updated_disabled_agents_def normalize_agent_slug_id [OF assms(2)] read res_simps)
  moreover from normalize_disabled_ok have "canonical_disabled (sort (sort ?next))"
    using calculation by (auto simp: updated_disabled_agents_def res_simps split: if_splits)
  ultimately show ?thesis by auto
qed

lemma updated_agent_enabled:
  assumes "updated_disabled_agents current (PyStr s) (PyBool on) = Inr ss" and "is_agent_slug s" and "canonical_disabled current"
    and "on \<or> s \<in> set current \<or> length current < max_disabled_agents" and "is_agent_slug t"
  shows "agent_is_enabled (PyStr t) ss = (if t = s then Inr on else agent_is_enabled (PyStr t) current)"
proof -
  have "on \<or> s \<notin> set residents"
    using assms(1) by (auto simp: updated_disabled_agents_def normalize_agent_slug_id [OF assms(2)] res_simps split: if_splits)
  from updated_disabled_exact [OF assms(3,2) this assms(4)] assms(1)
  have "set ss = (if on then set current - {s} else insert s (set current))" by auto
  with \<open>on \<or> s \<notin> set residents\<close> show ?thesis by (auto simp: agent_is_enabled_def normalize_agent_slug_id [OF assms(5)])
qed

end
