(* ===== verification/Store_Documents.thy ===== *)
theory Store_Documents
  imports Workforce_Store Bounded_Json Activation
begin

text \<open>
  How \<open>core/store/workforce.py\<close> reads its arguments and its stored documents: digests, required
  documents, optional identifiers, and \<open>_decoded\<close>, which goes through the bounded JSON loader.
\<close>

section \<open>Readers\<close>

definition sha256_text :: "string \<Rightarrow> pyval \<Rightarrow> string res" where
  "sha256_text field v = (let digest = casefold (strip (str_or_empty v)) in
     if length digest \<noteq> 64 \<or> \<not> list_all is_hex digest
     then Inl (ValueError (field @ '' must be a SHA-256 digest'')) else Inr digest)"

text \<open>\<open>_document(value, field=field, allow_empty=False)\<close>\<close>

definition required_document :: "string \<Rightarrow> pyval \<Rightarrow> string res" where
  "required_document field v = (case as_mapping v of
     None \<Rightarrow> Inl (TypeError (field @ '' must be an object''))
   | Some d \<Rightarrow> bind_res (document_text field d) (\<lambda>document.
       if document = ''{}'' then Inl (ValueError (field @ '' is required'')) else Inr document))"

definition optional_identifier :: "string \<Rightarrow> pyval \<Rightarrow> string option res" where
  "optional_identifier field v = (if truthy v then bind_res (correlation_id field v) (\<lambda>s. Inr (Some s)) else Inr None)"

text \<open>A stored document, and \<open>_decoded\<close>\<close>

definition load_evidence :: "(string \<Rightarrow> py_float) \<Rightarrow> string \<Rightarrow> pyval json_res" where
  "load_evidence to_float document = safe_load_bounded_json to_float (PyStr document)
     (PyInt (int max_document_bytes)) (PyInt 16) (PyInt 10000)"

definition decoded :: "(string \<Rightarrow> py_float) \<Rightarrow> string \<Rightarrow> (string \<times> pyval) list res" where
  "decoded to_float document = (case load_evidence to_float (if document = [] then ''{}'' else document) of
     Inr (PyDict d) \<Rightarrow> Inr d
   | _ \<Rightarrow> Inl (RuntimeError ''stored workforce evidence is invalid''))"

end
