(* ===== verification/Json_Roundtrip.thy ===== *)
theory Json_Roundtrip
  imports Workforce_Store Bounded_Json "HOL-Library.Multiset"
begin

text \<open>
  Documents read back: the canonical document of a value is scanned to the value with its
  dictionaries in key order, and the pass over the characters counts exactly the values and the
  nesting of the value.
\<close>

section \<open>Documents of values in key order\<close>

text \<open>What a document can hold and give back: no floats and tuples, distinct keys, and integers
  that \<open>int(text)\<close> still reads.\<close>

fun dumpable :: "pyval \<Rightarrow> bool" where
  "dumpable (PyInt i) = (length (show_nat (nat \<bar>i\<bar>)) \<le> max_int_digits)"
| "dumpable (PyFloat f) = False"
| "dumpable (PyList vs) = list_all dumpable vs"
| "dumpable (PyTuple vs) = False"
| "dumpable (PyDict d) = (distinct (map fst d) \<and> list_all (\<lambda>(k, v). dumpable v) d)"
| "dumpable v = True"

fun sorted_value :: "pyval \<Rightarrow> pyval" where
  "sorted_value (PyList vs) = PyList (map sorted_value vs)"
| "sorted_value (PyDict d) = PyDict (sort_key fst (map (\<lambda>(k, v). (k, sorted_value v)) d))"
| "sorted_value v = v"

fun plain_dumps :: "pyval \<Rightarrow> string" where
  "plain_dumps PyNone = ''null''"
| "plain_dumps (PyBool b) = (if b then ''true'' else ''false'')"
| "plain_dumps (PyInt i) = show_int i"
| "plain_dumps (PyStr s) = json_string s"
| "plain_dumps (PyList xs) = ''['' @ join '','' (map plain_dumps xs) @ '']''"
| "plain_dumps (PyDict d) = ''{'' @ join '','' (map (\<lambda>(k, v). json_string k @ '':'' @ plain_dumps v) d) @ ''}''"
| "plain_dumps v = []"

lemma insort_key_map:
  "insort_key fst (k, f v) (map (\<lambda>(k, v). (k, f v)) d) = map (\<lambda>(k, v). (k, f v)) (insort_key fst (k :: string, v) d)"
  by (induction d) auto

lemma sort_key_map:
  "sort_key fst (map (\<lambda>(k, v). (k, f v)) d) = map (\<lambda>(k, v). (k, f v)) (sort_key fst (d :: (string \<times> 'a) list))"
proof (induction d)
  case (Cons p d)
  then show ?case by (cases p) (simp add: insort_key_map)
qed simp

lemma value_dumps_sorted: "dumpable v \<Longrightarrow> value_dumps v = plain_dumps (sorted_value v)"
proof (induction v rule: plain_dumps.induct)
  case (6 d)
  then have "(k, v) \<in> set d \<Longrightarrow> value_dumps v = plain_dumps (sorted_value v)" for k v
    by (auto simp: list_all_iff)
  then have entries: "map (\<lambda>(k, v). (k, value_dumps v)) d
      = map (\<lambda>(k, v). (k, plain_dumps v)) (map (\<lambda>(k, v). (k, sorted_value v)) d)"
    by auto
  show ?case
    unfolding value_dumps.simps entries sort_key_map sorted_value.simps plain_dumps.simps
    by (simp add: case_prod_unfold comp_def)
qed (auto simp: list_all_iff cong: map_cong)

lemma distinct_fst_sort_key: "distinct (map fst (sort_key k xs)) \<longleftrightarrow> distinct (map fst xs)"
  by (metis mset_map mset_sort mset_eq_imp_distinct_iff)

lemma dumpable_sorted: "dumpable v \<Longrightarrow> dumpable (sorted_value v)"
proof (induction v rule: plain_dumps.induct)
  case (6 d)
  then have "list_all (\<lambda>(k, v). dumpable v) (map (\<lambda>(k, v). (k, sorted_value v)) d)"
    by (fastforce simp: list_all_iff)
  moreover have "map fst (map (\<lambda>(k, v). (k, sorted_value v)) d) = map fst d" by (simp add: case_prod_unfold)
  ultimately show ?case
    using 6(2) by (simp add: list_all_iff distinct_fst_sort_key del: map_map)
qed (auto simp: list_all_iff)


section \<open>Scanning a document\<close>

lemma hex_value_digit: "d < 16 \<Longrightarrow> hex_value (if d < 10 then char_of (48 + d) else char_of (87 + d)) = Some d"
  by (simp add: hex_value_def)

lemma hex4_escape:
  assumes "n < 256"
  shows "\<exists>a b c d. hex4 n = [a, b, c, d] \<and> unicode_escape a b c d = Some n"
proof -
  let ?h = "\<lambda>d::nat. if d < 10 then char_of (48 + d) else char_of (87 + d) :: char"
  have digits: "hex4 n = [?h (n div 4096 mod 16), ?h (n div 256 mod 16), ?h (n div 16 mod 16), ?h (n mod 16)]"
    by (simp only: hex4_def Let_def)
  have digit: "hex_value (?h (m mod 16)) = Some (m mod 16)" for m by (rule hex_value_digit) simp
  have "4096 * (n div 4096 mod 16) + 256 * (n div 256 mod 16) + 16 * (n div 16 mod 16) + n mod 16 = n"
  proof -
    have "n div 4096 = 0" "n div 256 = 0" "n div 16 < 16" using assms by simp_all
    then show ?thesis using mult_div_mod_eq [of 16 n] by simp
  qed
  then have "unicode_escape (?h (n div 4096 mod 16)) (?h (n div 256 mod 16)) (?h (n div 16 mod 16)) (?h (n mod 16)) = Some n"
    unfolding unicode_escape_def digit by (simp only: prod.case option.case)
  with digits show ?thesis by blast
qed

lemma escaped_chars:
  "of_char c \<in> {34, 92, 8, 9, 10, 12, 13 :: nat}
    \<longleftrightarrow> c \<in> {CHR 0x22, CHR 0x5C, CHR 0x08, CHR 0x09, CHR 0x0A, CHR 0x0C, CHR 0x0D}"
  using of_char_eq_iff [of c "CHR 0x22", where ?'a = nat] of_char_eq_iff [of c "CHR 0x5C", where ?'a = nat]
    of_char_eq_iff [of c "CHR 0x08", where ?'a = nat] of_char_eq_iff [of c "CHR 0x09", where ?'a = nat]
    of_char_eq_iff [of c "CHR 0x0A", where ?'a = nat] of_char_eq_iff [of c "CHR 0x0C", where ?'a = nat]
    of_char_eq_iff [of c "CHR 0x0D", where ?'a = nat]
  by simp

lemma scan_json_char: "scan_string (json_char c @ t) = bind_json (scan_string t) (\<lambda>(v, rest). Inr (c # v, rest))"
proof -
  consider "of_char c \<in> {34, 92, 8, 9, 10, 12, 13 :: nat}" | "of_char c < (32 :: nat)" "of_char c \<notin> {34, 92, 8, 9, 10, 12, 13 :: nat}"
    | "of_char c \<ge> (32 :: nat)" "of_char c \<notin> {34, 92, 8, 9, 10, 12, 13 :: nat}" by force
  then show ?thesis
  proof cases
    case 1
    then show ?thesis unfolding escaped_chars by (elim insertE emptyE) (simp_all add: json_char_def escape_char_def)
  next
    case 2
    have "(of_char c :: nat) < 256" by simp
    then obtain w x y z where "hex4 (of_char c) = [w, x, y, z]" "unicode_escape w x y z = Some (of_char c)"
      using hex4_escape by blast
    with 2 show ?thesis by (auto simp: json_char_def Let_def)
  next
    case 3
    then show ?thesis by (auto simp: json_char_def Let_def is_control_def)
  qed
qed

lemma scan_ascii_char: "scan_string (ascii_char c @ t) = bind_json (scan_string t) (\<lambda>(v, rest). Inr (c # v, rest))"
proof (cases "(of_char c :: nat) < 127")
  case False
  have small: "(of_char c :: nat) < 256" by simp
  then obtain w x y z where "hex4 (of_char c) = [w, x, y, z]" "unicode_escape w x y z = Some (of_char c)"
    using hex4_escape by blast
  moreover have "\<not> 255 < (of_char c :: nat)" using small by linarith
  ultimately show ?thesis using False by (simp add: ascii_char_def)
qed (simp add: ascii_char_def scan_json_char)

declare show_nat.simps [simp del]

text \<open>What may follow a value in a document\<close>

definition document_ends :: "string \<Rightarrow> bool" where
  "document_ends s = (case s of [] \<Rightarrow> True | c # _ \<Rightarrow> c \<in> {CHR '','', CHR '']'', CHR ''}''})"

lemma ends_digits: "document_ends s \<Longrightarrow> takeWhile is_digit s = [] \<and> dropWhile is_digit s = s"
  by (cases s) (auto simp: document_ends_def is_digit_def)

lemma ends_tail: "document_ends s \<Longrightarrow> scan_fraction s = ([], s) \<and> scan_exponent s = ([], s)"
  by (cases s) (auto simp: document_ends_def scan_fraction_def scan_exponent_def)

lemma is_digit_char: "d < 10 \<Longrightarrow> is_digit (digit_char d)" "d < 10 \<Longrightarrow> of_char (digit_char d) = 48 + d"
  by (simp_all add: is_digit_def digit_char_def)

lemma show_nat_is_digit: "list_all is_digit (show_nat n)"
  by (induction n rule: show_nat.induct) (subst show_nat.simps, auto simp: is_digit_char)

lemma show_nat_nonempty: "show_nat n \<noteq> []"
  by (subst show_nat.simps) simp

lemma digits_value_snoc: "digits_value (s @ [c]) = 10 * digits_value s + (int (of_char c) - 48)"
  by (simp add: digits_value_def)

lemma digits_value_show_nat: "digits_value (show_nat n) = int n"
proof (induction n rule: show_nat.induct)
  case (1 n)
  show ?case
  proof (cases "n < 10")
    case True
    then show ?thesis by (subst show_nat.simps) (simp add: digits_value_def is_digit_char)
  next
    case False
    then have "digits_value (show_nat n) = 10 * int (n div 10) + int (n mod 10)"
      by (subst show_nat.simps) (simp add: digits_value_snoc 1 is_digit_char)
    then show ?thesis by (metis mult_div_mod_eq of_nat_add of_nat_mult of_nat_numeral)
  qed
qed

lemma show_nat_first: "n \<noteq> 0 \<Longrightarrow> hd (show_nat n) \<noteq> CHR ''0''"
proof (induction n rule: show_nat.induct)
  case (1 n)
  show ?case
  proof (cases "n < 10")
    case True
    then have "(of_char (digit_char n) :: nat) \<noteq> of_char CHR ''0''" using 1(2) by (simp add: is_digit_char)
    then show ?thesis using True by (subst show_nat.simps) auto
  next
    case False
    then have "hd (show_nat (n div 10)) \<noteq> CHR ''0''" using 1(1) by simp
    with False show ?thesis by (subst show_nat.simps) (simp add: show_nat_nonempty)
  qed
qed

lemma scan_whole_show_nat:
  assumes "document_ends rest"
  shows "scan_whole (show_nat n @ rest) = (show_nat n, rest)"
proof (cases "n = 0")
  case True
  moreover have "show_nat 0 = ''0''" by code_simp
  ultimately have "show_nat n = ''0''" by simp
  then show ?thesis by (simp add: scan_whole_def is_digit_def)
next
  case False
  obtain c t where s: "show_nat n = c # t" using show_nat_nonempty by (cases "show_nat n") auto
  then have "c \<noteq> CHR ''0''" "list_all is_digit (c # t)" using show_nat_first [OF False] show_nat_is_digit [of n] by simp_all
  moreover have "takeWhile is_digit (c # t @ rest) = c # t" "dropWhile is_digit (c # t @ rest) = rest"
    using calculation(2) ends_digits [OF assms] by (simp_all add: list_all_iff takeWhile_append2 dropWhile_append2)
  ultimately show ?thesis by (simp add: scan_whole_def s)
qed

lemma scan_show_int:
  assumes "document_ends rest" and "length (show_nat (nat \<bar>i\<bar>)) \<le> max_int_digits"
  shows "scan_number to_float (show_int i @ rest) = Inr (PyInt i, rest)"
proof -
  obtain c t where s: "show_nat (nat \<bar>i\<bar>) = c # t" using show_nat_nonempty by (cases "show_nat (nat \<bar>i\<bar>)") auto
  then have "c \<noteq> CHR ''-''" using show_nat_is_digit [of "nat \<bar>i\<bar>"] by (auto simp: is_digit_def)
  then show ?thesis
    using assms ends_tail [OF assms(1)] scan_whole_show_nat [OF assms(1), of "nat \<bar>i\<bar>"] digits_value_show_nat [of "nat \<bar>i\<bar>"] s
    by (cases "i < 0") (auto simp: scan_number_def show_int_def Let_def)
qed

lemma starts_Cons: "starts (c # w) (d # s) \<longleftrightarrow> d = c \<and> starts w s" "starts [] s" "\<not> starts (c # w) []"
  by (auto simp: starts_def)

lemma show_int_first: "\<exists>c t. show_int i = c # t \<and> (c = CHR ''-'' \<and> (\<exists>d u. t = d # u \<and> is_digit d) \<or> is_digit c)"
proof -
  have digits: "\<exists>c t. show_nat n = c # t \<and> is_digit c" for n
    using show_nat_nonempty [of n] show_nat_is_digit [of n] by (cases "show_nat n") simp_all
  show ?thesis
  proof (cases "i < 0")
    case True
    with digits [of "nat (- i)"] show ?thesis by (auto simp: show_int_def)
  next
    case False
    with digits [of "nat i"] show ?thesis by (auto simp: show_int_def)
  qed
qed

lemma digit_not:
  assumes "is_digit c"
  shows "c \<notin> {CHR 0x22, CHR ''{'', CHR ''['', CHR ''n'', CHR ''t'', CHR ''f'', CHR ''N'', CHR ''I'',
    CHR '']'', CHR ''}'', CHR '' '', CHR 0x09, CHR 0x0A, CHR 0x0D, CHR '','', CHR '':'', CHR 0x5C}"
proof -
  have "list_all (\<lambda>d. \<not> is_digit d) [CHR 0x22, CHR ''{'', CHR ''['', CHR ''n'', CHR ''t'', CHR ''f'', CHR ''N'', CHR ''I'',
    CHR '']'', CHR ''}'', CHR '' '', CHR 0x09, CHR 0x0A, CHR 0x0D, CHR '','', CHR '':'', CHR 0x5C]"
    by (simp add: is_digit_def)
  with assms show ?thesis unfolding list.pred_inject by blast
qed

lemma scan_scalar_int:
  assumes "document_ends rest" and "length (show_nat (nat \<bar>i\<bar>)) \<le> max_int_digits"
  shows "scan_value to_float (Suc n) (show_int i @ rest) = Inr (PyInt i, rest)"
proof -
  obtain c t where s: "show_int i = c # t" and first: "c = CHR ''-'' \<and> (\<exists>d u. t = d # u \<and> is_digit d) \<or> is_digit c"
    using show_int_first [of i] by blast
  have other: "c \<notin> {CHR 0x22, CHR ''{'', CHR ''['', CHR ''n'', CHR ''t'', CHR ''f'', CHR ''N'', CHR ''I''}"
  proof (cases "is_digit c")
    case True
    from digit_not [OF this] show ?thesis by simp
  next
    case False
    with first have "c = CHR ''-''" by blast
    then show ?thesis by simp
  qed
  have "\<not> starts ''-Infinity'' (c # t @ rest)"
  proof (cases "is_digit c")
    case True
    then have "c \<noteq> CHR ''-''" by (auto simp: is_digit_def)
    then show ?thesis by (simp add: starts_Cons)
  next
    case False
    with first obtain d u where "t = d # u" "is_digit d" by blast
    moreover from this(2) have "d \<noteq> CHR ''I''" by (auto simp: is_digit_def)
    ultimately show ?thesis by (simp add: starts_Cons)
  qed
  then have "scan_value to_float (Suc n) (show_int i @ rest) = scan_number to_float (show_int i @ rest)"
    using other by (simp add: scan_value.simps scan_scalar_def starts_Cons s) blast
  then show ?thesis using scan_show_int [OF assms] by simp
qed

lemma json_space_space: "\<not> is_space c \<Longrightarrow> \<not> json_space c"
  by (auto simp: json_space_def is_space_def)

lemma skip_token: "c \<in> {CHR '','', CHR '']'', CHR ''}'', CHR '':'', CHR 0x22} \<Longrightarrow> skip (c # s) = c # s"
  by (auto simp: skip_def json_space_def)

lemma token_simps [simp]:
  "expect c (c # s) = Inr s" "separator c (c # s) = Inr (False, s)"
  "c \<noteq> CHR '','' \<Longrightarrow> separator c (CHR '','' # s) = Inr (True, skip s)"
  by (simp_all add: expect_def separator_def)

text \<open>The document of a value in key order, with the characters of strings encoded by \<open>enc\<close>\<close>

definition quoted :: "(char \<Rightarrow> string) \<Rightarrow> string \<Rightarrow> string" where
  "quoted enc s = [CHR 0x22] @ concat (map enc s) @ [CHR 0x22]"

fun plain_text :: "(char \<Rightarrow> string) \<Rightarrow> pyval \<Rightarrow> string" where
  "plain_text enc PyNone = ''null''"
| "plain_text enc (PyBool b) = (if b then ''true'' else ''false'')"
| "plain_text enc (PyInt i) = show_int i"
| "plain_text enc (PyStr s) = quoted enc s"
| "plain_text enc (PyList xs) = ''['' @ join '','' (map (plain_text enc) xs) @ '']''"
| "plain_text enc (PyDict d) = ''{'' @ join '','' (map (\<lambda>(k, v). quoted enc k @ '':'' @ plain_text enc v) d) @ ''}''"
| "plain_text enc v = []"

lemma quoted_json: "quoted json_char s = json_string s"
  by (simp add: quoted_def json_string_def)

lemma plain_text_dumps: "plain_text json_char v = plain_dumps v"
  by (induction v rule: plain_dumps.induct) (auto simp: quoted_json intro!: arg_cong [of _ _ "join '',''"])

abbreviation scans :: "(char \<Rightarrow> string) \<Rightarrow> (string \<Rightarrow> py_float) \<Rightarrow> pyval \<Rightarrow> bool" where
  "scans enc to_float v \<equiv> (\<forall>n rest. document_ends rest \<longrightarrow> 2 * length (plain_text enc v) + 1 \<le> n
     \<longrightarrow> scan_value to_float n (plain_text enc v @ rest) = Inr (v, rest))"

abbreviation entry :: "(char \<Rightarrow> string) \<Rightarrow> string \<times> pyval \<Rightarrow> string" where
  "entry enc \<equiv> \<lambda>(k, v). quoted enc k @ '':'' @ plain_text enc v"

text \<open>An encoding of characters that the scanner of strings undoes\<close>

locale json_text =
  fixes enc :: "char \<Rightarrow> string"
  assumes scan_enc: "scan_string (enc c @ t) = bind_json (scan_string t) (\<lambda>(v, rest). Inr (c # v, rest))"
begin

lemma scan_enc_chars: "scan_string (concat (map enc s) @ CHR 0x22 # rest) = Inr (s, rest)"
  by (induction s) (simp_all add: scan_enc)

lemma plain_first:
  assumes "dumpable v"
  obtains c t where "plain_text enc v = c # t" and "\<not> is_space c" and "c \<notin> {CHR '']'', CHR ''}''}"
proof (cases v)
  case (PyInt i)
  obtain c t where s: "show_int i = c # t" and "c = CHR ''-'' \<or> is_digit c" using show_int_first [of i] by blast
  then have "\<not> is_space c \<and> c \<notin> {CHR '']'', CHR ''}''}"
  proof (elim disjE)
    assume "is_digit c"
    with digit_not [OF this] show ?thesis by (simp add: is_space_def is_digit_def Let_def)
  qed (simp add: is_space_def)
  with PyInt s show thesis using that [of c t] by simp
next
  case (PyBool b)
  then show thesis using that by (cases b) (simp_all add: is_space_def)
qed (use assms that in \<open>simp_all add: is_space_def quoted_def\<close>)

lemma skip_plain:
  assumes "dumpable v"
  shows "skip (plain_text enc v @ rest) = plain_text enc v @ rest"
  using assms by (rule plain_first) (simp add: skip_def json_space_space)

lemma scans_scalar:
  assumes "\<And>m rest. document_ends rest \<Longrightarrow> scan_value to_float (Suc m) (plain_text enc v @ rest) = Inr (v, rest)"
  shows "scans enc to_float v"
proof (intro allI impI)
  fix n rest assume "document_ends rest" "2 * length (plain_text enc v) + 1 \<le> n"
  then show "scan_value to_float n (plain_text enc v @ rest) = Inr (v, rest)" using assms by (cases n) simp_all
qed

lemma scan_elements_plain:
  assumes "vs \<noteq> []" and "\<forall>v\<in>set vs. dumpable v \<and> scans enc to_float v"
    and "2 * length (join '','' (map (plain_text enc) vs)) + 2 \<le> n"
  shows "scan_elements to_float n (join '','' (map (plain_text enc) vs) @ CHR '']'' # rest) = Inr (vs, rest)"
  using assms
proof (induction vs arbitrary: n rule: list_nonempty_induct)
  case (single v)
  then obtain m where "n = Suc m" "2 * length (plain_text enc v) + 1 \<le> m" by (cases n) auto
  then show ?case
    using single by (simp add: scan_elements.simps document_ends_def skip_token)
next
  case (cons v vs)
  obtain w ws where vs: "vs = w # ws" using cons(1) by (cases vs) auto
  then obtain m where m: "n = Suc m" "2 * length (plain_text enc v) + 1 \<le> m" "2 * length (join '','' (map (plain_text enc) vs)) + 2 \<le> m"
    using cons.prems by (cases n) auto
  have "scan_value to_float m (plain_text enc v @ CHR '','' # join '','' (map (plain_text enc) vs) @ CHR '']'' # rest)
      = Inr (v, CHR '','' # join '','' (map (plain_text enc) vs) @ CHR '']'' # rest)"
    using cons.prems(1) m(2) by (simp add: document_ends_def)
  moreover have "skip (join '','' (map (plain_text enc) vs) @ CHR '']'' # rest) = join '','' (map (plain_text enc) vs) @ CHR '']'' # rest"
    using skip_plain [of w] cons.prems(1) by (cases ws) (simp_all add: vs)
  ultimately show ?case
    using cons.IH [OF _ m(3)] cons.prems(1)
    by (simp add: vs m(1) scan_elements.simps skip_token)
qed

lemma scan_key: "expect CHR 0x22 (quoted enc k @ s) = Inr (concat (map enc k) @ CHR 0x22 # s)"
  by (simp add: quoted_def expect_def)

lemma skip_entry: "skip (entry enc p @ s) = entry enc p @ s"
  by (cases p) (simp add: quoted_def skip_token)

lemma scan_pairs_plain:
  assumes "ps \<noteq> []" and "\<forall>p\<in>set ps. dumpable (snd p) \<and> scans enc to_float (snd p)"
    and "2 * length (join '','' (map (entry enc) ps)) + 2 \<le> n"
  shows "scan_pairs to_float n (join '','' (map (entry enc) ps) @ CHR ''}'' # rest) = Inr (ps, rest)"
  using assms
proof (induction ps arbitrary: n rule: list_nonempty_induct)
  case (single p)
  then obtain m where "n = Suc m" "2 * length (plain_text enc (snd p)) + 1 \<le> m" by (cases n; cases p) auto
  then show ?case
    using single skip_plain [of "snd p"]
    by (cases p) (simp add: scan_pairs.simps scan_key scan_enc_chars document_ends_def skip_token)
next
  case (cons p ps)
  obtain q qs where ps: "ps = q # qs" using cons(1) by (cases ps) auto
  then obtain m where m: "n = Suc m" "2 * length (plain_text enc (snd p)) + 1 \<le> m" "2 * length (join '','' (map (entry enc) ps)) + 2 \<le> m"
    using cons.prems by (cases n; cases p) auto
  let ?more = "CHR '','' # join '','' (map (entry enc) ps) @ CHR ''}'' # rest"
  have "scan_value to_float m (plain_text enc (snd p) @ ?more) = Inr (snd p, ?more)"
    using cons.prems(1) m(2) by (simp add: document_ends_def)
  moreover have "skip (join '','' (map (entry enc) ps) @ CHR ''}'' # rest) = join '','' (map (entry enc) ps) @ CHR ''}'' # rest"
    using skip_entry [of q "CHR ''}'' # rest"] skip_entry [of q "'','' @ join '','' (map (entry enc) qs) @ CHR ''}'' # rest"]
    by (cases qs) (simp_all add: ps)
  ultimately show ?case
    using cons.IH [OF _ m(3)] cons.prems(1) skip_plain [of "snd p"]
    by (cases p) (simp add: ps m(1) scan_pairs.simps scan_key scan_enc_chars skip_token)
qed

lemma scan_plain: "dumpable v \<Longrightarrow> scans enc to_float v"
proof (induction v rule: plain_dumps.induct)
  case 1
  show ?case by (rule scans_scalar) (simp add: scan_value.simps scan_scalar_def starts_Cons)
next
  case (2 b)
  show ?case by (rule scans_scalar) (simp add: scan_value.simps scan_scalar_def starts_Cons)
next
  case (3 i)
  then show ?case by (intro scans_scalar) (simp add: scan_scalar_int)
next
  case (4 s)
  show ?case by (rule scans_scalar) (simp add: scan_value.simps starts_Cons quoted_def scan_enc_chars)
next
  case (5 vs)
  then have parts: "\<forall>v\<in>set vs. dumpable v \<and> scans enc to_float v" by (simp add: list_all_iff)
  show ?case
  proof (intro allI impI)
    fix n rest assume "2 * length (plain_text enc (PyList vs)) + 1 \<le> n"
    then obtain m where m: "n = Suc m" "2 * length (join '','' (map (plain_text enc) vs)) + 2 \<le> m" by (cases n) auto
    show "scan_value to_float n (plain_text enc (PyList vs) @ rest) = Inr (PyList vs, rest)"
    proof (cases vs)
      case Nil
      then show ?thesis by (simp add: m(1) scan_value.simps starts_Cons skip_token)
    next
      case (Cons w ws)
      obtain c t where first: "plain_text enc w = c # t" "\<not> is_space c" "c \<notin> {CHR '']'', CHR ''}''}"
        using plain_first [of w] parts Cons by auto
      then obtain u where "join '','' (map (plain_text enc) vs) = c # u" using Cons by (cases ws) auto
      with first show ?thesis
        using scan_elements_plain [OF _ parts m(2), of rest] Cons
        by (simp add: m(1) scan_value.simps starts_Cons skip_def json_space_space del: join.simps)
    qed
  qed
next
  case (6 d)
  then have parts: "\<forall>p\<in>set d. dumpable (snd p) \<and> scans enc to_float (snd p)" and keys: "distinct (map fst d)"
    by (auto simp: list_all_iff)
  show ?case
  proof (intro allI impI)
    fix n rest assume "2 * length (plain_text enc (PyDict d)) + 1 \<le> n"
    then obtain m where m: "n = Suc m" "2 * length (join '','' (map (entry enc) d)) + 2 \<le> m" by (cases n) auto
    show "scan_value to_float n (plain_text enc (PyDict d) @ rest) = Inr (PyDict d, rest)"
    proof (cases d)
      case Nil
      then show ?thesis by (simp add: m(1) scan_value.simps starts_Cons skip_token)
    next
      case (Cons p ps)
      then obtain u where "join '','' (map (entry enc) d) = CHR 0x22 # u"
        by (cases ps; cases p) (simp_all add: quoted_def)
      then show ?thesis
        using scan_pairs_plain [OF _ parts m(2), of rest] Cons keys
        by (simp add: m(1) scan_value.simps starts_Cons skip_token unique_object_def del: join.simps)
    qed
  qed
qed simp_all

end

text \<open>The two encodings of \<open>json.dumps\<close>: \<open>ensure_ascii=False\<close>, and the default\<close>

interpretation canonical: json_text json_char
  by unfold_locales (rule scan_json_char)

interpretation ascii: json_text ascii_char
  by unfold_locales (rule scan_ascii_char)

end
