(* ===== verification/Json_Preflight.thy ===== *)
theory Json_Preflight
  imports Json_Roundtrip
begin

text \<open>
  The pass over the characters of a document: it counts the values and the nesting of the value
  that the document was made from, and nothing in a string is taken for structure.
\<close>

section \<open>Characters without structure\<close>

definition outside :: "preflight_state \<Rightarrow> bool" where
  "outside st = (\<not> pre_in_string st \<and> \<not> pre_escaped st)"

definition inside :: "preflight_state \<Rightarrow> bool" where
  "inside st = (pre_in_string st \<and> \<not> pre_escaped st)"

lemma preflight_append:
  "preflight_loop D N st (s @ t) = bind_json (preflight_loop D N st s) (\<lambda>st. preflight_loop D N st t)"
  by (induction s arbitrary: st) (simp_all add: bind_json_assoc)

lemma inside_plain: "inside st \<Longrightarrow> list_all (\<lambda>c. c \<notin> {CHR 0x22, CHR 0x5C}) s \<Longrightarrow> preflight_loop D N st s = Inr st"
  by (induction s) (auto simp: preflight_char_def inside_def)

lemma inside_escape: "inside st \<Longrightarrow> preflight_loop D N st (CHR 0x5C # e # s) = preflight_loop D N st s"
  by (cases st) (simp add: preflight_char_def inside_def)

lemma code_other: "of_char c \<notin> {34, 92 :: nat} \<Longrightarrow> c \<notin> {CHR 0x22, CHR 0x5C}"
  by auto

lemma hex4_plain: "list_all (\<lambda>c. c \<notin> {CHR 0x22, CHR 0x5C}) (hex4 n)"
proof -
  have "of_char (if d < 10 then char_of (48 + d) else char_of (87 + d) :: char) \<notin> {34, 92 :: nat}" if "d < 16" for d :: nat
    using that by simp
  from code_other [OF this] show ?thesis by (simp add: hex4_def Let_def)
qed

lemma inside_json_char:
  assumes "inside st"
  shows "preflight_loop D N st (json_char c) = Inr st"
proof -
  have "preflight_loop D N st [CHR 0x5C, e] = Inr st" "preflight_loop D N st (CHR 0x5C # e # hex4 n) = Inr st" for e n
    using inside_plain [OF assms hex4_plain] by (simp_all add: inside_escape [OF assms] del: preflight_loop.simps(2))
  moreover have "preflight_loop D N st [c] = Inr st" if "of_char c \<notin> {34, 92 :: nat}"
    using code_other [OF that] by (intro inside_plain [OF assms]) simp
  ultimately show ?thesis by (simp add: json_char_def Let_def del: preflight_loop.simps(2))
qed

lemma inside_ascii_char:
  assumes "inside st"
  shows "preflight_loop D N st (ascii_char c) = Inr st"
proof -
  have "preflight_loop D N st (CHR 0x5C # e # hex4 n) = Inr st" for e n
    using inside_plain [OF assms hex4_plain] by (simp add: inside_escape [OF assms] del: preflight_loop.simps(2))
  then show ?thesis by (simp add: ascii_char_def inside_json_char [OF assms] del: preflight_loop.simps(2))
qed


section \<open>The first value of an array\<close>

text \<open>The state once the first value of the innermost container is counted\<close>

definition touch :: "nat \<Rightarrow> preflight_state \<Rightarrow> preflight_state json_res" where
  "touch N st = first_element N (CHR 0x22) st"

definition touched :: "preflight_state \<Rightarrow> bool" where
  "touched st = (\<forall>rest. pre_containers st \<noteq> (CHR ''['', False) # rest)"

lemma first_element_touch: "\<not> is_space c \<Longrightarrow> c \<noteq> CHR '']'' \<Longrightarrow> first_element N c st = touch N st"
  by (simp add: touch_def first_element_def is_space_def split: list.split)

lemma touched_first: "touched st \<Longrightarrow> first_element N c st = Inr st"
  by (auto simp: touched_def first_element_def split: list.split)

lemma touch_first:
  assumes "outside st" and "\<not> is_space c" and "c \<noteq> CHR '']''"
  shows "preflight_loop D N st (c # s) = bind_json (touch N st) (\<lambda>st. preflight_loop D N st (c # s))"
proof (cases "touched st")
  case True
  then show ?thesis using touched_first by (simp add: touch_def)
next
  case False
  then obtain rest where c: "pre_containers st = (CHR ''['', False) # rest" by (auto simp: touched_def)
  show ?thesis
  proof (cases "pre_nodes st + 1 > N")
    case True
    with c assms show ?thesis
      by (simp add: preflight_char_def outside_def first_element_touch touch_def first_element_def add_node_def is_space_def)
  next
    case False
    let ?st = "st\<lparr>pre_nodes := pre_nodes st + 1, pre_containers := (CHR ''['', True) # rest\<rparr>"
    have "touch N st = Inr ?st" using c False by (simp add: touch_def first_element_def add_node_def is_space_def)
    moreover have "touched ?st" by (simp add: touched_def)
    ultimately show ?thesis
      using assms touched_first [of ?st N "CHR 0x22"]
      by (simp add: preflight_char_def outside_def first_element_touch touch_def)
  qed
qed


section \<open>The documents of values\<close>

text \<open>A state between two values, and what a value adds to it\<close>

definition settled :: "nat \<Rightarrow> nat \<Rightarrow> preflight_state \<Rightarrow> bool" where
  "settled D N st = (outside st \<and> touched st \<and> pre_depth st \<le> D \<and> pre_nodes st \<le> N)"

definition grow :: "nat \<Rightarrow> preflight_state \<Rightarrow> preflight_state" where
  "grow k st = st\<lparr>pre_nodes := pre_nodes st + k\<rparr>"

lemma grow_simps [simp]: "pre_depth (grow k st) = pre_depth st" "pre_containers (grow k st) = pre_containers st"
  "pre_nodes (grow k st) = pre_nodes st + k" "grow 0 st = st" "grow j (grow k st) = grow (k + j) st"
  "outside (grow k st) = outside st" "touched (grow k st) = touched st"
  by (simp_all add: grow_def outside_def touched_def)

lemma settled_grow: "settled D N st \<Longrightarrow> pre_nodes st + k \<le> N \<Longrightarrow> settled D N (grow k st)"
  by (simp add: settled_def)

lemma char_step: "settled D N st \<Longrightarrow> preflight_char D N st c = structural_char D N c st"
  by (simp add: preflight_char_def settled_def outside_def touched_first)

lemma preflight_neutral:
  assumes "settled D N st" and "list_all (\<lambda>c. c \<notin> {CHR 0x22, CHR ''['', CHR ''{'', CHR '':'', CHR '','', CHR '']'', CHR ''}''}) s"
  shows "preflight_loop D N st s = Inr st"
  using assms(2) by (induction s) (simp_all add: char_step [OF assms(1)] structural_char_def)

lemma show_int_neutral:
  "list_all (\<lambda>c. c \<notin> {CHR 0x22, CHR ''['', CHR ''{'', CHR '':'', CHR '','', CHR '']'', CHR ''}''}) (show_int i)"
proof -
  have "list_all (\<lambda>c. c \<notin> {CHR 0x22, CHR ''['', CHR ''{'', CHR '':'', CHR '','', CHR '']'', CHR ''}''}) (show_nat n)" for n
    using show_nat_is_digit [of n] unfolding list_all_iff by (blast dest: digit_not)
  then show ?thesis by (simp add: show_int_def)
qed

text \<open>Opening and closing a container\<close>

definition opened :: "char \<Rightarrow> preflight_state \<Rightarrow> preflight_state" where
  "opened c st = st\<lparr>pre_depth := pre_depth st + 1, pre_containers := (c, False) # pre_containers st\<rparr>"

lemma opened_simps [simp]: "pre_depth (opened c st) = pre_depth st + 1" "pre_nodes (opened c st) = pre_nodes st"
  "pre_containers (opened c st) = (c, False) # pre_containers st" "outside (opened c st) = outside st"
  by (simp_all add: opened_def outside_def)

lemma open_step:
  assumes "settled D N st" and "c \<in> {CHR ''['', CHR ''{''}"
  shows "preflight_loop D N st (c # s) = Inr st' \<longleftrightarrow> pre_depth st + 1 \<le> D \<and> preflight_loop D N (opened c st) s = Inr st'"
  using assms(2) by (auto simp: char_step [OF assms(1)] structural_char_def opened_def)

lemma close_step:
  assumes "outside st" and "c = CHR '']'' \<or> c = CHR ''}'' \<and> touched st"
  shows "preflight_loop D N st [c] = Inr (st\<lparr>pre_depth := pre_depth st - 1, pre_containers := tl (pre_containers st)\<rparr>)"
proof -
  have "first_element N c st = Inr st"
    using assms(2)
  proof
    assume "c = CHR '']''"
    then show ?thesis by (simp add: first_element_def split: list.split)
  qed (simp add: touched_first)
  then show ?thesis using assms by (auto simp: preflight_char_def outside_def structural_char_def)
qed

lemma close_opened:
  "grow k st = (grow k (opened c st))\<lparr>pre_depth := pre_depth (grow k (opened c st)) - 1,
     pre_containers := tl (pre_containers (grow k (opened c st)))\<rparr>"
  by (simp add: grow_def opened_def)

lemma nesting_le_add:
  "d + nesting (PyList vs) \<le> D \<longleftrightarrow> d + 1 \<le> D \<and> (\<forall>v\<in>set vs. d + 1 + nesting v \<le> D)"
  "d + nesting (PyDict ps) \<le> D \<longleftrightarrow> d + 1 \<le> D \<and> (\<forall>p\<in>set ps. d + 1 + nesting (snd p) \<le> D)"
  using foldr_max_plus [of "d + 1" nesting vs D] foldr_max_plus [of "d + 1" "\<lambda>p. nesting (snd p)" ps D]
  by (simp_all add: case_prod_unfold)

definition opened_first :: "preflight_state \<Rightarrow> preflight_state" where
  "opened_first st = st\<lparr>pre_depth := pre_depth st + 1, pre_nodes := pre_nodes st + 1,
     pre_containers := (CHR ''['', True) # pre_containers st\<rparr>"

lemma opened_first_simps [simp]: "pre_depth (opened_first st) = pre_depth st + 1"
  "pre_nodes (opened_first st) = pre_nodes st + 1" "pre_containers (opened_first st) = (CHR ''['', True) # pre_containers st"
  "outside (opened_first st) = outside st" "touched (opened_first st)"
  by (simp_all add: opened_first_def outside_def touched_def)

lemma touch_opened: "touch N (opened (CHR ''['') st) = Inr s \<longleftrightarrow> pre_nodes st + 1 \<le> N \<and> s = opened_first st"
  by (auto simp: touch_def first_element_def is_space_def add_node_def opened_def opened_first_def)

abbreviation counts :: "(char \<Rightarrow> string) \<Rightarrow> nat \<Rightarrow> nat \<Rightarrow> pyval \<Rightarrow> bool" where
  "counts enc D N v \<equiv> (\<forall>st st'. settled D N st \<longrightarrow> preflight_loop D N st (plain_text enc v) = Inr st' \<longleftrightarrow>
     pre_depth st + nesting v \<le> D \<and> pre_nodes st + (tree_nodes v - 1) \<le> N \<and> st' = grow (tree_nodes v - 1) st)"

text \<open>An encoding that moreover hides the characters of a string from the pass\<close>

locale counted_text = json_text +
  assumes inside_enc: "inside st \<Longrightarrow> preflight_loop D N st (enc c) = Inr st"
begin

lemma inside_enc_chars: "inside st \<Longrightarrow> preflight_loop D N st (concat (map enc s)) = Inr st"
  by (induction s) (simp_all add: preflight_append inside_enc)


lemma preflight_string: "settled D N st \<Longrightarrow> preflight_loop D N st (quoted enc s) = Inr st"
proof -
  assume st: "settled D N st"
  let ?st = "st\<lparr>pre_in_string := True\<rparr>"
  have "inside ?st" using st by (simp add: settled_def outside_def inside_def)
  then show ?thesis
    using st by (simp add: quoted_def preflight_append inside_enc_chars char_step structural_char_def)
      (simp add: preflight_char_def settled_def outside_def)
qed

lemma preflight_elements:
  assumes "vs \<noteq> []" and "\<forall>v\<in>set vs. counts enc D N v" and "settled D N st" and "pre_containers st = (CHR ''['', True) # cs"
  shows "preflight_loop D N st (join '','' (map (plain_text enc) vs)) = Inr st' \<longleftrightarrow>
    (\<forall>v\<in>set vs. pre_depth st + nesting v \<le> D) \<and> pre_nodes st + (sum_list (map tree_nodes vs) - 1) \<le> N
    \<and> st' = grow (sum_list (map tree_nodes vs) - 1) st"
  using assms
proof (induction vs arbitrary: st rule: list_nonempty_induct)
  case (single v)
  then show ?case by simp
next
  case (cons v vs)
  have comma: "preflight_loop D N s (CHR '','' # t) = bind_json (add_node N s) (\<lambda>s. preflight_loop D N s t)"
    if "settled D N s" "pre_containers s = (CHR ''['', True) # cs" for s t
    using that by (simp add: char_step structural_char_def)
  have more: "0 < sum_list (map tree_nodes vs)" using cons(1) tree_nodes_pos by (cases vs) simp_all
  have pos: "0 < tree_nodes v" by (rule tree_nodes_pos)
  let ?a = "tree_nodes v - 1" and ?st = "grow (tree_nodes v) st"
  have add: "add_node N (grow ?a st) = Inr s \<longleftrightarrow> pre_nodes st + tree_nodes v \<le> N \<and> s = ?st" for s
    using pos by (auto simp: add_node_def grow_def)
  let ?J = "join '','' (map (plain_text enc) vs)"
  have joined: "join '','' (map (plain_text enc) (v # vs)) = plain_text enc v @ CHR '','' # ?J" using cons(1) by (cases vs) simp_all
  have first: "preflight_loop D N st (plain_text enc v) = Inr s \<longleftrightarrow>
      pre_depth st + nesting v \<le> D \<and> pre_nodes st + ?a \<le> N \<and> s = grow ?a st" for s
    using cons.prems(1,2) by simp
  have "preflight_loop D N (grow ?a st) (CHR '','' # ?J) = Inr st'
      \<longleftrightarrow> pre_nodes st + tree_nodes v \<le> N \<and> preflight_loop D N ?st ?J = Inr st'" if "pre_nodes st + ?a \<le> N"
    using comma [of "grow ?a st" ?J] settled_grow [OF cons.prems(2) that] cons.prems(3) add
    by (auto simp: bind_json_Inr_iff)
  then have split: "preflight_loop D N st (join '','' (map (plain_text enc) (v # vs))) = Inr st' \<longleftrightarrow>
      pre_depth st + nesting v \<le> D \<and> pre_nodes st + tree_nodes v \<le> N \<and> preflight_loop D N ?st ?J = Inr st'"
    unfolding joined preflight_append bind_json_Inr_iff first by auto
  show ?case
  proof (cases "pre_nodes st + tree_nodes v \<le> N")
    case True
    then have "preflight_loop D N ?st ?J = Inr st' \<longleftrightarrow> (\<forall>v\<in>set vs. pre_depth ?st + nesting v \<le> D)
        \<and> pre_nodes ?st + (sum_list (map tree_nodes vs) - 1) \<le> N \<and> st' = grow (sum_list (map tree_nodes vs) - 1) ?st"
      using cons.prems settled_grow by (intro cons.IH) simp_all
    then show ?thesis unfolding split using True more by auto
  next
    case False
    then show ?thesis unfolding split using more pos by auto
  qed
qed

lemma preflight_entry:
  assumes "counts enc D N (snd p)" and st: "settled D N st"
  shows "preflight_loop D N st (entry enc p) = Inr st' \<longleftrightarrow>
    pre_depth st + nesting (snd p) \<le> D \<and> pre_nodes st + tree_nodes (snd p) \<le> N \<and> st' = grow (tree_nodes (snd p)) st"
proof -
  obtain k v where p: "p = (k, v)" by fastforce
  have pos: "0 < tree_nodes v" by (rule tree_nodes_pos)
  have "preflight_loop D N st (entry enc p) = bind_json (add_node N st) (\<lambda>s. preflight_loop D N s (plain_text enc v))"
    using st by (simp add: p preflight_append preflight_string char_step structural_char_def)
  also have "\<dots> = Inr st' \<longleftrightarrow> pre_nodes st + 1 \<le> N \<and> preflight_loop D N (grow 1 st) (plain_text enc v) = Inr st'"
    by (auto simp: add_node_def grow_def)
  also have "\<dots> \<longleftrightarrow> pre_depth st + nesting v \<le> D \<and> pre_nodes st + tree_nodes v \<le> N \<and> st' = grow (tree_nodes v) st"
  proof (cases "pre_nodes st + 1 \<le> N")
    case True
    then show ?thesis using assms(1) settled_grow [OF st True] pos by (auto simp: p)
  next
    case False
    then show ?thesis using pos by auto
  qed
  finally show ?thesis by (simp add: p)
qed

lemma preflight_entries:
  assumes "ps \<noteq> []" and "\<forall>p\<in>set ps. counts enc D N (snd p)" and "settled D N st" and "pre_containers st = (CHR ''{'', b) # cs"
  shows "preflight_loop D N st (join '','' (map (entry enc) ps)) = Inr st' \<longleftrightarrow>
    (\<forall>p\<in>set ps. pre_depth st + nesting (snd p) \<le> D) \<and> pre_nodes st + sum_list (map (\<lambda>p. tree_nodes (snd p)) ps) \<le> N
    \<and> st' = grow (sum_list (map (\<lambda>p. tree_nodes (snd p)) ps)) st"
  using assms
proof (induction ps arbitrary: st rule: list_nonempty_induct)
  case (single p)
  then have "counts enc D N (snd p)" by simp
  from preflight_entry [OF this single(2)] show ?case by simp
next
  case (cons p ps)
  let ?J = "join '','' (map (entry enc) ps)" and ?st = "grow (tree_nodes (snd p)) st"
  have joined: "join '','' (map (entry enc) (p # ps)) = entry enc p @ CHR '','' # ?J" using cons(1) by (cases ps) simp_all
  have "counts enc D N (snd p)" using cons.prems(1) by simp
  note first = preflight_entry [OF this cons.prems(2)]
  have "preflight_loop D N ?st (CHR '','' # ?J) = preflight_loop D N ?st ?J" if "pre_nodes st + tree_nodes (snd p) \<le> N"
    using char_step [OF settled_grow [OF cons.prems(2) that]] cons.prems(3) by (simp add: structural_char_def)
  then have split: "preflight_loop D N st (join '','' (map (entry enc) (p # ps))) = Inr st' \<longleftrightarrow>
      pre_depth st + nesting (snd p) \<le> D \<and> pre_nodes st + tree_nodes (snd p) \<le> N \<and> preflight_loop D N ?st ?J = Inr st'"
    unfolding joined preflight_append bind_json_Inr_iff first by auto
  show ?case
  proof (cases "pre_nodes st + tree_nodes (snd p) \<le> N")
    case True
    then have "preflight_loop D N ?st ?J = Inr st' \<longleftrightarrow> (\<forall>p\<in>set ps. pre_depth ?st + nesting (snd p) \<le> D)
        \<and> pre_nodes ?st + sum_list (map (\<lambda>p. tree_nodes (snd p)) ps) \<le> N \<and> st' = grow (sum_list (map (\<lambda>p. tree_nodes (snd p)) ps)) ?st"
      using cons.prems settled_grow by (intro cons.IH) simp_all
    then show ?thesis unfolding split using True by auto
  next
    case False
    then show ?thesis unfolding split by auto
  qed
qed

lemma counts_list:
  assumes parts: "\<forall>v\<in>set vs. dumpable v \<and> counts enc D N v"
  shows "counts enc D N (PyList vs)"
proof (intro allI impI)
  fix st st' assume st: "settled D N st"
  let ?st = "opened (CHR ''['') st" and ?J = "join '','' (map (plain_text enc) vs)"
  let ?S = "sum_list (map tree_nodes vs)"
  have out: "outside st" using st by (simp add: settled_def)
  have "preflight_loop D N ?st (?J @ '']'') = Inr st' \<longleftrightarrow> (vs \<noteq> [] \<longrightarrow> pre_nodes st + ?S \<le> N)
      \<and> (\<forall>v\<in>set vs. pre_depth st + 1 + nesting v \<le> D) \<and> st' = grow ?S st" if room: "pre_depth st + 1 \<le> D"
  proof (cases vs)
    case Nil
    then show ?thesis using close_step [of ?st "CHR '']''"] out close_opened [of 0 st] by auto
  next
    case (Cons w ws)
    obtain c t where first: "plain_text enc w = c # t" "\<not> is_space c" "c \<noteq> CHR '']''"
      by (rule plain_first [of w]) (use parts Cons in simp_all)
    then obtain u where u: "?J = c # u" using Cons by (cases ws) auto
    have more: "0 < ?S" using tree_nodes_pos [of w] Cons by simp
    have close: "preflight_loop D N (grow k (opened_first st)) '']'' = Inr (grow (k + 1) st)" for k
      by (subst close_step) (use out in \<open>auto simp: grow_def opened_first_def outside_def\<close>)
    have "preflight_loop D N ?st (?J @ '']'') = Inr st' \<longleftrightarrow>
        pre_nodes st + 1 \<le> N \<and> preflight_loop D N (opened_first st) (?J @ '']'') = Inr st'"
      unfolding u append_Cons using out first(2,3)
      by (subst touch_first) (auto simp: bind_json_Inr_iff touch_opened simp del: preflight_loop.simps(2))
    also have "\<dots> \<longleftrightarrow> pre_nodes st + ?S \<le> N \<and> (\<forall>v\<in>set vs. pre_depth st + 1 + nesting v \<le> D) \<and> st' = grow ?S st"
    proof (cases "pre_nodes st + 1 \<le> N")
      case True
      then have "settled D N (opened_first st)" using st room by (simp add: settled_def)
      then have "preflight_loop D N (opened_first st) ?J = Inr s \<longleftrightarrow> (\<forall>v\<in>set vs. pre_depth st + 1 + nesting v \<le> D)
          \<and> pre_nodes st + ?S \<le> N \<and> s = grow (?S - 1) (opened_first st)" for s
        using preflight_elements [of vs D N "opened_first st" "pre_containers st" s] parts Cons more by auto
      then show ?thesis using True more
        by (auto simp: preflight_append bind_json_Inr_iff close simp del: preflight_loop.simps(2))
    qed (use more in auto)
    finally show ?thesis using Cons by blast
  qed
  then show "preflight_loop D N st (plain_text enc (PyList vs)) = Inr st' \<longleftrightarrow> pre_depth st + nesting (PyList vs) \<le> D
      \<and> pre_nodes st + (tree_nodes (PyList vs) - 1) \<le> N \<and> st' = grow (tree_nodes (PyList vs) - 1) st"
    using open_step [OF st, of "CHR ''[''" "?J @ '']''" st'] st unfolding nesting_le_add by (auto simp: settled_def)
qed

lemma counts_dict:
  assumes parts: "\<forall>p\<in>set ps. counts enc D N (snd p)"
  shows "counts enc D N (PyDict ps)"
proof (intro allI impI)
  fix st st' assume st: "settled D N st"
  let ?st = "opened (CHR ''{'') st" and ?J = "join '','' (map (entry enc) ps)"
  let ?S = "sum_list (map (\<lambda>p. tree_nodes (snd p)) ps)"
  have "preflight_loop D N ?st (?J @ ''}'') = Inr st' \<longleftrightarrow> (\<forall>p\<in>set ps. pre_depth st + 1 + nesting (snd p) \<le> D)
      \<and> pre_nodes st + ?S \<le> N \<and> st' = grow ?S st" if room: "pre_depth st + 1 \<le> D"
  proof -
    have st': "settled D N ?st" using st room by (simp add: settled_def touched_def)
    have close: "preflight_loop D N (grow k ?st) ''}'' = Inr (grow k st)" for k
      using close_step [of "grow k ?st" "CHR ''}''"] st' close_opened [of k st "CHR ''{''"]
      by (simp add: settled_def)
    have "preflight_loop D N ?st ?J = Inr s \<longleftrightarrow> (\<forall>p\<in>set ps. pre_depth st + 1 + nesting (snd p) \<le> D)
        \<and> pre_nodes st + ?S \<le> N \<and> s = grow ?S ?st" for s
    proof (cases "ps = []")
      case False
      from preflight_entries [OF this parts st', of False "pre_containers st" s] show ?thesis by simp
    qed (use st in \<open>auto simp: settled_def\<close>)
    then show ?thesis by (auto simp: preflight_append bind_json_Inr_iff close simp del: preflight_loop.simps(2))
  qed
  then show "preflight_loop D N st (plain_text enc (PyDict ps)) = Inr st' \<longleftrightarrow> pre_depth st + nesting (PyDict ps) \<le> D
      \<and> pre_nodes st + (tree_nodes (PyDict ps) - 1) \<le> N \<and> st' = grow (tree_nodes (PyDict ps) - 1) st"
    using open_step [OF st, of "CHR ''{''" "?J @ ''}''" st'] unfolding nesting_le_add
    by (auto simp: case_prod_unfold)
qed

lemma counts_value: "dumpable v \<Longrightarrow> counts enc D N v"
proof (induction v rule: plain_dumps.induct)
  case 1
  show ?case using preflight_neutral [of D N _ "plain_text enc PyNone"] by (auto simp: settled_def simp del: preflight_loop.simps(2))
next
  case (2 b)
  show ?case using preflight_neutral [of D N _ "plain_text enc (PyBool b)"]
    by (cases b) (auto simp: settled_def simp del: preflight_loop.simps(2))
next
  case (3 i)
  show ?case using preflight_neutral show_int_neutral by (auto simp: settled_def)
next
  case (5 vs)
  then show ?case by (intro counts_list) (simp add: list_all_iff)
next
  case (6 d)
  then show ?case by (intro counts_dict) (auto simp: list_all_iff)
qed (auto simp: preflight_string settled_def)

end

interpretation canonical: counted_text json_char
  by unfold_locales (rule inside_json_char)

interpretation ascii: counted_text ascii_char
  by unfold_locales (rule inside_ascii_char)

end
