(* ===== verification/Evidence_Size.thy ===== *)
theory Evidence_Size
  imports Workforce_Store "HOL-Library.Multiset"
begin

text \<open>
  The size of evidence documents. A manifest of the acceptance rule is made of bounded texts, so
  its document never reaches the limit of the store.
\<close>

section \<open>The size of a document\<close>

abbreviation bytes :: "string \<Rightarrow> nat" where
  "bytes s \<equiv> length (utf8 s)"

lemma bytes_simps [simp]: "bytes [] = 0" "bytes (s @ t) = bytes s + bytes t"
  "bytes (c # s) = length (utf8_char c) + bytes s"
  by (simp_all add: utf8_def)

lemma utf8_char_size: "length (utf8_char c) \<le> 2"
  by (simp add: utf8_char_def Let_def)

lemma bytes_le: "bytes s \<le> 2 * length s"
  by (induction s) (use utf8_char_size in \<open>auto simp: le_SucI intro: order_trans add_mono\<close>)

lemma hex4_size: "bytes (hex4 n) = 4"
proof -
  have "d < 16 \<Longrightarrow> length (utf8_char (if d < 10 then char_of (48 + d) else char_of (87 + d))) = 1" for d :: nat
    by (simp add: utf8_char_def)
  then show ?thesis by (simp add: hex4_def Let_def)
qed

lemma json_char_size: "bytes (json_char c) \<le> 6"
  using utf8_char_size [of c] hex4_size [of "of_char c"] by (simp add: json_char_def Let_def utf8_char_def)

lemma json_string_size: "bytes (json_string s) \<le> 6 * length s + 2"
proof -
  have "bytes (concat (map json_char s)) \<le> 6 * length s"
    by (induction s) (use json_char_size in \<open>auto intro: order_trans [OF add_mono]\<close>)
  then show ?thesis by (simp add: json_string_def utf8_char_def)
qed

lemma join_size: "bytes (join '','' ws) \<le> sum_list (map (\<lambda>w. bytes w + 1) ws)"
  by (induction "'',''" ws rule: join.induct) (auto simp: utf8_char_def)

lemma sum_list_sort_key: "sum_list (map f (sort_key k xs)) = (sum_list (map f xs) :: nat)"
  by (metis mset_map mset_sort sum_mset_sum_list)

definition value_size :: "pyval \<Rightarrow> nat" where
  "value_size v = bytes (value_dumps v)"

lemma value_size_simps:
  "value_size (PyBool b) \<le> 5"
  "value_size (PyStr s) \<le> 6 * length s + 2"
  "value_size (PyList xs) \<le> 2 + sum_list (map (\<lambda>x. value_size x + 1) xs)"
  using json_string_size [of s] join_size [of "map value_dumps xs"]
  by (simp_all add: value_size_def utf8_char_def comp_def)

lemma dict_size: "value_size (PyDict d) \<le> 2 + sum_list (map (\<lambda>(k, v). 6 * length k + value_size v + 4) d)"
proof -
  let ?entries = "map (\<lambda>(k, v). (k, value_dumps v)) d"
  let ?line = "\<lambda>(k, s). json_string k @ '':'' @ s"
  have "bytes (join '','' (map ?line (sort_key fst ?entries)))
      \<le> sum_list (map (\<lambda>x. bytes (?line x) + 1) (sort_key fst ?entries))"
    using join_size [of "map ?line (sort_key fst ?entries)"] by (simp add: comp_def)
  also have "\<dots> = sum_list (map (\<lambda>x. bytes (?line x) + 1) ?entries)" by (rule sum_list_sort_key)
  also have "\<dots> \<le> sum_list (map (\<lambda>(k, v). 6 * length k + value_size v + 4) d)"
    unfolding map_map comp_def
    by (rule sum_list_mono) (use json_string_size in \<open>auto simp: value_size_def utf8_char_def intro: le_trans [OF _ add_le_mono]\<close>)
  finally show ?thesis by (simp add: value_size_def utf8_char_def)
qed


section \<open>The manifest of an accepted outcome\<close>

lemma identity_text_size: "length (identity_text v) \<le> max_identity_characters"
  by (cases v) (auto simp: identity_text_def Let_def)

lemma show_nat_size: "n < 10 ^ Suc k \<Longrightarrow> length (show_nat n) \<le> Suc k"
proof (induction k arbitrary: n)
  case (Suc k)
  then show ?case by (cases "n < 10") (auto simp: show_nat.simps [of n])
qed (simp add: show_nat.simps)

lemma digest_size: "length (digest_text v) \<le> max_identity_characters" "length (pair_text v) \<le> max_identity_characters"
  using digest_text_cases [of v] pair_text_cases [of v] by (auto simp: max_identity_characters_def)

lemma stable_sizes:
  assumes "identity_stable i"
  shows "length (id_producer_child i) \<le> 256" "length (id_artifact i) \<le> 256" "length (id_verifier_child i) \<le> 256"
    "length (id_verifier_decision i) \<le> 256" "length (id_verifier_artifact i) \<le> 256" "length (id_pair i) \<le> 256"
    "length (id_verdict i) \<le> 256" "length (id_prompt_hash i) \<le> 256" "value_size (PyInt (id_record_index i)) \<le> 10"
proof -
  show "length (id_producer_child i) \<le> 256" "length (id_artifact i) \<le> 256" "length (id_verifier_child i) \<le> 256"
    "length (id_verifier_decision i) \<le> 256" "length (id_verifier_artifact i) \<le> 256" "length (id_pair i) \<le> 256"
    "length (id_verdict i) \<le> 256" "length (id_prompt_hash i) \<le> 256"
    using assms identity_text_size digest_size unfolding identity_stable_def max_identity_characters_def by metis+
  have "0 \<le> id_record_index i" "id_record_index i < 10 ^ Suc 4"
    using assms by (auto simp: identity_stable_def record_index_def max_record_index_def split: if_splits)
  then have "length (show_int (id_record_index i)) \<le> 5"
    using show_nat_size [of "nat (id_record_index i)" 4] by (simp add: show_int_def nat_less_iff)
  then show "value_size (PyInt (id_record_index i)) \<le> 10"
    using bytes_le [of "show_int (id_record_index i)"] by (simp add: value_size_def)
qed

lemma card_sizes:
  assumes "read_card v = Some c"
  shows "length (fst c) \<le> 256" "length (fst (snd c)) \<le> 256" "length (snd (snd c)) \<le> 256"
  using assms identity_text_size
  by (auto simp: read_card_def Let_def max_identity_characters_def split: option.splits if_splits)

lemma read_cards_sizes:
  "read_cards vs = Some cs \<Longrightarrow> length cs = length vs \<and> (\<forall>c\<in>set cs. length (fst c) \<le> 256)"
  by (induction vs arbitrary: cs) (fastforce split: option.splits dest: card_sizes)+

lemma cards_sizes: "length (cards d) \<le> 64 \<and> (\<forall>c\<in>set (cards d). length (fst c) \<le> 256)"
  by (auto simp: cards_def max_acceptance_cards_def split: option.splits dest!: read_cards_sizes)

lemma slugs_size: "value_size (PyList (map PyStr (sorted_list_of_set (fst ` set (cards d))))) \<le> 64 * 1540"
proof -
  let ?slugs = "sorted_list_of_set (fst ` set (cards d))"
  have "length ?slugs \<le> 64"
    using cards_sizes [of d] card_image_le [of "set (cards d)" fst] card_length [of "cards d"] by simp
  moreover have "sum_list (map (\<lambda>s. value_size (PyStr s) + 1) ?slugs) \<le> length ?slugs * 1539"
  proof -
    have "s \<in> set ?slugs \<Longrightarrow> value_size (PyStr s) + 1 \<le> 1539" for s
      using value_size_simps(2) [of s] cards_sizes [of d] by fastforce
    then show ?thesis using sum_list_mono [of ?slugs "\<lambda>s. value_size (PyStr s) + 1" "\<lambda>_. 1539"]
      by (simp add: sum_list_triv)
  qed
  ultimately show ?thesis
    using value_size_simps(3) [of "map PyStr ?slugs"] by (simp add: comp_def)
qed

lemma text_size: "length s \<le> 256 \<Longrightarrow> value_size (PyStr s) \<le> 1538"
  using value_size_simps(2) [of s] by simp

lemma manifest_size:
  assumes "evidence_of envelope producer verifier c i"
  shows "value_size (PyDict (identity_manifest (identity_text v) c producer verifier i)) \<le> max_document_bytes"
proof -
  have card: "length (fst c) \<le> 256" "length (fst (snd c)) \<le> 256" "length (snd (snd c)) \<le> 256"
    using assms card_sizes [of "py_get envelope ''contractor_card''" c] by (simp_all add: evidence_of_def)
  have field: "value_size (PyStr (identity_text w)) \<le> 1538" for w
    using text_size identity_text_size by (simp add: max_identity_characters_def)
  have key: "length (key_of i) \<le> 256"
    using digest_size(1) [of "PyStr (key_of i)"] by (simp add: max_identity_characters_def)
  have literals: "value_size (PyStr acceptance_envelope_schema) \<le> 1538" "value_size (PyStr accepted_verdict) \<le> 1538"
    "value_size (PyStr ''verifier-host-artifact'') \<le> 1538" "value_size (PyStr ''collector'') \<le> 1538"
    by (intro text_size, simp add: acceptance_envelope_schema_def accepted_verdict_def)+
  have "value_size (PyDict (identity_manifest (identity_text v) c producer verifier i)) \<le> 200000"
    using stable_sizes(1-8) [OF evidence_stable [OF assms], THEN text_size] stable_sizes(9) [OF evidence_stable [OF assms]]
      card [THEN text_size] field [of v] field [of "py_get producer ''host''"] field [of "py_get producer ''decision_id''"]
      field [of "py_get verifier ''host''"] key [THEN text_size] literals slugs_size [of verifier] value_size_simps(1) [of True]
    by (intro order_trans [OF dict_size]) (simp add: identity_manifest_def)
  then show ?thesis by (simp add: max_document_bytes_def)
qed

lemma manifest_document:
  assumes "evaluate_acceptance v = Inr out" and "outcome_accepted out"
  shows "\<exists>document. document_text ''evidence_refs'' (outcome_manifest out) = Inr document"
proof -
  have "validate_envelope v = Inr out" using assms evaluate_acceptance_iff by blast
  then obtain envelope producer verifier c i where "evidence_of envelope producer verifier c i"
    and "out = accepted_outcome envelope producer verifier c i" using validate_envelope_Inr by blast
  then show ?thesis
    using manifest_size [of envelope producer verifier c i "py_get envelope ''contractor_worker_id''"]
    by (simp add: document_text_def accepted_outcome_def value_size_def Let_def)
qed

end
