(* ===== verification/Json_Properties.thy ===== *)
theory Json_Properties
  imports Json_Preflight Evidence_Size
begin

text \<open>
  What \<open>safe_load_bounded_json\<close> promises: the documents that \<open>canonical_json\<close> writes are
  read back exactly when they are within the limits, an accepted text is a bounded tree, and a
  refused one is refused with a documented error.
\<close>

section \<open>Sizes do not depend on the order of keys\<close>

lemma nesting_dict: "nesting (PyDict d) = Suc (Max (insert 0 ((nesting \<circ> snd) ` set d)))"
proof -
  have "foldr (\<lambda>p n. max (nesting (snd p)) n) d 0 = Max (insert 0 ((nesting \<circ> snd) ` set d))"
  proof (induction d)
    case (Cons p d)
    have "Max (insert 0 ((nesting \<circ> snd) ` set (p # d))) = max (nesting (snd p)) (Max (insert 0 ((nesting \<circ> snd) ` set d)))"
      using Max_insert [of "insert 0 ((nesting \<circ> snd) ` set d)" "nesting (snd p)"] by (simp add: insert_commute)
    with Cons show ?case by simp
  qed simp
  then show ?thesis by (simp add: case_prod_unfold)
qed

lemma size_sorted: "dumpable v \<Longrightarrow> tree_nodes (sorted_value v) = tree_nodes v \<and> nesting (sorted_value v) = nesting v"
proof (induction v rule: plain_dumps.induct)
  case (5 vs)
  then have nodes: "map (tree_nodes \<circ> sorted_value) vs = map tree_nodes vs" and "\<forall>v\<in>set vs. nesting (sorted_value v) = nesting v"
    by (auto simp: list_all_iff)
  moreover from this have "foldr (\<lambda>v n. max (nesting v) n) (map sorted_value vs) 0 = foldr (\<lambda>v n. max (nesting v) n) vs 0"
    by (induction vs) simp_all
  ultimately show ?case by (simp add: nodes)
next
  case (6 d)
  then have parts: "\<forall>(k, v)\<in>set d. tree_nodes (sorted_value v) = tree_nodes v \<and> nesting (sorted_value v) = nesting v"
    by (auto simp: list_all_iff)
  let ?d = "map (\<lambda>(k, v). (k, sorted_value v)) d"
  have "map (\<lambda>(k, v). tree_nodes v) ?d = map (\<lambda>(k, v). tree_nodes v) d" using parts by auto
  moreover have "(nesting \<circ> snd) ` set ?d = (nesting \<circ> snd) ` set d" using parts by (force simp: image_iff)
  ultimately show ?case
    by (simp only: sorted_value.simps tree_nodes.simps sum_list_sort_key nesting_dict set_sort)
qed simp_all

lemma tree_depth_nesting: "tree_depth v \<le> nesting v"
proof (induction v rule: tree_depth.induct)
  case (1 vs)
  then show ?case using nesting_le(1) [of vs "nesting (PyList vs) - 1"] unfolding tree_depth_le by (auto intro: le_trans)
next
  case (2 vs)
  then show ?case using foldr_max_le [of nesting vs "nesting (PyTuple vs) - 1"]
    by (fastforce simp: foldr_max_le [of "\<lambda>v. Suc (tree_depth v)"] intro: le_trans)
next
  case (3 d)
  then show ?case using nesting_le(2) [of d "nesting (PyDict d) - 1"] unfolding tree_depth_le by fastforce
qed simp_all

lemma finite_dumpable: "dumpable v \<Longrightarrow> finite_numbers v"
  by (induction v rule: plain_dumps.induct) (auto simp: list_all_iff)


section \<open>The passes, one by one\<close>

lemma utf8_longer: "length s \<le> bytes s"
  by (induction s) (auto simp: utf8_def utf8_char_def Let_def)

lemma decode_bounded_Inr_iff:
  "decode_bounded B value = Inr s \<longleftrightarrow> value = PyStr s \<and> bytes s \<le> B"
  using utf8_longer [of s] by (cases "value") (auto simp: decode_bounded_def)

lemma strip_first: "\<not> is_space c \<Longrightarrow> strip (c # s) \<noteq> []"
  by (auto simp: strip_def dropWhile_eq_Nil_conv)

lemma validate_value_Inr_iff:
  "validate_value D N v = Inr u \<longleftrightarrow> tree_nodes v \<le> N \<and> tree_depth v \<le> D \<and> finite_numbers v"
  by (auto simp: validate_value_def validate_loop_Inr_iff tree_fits_def)

context counted_text
begin

lemma preflight_text:
  assumes "dumpable v"
  shows "preflight_structure D (Suc N) (plain_text enc v) = Inr u \<longleftrightarrow> nesting v \<le> D \<and> tree_nodes v \<le> Suc N"
proof -
  let ?st = "preflight_start (plain_text enc v)"
  obtain c t where "plain_text enc v = c # t" "\<not> is_space c" using plain_first [OF assms] by metis
  then have start: "pre_nodes ?st = 1" "pre_depth ?st = 0" by (simp_all add: preflight_start_def strip_first)
  then have "settled D (Suc N) ?st" by (simp add: settled_def outside_def touched_def preflight_start_def)
  with counts_value [OF assms, of D "Suc N"] start tree_nodes_pos [of v] show ?thesis
    by (auto simp: preflight_structure_def bind_json_Inr_iff)
qed

lemma loads_text:
  assumes "dumpable v"
  shows "json_loads to_float (plain_text enc v) = Inr v"
proof -
  have "skip (plain_text enc v) = plain_text enc v" using skip_plain [OF assms, of "[]"] by simp
  then show ?thesis
    using scan_plain [OF assms, of to_float, rule_format, of "[]" "2 * length (plain_text enc v) + 1"]
    by (simp add: json_loads_def document_ends_def skip_def)
qed

lemma load_text:
  assumes "dumpable v"
  shows "load_bounded to_float B D (Suc N) (PyStr (plain_text enc v)) = Inr w \<longleftrightarrow>
    w = v \<and> bytes (plain_text enc v) \<le> B \<and> nesting v \<le> D \<and> tree_nodes v \<le> Suc N"
  using preflight_text [OF assms, of D N] loads_text [OF assms, of to_float] tree_depth_nesting [of v]
    finite_dumpable [OF assms]
  by (auto simp: load_bounded_def bind_json_Inr_iff decode_bounded_Inr_iff validate_value_Inr_iff)

end

lemma read_limit_Inr_iff: "read_limit name bound v = Inr n \<longleftrightarrow> v = PyInt (int n) \<and> 1 \<le> n \<and> int n \<le> bound"
  by (cases v) (auto simp: read_limit_def)


section \<open>The loader\<close>

lemma read_limit_int: "1 \<le> n \<Longrightarrow> int n \<le> bound \<Longrightarrow> read_limit name bound (PyInt (int n)) = Inr n"
  by (simp add: read_limit_Inr_iff)



text \<open>C39: A value that the bounded loader returns comes from a text within the byte limit, has at most the permitted number of values and the permitted depth, only finite numbers and only distinct keys in every dictionary; the limits themselves are integers within their fixed bounds.\<close>

theorem accepted_json_bounded:
  assumes "safe_load_bounded_json to_float value maximum_bytes maximum_depth maximum_nodes = Inr v"
  shows "\<exists>s B D N. value = PyStr s \<and> maximum_bytes = PyInt (int B) \<and> maximum_depth = PyInt (int D) \<and> maximum_nodes = PyInt (int N)
    \<and> bytes s \<le> B \<and> B \<le> 67108864 \<and> tree_depth v \<le> D \<and> D \<le> 256 \<and> tree_nodes v \<le> N \<and> N \<le> 1000000
    \<and> json_shape v \<and> finite_numbers v"
  using assms
  by (auto simp: safe_load_bounded_json_def load_bounded_def bind_json_Inr_iff read_limit_Inr_iff decode_bounded_Inr_iff
      validate_value_Inr_iff dest: json_loads_shape)

theorem accepted_json_bounded_witness:
  "safe_load_bounded_json (\<lambda>_. PyNan) (PyStr ''[ [null, true], -7 ]'') (PyInt 64) (PyInt 3) (PyInt 8)
     = Inr (PyList [PyList [PyNone, PyBool True], PyInt (- 7)])
   \<and> tree_nodes (PyList [PyList [PyNone, PyBool True], PyInt (- 7)]) \<le> 8"
proof -
  have loaded: "safe_load_bounded_json (\<lambda>_. PyNan) (PyStr ''[ [null, true], -7 ]'') (PyInt 64) (PyInt 3) (PyInt 8)
     = Inr (PyList [PyList [PyNone, PyBool True], PyInt (- 7)])"
    by code_simp
  from accepted_json_bounded [OF this] loaded show ?thesis by auto
qed


section \<open>The errors\<close>

abbreviation argument_error :: "'a json_res \<Rightarrow> bool" where
  "argument_error m \<equiv> \<exists>e. m = Inl (InvalidArgument e)"

lemma not_json_argument [simp]: "not_json \<noteq> Inl (InvalidArgument e)"
  by (simp add: not_json_def)

lemma scan_string_argument: "scan_string s \<noteq> Inl (InvalidArgument e)"
proof (induction s rule: scan_string.induct)
  case (2 c s)
  note ih = "2.IH"
  show ?case
    by (subst scan_string.simps) (use ih in \<open>fastforce simp: bind_json_Inl_iff simp del: scan_string.simps
      split: if_splits list.splits option.splits\<close>)
qed simp

lemma token_argument: "expect c s \<noteq> Inl (InvalidArgument e)" "separator c s \<noteq> Inl (InvalidArgument e)"
  "unique_object ps \<noteq> Inl (InvalidArgument e)" "scan_scalar to_float s \<noteq> Inl (InvalidArgument e)"
  by (auto simp: expect_def separator_def unique_object_def scan_scalar_def scan_number_def Let_def split: list.splits prod.splits)

lemma scan_argument:
  "scan_value to_float n s \<noteq> Inl (InvalidArgument e) \<and> scan_pairs to_float n s \<noteq> Inl (InvalidArgument e)
    \<and> scan_elements to_float n s \<noteq> Inl (InvalidArgument e)"
  by (induction n arbitrary: s)
    (auto simp: scan_value.simps scan_pairs.simps scan_elements.simps bind_json_Inl_iff token_argument scan_string_argument
      split: if_splits)

lemma json_loads_argument: "json_loads to_float s \<noteq> Inl (InvalidArgument e)"
  using scan_argument by (auto simp: json_loads_def bind_json_Inl_iff split: if_splits)

lemma preflight_errors: "preflight_loop D N st s = Inl e \<Longrightarrow> \<exists>m. e = BoundedJSONError m"
  by (induction s arbitrary: st)
    (auto simp: bind_json_Inl_iff preflight_char_def first_element_def structural_char_def add_node_def
      split: if_splits list.splits)

lemma validate_errors: "validate_loop D N n pending = Inl e \<Longrightarrow> (\<exists>m. e = BoundedJSONError m) \<or> e = NonFiniteJSONNumberError"
proof (induction D N n pending rule: validate_loop.induct)
  case (2 D N n v d pending)
  then show ?case by (auto simp: validate_loop.simps(2) split: if_splits pyval.splits py_float.splits)
qed simp

lemma load_bounded_errors:
  "load_bounded to_float B D N value \<noteq> Inl OutOfFuel"
  "argument_error (load_bounded to_float B D N value) \<longleftrightarrow> (\<forall>s. value \<noteq> PyStr s)"
proof -
  have checks: "preflight_structure D N s \<noteq> Inl e" "validate_value D N v \<noteq> Inl e" if "e = OutOfFuel \<or> (\<exists>x. e = InvalidArgument x)" for e s v
    using that by (auto simp: preflight_structure_def validate_value_def bind_json_Inl_iff dest!: preflight_errors validate_errors)
  show "load_bounded to_float B D N value \<noteq> Inl OutOfFuel"
    by (cases "value") (simp_all add: load_bounded_def bind_json_Inl_iff decode_bounded_def checks json_loads_fuel)
  show "argument_error (load_bounded to_float B D N value) \<longleftrightarrow> (\<forall>s. value \<noteq> PyStr s)"
    by (cases "value") (simp_all add: load_bounded_def bind_json_Inl_iff decode_bounded_def checks json_loads_argument)
qed

text \<open>A limit that the loader accepts\<close>

definition sound_limit :: "nat \<Rightarrow> pyval \<Rightarrow> bool" where
  "sound_limit bound v = (\<exists>n. v = PyInt (int n) \<and> 1 \<le> n \<and> n \<le> bound)"

lemma read_limit_sound: "(\<exists>n. read_limit name (int bound) v = Inr n) \<longleftrightarrow> sound_limit bound v"
  by (simp add: read_limit_Inr_iff sound_limit_def)

lemma read_limit_errors: "read_limit name bound v = Inl e \<Longrightarrow> \<exists>x. e = InvalidArgument x"
  by (auto simp: read_limit_def split: option.splits if_splits)


end
