(* ===== verification/Document_Text.thy ===== *)
theory Document_Text
  imports Store_Documents Json_Properties
begin

text \<open>
  The documents of the store as text: \<open>_decoded\<close> and the readers of contracts take back what
  \<open>json.dumps\<close> wrote, within 16 levels and 10,000 values, and a document has no more values than
  characters.
\<close>

section \<open>Documents read back\<close>

text \<open>What the reader accepts\<close>

definition readable :: "pyval \<Rightarrow> bool" where
  "readable v = (nesting v \<le> 16 \<and> tree_nodes v \<le> 10000)"

lemma load_evidence_bounded: "load_evidence f document = load_bounded f max_document_bytes 16 (Suc 9999) (PyStr document)"
  using read_limit_int [of max_document_bytes "64 * 1024 * 1024" "''maximum_bytes''"]
    read_limit_int [of 16 256 "''maximum_depth''"] read_limit_int [of 10000 1000000 "''maximum_nodes''"]
  by (simp add: load_evidence_def safe_load_bounded_json_def max_document_bytes_def)

lemma load_evidence_document:
  assumes "dumpable v" and "bytes (value_dumps v) \<le> max_document_bytes"
  shows "load_evidence f (value_dumps v) = Inr w \<longleftrightarrow> w = sorted_value v \<and> readable v"
  using canonical.load_text [OF dumpable_sorted [OF assms(1)], of f max_document_bytes 16 9999 w] size_sorted [OF assms(1)] assms(2)
  by (simp add: load_evidence_bounded value_dumps_sorted [OF assms(1)] readable_def plain_text_dumps)


section \<open>Values and characters\<close>

lemma join_length: "sum_list (map length ws) \<le> length (join sep ws)"
  by (induction sep ws rule: join.induct) simp_all

lemma plain_nodes: "dumpable v \<Longrightarrow> tree_nodes v \<le> length (plain_dumps v)"
proof (induction v rule: plain_dumps.induct)
  case (3 i)
  then show ?case using show_int_first [of i] by auto
next
  case (5 vs)
  then have "sum_list (map tree_nodes vs) \<le> sum_list (map (\<lambda>v. length (plain_dumps v)) vs)"
    by (intro sum_list_mono) (simp add: list_all_iff)
  also have "\<dots> \<le> length (join '','' (map plain_dumps vs))"
    using join_length [of "map plain_dumps vs" "'',''"] by (simp add: comp_def)
  finally show ?case by simp
next
  case (6 d)
  let ?line = "\<lambda>(k, v). json_string k @ '':'' @ plain_dumps v"
  have "sum_list (map (\<lambda>(k, v). tree_nodes v) d) \<le> sum_list (map (\<lambda>p. length (?line p)) d)"
    using 6 by (intro sum_list_mono) (fastforce simp: list_all_iff)
  also have "\<dots> \<le> length (join '','' (map ?line d))" using join_length [of "map ?line d" "'',''"] by (simp add: comp_def)
  finally show ?case by simp
qed (simp_all add: json_string_def)

lemma document_nodes: "dumpable v \<Longrightarrow> tree_nodes v \<le> bytes (value_dumps v)"
  using plain_nodes [OF dumpable_sorted] size_sorted utf8_longer [of "value_dumps v"]
  by (fastforce simp: value_dumps_sorted)

text \<open>Keys in order\<close>

lemma map_of_sort_key: "distinct (map fst d) \<Longrightarrow> map_of (sort_key fst d) = map_of d"
  by (simp add: map_of_inject_set distinct_fst_sort_key)


text \<open>The two renderings of a document\<close>

lemma json_dumps_value: "json_dumps j = value_dumps (json_value j)"
proof (induction j rule: json_dumps.induct)
  case (6 kvs)
  have "map (\<lambda>(k, v). (k, json_dumps v)) kvs = map (\<lambda>(k, v). (k, value_dumps v)) (map (\<lambda>(k, v). (k, json_value v)) kvs)"
    using 6 by auto
  then show ?case by (simp only: json_dumps.simps json_value.simps value_dumps.simps)
qed (simp_all cong: map_cong)

end
