(* ===== verification/Contract_Text.thy ===== *)
theory Contract_Text
  imports Contract_Roundtrip Document_Text
begin

text \<open>
  A recruitment contract as the store keeps it: the canonical JSON text is within the limits of the
  bounded loader, and the loaded value, whose keys are in order, presents the contract.
\<close>

section \<open>The loaded value\<close>

lemma strings_sorted: "sorted_value (strings_value xs) = strings_value xs" "dumpable (strings_value xs)"
  by (simp_all add: strings_value_def list_all_iff comp_def)

lemma sorted_lookup:
  assumes "distinct (map fst d)"
  shows "sorted_value (PyDict d) = PyDict (sort_key fst (map (\<lambda>(k, v). (k, sorted_value v)) d))"
    and "map_of (sort_key fst (map (\<lambda>(k, v). (k, sorted_value v)) d)) k = map_option sorted_value (map_of d k)"
proof -
  have "map_of (sort_key fst (map (\<lambda>(k, v). (k, sorted_value v)) d)) = map_of (map (\<lambda>(k, v). (k, sorted_value v)) d)"
    using assms by (intro map_of_sort_key) (simp add: case_prod_unfold comp_def)
  then show "map_of (sort_key fst (map (\<lambda>(k, v). (k, sorted_value v)) d)) k = map_option sorted_value (map_of d k)"
    by (simp add: map_of_map)
qed simp

lemma sorted_plain: "list_all (\<lambda>(k, v). sorted_value v = v) d \<Longrightarrow> sorted_value (PyDict d) = PyDict (sort_key fst d)"
proof -
  assume "list_all (\<lambda>(k, v). sorted_value v = v) d"
  then have "map (\<lambda>(k, v). (k, sorted_value v)) d = d" by (induction d) auto
  then show ?thesis by simp
qed

lemma relations_sorted:
  "distinct (map fst (relations_value r))" "list_all (\<lambda>(k, v). sorted_value v = v) (relations_value r)"
  "list_all (\<lambda>(k, v). dumpable v) (relations_value r)"
  by (simp_all add: relations_value_def strings_sorted)

lemma review_sorted:
  "distinct (map fst (review_value a))" "list_all (\<lambda>(k, v). sorted_value v = v) (review_value a)"
  "list_all (\<lambda>(k, v). dumpable v) (review_value a)"
  by (simp_all add: review_value_def)

lemmas inner_sorted = sorted_plain [OF relations_sorted(2)] sorted_plain [OF review_sorted(2)]

lemma entries_sorted:
  "distinct (map fst (contract_entries c))" "dumpable (contract_value c)"
proof -
  show keys: "distinct (map fst (contract_entries c))" by (simp add: contract_entries_def)
  have "dumpable (PyDict (relations_value (composition c)))" "dumpable (PyDict (review_value (audit c)))"
    using relations_sorted review_sorted by simp_all
  then have "list_all (\<lambda>(k, v). dumpable v) (contract_entries c)"
    by (simp only: contract_entries_def list.pred_inject prod.case strings_sorted dumpable.simps simp_thms)
  with keys show "dumpable (contract_value c)" by (simp add: contract_value_entries)
qed

lemma sorted_entries_get:
  "map_option sorted_value (map_of (contract_entries c) k) =
    ((map_of (contract_entries c))(''composition'' \<mapsto> sorted_value (PyDict (relations_value (composition c))),
       ''audit'' \<mapsto> sorted_value (PyDict (review_value (audit c))))) k"
proof -
  have "list_all (\<lambda>(k, v). k \<in> {''composition'', ''audit''} \<or> sorted_value v = v) (contract_entries c)"
    by (simp add: contract_entries_def strings_sorted del: sorted_value.simps(2))
  then have plain: "sorted_value v = v" if "(k, v) \<in> set (contract_entries c)" "k \<notin> {''composition'', ''audit''}" for v
    using that unfolding list_all_iff by fastforce
  show ?thesis
  proof (cases "k \<in> {''composition'', ''audit''}")
    case True
    have "map_of (contract_entries c) ''composition'' = Some (PyDict (relations_value (composition c)))"
      "map_of (contract_entries c) ''audit'' = Some (PyDict (review_value (audit c)))"
      by (simp_all add: contract_entries_def)
    then show ?thesis using True by (cases "k = ''audit''") (simp_all del: sorted_value.simps)
  next
    case False
    then show ?thesis using plain by (cases "map_of (contract_entries c) k") (auto dest: map_of_SomeD)
  qed
qed

text \<open>The loaded value\<close>

lemma loaded_presents:
  "\<exists>document rel review. sorted_value (contract_value c) = PyDict document \<and> presents document rel review c"
proof -
  let ?d = "sort_key fst (map (\<lambda>(k, v). (k, sorted_value v)) (contract_entries c))"
  have "map_of ?d = (map_of (contract_entries c))(''composition'' \<mapsto> PyDict (sort_key fst (relations_value (composition c))),
       ''audit'' \<mapsto> PyDict (sort_key fst (review_value (audit c))))"
    using sorted_lookup(2) [OF entries_sorted(1)] by (simp add: fun_eq_iff sorted_entries_get inner_sorted del: sorted_value.simps)
  then have "presents ?d (sort_key fst (relations_value (composition c))) (sort_key fst (review_value (audit c))) c"
    using map_of_sort_key [OF relations_sorted(1)] map_of_sort_key [OF review_sorted(1)] by (simp add: presents_def)
  moreover have "sorted_value (contract_value c) = PyDict ?d" by (simp add: contract_value_entries)
  ultimately show ?thesis by blast
qed


section \<open>The text\<close>

lemma contract_nesting: "nesting (contract_value c) \<le> 3"
proof -
  have strings: "nesting (strings_value xs) \<le> Suc 0" for xs
    using nesting_le(1) [of "map PyStr xs" 0] by (simp add: strings_value_def)
  have inner: "nesting (PyDict (relations_value r)) \<le> Suc (Suc 0)" "nesting (PyDict (review_value a)) \<le> Suc (Suc 0)" for r a
    unfolding nesting_le relations_value_def review_value_def by (simp_all add: strings)
  have "list_all (\<lambda>(k, v). nesting v \<le> Suc (Suc 0)) (contract_entries c)"
    using strings [THEN le_SucI] inner by (simp add: contract_entries_def del: nesting.simps(3))
  then show ?thesis using nesting_le(2) [of "contract_entries c" "Suc (Suc 0)"]
    by (simp add: contract_value_entries list_all_iff numeral_3_eq_3 del: nesting.simps)
qed

lemma contract_text_loads:
  assumes "contract_ok c"
  shows "load_evidence f (json_dumps (contract_json c)) = Inr (sorted_value (contract_value c))"
proof -
  have "bytes (value_dumps (contract_value c)) \<le> max_contract_bytes"
    using assms by (simp add: contract_ok_def canonical_json_def json_dumps_value contract_value_def)
  then have "bytes (value_dumps (contract_value c)) \<le> 8192" by (simp add: max_contract_bytes_def)
  then have "bytes (value_dumps (contract_value c)) \<le> max_document_bytes" "readable (contract_value c)"
    using document_nodes [OF entries_sorted(2), of c] contract_nesting [of c] by (simp_all add: max_document_bytes_def readable_def)
  then show ?thesis
    using load_evidence_document [OF entries_sorted(2), of c f] by (simp add: json_dumps_value contract_value_def [symmetric])
qed

lemma presented_roundtrip:
  assumes ok: "contract_ok c" and p: "presents document rel review c"
  shows "parse_workforce_contract (PyDict document) = Inr c \<longleftrightarrow> display_name c \<noteq> [] \<and> length (domains c) \<le> max_taxonomy_items"
proof
  have "agent_id c \<noteq> []" using ok by (auto simp: contract_ok_def)
  moreover assume "parse_workforce_contract (PyDict document) = Inr c"
  ultimately show "display_name c \<noteq> [] \<and> length (domains c) \<le> max_taxonomy_items" using parse_back_only [OF ok p] by force
qed (use parse_presented_back [OF ok _ _ p] in blast)

lemma contract_text_back:
  assumes "contract_ok c"
  shows "parse_workforce_contract (contract_value c) = Inr c \<longleftrightarrow> display_name c \<noteq> [] \<and> length (domains c) \<le> max_taxonomy_items"
    and "parse_workforce_contract (sorted_value (contract_value c)) = Inr c
      \<longleftrightarrow> display_name c \<noteq> [] \<and> length (domains c) \<le> max_taxonomy_items"
  using presented_roundtrip [OF assms entries_present] loaded_presents [of c] presented_roundtrip [OF assms]
  by (auto simp: contract_value_entries)

end
