(* ===== verification/Contract_Properties.thy ===== *)
theory Contract_Properties
  imports Contract_Example Contract_Text Staff_Example
begin

text \<open>
  The properties of the contracts the components exchange: recruitment contracts of the roster,
  the index built from them, and the plans and proposals of recruitment.
\<close>

section \<open>Recruitment contracts\<close>

text \<open>C19: Every contract the projection or the reader of stored contracts returns is well formed:
  identifiers, bounded and duplicate-free lists, a supported authority, context mode, host,
  platform and audit status, artifact kinds and capability ids that agree, an employment state
  that agrees with the enabled flag (a resident manager is always enabled), a 64-digit content
  hash and a canonical form within the byte bound. A contract that was read has at most 8 domains.\<close>

theorem projected_contract_ok:
  assumes "project_workforce_contract disabled given record = Inr c" and "parse_workforce_contract v = Inr d"
  shows "contract_ok c \<and> contract_ok d \<and> length (domains d) \<le> max_taxonomy_items"
  using projected_ok [OF assms(1)] parsed_ok [OF assms(2)] by simp

theorem projected_contract_ok_witness:
  "contract_ok sample_contract \<and> contract_ok sample_contract \<and> length (domains sample_contract) \<le> max_taxonomy_items"
  by (rule projected_contract_ok [OF sample_projected sample_parsed])

text \<open>C20: The text in which the store keeps a projected contract is always within the limits of the
  bounded loader, and the contract is read back from it unchanged exactly when it has a display name
  and at most 8 domains. The two exceptions occur: a record whose name is white space projects to an
  empty display name, and derived domains are not bounded. The order of the keys does not matter.\<close>

theorem contract_roundtrip:
  assumes "project_workforce_contract disabled given record = Inr c"
  shows "load_evidence to_float (json_dumps (contract_json c)) = Inr (sorted_value (contract_value c))
    \<and> (parse_workforce_contract (sorted_value (contract_value c)) = Inr c \<longleftrightarrow>
      display_name c \<noteq> [] \<and> length (domains c) \<le> max_taxonomy_items)
    \<and> (parse_workforce_contract (contract_value c) = Inr c \<longleftrightarrow>
      display_name c \<noteq> [] \<and> length (domains c) \<le> max_taxonomy_items)"
  using contract_text_loads [OF projected_ok [OF assms]] contract_text_back [OF projected_ok [OF assms]] by blast

theorem contract_roundtrip_witness:
  "load_evidence (\<lambda>_. PyNan) (json_dumps (contract_json sample_contract)) = Inr (sorted_value (contract_value sample_contract))
    \<and> (parse_workforce_contract (sorted_value (contract_value sample_contract)) = Inr sample_contract \<longleftrightarrow>
      display_name sample_contract \<noteq> [] \<and> length (domains sample_contract) \<le> max_taxonomy_items)
    \<and> (parse_workforce_contract (contract_value sample_contract) = Inr sample_contract \<longleftrightarrow>
      display_name sample_contract \<noteq> [] \<and> length (domains sample_contract) \<le> max_taxonomy_items)"
  by (rule contract_roundtrip [OF sample_projected])

text \<open>An index of projected contracts has a fingerprint exactly when no two contracts share a
  worker id or an agent id and every relationship names another contract of the index; the
  fingerprint does not depend on the order of the contracts.\<close>

lemma projected_index:
  assumes "\<forall>c\<in>set contracts. \<exists>disabled given record. project_workforce_contract disabled given record = Inr c"
    and "mset others = mset contracts"
  shows "((\<exists>fp. workforce_index_fingerprint contracts = Inr fp) \<longleftrightarrow>
      distinct (map worker_id contracts) \<and> distinct (map agent_id contracts)
      \<and> (\<forall>c\<in>set contracts. \<forall>(field, targets)\<in>set (relationship_fields (composition c)).
           agent_id c \<notin> set targets \<and> set targets \<subseteq> agent_id ` set contracts))
    \<and> workforce_index_fingerprint others = workforce_index_fingerprint contracts"
proof -
  have "\<forall>c\<in>set contracts. contract_schema c = contract_schema_version"
    using assms(1) projected_ok by (fastforce simp: contract_ok_def)
  then show ?thesis
    using fingerprint_perm [OF assms(2)] by (auto simp: fingerprint_Inr_iff index_ok_def)
qed

theorem projected_index_witness:
  "((\<exists>fp. workforce_index_fingerprint [sample_contract] = Inr fp) \<longleftrightarrow>
      distinct (map worker_id [sample_contract]) \<and> distinct (map agent_id [sample_contract])
      \<and> (\<forall>c\<in>set [sample_contract]. \<forall>(field, targets)\<in>set (relationship_fields (composition c)).
           agent_id c \<notin> set targets \<and> set targets \<subseteq> agent_id ` set [sample_contract]))
    \<and> workforce_index_fingerprint [sample_contract] = workforce_index_fingerprint [sample_contract]"
  by (rule projected_index [of "[sample_contract]" "[sample_contract]"]) (use sample_projected in auto)

text \<open>An agent id of one character, or with a colon, is a valid identifier, yet no record that
  has it projects, even one that brings its own worker id: the unused default is computed first.\<close>

theorem agent_id_needs_slug:
  assumes "strip agent = agent" and "agent \<noteq> []" and "\<not> is_worker_slug (casefold (squeeze agent))"
  shows "\<nexists>c. project_workforce_contract disabled given
     ((''slug'', PyStr agent) # (''worker_id'', PyStr ''worker-7'') # record) = Inr c"
proof
  let ?source = "(''slug'', PyStr agent) # (''worker_id'', PyStr ''worker-7'') # record"
  assume "\<exists>c. project_workforce_contract disabled given ?source = Inr c"
  then obtain c where p: "project_workforce_contract disabled given ?source = Inr c" by blast
  then obtain division where "contract_identity ?source = Inr (agent_id c, authority c, context_mode c, division, archetype c)"
    using project_stages [OF p] by blast
  moreover have "agent_identity ?source = agent"
    using assms by (simp add: agent_identity_def py_get_def py_or_def)
  ultimately have "contract_identifier True ''agent_id'' (PyStr agent) = Inr (agent_id c)"
    by (auto simp: contract_identity_def res_simps)
  then have "agent_id c = casefold (squeeze agent)"
    by (auto simp: contract_identifier_def contract_text_def res_simps Let_def split: if_splits)
  then show False using assms(3) projected_ok [OF p] by (simp add: contract_ok_def)
qed

theorem agent_id_needs_slug_witness:
  "is_identifier ''team:writer'' \<and> (\<nexists>c. project_workforce_contract [] ''upstream''
     ((''slug'', PyStr ''team:writer'') # (''worker_id'', PyStr ''worker-7'') # tl (tl sample_record)) = Inr c)"
proof
  show "is_identifier ''team:writer''" by code_simp
  show "\<nexists>c. project_workforce_contract [] ''upstream''
     ((''slug'', PyStr ''team:writer'') # (''worker_id'', PyStr ''worker-7'') # tl (tl sample_record)) = Inr c"
    by (rule agent_id_needs_slug) code_simp+
qed

text \<open>The tools of a contract are canonical and at most 8, the known ones first: a record that
  requires 8 known tools loses an unknown one, although it was to stay explicit.\<close>

theorem unknown_tool_dropped:
  "tools_ok (tool_classes_of record) \<and> unknown_tool ''quantum-lathe''
     \<and> tool_classes_of [(''required_tools'', PyList (map PyStr [''git'', ''shell'', ''python'', ''test-runner'',
         ''package-manager'', ''build-toolchain'', ''repository'', ''file-write'', ''quantum-lathe'']))]
       = [''build-toolchain'', ''code-execution'', ''package-management'', ''repository-read'',
          ''repository-write'', ''shell-execution'', ''source-control'', ''test-execution'']"
proof (intro conjI tool_classes_ok)
  show "unknown_tool ''quantum-lathe''" by code_simp
  show "tool_classes_of [(''required_tools'', PyList (map PyStr [''git'', ''shell'', ''python'', ''test-runner'',
         ''package-manager'', ''build-toolchain'', ''repository'', ''file-write'', ''quantum-lathe'']))]
       = [''build-toolchain'', ''code-execution'', ''package-management'', ''repository-read'',
          ''repository-write'', ''shell-execution'', ''source-control'', ''test-execution'']"
    by code_simp
qed


section \<open>Plans and proposals\<close>

text \<open>C22: A parsed work-unit plan reads back from the document its hash is taken over, and a parsed
  proposal from its dictionary, whatever texts its floats are printed as.\<close>

theorem planning_roundtrip:
  assumes "parse_work_unit_plan allowed v = Inr plan" and "parse_recruiter_proposal w plan = Inr p"
  shows "parse_work_unit_plan allowed (json_value (plan_payload (request_summary plan) (plan_units plan))) = Inr plan
    \<and> parse_recruiter_proposal (proposal_value float_text p) plan = Inr p"
  using parse_plan_payload parse_plan_ok [OF assms(1)] parse_proposal_value [OF parse_proposal_ok [OF assms(2)]]
  by blast

theorem planning_roundtrip_witness:
  "parse_work_unit_plan None (json_value (plan_payload (request_summary example_plan) (plan_units example_plan)))
      = Inr example_plan
    \<and> parse_recruiter_proposal (proposal_value (\<lambda>q. ''0.5'') example_proposal) example_plan = Inr example_proposal"
  by (rule planning_roundtrip [OF parse_plan_payload [of example_plan None]
      parse_proposal_value [of example_plan example_proposal "\<lambda>q. ''1.0''"]]) (simp_all add: example_plan_ok example_proposal_ok)

end
