(* ===== verification/Outcome_Store.thy ===== *)
theory Outcome_Store
  imports Store_Documents
begin

text \<open>
  The other two recorders of outcomes in \<open>core/store/workforce.py\<close>: \<open>record_workforce_outcome\<close>, which
  takes evidence from its caller, and \<open>record_native_assignment_outcome\<close>, which binds the result of a
  native child. The activation receipts, a table of the delegation store, are an argument. A score is a
  number, a boolean or nothing. Both may promote the worker, which decodes every recorded document:
  the document of the new row is decoded here, the others were when they were recorded.
\<close>

section \<open>Activation receipts\<close>

record activation_receipt =
  x_id :: string
  x_consumed :: "string option"
  x_slug :: string
  x_version :: string
  x_prompt_hash :: string
  x_session :: string
  x_trace :: string
  x_unit :: string

definition agrees :: "string \<Rightarrow> string \<Rightarrow> string \<Rightarrow> unit res" where
  "agrees field supplied recorded = raise_if (supplied \<noteq> [] \<and> supplied \<noteq> recorded)
     (ValueError (''outcome '' @ field @ '' does not match activation receipt''))"

text \<open>\<open>_bind_outcome_activation\<close>: version, version hash, session, trace and work unit of the outcome\<close>

definition bind_outcome_activation :: "activation_receipt list \<Rightarrow> worker_row \<Rightarrow> string \<Rightarrow> string \<Rightarrow> string \<Rightarrow> string
    \<Rightarrow> (string \<times> string \<times> string \<times> string \<times> string) res" where
  "bind_outcome_activation receipts w activation session trace unit =
     (if activation = [] then Inr (w_version w, w_hash w, session, trace, unit)
      else case find (\<lambda>x. x_id x = activation) receipts of
        None \<Rightarrow> Inl (ValueError ''outcome activation receipt is missing or unconsumed'')
      | Some x \<Rightarrow>
          bind_res (raise_if (x_consumed x = None) (ValueError ''outcome activation receipt is missing or unconsumed'')) (\<lambda>_.
          bind_res (raise_if (x_slug x \<noteq> w_slug w) (ValueError ''outcome activation receipt belongs to another worker'')) (\<lambda>_.
          bind_res (agrees ''session_id'' session (x_session x)) (\<lambda>_.
          bind_res (agrees ''trace_id'' trace (x_trace x)) (\<lambda>_.
          bind_res (agrees ''work_unit_id'' unit (x_unit x)) (\<lambda>_.
          Inr (x_version x, x_prompt_hash x, x_session x, x_trace x, x_unit x)))))))"


section \<open>Evidence from the caller\<close>

definition activation_bound_outcomes :: "string list" where
  "activation_bound_outcomes = [''assignment'', ''artifact'', ''review'', ''test'', ''acceptance'', ''failure'']"

definition retired_evidence_keys :: "string list" where
  "retired_evidence_keys = [''independent_verifier_worker_id'', ''independent_verification_receipt_id'',
     ''independent_verification_validated'']"

definition acceptance_schema_keys :: "string list" where
  "acceptance_schema_keys = [''acceptance_validated'', ''accepted_outcome_key'']"

definition validated_outcome_evidence :: "(string \<times> pyval) list \<Rightarrow> string res" where
  "validated_outcome_evidence refs =
     bind_res (raise_if (set retired_evidence_keys \<inter> fst ` set refs \<noteq> {})
       (ValueError (''independent-verification outcome evidence was retired by AR-252; ''
         @ ''record acceptance from host artifacts instead''))) (\<lambda>_.
     bind_res (raise_if (set acceptance_schema_keys \<inter> fst ` set refs \<noteq> {})
       (ValueError ''acceptance evidence may only be recorded from host artifacts'')) (\<lambda>_.
     document_text ''evidence_refs'' refs))"

datatype score_argument = NoScore | ScoreBool bool | ScoreInt int | ScoreFloat py_float

definition read_score :: "score_argument \<Rightarrow> rat option res" where
  "read_score v = (let outside = Inl (ValueError ''score must be between 0 and 1'') in case v of
     NoScore \<Rightarrow> Inr None
   | ScoreBool b \<Rightarrow> outside
   | ScoreInt i \<Rightarrow> if 2 ^ 1024 - 2 ^ 970 \<le> \<bar>i\<bar> then Inl (OverflowError ''int too large to convert to float'')
       else if 0 \<le> i \<and> i \<le> 1 then Inr (Some (of_int i)) else outside
   | ScoreFloat (PyFin q t) \<Rightarrow> if 0 \<le> q \<and> q \<le> 1 then Inr (Some q) else outside
   | ScoreFloat f \<Rightarrow> outside)"

definition same_recording :: "performance_row \<Rightarrow> performance_row \<Rightarrow> bool" where
  "same_recording p q = (p_worker p = p_worker q \<and> p_version p = p_version q \<and> p_version_hash p = p_version_hash q
     \<and> p_session p = p_session q \<and> p_trace p = p_trace q \<and> p_unit p = p_unit q \<and> p_activation p = p_activation q
     \<and> p_event p = p_event q \<and> p_outcome p = p_outcome q \<and> p_score p = p_score q
     \<and> p_evidence_hash p = p_evidence_hash q \<and> value_dumps (p_refs p) = value_dumps (p_refs q))"

text \<open>The arguments of \<open>record_workforce_outcome\<close>\<close>

record outcome_request =
  o_worker :: pyval
  o_key :: pyval
  o_event :: pyval
  o_outcome :: pyval
  o_hash :: pyval
  o_refs :: "(string \<times> pyval) list"
  o_score :: score_argument
  o_session :: pyval
  o_trace :: pyval
  o_unit :: pyval
  o_activation :: pyval
  o_successes :: pyval
  o_disabled :: "string list option"

text \<open>Insert or find the row, then promote.\<close>

definition commit_workforce_outcome :: "(string \<Rightarrow> py_float) \<Rightarrow> (string \<Rightarrow> moment option) \<Rightarrow> moment \<Rightarrow> promotion_policy
    \<Rightarrow> activation_receipt list \<Rightarrow> string \<Rightarrow> string \<Rightarrow> performance_row \<Rightarrow> workforce_store
    \<Rightarrow> (workforce_store \<times> performance_row) res" where
  "commit_workforce_outcome to_float fromiso now policy receipts identity document draft st =
     (case select_worker (worker_table st) identity of
        None \<Rightarrow> Inl (KeyError ''workforce worker not found'')
      | Some w \<Rightarrow>
          bind_res (bind_outcome_activation receipts w (p_activation draft) (p_session draft) (p_trace draft) (p_unit draft))
            (\<lambda>(version, version_hash, session, trace, unit).
          let p = draft\<lparr>p_worker := w_id w, p_version := version, p_version_hash := version_hash, p_session := session,
            p_trace := trace, p_unit := unit\<rparr> in
          bind_res (case find (\<lambda>q. p_key q = p_key p) (performance st) of
              None \<Rightarrow> Inr (st\<lparr>performance := performance st @ [p]\<rparr>, p)
            | Some q \<Rightarrow> bind_res (raise_if (\<not> same_recording q p)
                (ValueError ''performance idempotency key was reused with different evidence'')) (\<lambda>_. Inr (st, q)))
            (\<lambda>(st1, row).
          bind_res (decoded to_float document) (\<lambda>_.
          bind_res (auto_promote_if_ready fromiso now policy w st1) (\<lambda>st2. Inr (st2, row))))))"

definition record_workforce_outcome :: "(string \<Rightarrow> py_float) \<Rightarrow> (string \<Rightarrow> moment option) \<Rightarrow> moment \<Rightarrow> string \<Rightarrow> string
    \<Rightarrow> promotion_policy \<Rightarrow> string list \<Rightarrow> activation_receipt list \<Rightarrow> outcome_request \<Rightarrow> workforce_store
    \<Rightarrow> (workforce_store \<times> performance_row) res" where
  "record_workforce_outcome to_float fromiso now clock event_id configured store_disabled receipts r st =
     bind_res (bounded_text ''worker identity'' 256 (o_worker r)) (\<lambda>identity.
     bind_res (sha256_text ''idempotency_key'' (o_key r)) (\<lambda>key.
     bind_res (bounded_text ''event_type'' 64 (o_event r)) (\<lambda>event_text.
     bind_res (bounded_text ''outcome'' 64 (o_outcome r)) (\<lambda>outcome_text.
     bind_res (sha256_text ''evidence_hash'' (o_hash r)) (\<lambda>digest.
     bind_res (read_score (o_score r)) (\<lambda>score.
     bind_res (optional_identifier ''session_id'' (o_session r)) (\<lambda>session.
     bind_res (optional_identifier ''trace_id'' (o_trace r)) (\<lambda>trace.
     bind_res (raise_if ((session = None) \<noteq> (trace = None))
       (ValueError ''session_id and trace_id must be supplied together'')) (\<lambda>_.
     bind_res (optional_identifier ''work_unit_id'' (o_unit r)) (\<lambda>unit.
     bind_res (optional_identifier ''activation_receipt_id'' (o_activation r)) (\<lambda>activation.
     bind_res (validated_outcome_evidence (o_refs r)) (\<lambda>document.
     bind_res (raise_if (casefold event_text \<in> set activation_bound_outcomes \<and> activation = None)
       (ValueError (casefold event_text @ '' outcomes require an activation receipt''))) (\<lambda>_.
     bind_res (outcome_promotion_policy configured store_disabled (o_successes r) (o_disabled r)) (\<lambda>policy.
     let given = (\<lambda>v. case v of None \<Rightarrow> [] | Some s \<Rightarrow> s) in
     commit_workforce_outcome to_float fromiso now policy receipts identity document
       \<lparr>p_id = event_id, p_key = key, p_worker = [], p_version = [], p_version_hash = [], p_event = casefold event_text,
        p_outcome = casefold outcome_text, p_evidence_hash = digest, p_refs = PyDict (o_refs r), p_created = clock,
        p_session = given session, p_trace = given trace, p_unit = given unit, p_activation = given activation,
        p_score = score\<rparr> st))))))))))))))"


section \<open>The result of a native child\<close>

record delegation_row =
  d_id :: string
  d_activation :: string
  d_session :: string
  d_trace :: string
  d_unit :: string

definition assignment_evidence :: "delegation_row \<Rightarrow> string \<Rightarrow> (string \<times> pyval) list" where
  "assignment_evidence d run = [(''delegation_event_id'', PyStr (d_id d)), (''native_worker_run_id'', PyStr run)]"

definition assignment_row :: "string \<Rightarrow> string \<Rightarrow> delegation_row \<Rightarrow> string \<Rightarrow> bool \<Rightarrow> activation_receipt \<Rightarrow> worker_row \<Rightarrow> string
    \<Rightarrow> performance_row" where
  "assignment_row event_id clock d run passed x w document =
     (let outcome_text = (if passed then ''passed'' else ''failed'') in
      \<lparr>p_id = event_id,
       p_key = sha256_hex (utf8 (join [CHR 0x00] [''native-assignment'', d_id d, run, outcome_text])),
       p_worker = w_id w, p_version = x_version x, p_version_hash = x_prompt_hash x, p_event = ''assignment'',
       p_outcome = outcome_text, p_evidence_hash = document_hash document, p_refs = PyDict (assignment_evidence d run),
       p_created = clock, p_session = d_session d, p_trace = d_trace d, p_unit = d_unit d, p_activation = d_activation d,
       p_score = Some (if passed then 1 else 0)\<rparr>)"

definition record_native_assignment_outcome :: "(string \<Rightarrow> moment option) \<Rightarrow> moment \<Rightarrow> string \<Rightarrow> string
    \<Rightarrow> promotion_policy option \<Rightarrow> activation_receipt list \<Rightarrow> delegation_row \<Rightarrow> string \<Rightarrow> string \<Rightarrow> workforce_store
    \<Rightarrow> (workforce_store \<times> string option) res" where
  "record_native_assignment_outcome fromiso now clock event_id configured receipts d run outcome_text st =
     (if d_activation d = [] then Inr (st, None)
      else let unproven = Inl (RuntimeError ''native assignment lacks a consumed workforce activation receipt'') in
        case find (\<lambda>x. x_id x = d_activation d) receipts of
          None \<Rightarrow> unproven
        | Some x \<Rightarrow> (case find (\<lambda>w. w_slug w = x_slug x) (worker_table st) of
            None \<Rightarrow> unproven
          | Some w \<Rightarrow>
              if x_consumed x = None then unproven
              else bind_res (document_text ''evidence_refs'' (assignment_evidence d run)) (\<lambda>document.
                let p = assignment_row event_id clock d run (outcome_text = ''ok'') x w document in
                case find (\<lambda>q. p_key q = p_key p) (performance st) of
                  Some q \<Rightarrow> bind_res (raise_if (\<not> same_recording q p)
                    (RuntimeError ''native assignment outcome evidence conflicts with its replay'')) (\<lambda>_. Inr (st, Some (p_id q)))
                | None \<Rightarrow>
                    let st1 = st\<lparr>performance := performance st @ [p]\<rparr> in
                    bind_res (case configured of None \<Rightarrow> Inr st1
                      | Some policy \<Rightarrow> auto_promote_if_ready fromiso now policy w st1) (\<lambda>st2. Inr (st2, Some event_id)))))"

end
