(* ===== verification/Workforce_Machine.thy ===== *)
theory Workforce_Machine
  imports Outcome_Store
begin

text \<open>
  The employment life cycle: the transitions of class and standing as a relation, the steps of the
  workforce store, and what holds of every store they reach. The handlers are shown to make only
  transitions of the relation, one worker at a time, each with its event.
\<close>

section \<open>Histories\<close>

text \<open>An interface for state machines: steps that keep an invariant, along which states evolve.\<close>

locale evolving =
  fixes step :: "'s \<Rightarrow> 's \<Rightarrow> bool" and good :: "'s \<Rightarrow> bool" and evolves :: "'s \<Rightarrow> 's \<Rightarrow> bool"
  assumes preserved: "step s t \<Longrightarrow> good s \<Longrightarrow> good t"
    and advances: "step s t \<Longrightarrow> good s \<Longrightarrow> evolves s t"
    and evolves_refl: "evolves s s"
    and evolves_trans: "evolves s t \<Longrightarrow> evolves t u \<Longrightarrow> evolves s u"
begin

lemma reachable:
  assumes "step\<^sup>*\<^sup>* s t" and "good s"
  shows "good t \<and> evolves s t"
  using assms
proof (induction rule: rtranclp_induct)
  case base
  then show ?case using evolves_refl by simp
next
  case (step t u)
  then show ?case using preserved advances evolves_trans by blast
qed

end


section \<open>The life cycle of one worker\<close>

inductive employment_step ::
  "employment_class \<times> worker_standing \<Rightarrow> string \<Rightarrow> employment_class \<times> worker_standing \<Rightarrow> bool" where
  promote: "employment_step (Contractor, Active) ''promote'' (Employee, Active)"
| suspend: "employment_step (c, Active) ''suspend'' (c, Suspended)"
| resume: "employment_step (c, Suspended) ''resume'' (c, Active)"
| retire: "s \<in> {Active, Suspended} \<Longrightarrow> employment_step (c, s) ''retire'' (c, Retired)"
| merge: "s \<in> {Active, Suspended} \<Longrightarrow> employment_step (c, s) ''merge'' (c, Merged)"

inductive_cases retired_stepE [elim!]: "employment_step (c, Retired) a x"
inductive_cases merged_stepE [elim!]: "employment_step (c, Merged) a x"
inductive_cases promote_stepE: "employment_step (c, s) ''promote'' (c', s')"
inductive_cases employee_stepE: "employment_step (Employee, s) a x"
inductive_simps employment_step_iff: "employment_step (c, s) a (c', s')"

declare employment_step.intros [intro]

lemma employee_stays: "employment_step (Employee, s) a (c', s') \<Longrightarrow> c' = Employee"
  by (erule employee_stepE) auto

lemma step_not_terminal: "employment_step (c, s) a x \<Longrightarrow> s \<notin> {Retired, Merged}"
  by (auto elim: employment_step.cases)

lemma step_changes: "employment_step x a y \<Longrightarrow> x \<noteq> y"
  by (auto elim: employment_step.cases)


section \<open>Well-formed stores\<close>

definition merges :: "worker_row list \<Rightarrow> (string \<times> string) set" where
  "merges ws = {(w_id w, t) |w t. w \<in> set ws \<and> w_merged w = Some t}"

definition row_fits :: "worker_row \<Rightarrow> bool" where
  "row_fits w = (w_id w \<noteq> [] \<and> 0 \<le> w_revision w \<and> (w_standing w = Merged \<longleftrightarrow> w_merged w \<noteq> None))"

definition store_ok :: "workforce_store \<Rightarrow> bool" where
  "store_ok st = (distinct (map w_id (worker_table st)) \<and> distinct (map w_slug (worker_table st))
     \<and> (\<forall>w\<in>set (worker_table st). row_fits w)
     \<and> snd ` merges (worker_table st) \<subseteq> w_id ` set (worker_table st) \<and> acyclic (merges (worker_table st))
     \<and> sorted_wrt (<) (map e_sequence (worker_events st)) \<and> (\<forall>e\<in>set (worker_events st). 0 < e_sequence e)
     \<and> e_worker ` set (worker_events st) \<subseteq> w_id ` set (worker_table st)
     \<and> distinct (map p_key (performance st)) \<and> p_worker ` set (performance st) \<subseteq> w_id ` set (worker_table st))"

text \<open>How a row may differ later\<close>

definition same_worker :: "worker_row \<Rightarrow> worker_row \<Rightarrow> bool" where
  "same_worker w v = (w_id v = w_id w \<and> w_slug v = w_slug w \<and> w_name v = w_name w \<and> w_origin v = w_origin w
     \<and> w_version_id v = w_version_id w \<and> w_version v = w_version w \<and> w_hash v = w_hash w
     \<and> w_created v = w_created w)"

definition later_row :: "worker_row \<Rightarrow> worker_row \<Rightarrow> bool" where
  "later_row w v = (v = w \<or> w_standing w \<notin> {Retired, Merged} \<and> w_revision w < w_revision v
     \<and> (w_class w = Employee \<longrightarrow> w_class v = Employee)
     \<and> same_worker w v)"

definition evolves_to :: "workforce_store \<Rightarrow> workforce_store \<Rightarrow> bool" where
  "evolves_to st st' = (list_all2 later_row (worker_table st) (worker_table st')
     \<and> prefix (worker_events st) (worker_events st') \<and> prefix (performance st) (performance st')
     \<and> roster_counter st \<le> roster_counter st')"

lemma later_row_refl [simp]: "later_row w w"
  by (simp add: later_row_def)

lemma later_row_trans: "later_row u v \<Longrightarrow> later_row v w \<Longrightarrow> later_row u w"
  by (auto simp: later_row_def same_worker_def)

lemma later_row_ids: "later_row w v \<Longrightarrow> w_id v = w_id w \<and> w_slug v = w_slug w \<and> w_version v = w_version w \<and> w_hash v = w_hash w"
  by (auto simp: later_row_def same_worker_def)

lemma evolves_to_refl: "evolves_to st st"
  by (simp add: evolves_to_def list_all2_same)

lemma evolves_to_trans: "evolves_to s t \<Longrightarrow> evolves_to t u \<Longrightarrow> evolves_to s u"
  unfolding evolves_to_def using list_all2_trans [of later_row later_row later_row] later_row_trans
  by (meson order_trans prefix_order.order_trans)


section \<open>Selecting rows\<close>

lemma worker_with_Some: "worker_with ws i = Some w \<Longrightarrow> w \<in> set ws \<and> w_id w = i"
  by (auto simp: worker_with_def find_Some_iff)

lemma worker_with_known: "distinct (map w_id ws) \<Longrightarrow> w \<in> set ws \<Longrightarrow> worker_with ws (w_id w) = Some w"
proof (induction ws)
  case (Cons v ws)
  then show ?case by (cases "v = w") (auto simp: worker_with_def)
qed simp

lemma worker_with_None: "worker_with ws i = None \<longleftrightarrow> i \<notin> w_id ` set ws"
  by (auto simp: worker_with_def find_None_iff)

lemma select_worker_Some: "select_worker ws v = Some w \<Longrightarrow> w \<in> set ws"
  by (auto simp: select_worker_def find_Some_iff)

lemma same_id: "distinct (map w_id ws) \<Longrightarrow> v \<in> set ws \<Longrightarrow> w \<in> set ws \<Longrightarrow> w_id v = w_id w \<longleftrightarrow> v = w"
  by (auto simp: distinct_map dest: inj_onD)

definition replace_row :: "worker_row \<Rightarrow> worker_row \<Rightarrow> worker_row list \<Rightarrow> worker_row list" where
  "replace_row w w' ws = map (\<lambda>v. if v = w then w' else v) ws"

lemma filter_one: "distinct ws \<Longrightarrow> w \<in> set ws \<Longrightarrow> filter (\<lambda>v. v = w) ws = [w]"
  by (induction ws) (auto simp: filter_empty_conv)

lemma update_one:
  assumes "distinct (map w_id ws)" and "w \<in> set ws" and "\<And>v. v \<in> set ws \<Longrightarrow> P v \<longleftrightarrow> v = w"
  shows "update_workers P f ws = replace_row w (f w) ws" and "length (filter P ws) = 1"
proof -
  show "update_workers P f ws = replace_row w (f w) ws"
    using assms(3) by (auto simp: update_workers_def replace_row_def)
  have "distinct ws" using assms(1) by (simp add: distinct_map)
  moreover have "filter P ws = filter (\<lambda>v. v = w) ws" using assms(3) by (intro filter_cong) auto
  ultimately show "length (filter P ws) = 1"
    using filter_one [of ws w] assms(2) by simp
qed

lemma merge_walk_active:
  assumes "worker_with ws t = Some v" and "w_merged v = None" and "t \<noteq> i"
  shows "merge_walk ws {i} t = Inr ()"
  using assms by (simp add: merge_walk.simps [of ws "{i}" t] merge_walk.simps [of ws _ "[]"])


section \<open>What the handlers do\<close>

text \<open>One worker moves, and its event is appended.\<close>

definition target_fits :: "worker_row list \<Rightarrow> worker_row \<Rightarrow> worker_standing \<Rightarrow> string option \<Rightarrow> bool" where
  "target_fits ws w s t = (case t of None \<Rightarrow> s \<noteq> Merged
     | Some i \<Rightarrow> s = Merged \<and> i \<noteq> w_id w \<and> (\<exists>v\<in>set ws. w_id v = i \<and> w_standing v = Active))"

definition logs :: "event_row \<Rightarrow> worker_row \<Rightarrow> string \<Rightarrow> employment_class \<times> worker_standing \<Rightarrow> bool" where
  "logs e w a x = (e_worker e = w_id w \<and> e_type e = a \<and> e_from_class e = class_text (w_class w)
     \<and> e_to_class e = class_text (fst x) \<and> e_from_standing e = standing_text (w_standing w)
     \<and> e_to_standing e = standing_text (snd x))"

definition moves :: "worker_row \<Rightarrow> string \<Rightarrow> workforce_store \<Rightarrow> workforce_store \<Rightarrow> bool" where
  "moves w a st st' = (\<exists>c s t e. w \<in> set (worker_table st) \<and> employment_step (w_class w, w_standing w) a (c, s)
     \<and> target_fits (worker_table st) w s t \<and> logs e w a (c, s)
     \<and> e_sequence e = next_event_sequence (worker_events st)
     \<and> worker_table st' = replace_row w (set_state c s t w) (worker_table st)
     \<and> worker_events st' = worker_events st @ [e] \<and> performance st' = performance st
     \<and> roster_counter st' = roster_counter st + 1)"

lemma worker_action_cases:
  assumes "a \<in> set worker_actions"
  obtains "a = ''promote''" | "a = ''suspend''" | "a = ''resume''" | "a = ''retire''" | "a = ''merge''"
  using assms unfolding worker_actions_def by auto

lemma transition_state_step:
  assumes "transition_state ws w a target = Inr (c, s, t)" and "a \<in> set worker_actions"
  shows "employment_step (w_class w, w_standing w) a (c, s) \<and> target_fits ws w s t"
proof -
  have stand: "w_standing w = Active \<or> w_standing w = Suspended"
    using assms(1) by (cases "w_standing w") (auto simp: transition_state_def)
  have merge: "a = ''merge'' \<Longrightarrow> \<exists>i. t = Some i \<and> c = w_class w \<and> s = Merged \<and> i \<noteq> w_id w
      \<and> (\<exists>v\<in>set ws. w_id v = i \<and> w_standing v = Active)"
    using assms(1) by (auto simp: transition_state_def res_simps dest: worker_with_Some split: if_splits option.splits)
  from assms(2) show ?thesis
  proof (cases rule: worker_action_cases)
    case 1
    with assms(1) stand show ?thesis
      by (cases "w_class w") (auto simp: transition_state_def target_fits_def split: if_splits)
  next
    case 2
    with assms(1) stand show ?thesis by (auto simp: transition_state_def target_fits_def split: if_splits)
  next
    case 3
    with assms(1) stand show ?thesis by (auto simp: transition_state_def target_fits_def split: if_splits)
  next
    case 4
    with assms(1) stand show ?thesis by (auto simp: transition_state_def target_fits_def split: if_splits)
  next
    case 5
    with merge stand show ?thesis by (auto simp: target_fits_def)
  qed
qed

lemma transition_moves:
  assumes "transition_workforce_worker worker action revision reason_value merged actor surface disabled st = Inr st'"
    and "store_ok st"
  shows "\<exists>w a. moves w a st st'"
proof -
  obtain identity a expected reason_text target_identity where a: "a \<in> set worker_actions"
    and commit: "commit_transition identity a expected reason_text target_identity actor surface disabled st = Inr st'"
    using assms(1) by (auto simp: transition_workforce_worker_def res_simps Let_def)
  obtain w where w: "select_worker (worker_table st) identity = Some w"
    using commit by (cases "select_worker (worker_table st) identity") (auto simp: commit_transition_def)
  let ?matches = "\<lambda>v. w_id v = w_id w \<and> w_revision v = expected"
  obtain target c s t actor_text surface_text where
    revision: "w_revision w = expected"
    and state: "transition_state (worker_table st) w a target = Inr (c, s, t)"
    and st': "st' = bump_roster (record_worker_event
      (transition_event w a c s t actor_text surface_text reason_text)
      (st\<lparr>worker_table := update_workers ?matches (set_state c s t) (worker_table st)\<rparr>))"
    using commit w by (auto simp: commit_transition_def res_simps Let_def split: prod.splits)
  have ids: "distinct (map w_id (worker_table st))" and known: "w \<in> set (worker_table st)"
    using assms(2) select_worker_Some [OF w] by (simp_all add: store_ok_def)
  have matches: "v \<in> set (worker_table st) \<Longrightarrow> ?matches v \<longleftrightarrow> v = w" for v
    using same_id [OF ids _ known] revision by auto
  have "worker_table st' = replace_row w (set_state c s t w) (worker_table st)"
    using update_one(1) [OF ids known matches] by (simp add: st' bump_roster_def record_worker_event_def)
  then show ?thesis
    using transition_state_step [OF state a] known
    by (intro exI [of _ w] exI [of _ a])
      (auto simp: moves_def st' bump_roster_def record_worker_event_def logs_def transition_event_def
        intro!: exI [of _ c] exI [of _ s] exI [of _ t])
qed


section \<open>Moves keep the store well formed\<close>

lemma replace_row_ids:
  "w_id w' = w_id w \<Longrightarrow> map w_id (replace_row w w' ws) = map w_id ws"
  "w_slug w' = w_slug w \<Longrightarrow> map w_slug (replace_row w w' ws) = map w_slug ws"
  by (auto simp: replace_row_def)

lemma set_state_fields [simp]:
  "w_id (set_state c s t w) = w_id w" "w_slug (set_state c s t w) = w_slug w"
  "w_standing (set_state c s t w) = s" "w_merged (set_state c s t w) = t" "w_class (set_state c s t w) = c"
  "w_revision (set_state c s t w) = w_revision w + 1"
  by (simp_all add: set_state_def)

lemma set_state_later:
  "employment_step (w_class w, w_standing w) a (c, s) \<Longrightarrow> later_row w (set_state c s t w)"
  using step_not_terminal [of "w_class w" "w_standing w" a "(c, s)"] employee_stays
  by (auto simp: later_row_def same_worker_def set_state_def)

lemma merges_iff: "(i, t) \<in> merges ws \<longleftrightarrow> (\<exists>w\<in>set ws. w_id w = i \<and> w_merged w = Some t)"
  by (auto simp: merges_def)

lemma merges_replace:
  assumes "w \<in> set ws" and "w_merged w = None" and "w_id w' = w_id w"
  shows "merges (replace_row w w' ws) = merges ws \<union> (case w_merged w' of None \<Rightarrow> {} | Some i \<Rightarrow> {(w_id w, i)})"
proof -
  have "merges (replace_row w w' ws) = merges (w' # filter (\<lambda>v. v \<noteq> w) ws)"
    using assms(1) by (auto simp: merges_iff replace_row_def)
  moreover have "merges ws = merges (filter (\<lambda>v. v \<noteq> w) ws)"
    using assms(2) by (auto simp: merges_iff) fastforce
  ultimately show ?thesis using assms(3) by (auto simp: merges_iff split: option.splits)
qed

lemma acyclic_target:
  assumes "acyclic r" and "i \<noteq> j" and "j \<notin> fst ` r"
  shows "acyclic (insert (i, j) r)"
proof -
  have "(j, i) \<notin> r\<^sup>*"
  proof
    assume "(j, i) \<in> r\<^sup>*"
    then show False using assms(2,3) by (cases rule: converse_rtranclE) force+
  qed
  with assms(1) show ?thesis by (simp add: acyclic_insert)
qed

lemma next_sequence:
  assumes "sorted_wrt (<) (map e_sequence es)" and "\<forall>e\<in>set es. 0 < e_sequence e"
  shows "0 < next_event_sequence es \<and> (\<forall>e\<in>set es. e_sequence e < next_event_sequence es)"
proof (cases "es = []")
  case False
  then have "e \<in> set es \<Longrightarrow> e_sequence e \<le> Max (e_sequence ` set es)" for e by simp
  moreover from this have "0 < Max (e_sequence ` set es)"
    using False assms(2) by (metis hd_in_set less_le_trans)
  ultimately show ?thesis using False by (fastforce simp: next_event_sequence_def)
qed (simp add: next_event_sequence_def)

lemma moves_ok:
  assumes "moves w a st st'" and ok: "store_ok st"
  shows "store_ok st' \<and> evolves_to st st'"
proof -
  let ?ws = "worker_table st"
  obtain c s t e where known: "w \<in> set ?ws" and step: "employment_step (w_class w, w_standing w) a (c, s)"
    and fits: "target_fits ?ws w s t" and e: "logs e w a (c, s)" "e_sequence e = next_event_sequence (worker_events st)"
    and ws': "worker_table st' = replace_row w (set_state c s t w) ?ws"
    and rest: "worker_events st' = worker_events st @ [e]" "performance st' = performance st"
      "roster_counter st' = roster_counter st + 1"
    using assms(1) by (auto simp: moves_def)
  have row: "row_fits w" using ok known by (simp add: store_ok_def)
  then have unmerged: "w_merged w = None" using step_not_terminal [OF step] by (auto simp: row_fits_def)
  have ids: "map w_id (worker_table st') = map w_id ?ws" "map w_slug (worker_table st') = map w_slug ?ws"
    by (simp_all add: ws' replace_row_ids)
  then have id_set: "w_id ` set (worker_table st') = w_id ` set ?ws" by (metis set_map)
  have new_row: "row_fits (set_state c s t w)"
    using row fits by (auto simp: row_fits_def target_fits_def split: option.splits)
  have edges: "merges (worker_table st') = merges ?ws \<union> (case t of None \<Rightarrow> {} | Some i \<Rightarrow> {(w_id w, i)})"
    using merges_replace [OF known unmerged, of "set_state c s t w"] by (simp add: ws')
  have "acyclic (merges (worker_table st')) \<and> snd ` merges (worker_table st') \<subseteq> w_id ` set ?ws"
  proof (cases t)
    case None
    with ok edges show ?thesis by (simp add: store_ok_def)
  next
    case (Some i)
    then obtain v where v: "v \<in> set ?ws" "w_id v = i" "w_standing v = Active" and "i \<noteq> w_id w"
      using fits by (auto simp: target_fits_def)
    have "row_fits v" using ok v(1) by (simp add: store_ok_def)
    then have "w_merged v = None" using v(3) by (simp add: row_fits_def)
    moreover have "u = v" if "u \<in> set ?ws" "w_id u = i" for u
      using same_id [of ?ws u v] ok v that by (simp add: store_ok_def)
    ultimately have "i \<notin> fst ` merges ?ws" by (auto simp: merges_def)
    then have "acyclic (insert (w_id w, i) (merges ?ws))"
      using acyclic_target ok \<open>i \<noteq> w_id w\<close> by (metis store_ok_def)
    then show ?thesis using edges Some ok v by (auto simp: store_ok_def)
  qed
  moreover have "\<forall>v\<in>set (worker_table st'). row_fits v"
    using ok new_row by (auto simp: ws' replace_row_def store_ok_def)
  moreover have "list_all2 later_row ?ws (worker_table st')"
    using set_state_later [OF step, of t] by (auto simp: ws' replace_row_def list_all2_map2 intro!: list_all2_refl)
  moreover have "e_worker e \<in> w_id ` set ?ws" using e(1) known by (simp add: logs_def)
  ultimately show ?thesis
    using ok next_sequence [of "worker_events st"] e(2)
    by (simp add: store_ok_def evolves_to_def rest ids id_set sorted_wrt_append)
qed

lemma append_performance:
  assumes "store_ok st" and "p_key p \<notin> p_key ` set (performance st)" and "p_worker p \<in> w_id ` set (worker_table st)"
  shows "store_ok (st\<lparr>performance := performance st @ [p]\<rparr>) \<and> evolves_to st (st\<lparr>performance := performance st @ [p]\<rparr>)"
  using assms by (auto simp: store_ok_def evolves_to_def list_all2_same)


section \<open>Recording outcomes\<close>

lemma eligible_state:
  assumes "worker_readiness fromiso now policy w st = Inr r" and "auto_eligible r"
  shows "w_standing w = Active \<and> w_class w = Contractor \<and> w_slug w \<notin> set (policy_disabled policy)"
proof -
  have "casefold (promotion_state (policy_disabled policy) w) = ''contractor''"
    using assms by (auto simp: worker_readiness_def promotion_readiness_Inr_iff Let_def py_get_def)
  moreover have "list_all (\<lambda>s. casefold s \<noteq> ''contractor'') [''disabled'', ''employee'', ''suspended'', ''retired'', ''merged'']"
    by code_simp
  ultimately show ?thesis
    by (cases "w_standing w"; cases "w_class w") (auto simp: promotion_state_def split: if_splits)
qed

lemma auto_promote_moves:
  assumes "auto_promote_if_ready fromiso now policy w st = Inr st'" and ok: "store_ok st" and known: "w \<in> set (worker_table st)"
  shows "st' = st \<and> (\<exists>r. worker_readiness fromiso now policy w st = Inr r \<and> \<not> auto_eligible r)
    \<or> moves w ''promote'' st st' \<and> (\<exists>r. worker_readiness fromiso now policy w st = Inr r \<and> auto_eligible r)"
proof -
  obtain r where r: "worker_readiness fromiso now policy w st = Inr r"
    using assms(1) by (auto simp: auto_promote_if_ready_def res_simps)
  show ?thesis
  proof (cases "auto_eligible r")
    case False
    with assms(1) r show ?thesis by (simp add: auto_promote_if_ready_def)
  next
    case True
    let ?f = "\<lambda>v. v\<lparr>w_class := Employee, w_revision := w_revision w + 1\<rparr>"
    obtain document where st': "st' = bump_roster (record_worker_event (promoted_event w r document)
        (st\<lparr>worker_table := update_workers (\<lambda>v. w_id v = w_id w) ?f (worker_table st)\<rparr>))"
      using assms(1) r True by (auto simp: auto_promote_if_ready_def res_simps)
    have state: "w_standing w = Active" "w_class w = Contractor" using eligible_state [OF r True] by simp_all
    have ids: "distinct (map w_id (worker_table st))" using ok by (simp add: store_ok_def)
    have "row_fits w" using ok known by (simp add: store_ok_def)
    then have "?f w = set_state Employee Active None w" using state by (simp add: set_state_def row_fits_def)
    then have "worker_table st' = replace_row w (set_state Employee Active None w) (worker_table st)"
      using update_one(1) [OF ids known, of "\<lambda>v. w_id v = w_id w" ?f] same_id [OF ids _ known]
      by (simp add: st' bump_roster_def record_worker_event_def)
    then have "moves w ''promote'' st st'"
      using state known unfolding moves_def
      by (intro exI [of _ Employee] exI [of _ Active] exI [of _ None])
        (auto simp: st' bump_roster_def record_worker_event_def logs_def promoted_event_def target_fits_def)
    with r True show ?thesis by blast
  qed
qed

lemma outcome_moves:
  assumes "record_accepted_outcome fromiso now clock event_id configured store_disabled envelope successes disabled_agents st
      = Inr (st', rec)" and ok: "store_ok st"
  shows "st' = st \<and> \<not> rec_recorded rec
    \<or> (\<exists>p w. w \<in> set (worker_table st) \<and> p_worker p = w_id w \<and> p_key p \<notin> p_key ` set (performance st)
        \<and> rec_recorded rec \<and> (let st1 = st\<lparr>performance := performance st @ [p]\<rparr> in st' = st1 \<or> moves w ''promote'' st1 st'))"
proof -
  obtain out where out: "evaluate_acceptance envelope = Inr out"
    using assms(1) by (auto simp: record_accepted_outcome_def res_simps)
  show ?thesis
  proof (cases "outcome_accepted out")
    case False
    with assms(1) out show ?thesis by (auto simp: record_accepted_outcome_def not_recorded_def)
  next
    case True
    then obtain policy digest where commit: "commit_outcome fromiso now clock event_id policy out digest st = Inr (st', rec)"
      using assms(1) out by (auto simp: record_accepted_outcome_def res_simps)
    then obtain w where w: "worker_with (worker_table st) (outcome_worker out) = Some w"
      by (cases "worker_with (worker_table st) (outcome_worker out)") (auto simp: commit_outcome_def)
    note known = worker_with_Some [OF w]
    show ?thesis
    proof (cases "names_revision (outcome_manifest out) w \<and> find (\<lambda>p. p_key p = outcome_key out) (performance st) = None")
      case False
      with commit w show ?thesis
        by (auto simp: commit_outcome_def not_recorded_def split: if_splits option.splits)
    next
      case True
      let ?p = "new_performance event_id clock w out digest"
      let ?st = "st\<lparr>performance := performance st @ [?p]\<rparr>"
      have p: "p_worker ?p = w_id w" "p_key ?p = outcome_key out" by (simp_all add: new_performance_def)
      have fresh: "p_key ?p \<notin> p_key ` set (performance st)" using True p by (auto simp: find_None_iff)
      obtain promoted: "auto_promote_if_ready fromiso now policy w ?st = Inr st'" and "rec_recorded rec"
        using commit w True by (auto simp: commit_outcome_def res_simps Let_def)
      moreover have "p_worker ?p \<in> w_id ` set (worker_table st)" unfolding p(1) using known by blast
      then have "store_ok ?st" using append_performance [OF ok fresh] by blast
      ultimately show ?thesis
        using auto_promote_moves [of fromiso now policy w ?st st'] known fresh p
        by (intro disjI2 exI [of _ ?p] exI [of _ w]) (auto simp: Let_def)
    qed
  qed
qed


section \<open>The other recorders\<close>

text \<open>A recorder of outcomes adds at most one row, with a new key, and then may promote the worker of
  that row.\<close>

definition adds_row :: "performance_row \<Rightarrow> worker_row \<Rightarrow> workforce_store \<Rightarrow> workforce_store \<Rightarrow> bool" where
  "adds_row p w st st' = (w \<in> set (worker_table st) \<and> p_worker p = w_id w \<and> p_key p \<notin> p_key ` set (performance st)
     \<and> st' = st\<lparr>performance := performance st @ [p]\<rparr>)"

lemma adds_row_ok: "adds_row p w st st' \<Longrightarrow> store_ok st \<Longrightarrow> store_ok st' \<and> w \<in> set (worker_table st')"
  using append_performance [of st p] by (auto simp: adds_row_def)

lemma workforce_outcome_rows:
  assumes "record_workforce_outcome to_float fromiso now clock event_id configured store_disabled receipts r st = Inr (st', row)"
  obtains w policy st1 p document where "auto_promote_if_ready fromiso now policy w st1 = Inr st'" and "w \<in> set (worker_table st)"
    and "st1 = st \<or> adds_row p w st st1" and "p_refs p = PyDict (o_refs r)" and "validated_outcome_evidence (o_refs r) = Inr document"
proof -
  obtain policy identity document draft where refs: "p_refs draft = PyDict (o_refs r)"
    and evidence: "validated_outcome_evidence (o_refs r) = Inr document"
    and commit: "commit_workforce_outcome to_float fromiso now policy receipts identity document draft st = Inr (st', row)"
    using assms unfolding record_workforce_outcome_def Let_def
    by (elim bind_res_InrE) (rule that [rotated], assumption+, simp)
  obtain w where w: "select_worker (worker_table st) identity = Some w"
    using commit by (cases "select_worker (worker_table st) identity") (auto simp: commit_workforce_outcome_def)
  note known = select_worker_Some [OF w]
  from commit w obtain a b c d e where bound: "bind_outcome_activation receipts w (p_activation draft) (p_session draft) (p_trace draft)
      (p_unit draft) = Inr (a, b, c, d, e)"
    by (auto simp: commit_workforce_outcome_def res_simps)
  let ?p = "draft\<lparr>p_worker := w_id w, p_version := a, p_version_hash := b, p_session := c, p_trace := d, p_unit := e\<rparr>"
  show thesis
  proof (cases "find (\<lambda>q. p_key q = p_key ?p) (performance st)")
    case None
    let ?st = "st\<lparr>performance := performance st @ [?p]\<rparr>"
    have "auto_promote_if_ready fromiso now policy w ?st = Inr st'"
      using commit w bound None by (auto simp: commit_workforce_outcome_def res_simps Let_def)
    moreover have "adds_row ?p w st ?st" using known None by (auto simp: adds_row_def find_None_iff)
    ultimately show thesis using that [of policy w ?st ?p document] known refs evidence by simp
  next
    case (Some q)
    then have "auto_promote_if_ready fromiso now policy w st = Inr st'"
      using commit w bound by (auto simp: commit_workforce_outcome_def res_simps Let_def)
    then show thesis using that [of policy w st ?p document] known refs evidence by simp
  qed
qed

lemma native_outcome_rows:
  assumes "record_native_assignment_outcome fromiso now clock event_id configured receipts d run outcome_text st = Inr (st', i)"
  obtains "st' = st" | w p where "adds_row p w st st'" and "p_event p = ''assignment''"
  | w p st1 policy where "adds_row p w st st1" and "p_event p = ''assignment''" and "auto_promote_if_ready fromiso now policy w st1 = Inr st'"
proof (cases "d_activation d = []")
  case True
  with assms that(1) show thesis by (simp add: record_native_assignment_outcome_def)
next
  case False
  let ?receipt = "find (\<lambda>x. x_id x = d_activation d) receipts"
  obtain x where x: "?receipt = Some x"
    using assms False by (cases ?receipt) (auto simp: record_native_assignment_outcome_def)
  let ?worker = "find (\<lambda>w. w_slug w = x_slug x) (worker_table st)"
  obtain w where w: "?worker = Some w"
    using assms False x by (cases ?worker) (auto simp: record_native_assignment_outcome_def)
  have known: "w \<in> set (worker_table st)" using w by (auto simp: find_Some_iff)
  obtain document where "document_text ''evidence_refs'' (assignment_evidence d run) = Inr document"
    using assms False x w by (auto simp: record_native_assignment_outcome_def res_simps split: if_splits)
  note run = assms [unfolded record_native_assignment_outcome_def] False x w this
  let ?p = "assignment_row event_id clock d run (outcome_text = ''ok'') x w document"
  have p: "p_worker ?p = w_id w" "p_event ?p = ''assignment''" by (simp_all add: assignment_row_def Let_def)
  show thesis
  proof (cases "find (\<lambda>q. p_key q = p_key ?p) (performance st)")
    case None
    then have added: "adds_row ?p w st (st\<lparr>performance := performance st @ [?p]\<rparr>)"
      using known p by (auto simp: adds_row_def find_None_iff)
    show thesis
    proof (cases configured)
      case new: None
      then have "st' = st\<lparr>performance := performance st @ [?p]\<rparr>" using run None by (simp add: Let_def split: if_splits)
      with added p that(2) show thesis by blast
    next
      case (Some policy)
      then have "auto_promote_if_ready fromiso now policy w (st\<lparr>performance := performance st @ [?p]\<rparr>) = Inr st'"
        using run None by (auto simp: Let_def res_simps split: if_splits)
      with added p that(3) show thesis by blast
    qed
  next
    case (Some q)
    with run have "st' = st" by (auto simp: Let_def res_simps split: if_splits)
    with that(1) show thesis by blast
  qed
qed


section \<open>Recording enablement\<close>

definition annotates :: "worker_row \<Rightarrow> string \<Rightarrow> workforce_store \<Rightarrow> workforce_store \<Rightarrow> bool" where
  "annotates w a st st' = (\<exists>e. w \<in> set (worker_table st) \<and> a \<in> {''enable'', ''disable''}
     \<and> logs e w a (w_class w, w_standing w) \<and> e_sequence e = next_event_sequence (worker_events st)
     \<and> e_evidence e \<notin> e_evidence ` {d \<in> set (worker_events st). e_worker d = w_id w \<and> e_type d = a}
     \<and> st' = st\<lparr>worker_events := worker_events st @ [e]\<rparr>)"

lemma commit_annotates:
  assumes "commit_enablement identity a evidence reason_text actor surface st = Inr st'"
    and "a \<in> {''enable'', ''disable''}"
  shows "st' = st \<or> (\<exists>w a. annotates w a st st')"
proof -
  obtain w where w: "select_worker (worker_table st) identity = Some w"
    using assms(1) by (cases "select_worker (worker_table st) identity") (auto simp: commit_enablement_def)
  show ?thesis
  proof (cases "st' = st")
    case False
    with assms(1) w obtain actor_text surface_text where
      new: "evidence \<notin> e_evidence ` {e \<in> set (worker_events st). e_worker e = w_id w \<and> e_type e = a}"
      and st': "st' = record_worker_event ((transition_event w a (w_class w) (w_standing w) None
        actor_text surface_text reason_text)\<lparr>e_evidence := evidence\<rparr>) st"
      by (auto simp: commit_enablement_def res_simps list_ex_iff split: if_splits)
    then have "annotates w a st st'"
      using select_worker_Some [OF w] assms(2) unfolding annotates_def
      by (intro exI [of _ "last (worker_events st')"])
        (auto simp: record_worker_event_def transition_event_def logs_def)
    then show ?thesis by blast
  qed simp
qed

lemma enablement_annotates:
  assumes "record_workforce_enablement worker enabled_value revision reason_value actor surface st = Inr st'"
  shows "st' = st \<or> (\<exists>w a. annotates w a st st')"
proof -
  obtain on where "enabled_value = PyBool on"
    using assms by (cases enabled_value) (auto simp: record_workforce_enablement_def)
  with assms obtain identity evidence reason_text where
    "commit_enablement identity (if on then ''enable'' else ''disable'') evidence reason_text actor surface st = Inr st'"
    by (auto simp: record_workforce_enablement_def res_simps)
  then show ?thesis by (rule commit_annotates) simp
qed

lemma append_event:
  assumes "store_ok st" and "e_sequence e = next_event_sequence (worker_events st)"
    and "e_worker e \<in> w_id ` set (worker_table st)"
  shows "store_ok (st\<lparr>worker_events := worker_events st @ [e]\<rparr>)
    \<and> evolves_to st (st\<lparr>worker_events := worker_events st @ [e]\<rparr>)"
  using assms next_sequence [of "worker_events st"]
  by (simp add: store_ok_def evolves_to_def sorted_wrt_append list_all2_same)

lemma annotates_ok:
  assumes "annotates w a st st'" and ok: "store_ok st"
  shows "store_ok st' \<and> evolves_to st st'"
proof -
  obtain e where "w \<in> set (worker_table st)" "e_worker e = w_id w"
    "e_sequence e = next_event_sequence (worker_events st)" "st' = st\<lparr>worker_events := worker_events st @ [e]\<rparr>"
    using assms(1) by (auto simp: annotates_def logs_def)
  then show ?thesis using append_event [OF ok, of e] by simp
qed


section \<open>Steps of the store\<close>

text \<open>One call of a handler that returns. A call that raises leaves the store as it was.\<close>

inductive store_step :: "workforce_store \<Rightarrow> workforce_store \<Rightarrow> bool" where
  transition: "transition_workforce_worker worker action revision reason_value merged actor surface disabled st = Inr st'
    \<Longrightarrow> store_step st st'"
| outcome: "record_accepted_outcome fromiso now clock event_id configured store_disabled envelope successes disabled_agents st
    = Inr (st', rec) \<Longrightarrow> store_step st st'"
| enablement: "record_workforce_enablement worker enabled_value revision reason_value actor surface st = Inr st'
    \<Longrightarrow> store_step st st'"
| recorded: "record_workforce_outcome to_float fromiso now clock event_id configured store_disabled receipts r st = Inr (st', row)
    \<Longrightarrow> store_step st st'"
| assigned: "record_native_assignment_outcome fromiso now clock event_id policy receipts d run outcome_text st = Inr (st', i)
    \<Longrightarrow> store_step st st'"

inductive_cases store_stepE: "store_step st st'"

text \<open>What one step does to a store: the specification that the handlers refine.\<close>

inductive life_step :: "workforce_store \<Rightarrow> workforce_store \<Rightarrow> bool" where
  idle: "life_step st st"
| move: "moves w a st st' \<Longrightarrow> life_step st st'"
| annotate: "annotates w a st st' \<Longrightarrow> life_step st st'"
| accept: "p_worker p \<in> w_id ` set (worker_table st) \<Longrightarrow> p_key p \<notin> p_key ` set (performance st)
    \<Longrightarrow> life_step st (st\<lparr>performance := performance st @ [p]\<rparr>)"
| accept_promote: "p_worker p = w_id w \<Longrightarrow> p_key p \<notin> p_key ` set (performance st)
    \<Longrightarrow> moves w ''promote'' (st\<lparr>performance := performance st @ [p]\<rparr>) st' \<Longrightarrow> life_step st st'"

lemma adds_row_life: "adds_row p w st st' \<Longrightarrow> life_step st st'"
  by (auto simp: adds_row_def intro: life_step.accept)

lemma adds_row_promote:
  assumes "adds_row p w st st1" and "auto_promote_if_ready fromiso now policy w st1 = Inr st'" and "store_ok st"
  shows "life_step st st'"
proof -
  have "store_ok st1 \<and> w \<in> set (worker_table st1)" using adds_row_ok assms(1,3) by blast
  then have "st' = st1 \<or> moves w ''promote'' st1 st'" using auto_promote_moves [OF assms(2)] by blast
  with assms(1) show ?thesis by (auto simp: adds_row_def intro: life_step.accept life_step.accept_promote)
qed

lemma store_step_refines:
  assumes "store_step st st'" and ok: "store_ok st"
  shows "life_step st st'"
  using assms(1)
proof cases
  case (transition worker action revision reason_value merged actor surface disabled)
  then show ?thesis using transition_moves [OF _ ok] life_step.move by blast
next
  case (outcome fromiso now clock event_id configured store_disabled envelope successes disabled_agents rec)
  from outcome_moves [OF this ok] show ?thesis
    by (auto simp: Let_def intro: life_step.intros)
next
  case (enablement worker enabled_value revision reason_value actor surface)
  then show ?thesis using enablement_annotates life_step.idle life_step.annotate by blast
next
  case (recorded to_float fromiso now clock event_id configured store_disabled receipts r row)
  then show ?thesis
  proof (rule workforce_outcome_rows)
    fix w policy st1 p document
    assume promoted: "auto_promote_if_ready fromiso now policy w st1 = Inr st'" and known: "w \<in> set (worker_table st)"
      and "st1 = st \<or> adds_row p w st st1"
    then consider "st1 = st" | "adds_row p w st st1" by blast
    then show "life_step st st'"
    proof cases
      case 1
      then show ?thesis using auto_promote_moves [OF promoted] ok known life_step.idle life_step.move by blast
    next
      case 2
      then show ?thesis using adds_row_promote promoted ok by blast
    qed
  qed
next
  case (assigned fromiso now clock event_id policy receipts d run outcome_text i)
  then show ?thesis by (rule native_outcome_rows) (use adds_row_life adds_row_promote ok life_step.idle in blast)+
qed

lemma life_step_ok:
  assumes "life_step st st'" and ok: "store_ok st"
  shows "store_ok st' \<and> evolves_to st st'"
  using assms(1)
proof cases
  case idle
  with ok show ?thesis using evolves_to_refl by simp
next
  case (move w a)
  with ok show ?thesis using moves_ok by blast
next
  case (annotate w a)
  with ok show ?thesis using annotates_ok by blast
next
  case (accept p)
  with ok show ?thesis using append_performance by simp
next
  case (accept_promote p w)
  let ?st = "st\<lparr>performance := performance st @ [p]\<rparr>"
  have "p_worker p \<in> w_id ` set (worker_table st)" using accept_promote(1,3) by (auto simp: moves_def)
  then have "store_ok ?st \<and> evolves_to st ?st" using append_performance ok accept_promote(2) by blast
  then show ?thesis using moves_ok [OF accept_promote(3)] evolves_to_trans by blast
qed

interpretation workforce: evolving store_step store_ok evolves_to
  using store_step_refines life_step_ok evolves_to_refl evolves_to_trans
  by unfold_locales blast+


section \<open>Consequences\<close>

lemma evolves_to_worker:
  assumes "evolves_to st st'" and "w \<in> set (worker_table st)"
  shows "\<exists>v\<in>set (worker_table st'). later_row w v"
  using assms by (fastforce simp: evolves_to_def list_all2_conv_all_nth in_set_conv_nth)

lemma evolves_to_worker_with:
  assumes "evolves_to st st'" and "store_ok st" and "store_ok st'" and "worker_with (worker_table st) i = Some w"
  shows "\<exists>v. worker_with (worker_table st') i = Some v \<and> later_row w v"
proof -
  have w: "w \<in> set (worker_table st)" "w_id w = i" using worker_with_Some [OF assms(4)] by simp_all
  then obtain v where v: "v \<in> set (worker_table st')" "later_row w v" using evolves_to_worker [OF assms(1)] by blast
  then have "w_id v = i" using later_row_ids w(2) by blast
  then show ?thesis using worker_with_known [OF _ v(1)] assms(3) v(2) by (auto simp: store_ok_def)
qed

lemma find_key:
  assumes "distinct (map p_key ps)" and "p \<in> set ps"
  shows "find (\<lambda>q. p_key q = p_key p) ps = Some p"
  using assms
proof (induction ps)
  case (Cons q ps)
  then show ?case by (cases "q = p") auto
qed simp


section \<open>When a worker can change\<close>

text \<open>In a well-formed store the walk over the merges ends at once: a merge target is active, and
  an active worker was not merged. Its cycle check never fires.\<close>

lemma no_cycle_walk:
  assumes "store_ok st" and "worker_with (worker_table st) t = Some v" and "w_standing v = Active" and "t \<noteq> i"
  shows "merge_walk (worker_table st) {i} t = Inr ()"
proof -
  have "row_fits v" using assms(1) worker_with_Some [OF assms(2)] by (simp add: store_ok_def)
  then have "w_merged v = None" using assms(3) by (simp add: row_fits_def)
  then show ?thesis using merge_walk_active [OF assms(2) _ assms(4)] by simp
qed

text \<open>When the state of a worker can change\<close>

definition merge_ready :: "worker_row list \<Rightarrow> worker_row \<Rightarrow> string option \<Rightarrow> bool" where
  "merge_ready ws w target = (\<exists>i v. target = Some i \<and> i \<noteq> w_id w \<and> worker_with ws i = Some v \<and> w_standing v = Active)"

lemma step_possible:
  "(\<exists>x. employment_step (c, s) a x) \<longleftrightarrow> a \<in> set worker_actions \<and> s \<in> {Active, Suspended}
     \<and> (a = ''promote'' \<longrightarrow> c = Contractor \<and> s = Active) \<and> (a = ''suspend'' \<longrightarrow> s = Active) \<and> (a = ''resume'' \<longrightarrow> s = Suspended)"
  (is "?l \<longleftrightarrow> ?r")
proof
  show "?l \<Longrightarrow> ?r" by (auto simp: worker_actions_def elim!: employment_step.cases)
next
  assume possible: ?r
  then have "a \<in> set worker_actions" by blast
  then show ?l
  proof (cases rule: worker_action_cases)
    case 1
    with possible have "c = Contractor" "s = Active" by simp_all
    with 1 employment_step.promote show ?thesis by blast
  next
    case 2
    with possible have "s = Active" by simp
    with 2 employment_step.suspend show ?thesis by blast
  next
    case 3
    with possible have "s = Suspended" by simp
    with 3 employment_step.resume show ?thesis by blast
  next
    case 4
    with possible employment_step.retire show ?thesis by blast
  next
    case 5
    with possible employment_step.merge show ?thesis by blast
  qed
qed

lemma transition_state_possible:
  assumes ok: "store_ok st" and a: "a \<in> set worker_actions"
  shows "(\<exists>x. transition_state (worker_table st) w a target = Inr x) \<longleftrightarrow>
    (\<exists>x. employment_step (w_class w, w_standing w) a x) \<and> (a = ''merge'' \<longrightarrow> merge_ready (worker_table st) w target)"
proof (cases "a = ''merge''")
  case True
  have "\<And>i v. worker_with (worker_table st) i = Some v \<Longrightarrow> w_standing v = Active \<Longrightarrow> i \<noteq> w_id w \<Longrightarrow>
      merge_walk (worker_table st) {w_id w} i = Inr ()"
    using no_cycle_walk [OF ok] by blast
  then show ?thesis
    unfolding step_possible merge_ready_def
    using True a by (cases "w_standing w") (auto simp: transition_state_def split: option.splits)
next
  case False
  then have "a \<in> {''promote'', ''suspend'', ''resume'', ''retire''}" using a by (auto simp: worker_actions_def)
  then show ?thesis
    unfolding step_possible by (cases "w_standing w") (auto simp: transition_state_def worker_actions_def)
qed

lemma merge_target_Inr_iff: "merge_target ws disabled identity = Inr target \<longleftrightarrow>
  (case identity of None \<Rightarrow> target = None
   | Some v \<Rightarrow> \<exists>t. select_worker ws v = Some t \<and> w_slug t \<notin> set disabled \<and> target = Some (w_id t))"
  by (auto simp: merge_target_def split: option.splits)

text \<open>The checks of a transition that do not depend on the worker's state\<close>

definition request_allowed :: "worker_row list \<Rightarrow> worker_row \<Rightarrow> string \<Rightarrow> string option \<Rightarrow> string list \<Rightarrow> pyval \<Rightarrow> pyval \<Rightarrow> bool" where
  "request_allowed ws w a target_identity disabled actor surface =
     ((a = ''promote'' \<longrightarrow> w_slug w \<notin> set disabled)
      \<and> (case target_identity of None \<Rightarrow> a \<noteq> ''merge''
         | Some v \<Rightarrow> \<exists>t. select_worker ws v = Some t \<and> w_slug t \<notin> set disabled
             \<and> (a = ''merge'' \<longrightarrow> t \<noteq> w \<and> w_standing t = Active))
      \<and> (\<exists>x. bounded_text ''actor'' 128 actor = Inr x) \<and> (\<exists>x. bounded_text ''surface'' 64 surface = Inr x))"

lemma commit_transition_possible:
  assumes ok: "store_ok st" and w: "select_worker (worker_table st) identity = Some w" and a: "a \<in> set worker_actions"
  shows "(\<exists>st'. commit_transition identity a expected reason_text target_identity actor surface disabled st = Inr st')
    \<longleftrightarrow> w_revision w = expected \<and> (\<exists>x. employment_step (w_class w, w_standing w) a x)
      \<and> request_allowed (worker_table st) w a target_identity disabled actor surface"
proof -
  let ?ws = "worker_table st"
  have known: "w \<in> set ?ws" and ids: "distinct (map w_id ?ws)"
    using ok select_worker_Some [OF w] by (simp_all add: store_ok_def)
  have one: "w_revision w = expected \<Longrightarrow> length (filter (\<lambda>v. w_id v = w_id w \<and> w_revision v = expected) ?ws) = 1"
    using update_one(2) [OF ids known, of "\<lambda>v. w_id v = w_id w \<and> w_revision v = expected"] same_id [OF ids _ known] by blast
  have selected: "select_worker ?ws v = Some t \<Longrightarrow> worker_with ?ws (w_id t) = Some t \<and> (w_id t = w_id w \<longleftrightarrow> t = w)" for v t
    using same_id [OF ids _ known] worker_with_known [OF ids] select_worker_Some by blast
  have target: "(\<exists>target. merge_target ?ws disabled target_identity = Inr target \<and> (a = ''merge'' \<longrightarrow> merge_ready ?ws w target))
      \<longleftrightarrow> (case target_identity of None \<Rightarrow> a \<noteq> ''merge''
         | Some v \<Rightarrow> \<exists>t. select_worker ?ws v = Some t \<and> w_slug t \<notin> set disabled
             \<and> (a = ''merge'' \<longrightarrow> t \<noteq> w \<and> w_standing t = Active))"
    by (cases target_identity) (auto simp: merge_target_Inr_iff merge_ready_def selected)
  have "(\<exists>st'. commit_transition identity a expected reason_text target_identity actor surface disabled st = Inr st')
    \<longleftrightarrow> w_revision w = expected \<and> (a = ''promote'' \<longrightarrow> w_slug w \<notin> set disabled)
      \<and> (\<exists>target. merge_target ?ws disabled target_identity = Inr target
          \<and> (\<exists>x. transition_state ?ws w a target = Inr x))
      \<and> (\<exists>x. bounded_text ''actor'' 128 actor = Inr x) \<and> (\<exists>x. bounded_text ''surface'' 64 surface = Inr x)"
    using w one by (auto simp: commit_transition_def res_simps Let_def split: prod.splits)
  then show ?thesis
    unfolding request_allowed_def transition_state_possible [OF ok a] using target by blast
qed

end
