(* ===== verification/Workforce_Outcomes.thy ===== *)
theory Workforce_Outcomes
  imports Workforce_Machine Promotion_Properties
begin

text \<open>
  Recording accepted outcomes: what one recording changes, its replay in any later store, when it
  promotes the contractor, and that nothing else is ever counted. These lemmas join the acceptance
  rule, the promotion rule and the store.
\<close>

section \<open>One recording\<close>

lemma new_performance_fields [simp]:
  "p_id (new_performance event_id clock w out digest) = event_id"
  "p_key (new_performance event_id clock w out digest) = outcome_key out"
  "p_worker (new_performance event_id clock w out digest) = w_id w"
  "p_evidence_hash (new_performance event_id clock w out digest) = digest"
  by (simp_all add: new_performance_def)

lemma fresh_key: "find (\<lambda>p. p_key p = k) ps = None \<longleftrightarrow> k \<notin> p_key ` set ps"
  by (auto simp: find_None_iff)

lemma recorded_rows:
  assumes "record_accepted_outcome fromiso now clock event_id configured store_disabled envelope successes disabled_agents st
      = Inr (st', r)" and "rec_recorded r"
  obtains out policy document w where "evaluate_acceptance envelope = Inr out" and "outcome_accepted out"
    and "document_text ''evidence_refs'' (outcome_manifest out) = Inr document"
    and "outcome_promotion_policy configured store_disabled successes disabled_agents = Inr policy"
    and "worker_with (worker_table st) (outcome_worker out) = Some w" and "names_revision (outcome_manifest out) w"
    and "find (\<lambda>p. p_key p = outcome_key out) (performance st) = None"
    and "auto_promote_if_ready fromiso now policy w (st\<lparr>performance := performance st
      @ [new_performance event_id clock w out (document_hash document)]\<rparr>) = Inr st'"
    and "r = \<lparr>rec_recorded = True, rec_promoted = (case worker_with (worker_table st') (w_id w) of None \<Rightarrow> False
        | Some v \<Rightarrow> w_class v = Employee \<and> w_class w \<noteq> Employee), rec_reason = ''accepted'',
      rec_event_id = event_id, rec_worker = w_id w, rec_key = outcome_key out, rec_artifact = outcome_artifact out\<rparr>"
proof -
  have accepted: "evaluate_acceptance envelope = Inr out \<Longrightarrow> outcome_accepted out" for out
    using assms by (cases "outcome_accepted out") (auto simp: record_accepted_outcome_def not_recorded_def)
  then obtain out document policy where out: "evaluate_acceptance envelope = Inr out"
      "document_text ''evidence_refs'' (outcome_manifest out) = Inr document"
      "outcome_promotion_policy configured store_disabled successes disabled_agents = Inr policy"
    and commit: "commit_outcome fromiso now clock event_id policy out (document_hash document) st = Inr (st', r)"
    using assms(1) by (auto simp: record_accepted_outcome_def res_simps split: if_splits)
  obtain w where w: "worker_with (worker_table st) (outcome_worker out) = Some w"
    using commit by (cases "worker_with (worker_table st) (outcome_worker out)") (auto simp: commit_outcome_def)
  have named: "names_revision (outcome_manifest out) w"
    using commit w assms(2) by (auto simp: commit_outcome_def not_recorded_def split: if_splits)
  have fresh: "find (\<lambda>p. p_key p = outcome_key out) (performance st) = None"
    using commit w assms(2) named by (auto simp: commit_outcome_def split: if_splits option.splits)
  show thesis
    using commit w named fresh
    by (intro that [OF out(1) accepted [OF out(1)] out(2,3) w named fresh])
      (auto simp: commit_outcome_def res_simps Let_def)
qed

text \<open>A recording appends its row and leaves the other rows alone.\<close>

lemma recorded_performance:
  assumes "record_accepted_outcome fromiso now clock event_id configured store_disabled envelope successes disabled_agents st
      = Inr (st', r)" and "rec_recorded r" and ok: "store_ok st"
  obtains out document w where "evaluate_acceptance envelope = Inr out" and "outcome_accepted out"
    and "document_text ''evidence_refs'' (outcome_manifest out) = Inr document"
    and "worker_with (worker_table st) (outcome_worker out) = Some w" and "names_revision (outcome_manifest out) w"
    and "performance st' = performance st @ [new_performance event_id clock w out (document_hash document)]"
    and "rec_event_id r = event_id" and "rec_worker r = w_id w" and "rec_key r = outcome_key out"
    and "rec_artifact r = outcome_artifact out"
proof -
  obtain out policy document w where out: "evaluate_acceptance envelope = Inr out" "outcome_accepted out"
      "document_text ''evidence_refs'' (outcome_manifest out) = Inr document"
      "outcome_promotion_policy configured store_disabled successes disabled_agents = Inr policy"
    and w: "worker_with (worker_table st) (outcome_worker out) = Some w" "names_revision (outcome_manifest out) w"
    and fresh: "find (\<lambda>p. p_key p = outcome_key out) (performance st) = None"
    and promoted: "auto_promote_if_ready fromiso now policy w (st\<lparr>performance := performance st
      @ [new_performance event_id clock w out (document_hash document)]\<rparr>) = Inr st'"
    and r: "rec_event_id r = event_id" "rec_worker r = w_id w" "rec_key r = outcome_key out"
      "rec_artifact r = outcome_artifact out"
    by (rule recorded_rows [OF assms(1,2)]) simp
  let ?st = "st\<lparr>performance := performance st @ [new_performance event_id clock w out (document_hash document)]\<rparr>"
  have known: "w \<in> set (worker_table st)" using worker_with_Some [OF w(1)] by simp
  have "store_ok ?st"
    using append_performance [OF ok, of "new_performance event_id clock w out (document_hash document)"] fresh known
    by (simp add: fresh_key)
  then have "performance st' = performance ?st"
    using auto_promote_moves [OF promoted] known by (auto simp: moves_def)
  then show thesis using that [OF out(1-3) w _ r] by simp
qed


section \<open>Replay\<close>

lemma later_find_key:
  assumes "distinct (map p_key ps')" and "prefix ps ps'" and "p \<in> set ps"
  shows "find (\<lambda>q. p_key q = p_key p) ps' = Some p"
  using assms find_key set_mono_prefix by blast

lemma names_revision_later: "later_row w v \<Longrightarrow> names_revision manifest v = names_revision manifest w"
  using later_row_ids [of w v] by (simp add: names_revision_def)

lemma replay_in_later_store:
  assumes recorded: "record_accepted_outcome fromiso now clock event_id configured store_disabled envelope successes
      disabled_agents st = Inr (st1, r)" "rec_recorded r"
    and ok: "store_ok st" "store_ok st1" "store_ok st2" and later: "evolves_to st st1" "evolves_to st1 st2"
  shows "record_accepted_outcome fromiso' now' clock' event_id' configured' store_disabled' envelope PyNone
    disabled_agents' st2 = Inr (st2, r\<lparr>rec_recorded := False, rec_promoted := False, rec_reason := ''replayed''\<rparr>)"
proof -
  obtain out document w where out: "evaluate_acceptance envelope = Inr out" "outcome_accepted out"
      "document_text ''evidence_refs'' (outcome_manifest out) = Inr document"
    and w: "worker_with (worker_table st) (outcome_worker out) = Some w" "names_revision (outcome_manifest out) w"
    and rows: "performance st1 = performance st @ [new_performance event_id clock w out (document_hash document)]"
    and r: "rec_event_id r = event_id" "rec_worker r = w_id w" "rec_key r = outcome_key out"
      "rec_artifact r = outcome_artifact out"
    by (rule recorded_performance [OF recorded ok(1)])
  let ?p = "new_performance event_id clock w out (document_hash document)"
  obtain v where v: "worker_with (worker_table st2) (outcome_worker out) = Some v" "later_row w v"
    using evolves_to_worker_with [OF evolves_to_trans [OF later] ok(1,3) w(1)] by blast
  have "prefix (performance st1) (performance st2)" using later(2) by (simp add: evolves_to_def)
  then have "find (\<lambda>p. p_key p = outcome_key out) (performance st2) = Some ?p"
    using later_find_key [of "performance st2" "performance st1" ?p] ok(3) rows by (simp add: store_ok_def)
  then have "commit_outcome fromiso' now' clock' event_id' policy out (document_hash document) st2
      = Inr (st2, r\<lparr>rec_recorded := False, rec_promoted := False, rec_reason := ''replayed''\<rparr>)" for policy
    using v w(2) r names_revision_later [OF v(2)] later_row_ids [OF v(2)]
    by (cases r) (simp add: commit_outcome_def)
  then show ?thesis
    using out by (simp add: record_accepted_outcome_def outcome_promotion_policy_def)
qed


section \<open>Automatic promotion\<close>

lemma counted_performance:
  "counted (performance_item (new_performance event_id clock w out digest)) = counted (outcome_row_of out)"
proof -
  have "casefold ''acceptance'' = ''acceptance''" "casefold ''accepted'' = ''accepted''" by code_simp+
  then show ?thesis
    by (simp add: counted_def performance_item_def outcome_row_of_def new_performance_def py_get_def)
qed

lemma worker_items_append:
  "p_worker p = i \<Longrightarrow> worker_items (st\<lparr>performance := performance st @ [p]\<rparr>) i = worker_items st i @ [performance_item p]"
  by (simp add: worker_items_def)

lemma proven_artifacts_recorded:
  assumes "evaluate_acceptance envelope = Inr out" and "outcome_accepted out"
  shows "proven_artifacts (worker_items (st\<lparr>performance := performance st
      @ [new_performance event_id clock w out digest]\<rparr>) (w_id w))
    = insert (outcome_artifact out) (proven_artifacts (worker_items st (w_id w)))"
proof -
  have "proven_artifacts (rows @ [performance_item (new_performance event_id clock w out digest)])
      = proven_artifacts (performance_item (new_performance event_id clock w out digest) # rows)" for rows
    by (simp add: proven_artifacts_def)
  then have "proven_artifacts (rows @ [performance_item (new_performance event_id clock w out digest)])
      = proven_artifacts (outcome_row_of out # rows)" for rows
    by (simp only: proven_artifacts_Cons counted_performance)
  then show ?thesis
    using proven_artifacts_accepted [OF assms] by (simp add: worker_items_append)
qed

lemma state_text:
  "casefold (promotion_state disabled w) = promotion_state disabled w" "promotion_state disabled w \<noteq> []"
proof -
  have "casefold ''contractor'' = ''contractor''" "casefold ''disabled'' = ''disabled''"
    "casefold ''employee'' = ''employee''" "casefold ''suspended'' = ''suspended''"
    "casefold ''retired'' = ''retired''" "casefold ''merged'' = ''merged''"
    by code_simp+
  then show "casefold (promotion_state disabled w) = promotion_state disabled w" "promotion_state disabled w \<noteq> []"
    by (cases "w_class w"; cases "w_standing w"; simp add: promotion_state_def)+
qed

lemma worker_fields:
  "py_get [(''worker_id'', a), (''state'', b), (''created_at'', c)] ''state'' = b"
  "py_get [(''worker_id'', a), (''state'', b), (''created_at'', c)] ''created_at'' = c"
  by (simp_all add: py_get_def)

lemma readiness_eligible:
  assumes "worker_readiness fromiso now policy w st = Inr r"
  shows "auto_eligible r \<longleftrightarrow> promotion_state (policy_disabled policy) w = ''contractor'' \<and> 0 < policy_successes policy
     \<and> policy_successes policy \<le> int (card (proven_artifacts (worker_items st (w_id w))))
     \<and> \<not> window_open (parse_created_at fromiso (PyStr (w_created w))) (policy_review_days policy) now"
proof -
  have "str_or_empty (PyStr (promotion_state (policy_disabled policy) w)) = promotion_state (policy_disabled policy) w"
    using state_text(2) by (simp add: str_or_empty_def)
  with assms show ?thesis
    unfolding worker_readiness_def promotion_readiness_Inr_iff within_review_window_Inr_iff Let_def worker_fields
    by (auto simp: state_text(1) proven_artifacts_card)
qed

lemma contractor_state: "promotion_state disabled w = ''contractor''
    \<longleftrightarrow> w_class w = Contractor \<and> w_standing w = Active \<and> w_slug w \<notin> set disabled"
  by (cases "w_class w"; cases "w_standing w") (auto simp: promotion_state_def)

lemma worker_with_replace:
  assumes "distinct (map w_id ws)" and "w \<in> set ws" and "w_id w' = w_id w"
  shows "worker_with (replace_row w w' ws) (w_id w) = Some w'"
proof -
  have "w' \<in> set (replace_row w w' ws)" using assms(2) by (auto simp: replace_row_def)
  moreover have "distinct (map w_id (replace_row w w' ws))" unfolding replace_row_ids(1) [OF assms(3)] by (rule assms(1))
  ultimately show ?thesis using worker_with_known assms(3) by fastforce
qed

lemma moves_promote:
  assumes "moves w ''promote'' st st'" and "store_ok st"
  shows "\<exists>v. worker_with (worker_table st') (w_id w) = Some v \<and> w_class v = Employee \<and> w_standing v = w_standing w"
proof -
  obtain c s t where "w \<in> set (worker_table st)" and step: "employment_step (w_class w, w_standing w) ''promote'' (c, s)"
    and "worker_table st' = replace_row w (set_state c s t w) (worker_table st)"
    using assms(1) unfolding moves_def by blast
  moreover have "c = Employee \<and> s = w_standing w" using step by (rule promote_stepE) simp
  ultimately show ?thesis using worker_with_replace [of "worker_table st" w "set_state c s t w"] assms(2)
    by (simp add: store_ok_def)
qed

lemma recorded_promotion:
  assumes recorded: "record_accepted_outcome fromiso now clock event_id configured store_disabled envelope successes
      disabled_agents st = Inr (st', r)" "rec_recorded r" and ok: "store_ok st"
    and policy: "outcome_promotion_policy configured store_disabled successes disabled_agents = Inr policy"
    and w: "worker_with (worker_table st) (rec_worker r) = Some w"
  shows "(rec_promoted r \<longleftrightarrow> w_class w = Contractor \<and> w_standing w = Active \<and> w_slug w \<notin> set (policy_disabled policy)
      \<and> 0 < policy_successes policy
      \<and> policy_successes policy \<le> int (card (insert (rec_artifact r) (proven_artifacts (worker_items st (w_id w)))))
      \<and> \<not> window_open (parse_created_at fromiso (PyStr (w_created w))) (policy_review_days policy) now)
    \<and> (\<exists>v. worker_with (worker_table st') (rec_worker r) = Some v
      \<and> w_class v = (if rec_promoted r then Employee else w_class w) \<and> w_standing v = w_standing w)"
proof -
  obtain out document v where out: "evaluate_acceptance envelope = Inr out" "outcome_accepted out"
    and v: "worker_with (worker_table st) (outcome_worker out) = Some v"
    and fresh: "find (\<lambda>p. p_key p = outcome_key out) (performance st) = None"
    and promoted: "auto_promote_if_ready fromiso now policy v (st\<lparr>performance := performance st
      @ [new_performance event_id clock v out (document_hash document)]\<rparr>) = Inr st'"
    and r: "r = \<lparr>rec_recorded = True, rec_promoted = (case worker_with (worker_table st') (w_id v) of None \<Rightarrow> False
        | Some u \<Rightarrow> w_class u = Employee \<and> w_class v \<noteq> Employee), rec_reason = ''accepted'',
      rec_event_id = event_id, rec_worker = w_id v, rec_key = outcome_key out, rec_artifact = outcome_artifact out\<rparr>"
    by (rule recorded_rows [OF recorded]) (use policy in simp)
  have vw: "v = w" using v w worker_with_Some [OF v] by (simp add: r)
  note known = worker_with_Some [OF w]
  let ?st = "st\<lparr>performance := performance st @ [new_performance event_id clock w out (document_hash document)]\<rparr>"
  have ok': "store_ok ?st"
    using append_performance [OF ok, of "new_performance event_id clock w out (document_hash document)"] fresh
      imageI [of w "set (worker_table st)" w_id] known
    by (simp add: fresh_key)
  have proven: "proven_artifacts (worker_items ?st (w_id w))
      = insert (rec_artifact r) (proven_artifacts (worker_items st (w_id w)))"
    using proven_artifacts_recorded [OF out] by (simp add: r)
  have worker: "rec_worker r = w_id w" by (simp add: r vw)
  from auto_promote_moves [OF promoted [unfolded vw] ok'] known
  consider (stays) ready where "st' = ?st" "worker_readiness fromiso now policy w ?st = Inr ready" "\<not> auto_eligible ready"
    | (moves) ready where "moves w ''promote'' ?st st'" "worker_readiness fromiso now policy w ?st = Inr ready" "auto_eligible ready"
    by auto
  then show ?thesis
  proof cases
    case stays
    then have "worker_with (worker_table st') (w_id w) = Some w" using w worker by simp
    moreover from this have "\<not> rec_promoted r" by (auto simp: r vw)
    ultimately show ?thesis
      using readiness_eligible [OF stays(2)] stays(3) unfolding proven contractor_state worker by auto
  next
    case moves
    obtain u where u: "worker_with (worker_table st') (w_id w) = Some u" "w_class u = Employee" "w_standing u = w_standing w"
      using moves_promote [OF moves(1) ok'] by blast
    have eligible: "w_class w = Contractor \<and> w_standing w = Active \<and> w_slug w \<notin> set (policy_disabled policy)
      \<and> 0 < policy_successes policy
      \<and> policy_successes policy \<le> int (card (insert (rec_artifact r) (proven_artifacts (worker_items st (w_id w)))))
      \<and> \<not> window_open (parse_created_at fromiso (PyStr (w_created w))) (policy_review_days policy) now"
      using readiness_eligible [OF moves(2)] moves(3) unfolding proven contractor_state by blast
    then have "rec_promoted r" using u by (simp add: r vw)
    with eligible u show ?thesis unfolding worker by simp
  qed
qed


section \<open>Only accepted outcomes count\<close>

text \<open>The row was made by the acceptance rule.\<close>

definition by_the_rule :: "performance_row \<Rightarrow> bool" where
  "by_the_rule p = (\<exists>envelope out. evaluate_acceptance envelope = Inr out \<and> outcome_accepted out
     \<and> p_worker p = outcome_worker out \<and> p_key p = outcome_key out \<and> p_refs p = PyDict (outcome_manifest out))"

lemma free_evidence_not_counted:
  assumes "validated_outcome_evidence refs = Inr document" and "p_refs p = PyDict refs"
  shows "counted (performance_item p) = None"
proof -
  have "''acceptance_validated'' \<notin> fst ` set refs"
    using assms(1) by (auto simp: validated_outcome_evidence_def res_simps acceptance_schema_keys_def)
  then have "py_get refs ''acceptance_validated'' = PyNone"
    by (simp add: py_get_def map_of_eq_None_iff [THEN iffD2])
  then have "accepted_outcome_manifest (PyDict refs) = None" by (simp add: accepted_outcome_manifest_def)
  then show ?thesis by (simp add: counted_def performance_item_def py_get_def assms(2))
qed

lemma assignment_not_counted: "p_event p = ''assignment'' \<Longrightarrow> counted (performance_item p) = None"
proof -
  have "casefold ''assignment'' \<noteq> ''acceptance''" by code_simp
  then show "p_event p = ''assignment'' \<Longrightarrow> counted (performance_item p) = None"
    by (simp add: counted_def performance_item_def py_get_def)
qed

lemma promotion_keeps_rows:
  assumes "auto_promote_if_ready fromiso now policy w st = Inr st'" and "store_ok st" and "w \<in> set (worker_table st)"
  shows "performance st' = performance st"
  using auto_promote_moves [OF assms] by (auto simp: moves_def)

lemma step_rows:
  assumes "store_step st st'" and ok: "store_ok st" and p: "p \<in> set (performance st')" "counted (performance_item p) \<noteq> None"
  shows "p \<in> set (performance st) \<or> by_the_rule p"
  using assms(1)
proof cases
  case (transition worker action revision reason_value merged actor surface disabled)
  then show ?thesis using transition_moves [OF _ ok] p(1) by (fastforce simp: moves_def)
next
  case (outcome fromiso now clock event_id configured store_disabled envelope successes disabled_agents r)
  show ?thesis
  proof (cases "rec_recorded r")
    case True
    from recorded_performance [OF outcome True ok] obtain out document w where out: "evaluate_acceptance envelope = Inr out"
        "outcome_accepted out" and w: "worker_with (worker_table st) (outcome_worker out) = Some w"
      and rows: "performance st' = performance st @ [new_performance event_id clock w out (document_hash document)]"
      by metis
    have "by_the_rule (new_performance event_id clock w out (document_hash document))"
      using out worker_with_Some [OF w] unfolding by_the_rule_def
      by (intro exI [of _ envelope] exI [of _ out]) (simp add: new_performance_def)
    with rows p(1) show ?thesis by auto
  next
    case False
    then have "st' = st" using outcome_moves [OF outcome ok] by blast
    with p(1) show ?thesis by simp
  qed
next
  case (enablement worker enabled_value revision reason_value actor surface)
  then show ?thesis using enablement_annotates p(1) by (fastforce simp: annotates_def)
next
  case (recorded to_float fromiso now clock event_id configured store_disabled receipts r row)
  then show ?thesis
  proof (rule workforce_outcome_rows)
    fix w policy st1 q document
    assume promoted: "auto_promote_if_ready fromiso now policy w st1 = Inr st'" and w: "w \<in> set (worker_table st)"
      and st1: "st1 = st \<or> adds_row q w st st1" and q: "p_refs q = PyDict (o_refs r)" "validated_outcome_evidence (o_refs r) = Inr document"
    have "store_ok st1 \<and> w \<in> set (worker_table st1)" using st1 adds_row_ok ok w by blast
    then have "performance st' = performance st1" using promotion_keeps_rows [OF promoted] by blast
    then show "p \<in> set (performance st) \<or> by_the_rule p"
      using st1 p free_evidence_not_counted [OF q(2,1)] by (auto simp: adds_row_def)
  qed
next
  case (assigned fromiso now clock event_id policy receipts d run outcome_text i)
  then show ?thesis
  proof (rule native_outcome_rows)
    fix w q assume "adds_row q w st st'" "p_event q = ''assignment''"
    then show "p \<in> set (performance st) \<or> by_the_rule p" using p assignment_not_counted [of q] by (auto simp: adds_row_def)
  next
    fix w q st1 policy
    assume q: "adds_row q w st st1" "p_event q = ''assignment''" and promoted: "auto_promote_if_ready fromiso now policy w st1 = Inr st'"
    then have "performance st' = performance st1" using promotion_keeps_rows [OF promoted] adds_row_ok [OF q(1) ok] by blast
    then show "p \<in> set (performance st) \<or> by_the_rule p" using q p assignment_not_counted [of q] by (auto simp: adds_row_def)
  qed (use p in simp)
qed

lemma counted_by_the_rule:
  assumes "store_step\<^sup>*\<^sup>* st st'" and "store_ok st" and "p \<in> set (performance st')" and "counted (performance_item p) \<noteq> None"
  shows "p \<in> set (performance st) \<or> by_the_rule p"
  using assms(1,3)
proof (induction rule: rtranclp_induct)
  case (step t u)
  have "store_ok t" using workforce.reachable [OF step(1) assms(2)] by simp
  then show ?case using step_rows [OF step(2) _ step(4) assms(4)] step(3) by blast
qed simp

end
