(* ===== verification/Workforce_Properties.thy ===== *)
theory Workforce_Properties
  imports Workforce_Outcomes Evidence_Size
begin

text \<open>
  The properties of the workforce store, and the concrete store on which they are applied: the
  builder, a contractor whose accepted envelope is recorded, and the planner, an employee.
\<close>

section \<open>A concrete store\<close>

definition builder_row :: worker_row where
  "builder_row = \<lparr>w_id = ''worker-1'', w_slug = ''builder'', w_name = ''Builder'', w_origin = ''agency'',
     w_class = Contractor, w_standing = Active, w_version_id = ''version-1'', w_version = ''1'',
     w_hash = builder_hash, w_merged = None, w_revision = 0, w_created = ''t0''\<rparr>"

definition planner_row :: worker_row where
  "planner_row = builder_row\<lparr>w_id := ''worker-2'', w_slug := ''planner'', w_name := ''Planner'',
     w_class := Employee, w_version_id := ''version-2''\<rparr>"

definition small_store :: workforce_store where
  "small_store = \<lparr>worker_table = [builder_row, planner_row], worker_events = [], performance = [], roster_counter = 0\<rparr>"

definition one_success :: promotion_policy where
  "one_success = \<lparr>policy_successes = 1, policy_disabled = [], policy_review_days = 0\<rparr>"

definition accepted_envelope :: pyval where
  "accepted_envelope = PyDict (envelope_with reviewer_cards)"

definition accepted_now :: acceptance_outcome where
  "accepted_now = accepted_outcome (envelope_with reviewer_cards) example_producer (example_verifier reviewer_cards)
     (''builder'', ''1'', builder_hash) example_identity"

lemma small_store_ok: "store_ok small_store"
proof -
  have "merges (worker_table small_store) = {}"
    by (auto simp: merges_def small_store_def builder_row_def planner_row_def)
  then show ?thesis
    by (simp add: store_ok_def small_store_def builder_row_def planner_row_def row_fits_def acyclic_def)
qed

text \<open>Recording the envelope in the small store promotes the builder.\<close>

definition example_recording :: "workforce_store \<times> recording \<Rightarrow> bool" where
  "example_recording result = (record_accepted_outcome (\<lambda>_. None) start_of_time ''t1'' ''event-1'' one_success []
     accepted_envelope PyNone None small_store = Inr result)"

lemma accepted_now_fields:
  "outcome_accepted accepted_now" "outcome_worker accepted_now = ''worker-1''"
  "py_get (outcome_manifest accepted_now) ''contractor_specialist_slug'' = PyStr ''builder''"
  "py_get (outcome_manifest accepted_now) ''contractor_specialist_version'' = PyStr ''1''"
  "py_get (outcome_manifest accepted_now) ''contractor_prompt_hash'' = PyStr builder_hash"
  "outcome_artifact accepted_now = artifact_a"
proof -
  have "identity_text (PyStr ''worker-1'') = ''worker-1''" by code_simp
  then show "outcome_worker accepted_now = ''worker-1''"
    by (simp add: accepted_now_def accepted_outcome_def Let_def envelope_fields)
qed (simp_all add: accepted_now_def accepted_outcome_def Let_def identity_manifest_def py_get_def example_identity_def)

lemma accepted_evaluates: "evaluate_acceptance accepted_envelope = Inr accepted_now"
  using reviewer_accepted by (simp add: accepted_envelope_def accepted_now_def)

lemma builder_named: "names_revision (outcome_manifest accepted_now) builder_row"
proof -
  have "content_digest_identity builder_hash = Some builder_hash" by code_simp
  then show ?thesis by (simp add: names_revision_def accepted_now_fields builder_row_def)
qed

definition promoting_readiness :: readiness where
  "promoting_readiness = \<lparr>ready_state = ''contractor'', human_promotion = True, policy_enabled = True,
     auto_eligible = True, in_window = False, required_successes = 1, verified_successes = 1,
     remaining_successes = 0, verified_artifacts = [artifact_a],
     readiness_reasons = promotion_reasons True 1 1 False 0 True\<rparr>"

lemma singleton_list: "set xs = {a} \<Longrightarrow> distinct xs \<Longrightarrow> xs = [a]"
  by (cases xs; cases "tl xs") auto

lemma example_readiness:
  assumes "worker_items st ''worker-1'' = []"
  shows "worker_readiness (\<lambda>_. None) start_of_time one_success builder_row (st\<lparr>performance := performance st
    @ [new_performance event_id clock builder_row accepted_now digest]\<rparr>) = Inr promoting_readiness"
proof -
  let ?st = "st\<lparr>performance := performance st @ [new_performance event_id clock builder_row accepted_now digest]\<rparr>"
  have "proven_artifacts (worker_items ?st (w_id builder_row)) = {artifact_a}"
    using proven_artifacts_recorded [OF accepted_evaluates accepted_now_fields(1), of st event_id clock builder_row digest]
      assms accepted_now_fields(6) by (simp add: builder_row_def proven_artifacts_def)
  then have "set (accepted_artifacts (worker_items ?st (w_id builder_row))) = {artifact_a}"
    by (simp add: set_accepted_artifacts proven_artifacts_def)
  then have one: "accepted_artifacts (worker_items ?st (w_id builder_row)) = [artifact_a]"
    using accepted_artifacts_distinct(1) [of "worker_items ?st (w_id builder_row)"]
    by (rule singleton_list)
  have state: "casefold ''contractor'' = ''contractor''" by code_simp
  show ?thesis
    unfolding worker_readiness_def promotion_readiness_Inr_iff within_review_window_Inr_iff Let_def worker_fields one
    by (simp add: promotion_state_def one_success_def builder_row_def parse_created_at_def window_representable_def
        window_open_def state promoting_readiness_def exI [of _ False])
qed

lemma promoting_size: "value_size (PyDict (readiness_document promoting_readiness)) \<le> max_document_bytes"
proof -
  have "list_all (\<lambda>s. length s \<le> 256) (''contractor'' # evidence_rule # artifact_a # promotion_reasons True 1 1 False 0 True)"
    "length (promotion_reasons True 1 1 False 0 True) = 1" "value_size (PyInt 0) = 1" "value_size (PyInt 1) = 1"
    by code_simp+
  then obtain r where short: "promotion_reasons True 1 1 False 0 True = [r]"
      "length r \<le> 256" "length evidence_rule \<le> 256" "length artifact_a \<le> 256"
    by (cases "promotion_reasons True 1 1 False 0 True") auto
  then have "value_size (PyList [PyStr r]) \<le> 2000" "value_size (PyList [PyStr artifact_a]) \<le> 2000"
    using value_size_simps(3) [of "[PyStr r]"] value_size_simps(3) [of "[PyStr artifact_a]"]
      text_size [of r] text_size [of artifact_a] by simp_all
  then have "value_size (PyDict (readiness_document promoting_readiness)) \<le> 20000"
    using text_size [of evidence_rule] text_size [of "''contractor''"] short value_size_simps(1) [of True]
      value_size_simps(1) [of False] \<open>value_size (PyInt 0) = 1\<close> \<open>value_size (PyInt 1) = 1\<close>
    by (intro order_trans [OF dict_size]) (simp add: readiness_document_def promoting_readiness_def)
  then show ?thesis by (simp add: max_document_bytes_def)
qed

lemma example_records: "\<exists>st r. example_recording (st, r) \<and> rec_recorded r \<and> rec_promoted r"
proof -
  obtain document where document: "document_text ''evidence_refs'' (outcome_manifest accepted_now) = Inr document"
    using manifest_document [OF accepted_evaluates accepted_now_fields(1)] by blast
  obtain grounds where grounds:
      "document_text ''automatic promotion evidence'' (readiness_document promoting_readiness) = Inr grounds"
    using promoting_size by (auto simp: document_text_def value_size_def)
  let ?st = "small_store\<lparr>performance := performance small_store
    @ [new_performance ''event-1'' ''t1'' builder_row accepted_now (document_hash document)]\<rparr>"
  have w: "worker_with (worker_table small_store) ''worker-1'' = Some builder_row" and id: "w_id builder_row = ''worker-1''"
    by (simp_all add: worker_with_def small_store_def builder_row_def)
  have "worker_items small_store ''worker-1'' = []" by (simp add: worker_items_def small_store_def)
  note ready = example_readiness [OF this, of "''event-1''" "''t1''" "document_hash document"]
  obtain st' where st': "auto_promote_if_ready (\<lambda>_. None) start_of_time one_success builder_row ?st = Inr st'"
      "worker_table st' = [builder_row\<lparr>w_class := Employee, w_revision := 1\<rparr>, planner_row]"
    unfolding auto_promote_if_ready_def ready using grounds
    by (simp add: promoting_readiness_def bump_roster_def record_worker_event_def update_workers_def small_store_def)
      (simp add: builder_row_def planner_row_def)
  have "find (\<lambda>p. p_key p = outcome_key accepted_now) (performance small_store) = None"
    by (simp add: small_store_def)
  moreover have "worker_with (worker_table st') ''worker-1'' = Some (builder_row\<lparr>w_class := Employee, w_revision := 1\<rparr>)"
    by (simp add: st' worker_with_def id)
  moreover have "w_class builder_row = Contractor" by (simp add: builder_row_def)
  ultimately show ?thesis
    using accepted_evaluates accepted_now_fields(1,2) document builder_named w id st'(1)
    by (simp add: example_recording_def record_accepted_outcome_def outcome_promotion_policy_def commit_outcome_def Let_def)
qed

section \<open>The store\<close>

text \<open>C23: whatever handlers are called, in any order and with any arguments, a well-formed store
  stays well formed - ids, slugs, replay keys and event numbers are unique, merges form no cycle
  and end at existing workers - and its history only grows: no event and no recorded outcome is
  lost or changed, and no worker disappears.\<close>

theorem reachable_store_ok:
  assumes "store_step\<^sup>*\<^sup>* st st'" and "store_ok st"
  shows "store_ok st' \<and> evolves_to st st'"
  using workforce.reachable assms by blast

lemma reachable_store_ok_witness:
  "\<exists>st r. example_recording (st, r) \<and> rec_recorded r \<and> store_ok st \<and> evolves_to small_store st"
proof -
  obtain st r where run: "example_recording (st, r)" "rec_recorded r" using example_records by blast
  then have "store_step\<^sup>*\<^sup>* small_store st"
    unfolding example_recording_def by (blast intro: store_step.outcome)
  from reachable_store_ok [OF this small_store_ok] run show ?thesis by blast
qed

text \<open>C24: every handler call that returns is a step of the life-cycle specification: it changes
  nothing, or moves exactly one worker along the employment relation and logs that move with the
  next event number, or appends one enablement event, or appends one outcome with a new replay
  key, after which at most the worker of that outcome is promoted.\<close>

theorem handlers_refine_life_cycle:
  assumes "store_step st st'" and "store_ok st"
  shows "life_step st st'"
  using assms by (rule store_step_refines)

lemma handlers_refine_life_cycle_witness:
  "\<exists>st r. example_recording (st, r) \<and> rec_promoted r \<and> life_step small_store st"
proof -
  obtain st r where run: "example_recording (st, r)" "rec_promoted r" using example_records by blast
  then have "store_step small_store st"
    unfolding example_recording_def by (blast intro: store_step.outcome)
  from handlers_refine_life_cycle [OF this small_store_ok] run show ?thesis by blast
qed



text \<open>C26: in a well-formed store a transition is carried out exactly when the caller knows the
  current revision, the life cycle has a step for that action, and the request is allowed: a
  promoted contractor is enabled, a merge target exists, is enabled, active and another worker,
  and actor and surface are short texts. So the handlers offer every step of the life cycle, and
  the check for cycles of merges never refuses one.\<close>

theorem transition_decides:
  assumes "store_ok st" and "select_worker (worker_table st) identity = Some w" and "a \<in> set worker_actions"
  shows "(\<exists>st'. commit_transition identity a expected reason_text target_identity actor surface disabled st = Inr st')
    \<longleftrightarrow> w_revision w = expected \<and> (\<exists>x. employment_step (w_class w, w_standing w) a x)
      \<and> request_allowed (worker_table st) w a target_identity disabled actor surface"
  using assms by (rule commit_transition_possible)

lemma transition_decides_witness:
  "\<exists>st. commit_transition ''worker-1'' ''merge'' 0 ''duplicate'' (Some ''worker-2'') (PyStr ''operator'') (PyStr ''cli'') [] small_store
     = Inr st"
proof -
  have "casefold ''worker-1'' = ''worker-1''" "casefold ''worker-2'' = ''worker-2''" by code_simp+
  then have select: "select_worker (worker_table small_store) ''worker-1'' = Some builder_row"
    "select_worker (worker_table small_store) ''worker-2'' = Some planner_row"
    by (simp_all add: select_worker_def small_store_def builder_row_def planner_row_def)
  have "bounded_text ''actor'' 128 (PyStr ''operator'') = Inr ''operator''" "bounded_text ''surface'' 64 (PyStr ''cli'') = Inr ''cli''"
    by code_simp+
  then have "request_allowed (worker_table small_store) builder_row ''merge'' (Some ''worker-2'') [] (PyStr ''operator'') (PyStr ''cli'')"
    using select by (simp add: request_allowed_def builder_row_def planner_row_def)
  moreover have "w_revision builder_row = 0" "w_standing builder_row = Active" by (simp_all add: builder_row_def)
  moreover have "''merge'' \<in> set worker_actions" by (simp add: worker_actions_def)
  ultimately show ?thesis
    using transition_decides [OF small_store_ok select(1)] employment_step.merge [of Active] by fastforce
qed



text \<open>C28: a recording of an outcome promotes its worker exactly when the worker is an active,
  enabled contractor, the policy is on, the distinct artifacts proven so far together with the new
  one reach the required number, and the review window is closed. The promoted worker is an
  employee from the same transaction on.\<close>

theorem automatic_promotion:
  assumes "record_accepted_outcome fromiso now clock event_id configured store_disabled envelope successes disabled_agents st
      = Inr (st', r)" and "rec_recorded r" and "store_ok st"
    and "outcome_promotion_policy configured store_disabled successes disabled_agents = Inr policy"
    and "worker_with (worker_table st) (rec_worker r) = Some w"
  shows "(rec_promoted r \<longleftrightarrow> w_class w = Contractor \<and> w_standing w = Active \<and> w_slug w \<notin> set (policy_disabled policy)
      \<and> 0 < policy_successes policy
      \<and> policy_successes policy \<le> int (card (insert (rec_artifact r) (proven_artifacts (worker_items st (w_id w)))))
      \<and> \<not> window_open (parse_created_at fromiso (PyStr (w_created w))) (policy_review_days policy) now)
    \<and> (\<exists>v. worker_with (worker_table st') (rec_worker r) = Some v
      \<and> w_class v = (if rec_promoted r then Employee else w_class w) \<and> w_standing v = w_standing w)"
  using assms by (rule recorded_promotion)

lemma automatic_promotion_witness:
  "\<exists>st r v. example_recording (st, r) \<and> worker_with (worker_table st) ''worker-1'' = Some v \<and> w_class v = Employee"
proof -
  obtain st r where run: "example_recording (st, r)" "rec_recorded r" "rec_promoted r" using example_records by blast
  note recorded = run(1) [unfolded example_recording_def]
  have worker: "rec_worker r = ''worker-1''"
    by (rule recorded_performance [OF recorded run(2) small_store_ok])
      (auto simp: accepted_evaluates accepted_now_fields worker_with_def small_store_def builder_row_def)
  have row: "worker_with (worker_table small_store) (rec_worker r) = Some builder_row"
    by (simp add: worker worker_with_def small_store_def builder_row_def)
  have policy: "outcome_promotion_policy one_success [] PyNone None = Inr one_success"
    by (simp add: outcome_promotion_policy_def)
  obtain v where "worker_with (worker_table st) (rec_worker r) = Some v" "w_class v = Employee"
    using automatic_promotion [OF recorded run(2) small_store_ok policy row] run(3) by auto
  with run(1) worker show ?thesis by auto
qed

text \<open>C29: nothing but an accepted envelope counts towards a promotion: in every store that is reached
  from one without outcomes, by any calls of the handlers, a row that readiness counts was recorded
  for an envelope the acceptance rule accepted, for its worker and with its manifest. Evidence that
  callers supply and results of native children are never counted, whatever they contain.\<close>

theorem counted_outcomes_accepted:
  assumes "store_step\<^sup>*\<^sup>* st st'" and "store_ok st" and "performance st = []" and "p \<in> set (performance st')"
    and "counted (performance_item p) = Some e"
  shows "\<exists>envelope out. evaluate_acceptance envelope = Inr out \<and> outcome_accepted out \<and> p_worker p = outcome_worker out
    \<and> p_key p = outcome_key out \<and> p_refs p = PyDict (outcome_manifest out)"
proof -
  have "p \<in> set (performance st) \<or> by_the_rule p" using counted_by_the_rule [OF assms(1,2,4)] assms(5) by simp
  with assms(3) show ?thesis by (simp add: by_the_rule_def)
qed

lemma counted_outcomes_accepted_witness:
  "\<exists>st r p. \<exists>out :: acceptance_outcome. example_recording (st, r) \<and> p \<in> set (performance st) \<and> counted (performance_item p) \<noteq> None
    \<and> outcome_accepted out \<and> p_refs p = PyDict (outcome_manifest out)"
proof -
  obtain st r where run: "example_recording (st, r)" "rec_recorded r" using example_records by blast
  from recorded_performance [OF run(1) [unfolded example_recording_def] run(2) small_store_ok]
  obtain p where p: "p \<in> set (performance st)" "counted (performance_item p) = counted (outcome_row_of accepted_now)"
    using counted_performance accepted_evaluates by (metis in_set_conv_decomp sum.inject(2))
  have "artifact_a \<in> proven_artifacts [outcome_row_of accepted_now]"
    using proven_artifacts_accepted [OF accepted_evaluates accepted_now_fields(1), of "[]"] accepted_now_fields(6) by simp
  then obtain e where e: "counted (outcome_row_of accepted_now) = Some e" by (auto simp: proven_artifacts_def)
  have "store_step\<^sup>*\<^sup>* small_store st" using run(1) unfolding example_recording_def by (blast intro: store_step.outcome)
  moreover have "performance small_store = []" by (simp add: small_store_def)
  moreover have counts: "counted (performance_item p) = Some e" using p(2) e by simp
  ultimately obtain out :: acceptance_outcome where "outcome_accepted out" "p_refs p = PyDict (outcome_manifest out)"
    using counted_outcomes_accepted [OF _ small_store_ok _ p(1)] by blast
  moreover have "counted (performance_item p) \<noteq> None" using counts by simp
  ultimately show ?thesis using p(1) run(1) by blast
qed

text \<open>C30: the evidence limit of the store never refuses an accepted outcome: the manifest of every
  accepted envelope has a document within the limit.\<close>

theorem accepted_manifest_fits:
  assumes "evaluate_acceptance envelope = Inr out" and "outcome_accepted out"
  shows "\<exists>document. document_text ''evidence_refs'' (outcome_manifest out) = Inr document
    \<and> length (utf8 document) \<le> max_document_bytes"
  using manifest_document [OF assms] by (auto simp: document_text_def Let_def split: if_splits)

lemma accepted_manifest_fits_witness:
  "\<exists>document. document_text ''evidence_refs'' (outcome_manifest accepted_now) = Inr document"
  using accepted_manifest_fits [OF accepted_evaluates accepted_now_fields(1)] by blast

end
