(* ===== verification/Hiring_Store.thy ===== *)
theory Hiring_Store
  imports Workforce_Machine
begin

text \<open>
  The hiring part of \<open>core/store/workforce.py\<close>: hiring cases from their proposal to their
  application, and the two changes of the workforce that a case authorises, the registration of a
  worker and the amendment of its contract. The columns of a table keep their stored texts. A
  handler first runs one transaction, which writes everything or raises, and then reads its result
  back, which can raise after the transaction has committed: it returns the store with the result.
  New row ids, the clock, \<open>float(text)\<close>, the packaged contractors and the configured disabled
  agents are arguments.
\<close>

section \<open>Tables\<close>

datatype case_status = Proposed | Audited | Rejected | Applied | Folded

fun status_text :: "case_status \<Rightarrow> string" where
  "status_text Proposed = ''proposed''"
| "status_text Audited = ''audited''"
| "status_text Rejected = ''rejected''"
| "status_text Applied = ''applied''"
| "status_text Folded = ''folded''"

text \<open>\<open>agent_hiring_cases\<close>\<close>

record hiring_case =
  c_id :: string
  c_key :: string
  c_type :: string
  c_status :: case_status
  c_slug :: string
  c_target :: "string option"
  c_session :: string
  c_trace :: string
  c_unit :: string
  c_request :: string
  c_gap :: string
  c_duplicate :: string
  c_contract :: string
  c_critic :: string
  c_model :: string
  c_hash :: string
  c_risk :: string
  c_human :: bool
  c_approved_by :: string
  c_approved_at :: "string option"
  c_created :: string
  c_decided :: "string option"
  c_applied :: "string option"

text \<open>\<open>agent_version_lineage\<close>\<close>

record lineage_row =
  l_worker :: string
  l_version :: string
  l_parent :: "string option"
  l_relation :: string
  l_contract :: string
  l_hash :: string
  l_case :: "string option"

text \<open>\<open>agent_versions\<close>\<close>

record version_row =
  v_id :: string
  v_slug :: string
  v_version :: string
  v_source_version :: string
  v_source_id :: string
  v_hash :: string
  v_content :: string
  v_metadata :: string

text \<open>\<open>agent_active\<close>; a list column is kept as the value it serialises.\<close>

record active_row =
  a_slug :: string
  a_name :: string
  a_division :: string
  a_description :: string
  a_source :: string
  a_source_id :: string
  a_source_version :: string
  a_version :: string
  a_hash :: string
  a_categories :: pyval
  a_capabilities :: pyval
  a_tool_affinity :: pyval
  a_prompt_path :: string

record hiring_store =
  staff :: workforce_store
  case_table :: "hiring_case list"
  lineage_table :: "lineage_row list"
  version_table :: "version_row list"
  active_table :: "active_row list"
  category_table :: "(string \<times> string) list"


section \<open>Keys and statuses\<close>

definition hiring_case_key :: "string \<Rightarrow> string \<Rightarrow> string option \<Rightarrow> string \<Rightarrow> string \<Rightarrow> string" where
  "hiring_case_key case_type slug target unit request =
     sha256_hex (utf8 (join [CHR 0x00] [case_type, slug, (case target of None \<Rightarrow> [] | Some t \<Rightarrow> t), unit, request]))"

definition case_statuses :: "(string \<times> case_status) list" where
  "case_statuses = [(''proposed'', Proposed), (''audited'', Audited), (''rejected'', Rejected), (''applied'', Applied),
     (''folded'', Folded)]"

fun case_transitions :: "case_status \<Rightarrow> case_status set" where
  "case_transitions Proposed = {Audited, Rejected, Folded}"
| "case_transitions Audited = {Rejected, Folded}"
| "case_transitions s = {}"


section \<open>Auditable evidence\<close>

text \<open>\<open>a == b\<close> of values that \<open>json.loads\<close> returns: numbers compare across their types, and the
  order of keys does not matter.\<close>

fun py_number :: "pyval \<Rightarrow> rat option" where
  "py_number (PyInt i) = Some (of_int i)"
| "py_number (PyBool b) = Some (if b then 1 else 0)"
| "py_number (PyFloat (PyFin q t)) = Some q"
| "py_number v = None"

fun py_eq :: "pyval \<Rightarrow> pyval \<Rightarrow> bool" where
  "py_eq PyNone w = (w = PyNone)"
| "py_eq (PyStr s) w = (w = PyStr s)"
| "py_eq (PyBool b) w = (py_number w = Some (if b then 1 else 0))"
| "py_eq (PyInt i) w = (py_number w = Some (of_int i))"
| "py_eq (PyFloat f) w = (case f of PyFin q t \<Rightarrow> py_number w = Some q | PyInf b \<Rightarrow> w = PyFloat (PyInf b) | PyNan \<Rightarrow> False)"
| "py_eq (PyList xs) w = (case w of PyList ys \<Rightarrow> length xs = length ys
     \<and> list_all (\<lambda>(same, y). same y) (zip (map py_eq xs) ys) | _ \<Rightarrow> False)"
| "py_eq (PyTuple xs) w = (case w of PyTuple ys \<Rightarrow> length xs = length ys
     \<and> list_all (\<lambda>(same, y). same y) (zip (map py_eq xs) ys) | _ \<Rightarrow> False)"
| "py_eq (PyDict d) w = (case w of PyDict e \<Rightarrow> length d = length e
     \<and> list_all (\<lambda>(k, same). case map_of e k of None \<Rightarrow> False | Some y \<Rightarrow> same y) (map (\<lambda>(k, v). (k, py_eq v)) d) | _ \<Rightarrow> False)"

text \<open>\<open>_auditable_model_receipt\<close>\<close>

definition auditable_receipt :: "pyval \<Rightarrow> bool" where
  "auditable_receipt v = (case as_mapping v of None \<Rightarrow> False | Some d \<Rightarrow>
     let read = (\<lambda>k. strip (str_or_empty (py_get d k))) in
     read ''provider'' \<noteq> [] \<and> read ''receipt_id'' \<noteq> [] \<and>
     (if read ''actual_model'' \<noteq> [] then read ''model_receipt_source'' \<notin> {[], ''unavailable''}
      else read ''requested_model'' \<noteq> [] \<and> read ''model_receipt_source'' = ''cli.explicit_model_argument''))"

text \<open>What \<open>packaged_hiring_case_is_auditable\<close> reads of a packaged contractor: the worker id, the
  projected contract and three facts of its compilation. The packages of a slug, the current one
  first, are an argument.\<close>

record contractor_package =
  pk_worker :: string
  pk_contract :: "(string \<times> pyval) list"
  pk_schema :: string
  pk_template :: string
  pk_prompt :: string

definition package_authority :: string where
  "package_authority = ''agency.packaged-contractor.v1''"

definition packaged_critic :: "contractor_package \<Rightarrow> pyval" where
  "packaged_critic p = PyDict [(''approved'', PyBool True), (''authority'', PyStr package_authority),
     (''employment_contract_schema'', PyStr (pk_schema p)), (''compiler_template_hash'', PyStr (pk_template p)),
     (''compiled_prompt_hash'', PyStr (pk_prompt p))]"

definition packaged_model :: pyval where
  "packaged_model = PyDict [(''inference_required'', PyBool False), (''authority'', PyStr package_authority),
     (''reason'', PyStr ''maintainer-reviewed packaged contractor; no inference call was made''),
     (''receipts'', PyList [])]"

definition package_covers :: "hiring_case \<Rightarrow> pyval \<Rightarrow> pyval \<Rightarrow> pyval \<Rightarrow> nat \<Rightarrow> contractor_package \<Rightarrow> bool" where
  "package_covers c contract critic model index p =
     (c_type c \<in> (if index = 0 then {''hire'', ''amend''} else {''hire''})
      \<and> c_target c = (if c_type c = ''hire'' then None else Some (pk_worker p))
      \<and> py_eq contract (PyDict (pk_contract p)) \<and> py_eq critic (packaged_critic p) \<and> py_eq model packaged_model
      \<and> c_risk c = ''standard'' \<and> \<not> c_human c)"

definition packaged_hiring_case_is_auditable ::
  "(string \<Rightarrow> py_float) \<Rightarrow> (string \<Rightarrow> contractor_package list option) \<Rightarrow> hiring_case \<Rightarrow> bool" where
  "packaged_hiring_case_is_auditable to_float packages c = (case packages (c_slug c) of
     None \<Rightarrow> False
   | Some ps \<Rightarrow> (case (load_evidence to_float (c_contract c), load_evidence to_float (c_critic c), load_evidence to_float (c_model c)) of
       (Inr contract, Inr critic, Inr model) \<Rightarrow>
         list_ex (\<lambda>(index, p). package_covers c contract critic model index p) (enumerate 0 ps)
     | _ \<Rightarrow> False))"

definition case_evidence_is_auditable ::
  "(string \<Rightarrow> py_float) \<Rightarrow> (string \<Rightarrow> contractor_package list option) \<Rightarrow> hiring_case \<Rightarrow> bool res" where
  "case_evidence_is_auditable to_float packages c =
     (if packaged_hiring_case_is_auditable to_float packages c then Inr True
      else bind_res (decoded to_float (c_contract c)) (\<lambda>contract.
        bind_res (decoded to_float (c_critic c)) (\<lambda>critic.
        bind_res (decoded to_float (c_model c)) (\<lambda>model.
        if contract = [] \<or> document_hash (c_contract c) \<noteq> c_hash c then Inr False
        else Inr (py_get critic ''approved'' = PyBool True
          \<and> (case as_mapping (py_get critic ''receipt'') of None \<Rightarrow> False | Some d \<Rightarrow> d \<noteq> [])
          \<and> (case as_list (py_get model ''receipts'') of None \<Rightarrow> False
               | Some rs \<Rightarrow> rs \<noteq> [] \<and> list_all auditable_receipt rs))))))"


section \<open>Hiring cases\<close>

definition case_with :: "hiring_case list \<Rightarrow> string \<Rightarrow> hiring_case option" where
  "case_with cs i = find (\<lambda>c. c_id c = i) cs"

definition update_case :: "string \<Rightarrow> (hiring_case \<Rightarrow> hiring_case) \<Rightarrow> hiring_store \<Rightarrow> hiring_store" where
  "update_case i f st = st\<lparr>case_table := map (\<lambda>c. if c_id c = i then f c else c) (case_table st)\<rparr>"

record case_view =
  view_case :: hiring_case
  view_gap :: "(string \<times> pyval) list"
  view_duplicate :: "(string \<times> pyval) list"
  view_contract :: "(string \<times> pyval) list"
  view_critic :: "(string \<times> pyval) list"
  view_model :: "(string \<times> pyval) list"

definition get_hiring_case :: "(string \<Rightarrow> py_float) \<Rightarrow> pyval \<Rightarrow> hiring_store \<Rightarrow> case_view res" where
  "get_hiring_case to_float case_id st =
     bind_res (correlation_id ''case_id'' case_id) (\<lambda>i. case case_with (case_table st) i of
       None \<Rightarrow> Inl (KeyError ''hiring case not found'')
     | Some c \<Rightarrow>
         bind_res (decoded to_float (c_gap c)) (\<lambda>gap.
         bind_res (decoded to_float (c_duplicate c)) (\<lambda>duplicate.
         bind_res (decoded to_float (c_contract c)) (\<lambda>contract.
         bind_res (decoded to_float (c_critic c)) (\<lambda>critic.
         bind_res (decoded to_float (c_model c)) (\<lambda>model.
         Inr \<lparr>view_case = c, view_gap = gap, view_duplicate = duplicate, view_contract = contract, view_critic = critic,
           view_model = model\<rparr>))))))"

text \<open>A transaction followed by the read of its result\<close>

definition then_read :: "hiring_store \<Rightarrow> (hiring_store \<times> 'a) res \<Rightarrow> ('a \<Rightarrow> hiring_store \<Rightarrow> 'b res) \<Rightarrow> hiring_store \<times> 'b res" where
  "then_read st committed read = (case committed of
     Inl e \<Rightarrow> (st, Inl e) | Inr (st', i) \<Rightarrow> (st', read i st'))"

text \<open>The arguments of \<open>create_hiring_case\<close>\<close>

record hiring_request =
  r_type :: pyval
  r_slug :: pyval
  r_unit :: pyval
  r_request :: pyval
  r_gap :: pyval
  r_duplicate :: pyval
  r_contract :: pyval
  r_critic :: pyval
  r_model :: pyval
  r_hash :: pyval
  r_target :: pyval
  r_session :: pyval
  r_trace :: pyval
  r_key :: pyval
  r_risk :: pyval
  r_human :: pyval

definition read_request :: "string \<Rightarrow> string \<Rightarrow> hiring_request \<Rightarrow> hiring_case res" where
  "read_request new_id now r =
     (let case_type = casefold (strip (str_or_empty (r_type r))) in
      bind_res (raise_if (case_type \<notin> {''hire'', ''amend''}) (ValueError ''hiring case type is invalid'')) (\<lambda>_.
      bind_res (normalize_agent_slug (r_slug r)) (\<lambda>slug.
      bind_res (correlation_id ''work_unit_id'' (r_unit r)) (\<lambda>unit.
      bind_res (sha256_text ''request_hash'' (r_request r)) (\<lambda>request.
      bind_res (required_document ''contract_evidence'' (r_contract r)) (\<lambda>contract.
      bind_res (sha256_text ''contract_hash'' (r_hash r)) (\<lambda>digest.
      bind_res (raise_if (digest \<noteq> document_hash contract)
        (ValueError ''contract_hash does not match contract_evidence'')) (\<lambda>_.
      bind_res (required_document ''gap_evidence'' (r_gap r)) (\<lambda>gap.
      bind_res (required_document ''duplicate_evidence'' (r_duplicate r)) (\<lambda>duplicate.
      bind_res (required_document ''critic_evidence'' (r_critic r)) (\<lambda>critic.
      bind_res (required_document ''model_evidence'' (r_model r)) (\<lambda>model.
      bind_res (optional_identifier ''target_worker_id'' (r_target r)) (\<lambda>target.
      bind_res (optional_identifier ''session_id'' (r_session r)) (\<lambda>session.
      bind_res (optional_identifier ''trace_id'' (r_trace r)) (\<lambda>trace.
      bind_res (raise_if ((session = None) \<noteq> (trace = None))
        (ValueError ''session_id and trace_id must be supplied together'')) (\<lambda>_.
      bind_res (raise_if (case_type = ''amend'' \<and> target = None)
        (ValueError ''amend hiring cases require a target worker'')) (\<lambda>_.
      bind_res (raise_if (case_type = ''hire'' \<and> target \<noteq> None)
        (ValueError ''hire cases cannot target an existing worker'')) (\<lambda>_.
      let risk = casefold (strip (str_or_empty (r_risk r))) in
      bind_res (raise_if (risk \<notin> {''low'', ''standard'', ''high''}) (ValueError ''risk_tier is invalid'')) (\<lambda>_.
      case r_human r of PyBool human \<Rightarrow>
        bind_res (raise_if (risk = ''high'' \<and> \<not> human) (ValueError ''high-risk hiring requires human approval'')) (\<lambda>_.
        bind_res (if truthy (r_key r) then sha256_text ''idempotency_key'' (r_key r)
          else Inr (hiring_case_key case_type slug target unit request)) (\<lambda>key.
        Inr \<lparr>c_id = new_id, c_key = key, c_type = case_type, c_status = Proposed, c_slug = slug, c_target = target,
          c_session = (case session of None \<Rightarrow> [] | Some s \<Rightarrow> s), c_trace = (case trace of None \<Rightarrow> [] | Some t \<Rightarrow> t),
          c_unit = unit, c_request = request, c_gap = gap, c_duplicate = duplicate, c_contract = contract,
          c_critic = critic, c_model = model, c_hash = digest, c_risk = risk, c_human = human, c_approved_by = [],
          c_approved_at = None, c_created = now, c_decided = None, c_applied = None\<rparr>))
      | _ \<Rightarrow> Inl (TypeError ''human_approval_required must be a boolean''))))))))))))))))))))"

text \<open>Whether a stored case has the evidence of a new one\<close>

definition same_evidence :: "hiring_case \<Rightarrow> hiring_case \<Rightarrow> bool" where
  "same_evidence c d = (c_type c = c_type d \<and> c_slug c = c_slug d \<and> c_target c = c_target d \<and> c_session c = c_session d
     \<and> c_trace c = c_trace d \<and> c_unit c = c_unit d \<and> c_request c = c_request d \<and> c_gap c = c_gap d
     \<and> c_duplicate c = c_duplicate d \<and> c_contract c = c_contract d \<and> c_critic c = c_critic d \<and> c_model c = c_model d
     \<and> c_hash c = c_hash d \<and> c_risk c = c_risk d \<and> c_human c = c_human d)"

text \<open>The row is inserted unless the key is known; its target has to be a worker.\<close>

definition commit_case :: "hiring_case \<Rightarrow> hiring_store \<Rightarrow> (hiring_store \<times> string) res" where
  "commit_case c st = (case find (\<lambda>d. c_key d = c_key c) (case_table st) of
     Some d \<Rightarrow> if same_evidence d c then Inr (st, c_id d)
       else Inl (ValueError ''hiring idempotency key was reused with different evidence'')
   | None \<Rightarrow>
       bind_res (raise_if (case_with (case_table st) (c_id c) \<noteq> None)
         (IntegrityError ''UNIQUE constraint failed: agent_hiring_cases.id'')) (\<lambda>_.
       bind_res (raise_if (case c_target c of None \<Rightarrow> False | Some t \<Rightarrow> worker_with (worker_table (staff st)) t = None)
         (IntegrityError ''FOREIGN KEY constraint failed'')) (\<lambda>_.
       Inr (st\<lparr>case_table := case_table st @ [c]\<rparr>, c_id c))))"

definition create_hiring_case :: "(string \<Rightarrow> py_float) \<Rightarrow> string \<Rightarrow> string \<Rightarrow> hiring_request
    \<Rightarrow> hiring_store \<Rightarrow> hiring_store \<times> case_view res" where
  "create_hiring_case to_float new_id now r st =
     then_read st (bind_res (read_request new_id now r) (\<lambda>c. commit_case c st)) (\<lambda>i. get_hiring_case to_float (PyStr i))"

definition commit_approval :: "string \<Rightarrow> string \<Rightarrow> string \<Rightarrow> hiring_store \<Rightarrow> (hiring_store \<times> string) res" where
  "commit_approval now operator i st = (case case_with (case_table st) i of
     None \<Rightarrow> Inl (KeyError ''hiring case not found'')
   | Some c \<Rightarrow>
       if \<not> c_human c then Inl (ValueError ''hiring case does not require human approval'')
       else if c_approved_at c \<noteq> None then
         (if c_approved_by c \<noteq> operator then Inl (ValueError ''hiring case was already approved by another operator'')
          else if c_status c \<in> {Proposed, Audited, Applied} then Inr (st, i)
          else Inl (ValueError ''approved hiring case is no longer actionable''))
       else if c_status c \<noteq> Proposed then Inl (ValueError ''only a proposed hiring case can be approved'')
       else Inr (update_case i (\<lambda>c. c\<lparr>c_approved_by := operator, c_approved_at := Some now\<rparr>) st, i))"

definition approve_hiring_case :: "(string \<Rightarrow> py_float) \<Rightarrow> string \<Rightarrow> pyval \<Rightarrow> pyval
    \<Rightarrow> hiring_store \<Rightarrow> hiring_store \<times> case_view res" where
  "approve_hiring_case to_float now case_id approved_by st =
     then_read st (bind_res (correlation_id ''case_id'' case_id) (\<lambda>i.
       bind_res (bounded_text ''approved_by'' 128 approved_by) (\<lambda>operator. commit_approval now operator i st)))
       (\<lambda>i. get_hiring_case to_float (PyStr i))"

text \<open>\<open>transition_hiring_case\<close>; the status \<open>applied\<close> is not reached this way.\<close>

definition set_status :: "string \<Rightarrow> case_status \<Rightarrow> hiring_case \<Rightarrow> hiring_case" where
  "set_status now s c = c\<lparr>c_status := s, c_decided := (if s \<in> {Audited, Rejected, Folded} then Some now else c_decided c),
     c_applied := (if s = Applied then Some now else c_applied c)\<rparr>"

definition human_approved :: "hiring_case \<Rightarrow> bool" where
  "human_approved c = ((case c_approved_at c of None \<Rightarrow> False | Some t \<Rightarrow> t \<noteq> []) \<and> strip (c_approved_by c) \<noteq> [])"

definition commit_status :: "(string \<Rightarrow> py_float) \<Rightarrow> (string \<Rightarrow> contractor_package list option) \<Rightarrow> string \<Rightarrow> case_status
    \<Rightarrow> string \<Rightarrow> hiring_store \<Rightarrow> (hiring_store \<times> string) res" where
  "commit_status to_float packages now s i st = (case case_with (case_table st) i of
     None \<Rightarrow> Inl (KeyError ''hiring case not found'')
   | Some c \<Rightarrow>
       if s \<notin> case_transitions (c_status c)
       then Inl (ValueError (''invalid hiring case transition: '' @ status_text (c_status c) @ '' -> '' @ status_text s))
       else bind_res (if s = Audited
           then bind_res (case_evidence_is_auditable to_float packages c) (\<lambda>auditable.
             bind_res (raise_if (\<not> auditable) (ValueError ''hiring case lacks validated critic and model evidence'')) (\<lambda>_.
             raise_if (c_human c \<and> \<not> human_approved c) (ValueError ''hiring case requires explicit human approval'')))
           else Inr ()) (\<lambda>_.
         Inr (update_case i (set_status now s) st, i)))"

definition transition_hiring_case :: "(string \<Rightarrow> py_float) \<Rightarrow> (string \<Rightarrow> contractor_package list option) \<Rightarrow> string
    \<Rightarrow> pyval \<Rightarrow> pyval \<Rightarrow> hiring_store \<Rightarrow> hiring_store \<times> case_view res" where
  "transition_hiring_case to_float packages now case_id status_value st =
     then_read st (bind_res (correlation_id ''case_id'' case_id) (\<lambda>i.
       case map_of case_statuses (casefold (strip (str_or_empty status_value))) of
         None \<Rightarrow> Inl (ValueError ''hiring case status is invalid'')
       | Some Applied \<Rightarrow> Inl (ValueError ''applied status is reserved for atomic workforce changes'')
       | Some s \<Rightarrow> commit_status to_float packages now s i st)) (\<lambda>i. get_hiring_case to_float (PyStr i))"


section \<open>Reading a worker\<close>

record worker_view =
  view_worker :: worker_row
  view_state :: string
  view_enabled :: bool
  view_label :: string

definition display_state :: "string list \<Rightarrow> worker_row \<Rightarrow> string res" where
  "display_state disabled w = (if w_standing w \<noteq> Active then Inr (standing_text (w_standing w))
     else bind_res (agent_is_enabled (PyStr (w_slug w)) disabled) (\<lambda>on.
       Inr (if on then class_text (w_class w) else ''disabled'')))"

definition worker_projection :: "string list \<Rightarrow> worker_row \<Rightarrow> worker_view res" where
  "worker_projection disabled w = bind_res (display_state disabled w) (\<lambda>state.
     Inr \<lparr>view_worker = w, view_state = state, view_enabled = (state \<in> {''contractor'', ''employee''}),
       view_label = (if w_class w = Contractor then ''Contractor '' @ [CHR 0xB7] @ '' '' @ w_name w else w_name w)\<rparr>)"

definition get_workforce_worker :: "string list \<Rightarrow> pyval \<Rightarrow> hiring_store \<Rightarrow> worker_view res" where
  "get_workforce_worker disabled identity st =
     bind_res (bounded_text ''worker identity'' 256 identity) (\<lambda>v.
     case select_worker (worker_table (staff st)) v of
       None \<Rightarrow> Inl (KeyError ''workforce worker not found'')
     | Some w \<Rightarrow> worker_projection disabled w)"


section \<open>Activating a version\<close>

definition active_of :: "version_row \<Rightarrow> (string \<times> pyval) list \<Rightarrow> active_row" where
  "active_of v metadata =
     (let read = (\<lambda>k fallback. py_str (py_or (py_get metadata k) (PyStr fallback))) in
      \<lparr>a_slug = v_slug v, a_name = read ''name'' (v_slug v), a_division = read ''division'' ''specialized'',
       a_description = read ''description'' [], a_source = read ''source'' ''agency'', a_source_id = v_source_id v,
       a_source_version = (if v_source_version v \<noteq> [] then v_source_version v else read ''source_version'' []),
       a_version = v_version v, a_hash = v_hash v, a_categories = py_or (py_get metadata ''categories'') (PyList []),
       a_capabilities = py_or (py_get metadata ''capabilities'') (PyList []),
       a_tool_affinity = py_or (py_get metadata ''tool_affinity'') (PyList []), a_prompt_path = read ''prompt_path'' []\<rparr>)"

text \<open>A slug has one active row and each of its categories once.\<close>

definition activate_staged_agency_version :: "(string \<Rightarrow> py_float) \<Rightarrow> bool \<Rightarrow> version_row \<Rightarrow> hiring_store \<Rightarrow> hiring_store res" where
  "activate_staged_agency_version to_float replace v st =
     bind_res (decoded to_float (v_metadata v)) (\<lambda>metadata.
     bind_res (raise_if (\<not> replace \<and> list_ex (\<lambda>a. a_slug a = v_slug v) (active_table st))
       (IntegrityError ''UNIQUE constraint failed: agent_active.agent_slug'')) (\<lambda>_.
     bind_res (py_iter (py_or (py_get metadata ''categories'') (PyList []))) (\<lambda>items.
     let categories = filter (\<lambda>s. s \<noteq> []) (map py_str items) in
     bind_res (raise_if (\<not> distinct categories)
       (IntegrityError ''UNIQUE constraint failed: agent_categories.agent_slug, agent_categories.category'')) (\<lambda>_.
     Inr (st\<lparr>active_table := filter (\<lambda>a. a_slug a \<noteq> v_slug v) (active_table st) @ [active_of v metadata],
       category_table := filter (\<lambda>(slug, c). slug \<noteq> v_slug v) (category_table st) @ map (Pair (v_slug v)) categories\<rparr>)))))"


section \<open>Changes that a case authorises\<close>

definition version_with :: "version_row list \<Rightarrow> string \<Rightarrow> version_row option" where
  "version_with vs i = find (\<lambda>v. v_id v = i) vs"

definition insert_lineage :: "lineage_row \<Rightarrow> hiring_store \<Rightarrow> hiring_store res" where
  "insert_lineage l st =
     bind_res (raise_if (list_ex (\<lambda>m. l_version m = l_version l) (lineage_table st))
       (IntegrityError ''UNIQUE constraint failed: agent_version_lineage.agent_version_id'')) (\<lambda>_.
     bind_res (raise_if (l_case l \<noteq> None \<and> list_ex (\<lambda>m. l_case m = l_case l) (lineage_table st))
       (IntegrityError ''UNIQUE constraint failed: agent_version_lineage.hiring_case_id'')) (\<lambda>_.
     Inr (st\<lparr>lineage_table := lineage_table st @ [l]\<rparr>)))"

text \<open>\<open>UPDATE agent_hiring_cases SET status = 'applied' ... WHERE id = ? AND status = 'audited'\<close>\<close>

definition apply_case :: "string \<Rightarrow> string \<Rightarrow> string \<Rightarrow> hiring_store \<Rightarrow> hiring_store res" where
  "apply_case now i consumed st =
     bind_res (raise_if (length (filter (\<lambda>c. c_id c = i \<and> c_status c = Audited) (case_table st)) \<noteq> 1)
       (RuntimeError consumed)) (\<lambda>_.
     Inr (st\<lparr>case_table := map (\<lambda>c. if c_id c = i \<and> c_status c = Audited
       then c\<lparr>c_status := Applied, c_applied := Some now\<rparr> else c) (case_table st)\<rparr>))"

definition log_event :: "event_row \<Rightarrow> hiring_store \<Rightarrow> hiring_store" where
  "log_event e st = st\<lparr>staff := bump_roster (record_worker_event e (staff st))\<rparr>"

text \<open>The arguments of \<open>register_workforce_worker\<close> and what they are read as\<close>

record registration_request =
  q_slug :: pyval
  q_name :: pyval
  q_origin :: pyval
  q_class :: pyval
  q_version :: pyval
  q_contract :: pyval
  q_relation :: pyval
  q_case :: pyval
  q_parent :: pyval

record registration =
  g_slug :: string
  g_name :: string
  g_origin :: string
  g_class :: employment_class
  g_version :: string
  g_parent :: "string option"
  g_case :: "string option"
  g_relation :: string
  g_contract :: string

definition lineage_relations :: "string list" where
  "lineage_relations = [''generated'', ''upstream_update'', ''agency_amendment'', ''merge'']"

definition read_registration :: "registration_request \<Rightarrow> registration res" where
  "read_registration q =
     bind_res (normalize_agent_slug (q_slug q)) (\<lambda>slug.
     bind_res (bounded_text ''display_name'' 256 (q_name q)) (\<lambda>name.
     let origin = casefold (strip (str_or_empty (q_origin q))) in
     bind_res (raise_if (origin \<notin> {''upstream'', ''agency''}) (ValueError ''origin must be upstream or agency'')) (\<lambda>_.
     case map_of [(''contractor'', Contractor), (''employee'', Employee)] (casefold (strip (str_or_empty (q_class q)))) of
       None \<Rightarrow> Inl (ValueError ''employment_class is invalid'')
     | Some class_value \<Rightarrow>
       bind_res (correlation_id ''agent_version_id'' (q_version q)) (\<lambda>version.
       bind_res (optional_identifier ''parent_version_id'' (q_parent q)) (\<lambda>parent.
       bind_res (optional_identifier ''hiring_case_id'' (q_case q)) (\<lambda>case_id.
       let relation = casefold (strip (str_or_empty (q_relation q))) in
       bind_res (raise_if (relation \<notin> set lineage_relations) (ValueError ''version relation is invalid'')) (\<lambda>_.
       bind_res (required_document ''recruitment_contract'' (q_contract q)) (\<lambda>document.
       bind_res (raise_if (origin = ''upstream'' \<and> class_value \<noteq> Employee)
         (ValueError ''upstream workers must enter as employees'')) (\<lambda>_.
       bind_res (raise_if (origin = ''agency'' \<and> case_id = None)
         (ValueError ''Agency-owned workers require an audited hiring case'')) (\<lambda>_.
       Inr \<lparr>g_slug = slug, g_name = name, g_origin = origin, g_class = class_value, g_version = version, g_parent = parent,
         g_case = case_id, g_relation = relation, g_contract = document\<rparr>)))))))))) "

definition case_authorises_hire :: "string \<Rightarrow> string \<Rightarrow> hiring_case \<Rightarrow> bool" where
  "case_authorises_hire slug contract_hash c =
     (c_type c = ''hire'' \<and> c_slug c = slug \<and> c_target c = None \<and> c_hash c = contract_hash)"

definition validate_worker_registration :: "registration \<Rightarrow> hiring_store \<Rightarrow> version_row res" where
  "validate_worker_registration g st = (case version_with (version_table st) (g_version g) of
     None \<Rightarrow> Inl (ValueError ''agent version does not belong to the worker slug'')
   | Some v \<Rightarrow>
       let active = find (\<lambda>a. a_slug a = g_slug g) (active_table st) in
       bind_res (raise_if (v_slug v \<noteq> g_slug g) (ValueError ''agent version does not belong to the worker slug'')) (\<lambda>_.
       bind_res (raise_if (g_origin g \<noteq> ''agency'' \<and> active = None)
         (ValueError ''worker registration requires an active agent revision'')) (\<lambda>_.
       bind_res (raise_if (case active of None \<Rightarrow> False | Some a \<Rightarrow> a_version a \<noteq> v_version v \<or> a_hash a \<noteq> v_hash v)
         (ValueError ''worker registration requires the exact active agent revision'')) (\<lambda>_.
       bind_res (raise_if (list_ex (\<lambda>w. w_slug w = g_slug g) (worker_table (staff st)))
         (ValueError (''workforce worker already exists: '' @ g_slug g))) (\<lambda>_.
       bind_res (raise_if (case g_parent g of None \<Rightarrow> False | Some p \<Rightarrow>
           (case version_with (version_table st) p of None \<Rightarrow> True | Some u \<Rightarrow> v_slug u \<noteq> g_slug g))
         (ValueError ''parent version does not belong to the worker slug'')) (\<lambda>_.
       bind_res (raise_if (g_relation g = ''generated'' \<and> g_parent g \<noteq> None)
         (ValueError ''generated lineage cannot have a parent version'')) (\<lambda>_.
       bind_res (raise_if (g_relation g \<noteq> ''generated'' \<and> g_parent g = None)
         (ValueError ''non-generated lineage requires a parent version'')) (\<lambda>_.
       case g_case g of None \<Rightarrow> Inr v
       | Some i \<Rightarrow> (case case_with (case_table st) i of
           None \<Rightarrow> Inl (ValueError ''hiring case must be audited before registration'')
         | Some c \<Rightarrow>
             bind_res (raise_if (c_status c \<noteq> Audited) (ValueError ''hiring case must be audited before registration'')) (\<lambda>_.
             bind_res (raise_if (\<not> case_authorises_hire (g_slug g) (document_hash (g_contract g)) c)
               (ValueError ''hiring case does not authorize this worker contract'')) (\<lambda>_.
             Inr v)))))))))))"

definition new_worker :: "string \<Rightarrow> string \<Rightarrow> registration \<Rightarrow> version_row \<Rightarrow> worker_row" where
  "new_worker now worker g v = \<lparr>w_id = worker, w_slug = g_slug g, w_name = g_name g, w_origin = g_origin g, w_class = g_class g,
     w_standing = Active, w_version_id = g_version g, w_version = v_version v, w_hash = v_hash v, w_merged = None,
     w_revision = 0, w_created = now\<rparr>"

definition registered_event :: "string \<Rightarrow> registration \<Rightarrow> version_row \<Rightarrow> event_row" where
  "registered_event worker g v = \<lparr>e_sequence = 0, e_worker = worker, e_type = ''registered'', e_from_class = [],
     e_to_class = class_text (g_class g), e_from_standing = [], e_to_standing = ''active'', e_version = v_version v,
     e_merged = None, e_case = g_case g, e_actor = [], e_surface = [], e_reason = [], e_evidence = ''{}''\<rparr>"

definition commit_registration :: "(string \<Rightarrow> py_float) \<Rightarrow> string \<Rightarrow> string \<Rightarrow> registration \<Rightarrow> hiring_store
    \<Rightarrow> (hiring_store \<times> string) res" where
  "commit_registration to_float now worker g st =
     bind_res (validate_worker_registration g st) (\<lambda>v.
     bind_res (raise_if (worker_with (worker_table (staff st)) worker \<noteq> None)
       (IntegrityError ''UNIQUE constraint failed: agent_workers.worker_id'')) (\<lambda>_.
     let st1 = st\<lparr>staff := (staff st)\<lparr>worker_table := worker_table (staff st) @ [new_worker now worker g v]\<rparr>\<rparr> in
     bind_res (insert_lineage \<lparr>l_worker = worker, l_version = g_version g, l_parent = g_parent g, l_relation = g_relation g,
       l_contract = g_contract g, l_hash = document_hash (g_contract g), l_case = g_case g\<rparr> st1) (\<lambda>st2.
     bind_res (case g_case g of None \<Rightarrow> Inr st2 | Some i \<Rightarrow> apply_case now i ''hiring case was already consumed'' st2) (\<lambda>st3.
     bind_res (if g_origin g = ''agency'' then activate_staged_agency_version to_float False v st3 else Inr st3) (\<lambda>st4.
     Inr (log_event (registered_event worker g v) st4, worker))))))"

definition register_workforce_worker :: "(string \<Rightarrow> py_float) \<Rightarrow> string \<Rightarrow> string list \<Rightarrow> registration_request
    \<Rightarrow> hiring_store \<Rightarrow> hiring_store \<times> worker_view res" where
  "register_workforce_worker to_float now disabled q st =
     then_read st (bind_res (read_registration q) (\<lambda>g.
       bind_res (stable_worker_id (PyStr (g_slug g))) (\<lambda>worker. commit_registration to_float now worker g st)))
       (\<lambda>worker. get_workforce_worker disabled (PyStr worker))"

text \<open>\<open>apply_workforce_amendment\<close>\<close>

definition amended_event :: "worker_row \<Rightarrow> version_row \<Rightarrow> string \<Rightarrow> string \<Rightarrow> string \<Rightarrow> string \<Rightarrow> event_row" where
  "amended_event w v case_id actor surface reason_text = \<lparr>e_sequence = 0, e_worker = w_id w, e_type = ''amended'',
     e_from_class = class_text (w_class w), e_to_class = class_text (w_class w),
     e_from_standing = standing_text (w_standing w), e_to_standing = standing_text (w_standing w), e_version = v_version v,
     e_merged = None, e_case = Some case_id, e_actor = actor, e_surface = surface, e_reason = reason_text, e_evidence = ''{}''\<rparr>"

definition set_version :: "version_row \<Rightarrow> worker_row \<Rightarrow> worker_row" where
  "set_version v w = w\<lparr>w_version_id := v_id v, w_version := v_version v, w_hash := v_hash v, w_revision := w_revision w + 1\<rparr>"

definition case_authorises_amendment :: "worker_row \<Rightarrow> string \<Rightarrow> hiring_case \<Rightarrow> bool" where
  "case_authorises_amendment w contract_hash c = (c_type c = ''amend'' \<and> c_slug c = w_slug w
     \<and> (case c_target c of None \<Rightarrow> [] | Some t \<Rightarrow> t) = w_id w \<and> c_hash c = contract_hash)"

definition commit_amendment :: "(string \<Rightarrow> py_float) \<Rightarrow> string \<Rightarrow> string \<Rightarrow> int \<Rightarrow> string \<Rightarrow> string \<Rightarrow> string
    \<Rightarrow> string \<Rightarrow> string \<Rightarrow> string \<Rightarrow> hiring_store \<Rightarrow> (hiring_store \<times> string) res" where
  "commit_amendment to_float now identity expected version_id case_id document actor surface reason_text st =
     (case select_worker (worker_table (staff st)) identity of
        None \<Rightarrow> Inl (KeyError ''workforce worker not found'')
      | Some w \<Rightarrow>
          bind_res (raise_if (w_revision w \<noteq> expected) (RuntimeError ''workforce revision conflict'')) (\<lambda>_.
          bind_res (raise_if (w_standing w \<in> {Retired, Merged})
            (ValueError ''terminal workforce state cannot be amended'')) (\<lambda>_.
          case version_with (version_table st) version_id of
            None \<Rightarrow> Inl (ValueError ''amendment version does not belong to the worker'')
          | Some v \<Rightarrow>
              bind_res (raise_if (v_slug v \<noteq> w_slug w) (ValueError ''amendment version does not belong to the worker'')) (\<lambda>_.
              bind_res (raise_if (list_ex (\<lambda>l. l_version l = version_id) (lineage_table st))
                (ValueError ''amendment version already has governed lineage'')) (\<lambda>_.
              case case_with (case_table st) case_id of
                None \<Rightarrow> Inl (ValueError ''amendment hiring case must be audited'')
              | Some c \<Rightarrow>
                  bind_res (raise_if (c_status c \<noteq> Audited) (ValueError ''amendment hiring case must be audited'')) (\<lambda>_.
                  bind_res (raise_if (\<not> case_authorises_amendment w (document_hash document) c)
                    (ValueError ''hiring case does not authorize this amendment'')) (\<lambda>_.
                  bind_res (insert_lineage \<lparr>l_worker = w_id w, l_version = version_id, l_parent = Some (w_version_id w),
                    l_relation = ''agency_amendment'', l_contract = document, l_hash = document_hash document,
                    l_case = Some case_id\<rparr> st) (\<lambda>st1.
                  let matches = (\<lambda>u. w_id u = w_id w \<and> w_revision u = expected) in
                  bind_res (raise_if (length (filter matches (worker_table (staff st1))) \<noteq> 1)
                    (RuntimeError ''workforce revision conflict'')) (\<lambda>_.
                  bind_res (activate_staged_agency_version to_float True v (st1\<lparr>staff := (staff st1)\<lparr>worker_table :=
                    update_workers matches (set_version v) (worker_table (staff st1))\<rparr>\<rparr>)) (\<lambda>st2.
                  bind_res (apply_case now case_id ''amendment hiring case was already consumed'' st2) (\<lambda>st3.
                  Inr (log_event (amended_event w v case_id actor surface reason_text) st3, w_id w)))))))))))) "

definition apply_workforce_amendment :: "(string \<Rightarrow> py_float) \<Rightarrow> string \<Rightarrow> string list \<Rightarrow> pyval \<Rightarrow> pyval \<Rightarrow> pyval \<Rightarrow> pyval
    \<Rightarrow> pyval \<Rightarrow> pyval \<Rightarrow> pyval \<Rightarrow> pyval \<Rightarrow> hiring_store \<Rightarrow> hiring_store \<times> worker_view res" where
  "apply_workforce_amendment to_float now disabled worker expected_revision version_value contract_value case_value actor surface
     reason_value st =
     then_read st (bind_res (bounded_text ''worker identity'' 256 worker) (\<lambda>identity.
       bind_res (read_revision expected_revision) (\<lambda>expected.
       bind_res (correlation_id ''agent_version_id'' version_value) (\<lambda>version_id.
       bind_res (correlation_id ''hiring_case_id'' case_value) (\<lambda>case_id.
       bind_res (bounded_text ''event_actor'' 64 actor) (\<lambda>actor_text.
       bind_res (bounded_text ''event_surface'' 64 surface) (\<lambda>surface_text.
       bind_res (bounded_text ''event_reason'' 256 reason_value) (\<lambda>reason_text.
       bind_res (required_document ''recruitment_contract'' contract_value) (\<lambda>document.
       commit_amendment to_float now identity expected version_id case_id document actor_text surface_text reason_text st)))))))))
       (\<lambda>i. get_workforce_worker disabled (PyStr i))"

end
