(* ===== verification/Roster_Seam.thy ===== *)
theory Roster_Seam
  imports Hiring_Store
begin

text \<open>
  The seam of \<open>core/store/workforce.py\<close> to the roster: \<open>synchronize_active_workforce_worker\<close> employs an
  upstream worker or moves it to another revision, \<open>retire_ingested_workforce_worker\<close> retires one that
  the roster dropped, and \<open>backfill_workforce_identity\<close> employs the active agents that have no worker.
  They run inside the transaction of their caller: what they raise undoes it.
\<close>

section \<open>Events of the ingestion\<close>

definition ingestion_event :: "string \<Rightarrow> worker_row \<Rightarrow> string \<Rightarrow> string \<Rightarrow> string \<Rightarrow> event_row" where
  "ingestion_event event_type w to_standing version_text reason_text = \<lparr>e_sequence = 0, e_worker = w_id w, e_type = event_type,
     e_from_class = class_text (w_class w), e_to_class = class_text (w_class w), e_from_standing = standing_text (w_standing w),
     e_to_standing = to_standing, e_version = version_text, e_merged = None, e_case = None, e_actor = ''roster-ingestion'',
     e_surface = ''ingestion'', e_reason = reason_text, e_evidence = ''{}''\<rparr>"

definition bootstrap_event :: "string \<Rightarrow> string \<Rightarrow> event_row" where
  "bootstrap_event worker version_text = \<lparr>e_sequence = 0, e_worker = worker, e_type = ''registered'', e_from_class = [],
     e_to_class = ''employee'', e_from_standing = [], e_to_standing = ''active'', e_version = version_text, e_merged = None,
     e_case = None, e_actor = ''roster-ingestion'', e_surface = ''ingestion'', e_reason = [], e_evidence = ''{}''\<rparr>"

definition note_event :: "event_row \<Rightarrow> hiring_store \<Rightarrow> hiring_store" where
  "note_event e st = st\<lparr>staff := record_worker_event e (staff st)\<rparr>"

definition set_workers :: "worker_row list \<Rightarrow> hiring_store \<Rightarrow> hiring_store" where
  "set_workers ws st = st\<lparr>staff := (staff st)\<lparr>worker_table := ws\<rparr>\<rparr>"


section \<open>Synchronisation\<close>

text \<open>The revision that the roster activated\<close>

record revision =
  n_slug :: pyval
  n_name :: string
  n_origin :: pyval
  n_class :: pyval
  n_version_id :: string
  n_version :: string
  n_hash :: string
  n_contract :: string

definition upstream_worker :: "string \<Rightarrow> string \<Rightarrow> string \<Rightarrow> revision \<Rightarrow> worker_row" where
  "upstream_worker now worker slug n = \<lparr>w_id = worker, w_slug = slug, w_name = n_name n, w_origin = ''upstream'',
     w_class = Employee, w_standing = Active, w_version_id = n_version_id n, w_version = n_version n, w_hash = n_hash n,
     w_merged = None, w_revision = 0, w_created = now\<rparr>"

definition bootstrap_worker :: "string \<Rightarrow> string \<Rightarrow> string \<Rightarrow> revision \<Rightarrow> hiring_store \<Rightarrow> hiring_store res" where
  "bootstrap_worker now worker slug n st =
     bind_res (raise_if (worker_with (worker_table (staff st)) worker \<noteq> None)
       (IntegrityError ''UNIQUE constraint failed: agent_workers.worker_id'')) (\<lambda>_.
     bind_res (insert_lineage \<lparr>l_worker = worker, l_version = n_version_id n, l_parent = None, l_relation = ''generated'',
         l_contract = n_contract n, l_hash = document_hash (n_contract n), l_case = None\<rparr>
       (set_workers (worker_table (staff st) @ [upstream_worker now worker slug n]) st)) (\<lambda>st1.
     Inr (note_event (bootstrap_event worker (n_version n)) st1)))"

definition move_revision :: "revision \<Rightarrow> worker_row \<Rightarrow> worker_row" where
  "move_revision n w = w\<lparr>w_version_id := n_version_id n, w_version := n_version n, w_hash := n_hash n,
     w_revision := w_revision w + 1\<rparr>"

definition advance_worker :: "string \<Rightarrow> worker_row \<Rightarrow> revision \<Rightarrow> hiring_store \<Rightarrow> hiring_store res" where
  "advance_worker origin_text w n st =
     (let lineage = find (\<lambda>l. l_version l = n_version_id n) (lineage_table st);
          current = find (\<lambda>l. l_version l = w_version_id w) (lineage_table st) in
      bind_res (raise_if ((w_origin w \<noteq> ''upstream'' \<or> origin_text \<noteq> ''upstream'') \<and> lineage = None)
        (ValueError ''Agency-owned workforce updates require an audited amendment'')) (\<lambda>_.
      bind_res (raise_if (lineage = None \<and> (case current of None \<Rightarrow> False | Some l \<Rightarrow> l_relation l = ''agency_amendment''))
        (ValueError ''upstream update requires governed reconciliation with the active Agency amendment'')) (\<lambda>_.
      bind_res (raise_if (case lineage of None \<Rightarrow> False | Some l \<Rightarrow> l_worker l \<noteq> w_id w)
        (ValueError ''agent version lineage belongs to another worker'')) (\<lambda>_.
      bind_res (if lineage \<noteq> None then Inr st
        else insert_lineage \<lparr>l_worker = w_id w, l_version = n_version_id n, l_parent = Some (w_version_id w),
          l_relation = ''upstream_update'', l_contract = n_contract n, l_hash = document_hash (n_contract n), l_case = None\<rparr> st) (\<lambda>st1.
      let matches = (\<lambda>u. w_id u = w_id w \<and> w_revision u = w_revision w) in
      bind_res (raise_if (length (filter matches (worker_table (staff st1))) \<noteq> 1)
        (RuntimeError ''workforce revision conflict'')) (\<lambda>_.
      Inr (note_event (ingestion_event (if lineage \<noteq> None then ''revision_restored'' else ''upstream_update'') w
          (standing_text (w_standing w)) (n_version n) [])
        (set_workers (update_workers matches (move_revision n) (worker_table (staff st1))) st1))))))))"

definition synchronize_active_workforce_worker :: "string \<Rightarrow> revision \<Rightarrow> hiring_store \<Rightarrow> (hiring_store \<times> bool) res" where
  "synchronize_active_workforce_worker now n st =
     bind_res (normalize_agent_slug (n_slug n)) (\<lambda>slug.
     let origin_text = casefold (strip (str_or_empty (n_origin n)));
         class_value = casefold (strip (str_or_empty (n_class n))) in
     bind_res (stable_worker_id (PyStr slug)) (\<lambda>worker.
     case find (\<lambda>w. w_slug w = slug) (worker_table (staff st)) of
       None \<Rightarrow>
         if origin_text = ''agency'' then Inr (st, False)
         else bind_res (raise_if (origin_text \<noteq> ''upstream'' \<or> class_value \<noteq> ''employee'')
             (ValueError ''automatic workforce bootstrap is limited to upstream employees'')) (\<lambda>_.
           bind_res (bootstrap_worker now worker slug n st) (\<lambda>st'. Inr (st', True)))
     | Some w \<Rightarrow>
         if w_version_id w = n_version_id n then Inr (st, True)
         else bind_res (advance_worker origin_text w n st) (\<lambda>st'. Inr (st', True))))"


section \<open>Retirement by the roster\<close>

definition retired_row :: "worker_row \<Rightarrow> worker_row" where
  "retired_row w = w\<lparr>w_standing := Retired, w_revision := w_revision w + 1\<rparr>"

definition retire_ingested_workforce_worker :: "pyval \<Rightarrow> pyval \<Rightarrow> hiring_store \<Rightarrow> (hiring_store \<times> bool) res" where
  "retire_ingested_workforce_worker agent_slug reason_value st =
     bind_res (normalize_agent_slug agent_slug) (\<lambda>slug.
     case find (\<lambda>w. w_slug w = slug) (worker_table (staff st)) of
       None \<Rightarrow> Inr (st, False)
     | Some w \<Rightarrow>
         if w_standing w = Retired then Inr (st, False)
         else bind_res (raise_if (w_standing w = Merged)
             (ValueError ''merged workforce identity cannot be retired by ingestion'')) (\<lambda>_.
           let matches = (\<lambda>u. w_id u = w_id w \<and> w_revision u = w_revision w) in
           bind_res (raise_if (length (filter matches (worker_table (staff st))) \<noteq> 1)
             (RuntimeError ''workforce revision conflict'')) (\<lambda>_.
           bind_res (bounded_text ''reason'' 2048 reason_value) (\<lambda>reason_text.
           Inr (note_event (ingestion_event ''retired'' w ''retired'' (w_version w) reason_text)
             (set_workers (update_workers matches retired_row (worker_table (staff st))) st), True)))))"


section \<open>Backfill\<close>

text \<open>The active agents without a worker, with their version rows, by slug\<close>

definition unemployed :: "hiring_store \<Rightarrow> (active_row \<times> version_row) list" where
  "unemployed st = [(a, v). a \<leftarrow> sort_key a_slug (active_table st), v \<leftarrow> version_table st,
     v_slug v = a_slug a \<and> v_version v = a_version a, \<not> list_ex (\<lambda>w. w_slug w = a_slug a) (worker_table (staff st))]"

definition backfill_record :: "active_row \<Rightarrow> (string \<times> pyval) list \<Rightarrow> (string \<times> pyval) list" where
  "backfill_record a metadata = fold (\<lambda>(k, v). AList.update k v)
     [(''slug'', PyStr (a_slug a)), (''display_name'', PyStr (if a_name a \<noteq> [] then a_name a else a_slug a)),
      (''division'', PyStr (if a_division a \<noteq> [] then a_division a else ''specialized'')),
      (''description'', PyStr (a_description a)), (''version'', PyStr (a_version a)), (''version_hash'', PyStr (a_hash a)),
      (''origin'', PyStr ''upstream''), (''employment'', PyStr ''employee''), (''enabled'', PyBool True)] metadata"

definition backfill_row :: "(string \<Rightarrow> py_float) \<Rightarrow> string \<Rightarrow> active_row \<times> version_row \<Rightarrow> hiring_store
    \<Rightarrow> (hiring_store \<times> bool) res" where
  "backfill_row to_float now = (\<lambda>(a, v) st.
     bind_res (decoded to_float (v_metadata v)) (\<lambda>metadata.
     bind_res (project_workforce_contract [] ''upstream'' (backfill_record a metadata)) (\<lambda>contract.
     synchronize_active_workforce_worker now
       \<lparr>n_slug = PyStr (a_slug a), n_name = (if a_name a \<noteq> [] then a_name a else a_slug a), n_origin = PyStr ''upstream'',
        n_class = PyStr ''employee'', n_version_id = v_id v, n_version = a_version a, n_hash = a_hash a,
        n_contract = json_dumps (contract_json contract)\<rparr> st)))"

fun backfill_rows :: "(string \<Rightarrow> py_float) \<Rightarrow> string \<Rightarrow> (active_row \<times> version_row) list \<Rightarrow> nat \<Rightarrow> hiring_store
    \<Rightarrow> (hiring_store \<times> nat) res" where
  "backfill_rows to_float now [] created st = Inr (st, created)"
| "backfill_rows to_float now (row # rows) created st = bind_res (backfill_row to_float now row st) (\<lambda>(st', added).
     backfill_rows to_float now rows (if added then created + 1 else created) st')"

definition backfill_workforce_identity :: "(string \<Rightarrow> py_float) \<Rightarrow> string \<Rightarrow> hiring_store \<Rightarrow> (hiring_store \<times> nat) res" where
  "backfill_workforce_identity to_float now st =
     bind_res (backfill_rows to_float now (unemployed st) 0 st) (\<lambda>(st', created).
     Inr (st'\<lparr>staff := (staff st')\<lparr>roster_counter := roster_counter (staff st') + int created\<rparr>\<rparr>, created))"

end
