(* ===== verification/Revision_Metadata.thy ===== *)
theory Revision_Metadata
  imports Workforce_Store Worker_Identity Capability_Ontology Json_Roundtrip
begin

text \<open>
  \<open>core/roster/revisions.py\<close>: the metadata of a prompt revision that a rollback restores, its
  serialised form, the immutable version derived from content and metadata, and the decoder.
\<close>

section \<open>Fields\<close>

definition legacy_scalar_fields :: "string list" where
  "legacy_scalar_fields = [''name'', ''division'', ''description'', ''source'', ''prompt_path'']"

definition routing_scalar_fields :: "string list" where
  "routing_scalar_fields = [''authority'', ''context_mode'', ''independence_group'', ''expected_output_contract'',
     ''source_revision'', ''source_content_hash'', ''audit_revision'', ''audit_status'']"

definition legacy_list_fields :: "string list" where
  "legacy_list_fields = [''categories'', ''capabilities'', ''tool_affinity'']"

definition routing_list_fields :: "string list" where
  "routing_list_fields = [''anti_capabilities'', ''task_types'', ''preferred_when'', ''avoid_when'', ''required_tools'',
     ''optional_tools'', ''supported_hosts'', ''supported_platforms'', ''conflicts_with'', ''requires'',
     ''evidence_requirements'', ''model_requirements'', ''findings'']"

definition max_metadata_bytes :: nat where "max_metadata_bytes = 1024 * 1024"


section \<open>Identities\<close>

definition content_digest :: "pyval \<Rightarrow> string" where
  "content_digest content = sha256_hex (utf8 (str_or_empty content))"

definition content_identity_matches :: "pyval \<Rightarrow> pyval \<Rightarrow> bool" where
  "content_identity_matches content identity = (case content_digest_identity (str_or_empty identity) of
     None \<Rightarrow> True
   | Some digest \<Rightarrow> content_digest content = digest)"

definition is_revision :: "string \<Rightarrow> bool" where
  "is_revision s = (take 7 s = ''sha256:'' \<and> length (drop 7 s) = 64 \<and> list_all is_hex (drop 7 s))"

definition source_version :: "(string \<times> pyval) list \<Rightarrow> string" where
  "source_version agent = (let explicit = strip (str_or_empty (py_get agent ''source_version''));
       supplied = strip (str_or_empty (py_get agent ''version'')) in
     if explicit \<noteq> [] then explicit
     else if supplied \<noteq> [] \<and> \<not> is_revision supplied then supplied else ''1.0.0'')"


section \<open>Metadata\<close>

definition list_metadata :: "pyval \<Rightarrow> pyval" where
  "list_metadata raw = PyList (case raw of
     PyList xs \<Rightarrow> map PyStr (filter (\<lambda>s. s \<noteq> []) (map py_str xs))
   | PyTuple xs \<Rightarrow> map PyStr (filter (\<lambda>s. s \<noteq> []) (map py_str xs))
   | PyStr s \<Rightarrow> (if s \<noteq> [] then [PyStr s] else [])
   | _ \<Rightarrow> [])"

text \<open>Every field, and the fields that are kept\<close>

definition complete_metadata :: "(string \<times> pyval) list \<Rightarrow> (string \<times> pyval) list" where
  "complete_metadata agent =
     map (\<lambda>k. (k, PyStr (str_or_empty (py_get agent k)))) (legacy_scalar_fields @ routing_scalar_fields)
     @ [(''source_version'', PyStr (source_version agent))]
     @ map (\<lambda>k. (k, list_metadata (py_get agent k))) (legacy_list_fields @ routing_list_fields)"

definition revision_metadata :: "(string \<times> pyval) list \<Rightarrow> (string \<times> pyval) list" where
  "revision_metadata agent = filter (\<lambda>p. p \<noteq> (''optional_tools'', PyList [])) (complete_metadata agent)"

text \<open>\<open>json.dumps(value, sort_keys=True, separators=(",", ":"), allow_nan=False)\<close> of strings, lists and dictionaries\<close>

definition ascii_dumps :: "pyval \<Rightarrow> string" where
  "ascii_dumps v = plain_text ascii_char (sorted_value v)"

definition serialized_revision_metadata :: "(string \<times> pyval) list \<Rightarrow> string" where
  "serialized_revision_metadata agent = ascii_dumps (PyDict (revision_metadata agent))"

definition revision_identity :: "(string \<times> pyval) list \<Rightarrow> (string \<times> pyval) list" where
  "revision_identity agent = [(''content_hash'', PyStr (py_str (py_or (py_get agent ''hash'')
       (PyStr (content_digest (py_get agent ''content'')))))),
     (''metadata'', PyDict (revision_metadata agent))]"

definition immutable_revision_version :: "(string \<times> pyval) list \<Rightarrow> string" where
  "immutable_revision_version agent = ''sha256:'' @ content_digest (PyStr (ascii_dumps (PyDict (revision_identity agent))))"


section \<open>The decoder\<close>

fun is_text :: "pyval \<Rightarrow> bool" where
  "is_text (PyStr s) = True"
| "is_text v = False"

fun is_texts :: "pyval \<Rightarrow> bool" where
  "is_texts (PyList xs) = list_all is_text xs"
| "is_texts v = False"

definition read_metadata :: "(string \<times> pyval) list \<Rightarrow> (string \<times> pyval) list option" where
  "read_metadata parsed =
     (if \<not> set (legacy_scalar_fields @ [''source_version'']) \<subseteq> fst ` set parsed then None
      else if \<not> list_all (\<lambda>k. is_text (py_get parsed k)) legacy_scalar_fields then None
      else if \<not> is_text (py_get parsed ''source_version'') then None
      else if \<not> list_all (\<lambda>k. is_texts (py_get parsed k)) legacy_list_fields then None
      else if \<not> list_all (\<lambda>k. is_text (get_or parsed k (PyStr []))) routing_scalar_fields then None
      else if \<not> list_all (\<lambda>k. is_texts (get_or parsed k (PyList []))) routing_list_fields then None
      else Some (map (\<lambda>k. (k, py_get parsed k)) (legacy_scalar_fields @ [''source_version''] @ legacy_list_fields)
        @ map (\<lambda>k. (k, get_or parsed k (PyStr []))) routing_scalar_fields
        @ map (\<lambda>k. (k, get_or parsed k (PyList []))) routing_list_fields))"

definition decode_revision_metadata :: "(string \<Rightarrow> py_float) \<Rightarrow> pyval \<Rightarrow> (string \<times> pyval) list option" where
  "decode_revision_metadata to_float v =
     (case safe_load_bounded_json to_float (py_or v (PyStr ''{}'')) (PyInt (int max_metadata_bytes)) (PyInt 8) (PyInt 1000) of
        Inr (PyDict parsed) \<Rightarrow> read_metadata parsed
      | _ \<Rightarrow> None)"

end
