(* ===== verification/Package_Repair.thy ===== *)
theory Package_Repair
  imports Roster_Seam Revision_Metadata
begin

text \<open>
  The repair of packaged workers in \<open>core/store/workforce.py\<close>: \<open>reconcile_packaged_workforce_contracts\<close>
  projects the recruitment contract of every active worker that is an exact packaged revision again,
  and \<open>packaged_workforce_divergence\<close> reports the others. What the package ships is an argument:
  the records of the bundled roster and of the known contractors, and the metadata identities of
  superseded contractor packages (\<open>histories\<close>).
\<close>

section \<open>Authorities\<close>

type_synonym agent_record = "(string \<times> pyval) list"

type_synonym authorities = "(string \<times> agent_record \<times> string) list"

fun add_bundled :: "authorities \<Rightarrow> agent_record list \<Rightarrow> authorities res" where
  "add_bundled authorities [] = Inr authorities"
| "add_bundled authorities (agent # agents) = bind_res (dict_get agent ''slug'') (\<lambda>v.
     add_bundled (AList.update (py_str v) (agent, ''upstream'') authorities) agents)"

fun add_contractors :: "authorities \<Rightarrow> agent_record list \<Rightarrow> authorities res" where
  "add_contractors authorities [] = Inr authorities"
| "add_contractors authorities (agent # agents) = bind_res (dict_get agent ''slug'') (\<lambda>v.
     let slug = py_str v in
     bind_res (raise_if (slug \<in> fst ` set authorities)
       (RuntimeError (''packaged workforce identity collision: '' @ slug))) (\<lambda>_.
     add_contractors (AList.update slug (agent, ''agency'') authorities) agents))"

definition packaged_workforce_authorities :: "agent_record list \<Rightarrow> agent_record list \<Rightarrow> authorities res" where
  "packaged_workforce_authorities bundled contractors =
     bind_res (add_bundled [] bundled) (\<lambda>authorities. add_contractors authorities contractors)"


section \<open>The revisions under repair\<close>

text \<open>\<open>agent_recruitment_contract_projections\<close>, the store with that table, and a row of the query\<close>

record projection_row =
  j_sequence :: int
  j_worker :: string
  j_version :: string
  j_parent :: string
  j_contract :: string
  j_hash :: string

record package_store =
  hired :: hiring_store
  projections :: "projection_row list"

record packaged_row =
  pr_worker :: worker_row
  pr_version :: version_row
  pr_contract :: string
  pr_hash :: string

text \<open>The projection of the current revision with the greatest sequence\<close>

definition latest_projection :: "projection_row list \<Rightarrow> worker_row \<Rightarrow> projection_row option" where
  "latest_projection ps w = fold (\<lambda>p best.
     if j_worker p = w_id w \<and> j_version p = w_version_id w
       \<and> (case best of None \<Rightarrow> True | Some q \<Rightarrow> j_sequence q < j_sequence p) then Some p else best) ps None"

definition packaged_row_of :: "projection_row list \<Rightarrow> worker_row \<Rightarrow> version_row \<Rightarrow> lineage_row \<Rightarrow> packaged_row" where
  "packaged_row_of ps w v l = (case latest_projection ps w of
     None \<Rightarrow> \<lparr>pr_worker = w, pr_version = v, pr_contract = l_contract l, pr_hash = l_hash l\<rparr>
   | Some p \<Rightarrow> \<lparr>pr_worker = w, pr_version = v, pr_contract = j_contract p, pr_hash = j_hash p\<rparr>)"

text \<open>\<open>_PACKAGED_WORKFORCE_REVISION_QUERY\<close>: the active workers by slug, each joined with its current version and lineage\<close>

definition current_revisions :: "hiring_store \<Rightarrow> (worker_row \<times> version_row \<times> lineage_row) list" where
  "current_revisions st = [(w, v, l).
     w \<leftarrow> sort_key w_slug (filter (\<lambda>w. w_standing w = Active) (worker_table (staff st))),
     v \<leftarrow> version_table st, v_id v = w_version_id w,
     l \<leftarrow> lineage_table st, l_worker l = w_id w \<and> l_version l = w_version_id w]"

definition packaged_rows :: "package_store \<Rightarrow> packaged_row list" where
  "packaged_rows st = map (\<lambda>(w, v, l). packaged_row_of (projections st) w v l) (current_revisions (hired st))"

definition exact_packaged_revision :: "(string \<Rightarrow> string list) \<Rightarrow> packaged_row \<Rightarrow> agent_record \<Rightarrow> bool" where
  "exact_packaged_revision histories row agent =
     (let w = pr_worker row; v = pr_version row;
          expected = serialized_revision_metadata agent #
            (if casefold (strip (str_or_empty (py_get agent ''origin''))) = ''agency''
             then histories (str_or_empty (py_get agent ''slug'')) else []) in
      w_version w = str_or_empty (py_get agent ''version'')
      \<and> w_hash w = str_or_empty (py_get agent ''hash'')
      \<and> v_id v = w_version_id w
      \<and> v_version v = str_or_empty (py_get agent ''version'')
      \<and> v_hash v = str_or_empty (py_get agent ''hash'')
      \<and> v_content v = str_or_empty (py_or (py_get agent ''prompt_body'') (py_get agent ''content''))
      \<and> v_metadata v \<in> set expected)"


section \<open>Divergence\<close>

record divergence =
  dv_slug :: string
  dv_reason :: string
  dv_expected_origin :: string
  dv_actual_origin :: string
  dv_expected_version :: string
  dv_actual_version :: string

definition packaged_divergence :: "(string \<Rightarrow> string list) \<Rightarrow> authorities \<Rightarrow> packaged_row \<Rightarrow> divergence option" where
  "packaged_divergence histories authorities row =
     (let w = pr_worker row in
      case map_of authorities (w_slug w) of
        None \<Rightarrow> None
      | Some (agent, expected_origin) \<Rightarrow>
          let report = (\<lambda>reason_text. \<lparr>dv_slug = w_slug w, dv_reason = reason_text, dv_expected_origin = expected_origin,
            dv_actual_origin = w_origin w, dv_expected_version = str_or_empty (py_get agent ''version''),
            dv_actual_version = w_version w\<rparr>) in
          if w_origin w \<noteq> expected_origin then Some (report ''origin_drift'')
          else if \<not> exact_packaged_revision histories row agent then Some (report ''revision_modified'')
          else None)"

definition packaged_workforce_divergence :: "(string \<Rightarrow> string list) \<Rightarrow> authorities \<Rightarrow> string \<Rightarrow> package_store
    \<Rightarrow> divergence list" where
  "packaged_workforce_divergence histories authorities agent_slug st =
     sort_key dv_slug (List.map_filter (packaged_divergence histories authorities)
       (filter (\<lambda>row. agent_slug = [] \<or> w_slug (pr_worker row) = agent_slug) (packaged_rows st)))"


section \<open>Repair\<close>

text \<open>\<open>_workforce_hash_matches_version\<close>\<close>

definition hash_matches :: "string \<Rightarrow> string \<Rightarrow> bool" where
  "hash_matches stored other = (without_prefix stored = without_prefix other)"

text \<open>The stored contract as the repair reads it\<close>

definition stored_contract :: "(string \<Rightarrow> py_float) \<Rightarrow> string \<Rightarrow> string \<Rightarrow> workforce_contract res" where
  "stored_contract to_float slug document =
     (let invalid = Inl (RuntimeError (''stored workforce recruitment contract is invalid: '' @ slug)) in
      case load_evidence to_float document of
        Inl e \<Rightarrow> invalid
      | Inr v \<Rightarrow> (case parse_workforce_contract v of
          Inl (ValueError m) \<Rightarrow> invalid
        | Inl (TypeError m) \<Rightarrow> invalid
        | Inl e \<Rightarrow> Inl e
        | Inr c \<Rightarrow> Inr c))"

definition identifies :: "worker_row \<Rightarrow> workforce_contract \<Rightarrow> bool" where
  "identifies w c = (worker_id c = w_id w \<and> agent_id c = w_slug w \<and> version c = w_version w
     \<and> hash_matches (version_hash c) (w_hash w))"

definition package_record :: "worker_row \<Rightarrow> agent_record \<Rightarrow> agent_record" where
  "package_record w agent = fold (\<lambda>(k, v). AList.update k v)
     [(''worker_id'', PyStr (w_id w)), (''origin'', PyStr (w_origin w)), (''employment'', PyStr (class_text (w_class w))),
      (''enabled'', PyBool True), (''version'', PyStr (w_version w)), (''version_hash'', PyStr (w_hash w))] agent"

definition package_document :: "worker_row \<Rightarrow> agent_record \<Rightarrow> string res" where
  "package_document w agent =
     bind_res (project_workforce_contract [] (w_origin w) (package_record w agent)) (\<lambda>projected.
     Inr (json_dumps (contract_json projected)))"

definition reprojected_event :: "worker_row \<Rightarrow> string \<Rightarrow> event_row" where
  "reprojected_event w evidence = \<lparr>e_sequence = 0, e_worker = w_id w, e_type = ''recruitment_contract_reprojected'',
     e_from_class = class_text (w_class w), e_to_class = class_text (w_class w), e_from_standing = standing_text (w_standing w),
     e_to_standing = standing_text (w_standing w), e_version = w_version w, e_merged = None, e_case = None,
     e_actor = ''agency-runtime'', e_surface = ''package-upgrade'',
     e_reason = ''derived recruitment contract projection changed'', e_evidence = evidence\<rparr>"

text \<open>What the pass over the rows carries: the store, the last sequence, and the three results\<close>

record repair_state =
  rp_store :: package_store
  rp_sequence :: int
  rp_inspected :: nat
  rp_updated :: nat
  rp_divergent :: "divergence list"

definition new_projection :: "packaged_row \<Rightarrow> string \<Rightarrow> int \<Rightarrow> projection_row" where
  "new_projection row document sequence = \<lparr>j_sequence = sequence, j_worker = w_id (pr_worker row),
     j_version = w_version_id (pr_worker row), j_parent = pr_hash row, j_contract = document,
     j_hash = document_hash document\<rparr>"

definition replace_contract :: "packaged_row \<Rightarrow> string \<Rightarrow> repair_state \<Rightarrow> repair_state res" where
  "replace_contract row document rs =
     (let w = pr_worker row; sequence = rp_sequence rs + 1; st = rp_store rs in
      bind_res (document_text ''evidence'' [(''from_contract_hash'', PyStr (pr_hash row)),
        (''to_contract_hash'', PyStr (document_hash document)), (''version_hash'', PyStr (w_hash w))]) (\<lambda>evidence.
      Inr (rs\<lparr>rp_store := \<lparr>hired = note_event (reprojected_event w evidence) (hired st),
          projections = projections st @ [new_projection row document sequence]\<rparr>,
        rp_sequence := sequence, rp_updated := rp_updated rs + 1\<rparr>)))"

definition repair_row :: "(string \<Rightarrow> py_float) \<Rightarrow> (string \<Rightarrow> string list) \<Rightarrow> authorities \<Rightarrow> packaged_row \<Rightarrow> repair_state
    \<Rightarrow> repair_state res" where
  "repair_row to_float histories authorities row rs =
     (let w = pr_worker row in
      case map_of authorities (w_slug w) of
        None \<Rightarrow> Inr rs
      | Some (agent, expected_origin) \<Rightarrow> (case packaged_divergence histories authorities row of
          Some dv \<Rightarrow> Inr (rs\<lparr>rp_divergent := rp_divergent rs @ [dv]\<rparr>)
        | None \<Rightarrow>
            bind_res (raise_if (document_hash (pr_contract row) \<noteq> pr_hash row)
              (RuntimeError (''stored workforce recruitment contract hash is invalid: '' @ w_slug w))) (\<lambda>_.
            bind_res (stored_contract to_float (w_slug w) (pr_contract row)) (\<lambda>current.
            bind_res (raise_if (\<not> identifies w current)
              (RuntimeError (''stored workforce recruitment contract identity is invalid: '' @ w_slug w))) (\<lambda>_.
            bind_res (package_document w agent) (\<lambda>document.
            let rs1 = rs\<lparr>rp_inspected := rp_inspected rs + 1\<rparr> in
            if document = pr_contract row \<and> document_hash document = pr_hash row then Inr rs1
            else replace_contract row document rs1))))))"

fun repair_rows :: "(string \<Rightarrow> py_float) \<Rightarrow> (string \<Rightarrow> string list) \<Rightarrow> authorities \<Rightarrow> packaged_row list \<Rightarrow> repair_state
    \<Rightarrow> repair_state res" where
  "repair_rows to_float histories authorities [] rs = Inr rs"
| "repair_rows to_float histories authorities (row # rows) rs =
     bind_res (repair_row to_float histories authorities row rs) (repair_rows to_float histories authorities rows)"

definition reconcile_packaged_workforce_contracts :: "(string \<Rightarrow> py_float) \<Rightarrow> (string \<Rightarrow> string list) \<Rightarrow> authorities
    \<Rightarrow> package_store \<Rightarrow> (package_store \<times> nat \<times> nat \<times> divergence list) res" where
  "reconcile_packaged_workforce_contracts to_float histories authorities st =
     bind_res (repair_rows to_float histories authorities (packaged_rows st)
       \<lparr>rp_store = st, rp_sequence = foldr max (map j_sequence (projections st)) 0, rp_inspected = 0, rp_updated = 0,
        rp_divergent = []\<rparr>) (\<lambda>rs.
     let st1 = rp_store rs in
     Inr (if rp_updated rs = 0 then st1
       else st1\<lparr>hired := (hired st1)\<lparr>staff := bump_roster (staff (hired st1))\<rparr>\<rparr>,
       rp_inspected rs, rp_updated rs, sort_key dv_slug (rp_divergent rs)))"

end
