(* ===== verification/Package_Effect.thy ===== *)
theory Package_Effect
  imports Package_Repair
begin

text \<open>
  What a repair of packaged contracts does: which of four things happens to a row, which events and
  projections the pass adds, and which contract is in effect afterwards.
\<close>

section \<open>One row\<close>

text \<open>The record of the package for an exact packaged revision\<close>

definition package_agent :: "(string \<Rightarrow> string list) \<Rightarrow> authorities \<Rightarrow> packaged_row \<Rightarrow> agent_record option" where
  "package_agent histories authorities row = (case map_of authorities (w_slug (pr_worker row)) of
     None \<Rightarrow> None
   | Some (agent, expected_origin) \<Rightarrow>
       if packaged_divergence histories authorities row = None then Some agent else None)"

definition adds_projection :: "packaged_row \<Rightarrow> string \<Rightarrow> repair_state \<Rightarrow> repair_state \<Rightarrow> bool" where
  "adds_projection row document rs rs' = (\<exists>evidence. rs' = rs\<lparr>rp_inspected := rp_inspected rs + 1,
     rp_store := \<lparr>hired = note_event (reprojected_event (pr_worker row) evidence) (hired (rp_store rs)),
       projections = projections (rp_store rs) @ [new_projection row document (rp_sequence rs + 1)]\<rparr>,
     rp_sequence := rp_sequence rs + 1, rp_updated := rp_updated rs + 1\<rparr>)"

lemma repair_row_cases [consumes 1, case_names foreign divergent kept replaced]:
  assumes "repair_row f histories authorities row rs = Inr rs'"
  obtains "map_of authorities (w_slug (pr_worker row)) = None" and "rs' = rs"
  | dv where "packaged_divergence histories authorities row = Some dv" and "rs' = rs\<lparr>rp_divergent := rp_divergent rs @ [dv]\<rparr>"
  | agent where "package_agent histories authorities row = Some agent"
      and "package_document (pr_worker row) agent = Inr (pr_contract row)" and "pr_hash row = document_hash (pr_contract row)"
      and "rs' = rs\<lparr>rp_inspected := rp_inspected rs + 1\<rparr>"
  | agent document where "package_agent histories authorities row = Some agent"
      and "package_document (pr_worker row) agent = Inr document" and "adds_projection row document rs rs'"
proof (cases "map_of authorities (w_slug (pr_worker row))")
  case None
  then show ?thesis using that(1) assms by (simp add: repair_row_def)
next
  case (Some a)
  obtain agent expected where a: "a = (agent, expected)" by fastforce
  show ?thesis
  proof (cases "packaged_divergence histories authorities row")
    case (Some dv)
    then show ?thesis using that(2) assms \<open>map_of _ _ = _\<close> by (simp add: repair_row_def a)
  next
    case None
    then have agent: "package_agent histories authorities row = Some agent" using Some by (simp add: package_agent_def a)
    let ?rs = "rs\<lparr>rp_inspected := Suc (rp_inspected rs)\<rparr>"
    obtain document where hash: "document_hash (pr_contract row) = pr_hash row"
      and document: "package_document (pr_worker row) agent = Inr document"
      and last: "(if document = pr_contract row \<and> document_hash document = pr_hash row then Inr ?rs
        else replace_contract row document ?rs) = Inr rs'"
      using assms None Some by (auto simp: repair_row_def a Let_def res_simps split del: if_split)
    show ?thesis
    proof (cases "document = pr_contract row")
      case True
      then show ?thesis using that(3) [OF agent] document hash last by simp
    next
      case False
      then have "adds_projection row document rs rs'" using last by (auto simp: replace_contract_def adds_projection_def Let_def res_simps)
      then show ?thesis using that(4) [OF agent document] by blast
    qed
  qed
qed


section \<open>Events and projections\<close>

lemma repair_rows_store:
  assumes "repair_rows f histories authorities rows rs = Inr rs'"
  shows "\<exists>es ps. hired (rp_store rs') = fold note_event es (hired (rp_store rs))
    \<and> projections (rp_store rs') = projections (rp_store rs) @ ps
    \<and> e_worker ` set es \<subseteq> (w_id \<circ> pr_worker) ` set rows
    \<and> rp_updated rs' = rp_updated rs + length ps \<and> length es = length ps"
  using assms
proof (induction rows arbitrary: rs)
  case Nil
  then show ?case by (intro exI [of _ "[]"]) simp
next
  case (Cons row rows)
  from Cons.prems obtain rs1 where row: "repair_row f histories authorities row rs = Inr rs1"
    and rest: "repair_rows f histories authorities rows rs1 = Inr rs'" by (auto simp: res_simps)
  from Cons.IH [OF rest] obtain es ps where tail: "hired (rp_store rs') = fold note_event es (hired (rp_store rs1))"
      "projections (rp_store rs') = projections (rp_store rs1) @ ps" "e_worker ` set es \<subseteq> (w_id \<circ> pr_worker) ` set rows"
      "rp_updated rs' = rp_updated rs1 + length ps" "length es = length ps" by blast
  from row show ?case
  proof (cases rule: repair_row_cases)
    case (replaced agent document)
    then obtain evidence where rs1: "hired (rp_store rs1) = note_event (reprojected_event (pr_worker row) evidence) (hired (rp_store rs))"
      "projections (rp_store rs1) = projections (rp_store rs) @ [new_projection row document (rp_sequence rs + 1)]"
      "rp_updated rs1 = rp_updated rs + 1" by (auto simp: adds_projection_def)
    show ?thesis using tail
      by (intro exI [of _ "reprojected_event (pr_worker row) evidence # es"]
          exI [of _ "new_projection row document (rp_sequence rs + 1) # ps"]) (auto simp: rs1 reprojected_event_def)
  qed (use tail in \<open>auto intro!: exI [of _ es] exI [of _ ps]\<close>)
qed

text \<open>What the pass counts and reports\<close>

lemma repair_rows_reports:
  assumes "repair_rows f histories authorities rows rs = Inr rs'"
  shows "rp_inspected rs' = rp_inspected rs + length (filter (\<lambda>row. package_agent histories authorities row \<noteq> None) rows)
    \<and> rp_divergent rs' = rp_divergent rs @ List.map_filter (packaged_divergence histories authorities) rows"
  using assms
proof (induction rows arbitrary: rs)
  case (Cons row rows)
  from Cons.prems obtain rs1 where row: "repair_row f histories authorities row rs = Inr rs1"
    and rest: "repair_rows f histories authorities rows rs1 = Inr rs'" by (auto simp: res_simps)
  from row Cons.IH [OF rest] show ?case
    by (cases rule: repair_row_cases)
      (auto simp: package_agent_def map_filter_simps packaged_divergence_def adds_projection_def Let_def split: option.splits if_splits)
qed (simp add: map_filter_simps)


section \<open>The contract in effect\<close>

text \<open>A projection that carries what the package projects for the worker\<close>

definition packaged_projection :: "authorities \<Rightarrow> worker_row \<Rightarrow> projection_row \<Rightarrow> bool" where
  "packaged_projection authorities w p = (\<exists>agent origin_text. map_of authorities (w_slug w) = Some (agent, origin_text)
     \<and> package_document w agent = Inr (j_contract p) \<and> j_hash p = document_hash (j_contract p))"

lemma latest_append:
  assumes "\<forall>q\<in>set ps. j_sequence q < j_sequence p"
  shows "latest_projection (ps @ [p]) w =
    (if j_worker p = w_id w \<and> j_version p = w_version_id w then Some p else latest_projection ps w)"
proof -
  have "\<exists>p\<in>set ps. fold (\<lambda>p best. if j_worker p = w_id w \<and> j_version p = w_version_id w
       \<and> (case best of None \<Rightarrow> True | Some q \<Rightarrow> j_sequence q < j_sequence p) then Some p else best) ps b = Some p
     \<or> fold (\<lambda>p best. if j_worker p = w_id w \<and> j_version p = w_version_id w
       \<and> (case best of None \<Rightarrow> True | Some q \<Rightarrow> j_sequence q < j_sequence p) then Some p else best) ps b = b"
    if "ps \<noteq> []" for ps b
    using that by (induction ps arbitrary: b rule: rev_nonempty_induct) auto
  then have "latest_projection ps w = None \<or> (\<exists>q\<in>set ps. latest_projection ps w = Some q)"
    unfolding latest_projection_def by (cases "ps = []") fastforce+
  then show ?thesis using assms by (auto simp: latest_projection_def)
qed

text \<open>The invariant of the pass: sequences grow, and the projection in effect is the old one or the package's\<close>

definition repair_inv :: "(string \<Rightarrow> string list) \<Rightarrow> authorities \<Rightarrow> package_store \<Rightarrow> packaged_row set \<Rightarrow> repair_state \<Rightarrow> bool" where
  "repair_inv histories authorities st rows rs = ((\<forall>q\<in>set (projections (rp_store rs)). j_sequence q \<le> rp_sequence rs)
     \<and> (\<forall>w\<in>pr_worker ` rows. latest_projection (projections (rp_store rs)) w = latest_projection (projections st) w
       \<or> (\<exists>p. latest_projection (projections (rp_store rs)) w = Some p \<and> packaged_projection authorities w p
         \<and> (\<exists>row\<in>rows. pr_worker row = w \<and> package_agent histories authorities row \<noteq> None))))"

text \<open>A row whose package contract is in effect, or was before the pass\<close>

definition row_done :: "authorities \<Rightarrow> packaged_row \<Rightarrow> repair_state \<Rightarrow> bool" where
  "row_done authorities row rs = ((\<exists>p. latest_projection (projections (rp_store rs)) (pr_worker row) = Some p
       \<and> packaged_projection authorities (pr_worker row) p)
     \<or> (\<exists>agent origin_text. map_of authorities (w_slug (pr_worker row)) = Some (agent, origin_text)
       \<and> package_document (pr_worker row) agent = Inr (pr_contract row) \<and> pr_hash row = document_hash (pr_contract row)))"

lemma repair_row_effect:
  assumes row: "repair_row f histories authorities row rs = Inr rs'" and inv: "repair_inv histories authorities st R rs"
    and known: "row \<in> R" and ids: "inj_on w_id (pr_worker ` R)"
  shows "repair_inv histories authorities st R rs'"
    and "package_agent histories authorities row \<noteq> None \<Longrightarrow> row_done authorities row rs'"
    and "r \<in> R \<Longrightarrow> row_done authorities r rs \<Longrightarrow> row_done authorities r rs'"
proof -
  have agent: "\<exists>origin_text. map_of authorities (w_slug (pr_worker row)) = Some (agent, origin_text)"
    if "package_agent histories authorities row = Some agent" for agent
    using that by (auto simp: package_agent_def split: option.splits if_splits)
  have "repair_inv histories authorities st R rs' \<and> (package_agent histories authorities row \<noteq> None \<longrightarrow> row_done authorities row rs')
    \<and> (r \<in> R \<longrightarrow> row_done authorities r rs \<longrightarrow> row_done authorities r rs')"
    using row
  proof (cases rule: repair_row_cases)
    case (replaced a document)
    let ?p = "new_projection row document (rp_sequence rs + 1)"
    have ps: "projections (rp_store rs') = projections (rp_store rs) @ [?p]" "rp_sequence rs' = rp_sequence rs + 1"
      using replaced(3) by (auto simp: adds_projection_def)
    have less: "\<forall>q\<in>set (projections (rp_store rs)). j_sequence q < j_sequence ?p"
      using inv by (auto simp: repair_inv_def new_projection_def)
    have latest: "latest_projection (projections (rp_store rs')) w =
        (if w = pr_worker row then Some ?p else latest_projection (projections (rp_store rs)) w)" if "w \<in> pr_worker ` R" for w
      using latest_append [OF less] that known ids by (auto simp: ps new_projection_def dest: inj_onD)
    have good: "packaged_projection authorities (pr_worker row) ?p"
      using agent [OF replaced(1)] replaced(2) by (auto simp: packaged_projection_def new_projection_def)
    have "\<forall>q\<in>set (projections (rp_store rs')). j_sequence q \<le> rp_sequence rs'"
      using less by (auto simp: ps new_projection_def)
    moreover have "latest_projection (projections (rp_store rs')) w = latest_projection (projections st) w
       \<or> (\<exists>p. latest_projection (projections (rp_store rs')) w = Some p \<and> packaged_projection authorities w p
         \<and> (\<exists>row\<in>R. pr_worker row = w \<and> package_agent histories authorities row \<noteq> None))" if "w \<in> pr_worker ` R" for w
      using that inv good known replaced(1) by (cases "w = pr_worker row") (auto simp: latest repair_inv_def)
    ultimately have "repair_inv histories authorities st R rs'" unfolding repair_inv_def by blast
    moreover have "row_done authorities row rs'" using latest [of "pr_worker row"] known good by (simp add: row_done_def)
    moreover have "row_done authorities r rs'" if "r \<in> R" "row_done authorities r rs"
      using that good by (auto simp: row_done_def latest)
    ultimately show ?thesis by blast
  next
    case (kept a)
    then have "row_done authorities row rs'" using agent by (fastforce simp: row_done_def)
    with inv kept(4) show ?thesis by (simp add: repair_inv_def row_done_def)
  qed (use inv in \<open>auto simp: repair_inv_def row_done_def package_agent_def split: option.splits\<close>)
  then show "repair_inv histories authorities st R rs'"
    and "package_agent histories authorities row \<noteq> None \<Longrightarrow> row_done authorities row rs'"
    and "r \<in> R \<Longrightarrow> row_done authorities r rs \<Longrightarrow> row_done authorities r rs'"
    by blast+
qed

lemma repair_rows_effect:
  assumes "repair_rows f histories authorities rows rs = Inr rs'" and "repair_inv histories authorities st R rs"
    and "set rows \<subseteq> R" and "inj_on w_id (pr_worker ` R)"
  shows "repair_inv histories authorities st R rs'
    \<and> (\<forall>row\<in>set rows. package_agent histories authorities row \<noteq> None \<longrightarrow> row_done authorities row rs')
    \<and> (\<forall>row\<in>R. row_done authorities row rs \<longrightarrow> row_done authorities row rs')"
  using assms
proof (induction rows arbitrary: rs)
  case (Cons row rows)
  from Cons.prems(1) obtain rs1 where row: "repair_row f histories authorities row rs = Inr rs1"
    and rest: "repair_rows f histories authorities rows rs1 = Inr rs'" by (auto simp: res_simps)
  have known: "row \<in> R" using Cons.prems(3) by simp
  note effect = repair_row_effect [OF row Cons.prems(2) known Cons.prems(4)]
  have "set rows \<subseteq> R" using Cons.prems(3) by simp
  from Cons.IH [OF rest effect(1) this Cons.prems(4)] effect(2,3) known show ?case by auto
qed simp


section \<open>The whole repair\<close>

definition only_noted :: "hiring_store \<Rightarrow> hiring_store \<Rightarrow> bool" where
  "only_noted h h' = (\<exists>es. h' = h\<lparr>staff := (staff h)\<lparr>worker_events := worker_events (staff h) @ es\<rparr>\<rparr>)"

lemma only_notedD:
  assumes "only_noted h h'"
  shows "worker_table (staff h') = worker_table (staff h)" and "performance (staff h') = performance (staff h)"
    and "roster_counter (staff h') = roster_counter (staff h)" and "case_table h' = case_table h"
    and "lineage_table h' = lineage_table h" and "version_table h' = version_table h"
    and "active_table h' = active_table h" and "category_table h' = category_table h"
    and "prefix (worker_events (staff h)) (worker_events (staff h'))"
  using assms by (auto simp: only_noted_def)

lemma only_noted_refl: "only_noted h h"
  unfolding only_noted_def by (rule exI [of _ "[]"]) simp

lemma only_noted_event: "only_noted h (note_event e h)"
  by (auto simp: only_noted_def note_event_def record_worker_event_def)

lemma only_noted_trans: "only_noted g h \<Longrightarrow> only_noted h k \<Longrightarrow> only_noted g k"
  by (auto simp: only_noted_def)

lemma only_noted_events: "only_noted h (fold note_event es h)"
proof (induction es arbitrary: h)
  case (Cons e es)
  show ?case using only_noted_trans [OF only_noted_event Cons.IH] by simp
qed (simp add: only_noted_refl)

lemma noted_events:
  "\<exists>es'. length es' = length es \<and> fold note_event es h = h\<lparr>staff := (staff h)\<lparr>worker_events := worker_events (staff h) @ es'\<rparr>\<rparr>"
proof (induction es arbitrary: h)
  case Nil
  show ?case by (intro exI [of _ "[]"]) simp
next
  case (Cons e es)
  obtain e' where first: "note_event e h = h\<lparr>staff := (staff h)\<lparr>worker_events := worker_events (staff h) @ [e']\<rparr>\<rparr>"
    by (auto simp: note_event_def record_worker_event_def)
  obtain es' where "length es' = length es" "fold note_event es (note_event e h)
      = (note_event e h)\<lparr>staff := (staff (note_event e h))\<lparr>worker_events := worker_events (staff (note_event e h)) @ es'\<rparr>\<rparr>"
    using Cons.IH by blast
  then show ?case by (intro exI [of _ "e' # es'"]) (simp add: first)
qed

definition repair_start :: "package_store \<Rightarrow> repair_state" where
  "repair_start st = \<lparr>rp_store = st, rp_sequence = foldr max (map j_sequence (projections st)) 0, rp_inspected = 0,
     rp_updated = 0, rp_divergent = []\<rparr>"

lemma reconcile_Inr:
  assumes "reconcile_packaged_workforce_contracts f histories authorities st = Inr (st', inspected, updated, divergent)"
  obtains rs where "repair_rows f histories authorities (packaged_rows st) (repair_start st) = Inr rs"
    and "projections st' = projections (rp_store rs)"
    and "hired st' = (if updated = 0 then hired (rp_store rs)
      else (hired (rp_store rs))\<lparr>staff := bump_roster (staff (hired (rp_store rs)))\<rparr>)"
    and "inspected = rp_inspected rs" and "updated = rp_updated rs" and "divergent = sort_key dv_slug (rp_divergent rs)"
proof -
  obtain rs where rows: "repair_rows f histories authorities (packaged_rows st) (repair_start st) = Inr rs"
    and result: "(st', inspected, updated, divergent) = (if rp_updated rs = 0 then rp_store rs
       else (rp_store rs)\<lparr>hired := (hired (rp_store rs))\<lparr>staff := bump_roster (staff (hired (rp_store rs)))\<rparr>\<rparr>,
       rp_inspected rs, rp_updated rs, sort_key dv_slug (rp_divergent rs))"
    using assms unfolding reconcile_packaged_workforce_contracts_def repair_start_def [symmetric]
    by (auto simp only: bind_res_Inr_iff Let_def sum.inject)
  from result show thesis by (intro that [OF rows]) (simp_all split: if_splits)
qed

lemma packaged_row_simps [simp]: "pr_worker (packaged_row_of ps w v l) = w" "pr_version (packaged_row_of ps w v l) = v"
  by (simp_all add: packaged_row_of_def split: option.split)

lemma packaged_workers: "pr_worker ` set (packaged_rows st) \<subseteq> set (worker_table (staff (hired st)))"
proof -
  have "w \<in> set (worker_table (staff h))" if "(w, v, l) \<in> set (current_revisions h)" for w v l h
    using that by (auto simp: current_revisions_def split: if_splits)
  then show ?thesis unfolding packaged_rows_def by fastforce
qed

lemma repair_frame:
  assumes "reconcile_packaged_workforce_contracts f histories authorities st = Inr (st', inspected, updated, divergent)"
  shows "\<exists>es ps. hired st' = (let h = fold note_event es (hired st) in
        if updated = 0 then h else h\<lparr>staff := bump_roster (staff h)\<rparr>)
      \<and> e_worker ` set es \<subseteq> w_id ` set (worker_table (staff (hired st)))
      \<and> projections st' = projections st @ ps \<and> length ps = updated \<and> length es = updated"
proof -
  obtain rs where rs: "repair_rows f histories authorities (packaged_rows st) (repair_start st) = Inr rs"
    and st': "projections st' = projections (rp_store rs)"
      "hired st' = (if updated = 0 then hired (rp_store rs) else (hired (rp_store rs))\<lparr>staff := bump_roster (staff (hired (rp_store rs)))\<rparr>)"
      "updated = rp_updated rs"
    using reconcile_Inr [OF assms] by metis
  from repair_rows_store [OF rs] obtain es ps where parts: "hired (rp_store rs) = fold note_event es (hired st)"
      "projections (rp_store rs) = projections st @ ps" "e_worker ` set es \<subseteq> (w_id \<circ> pr_worker) ` set (packaged_rows st)"
      "rp_updated rs = length ps" "length es = length ps"
    by (auto simp: repair_start_def)
  have "e_worker ` set es \<subseteq> w_id ` set (worker_table (staff (hired st)))"
    using parts(3) image_mono [OF packaged_workers [of st], of w_id] by (simp add: image_comp)
  with parts st' show ?thesis by (intro exI [of _ es] exI [of _ ps]) (simp add: Let_def)
qed

lemma repair_changes:
  assumes "reconcile_packaged_workforce_contracts f histories authorities st = Inr (st', inspected, updated, divergent)"
  shows "\<exists>es ps. length es = updated \<and> length ps = updated \<and> projections st' = projections st @ ps
    \<and> hired st' = (hired st)\<lparr>staff := (staff (hired st))\<lparr>worker_events := worker_events (staff (hired st)) @ es,
        roster_counter := roster_counter (staff (hired st)) + (if updated = 0 then 0 else 1)\<rparr>\<rparr>"
proof -
  obtain es ps where st': "hired st' = (let h = fold note_event es (hired st) in if updated = 0 then h else h\<lparr>staff := bump_roster (staff h)\<rparr>)"
      "projections st' = projections st @ ps" "length ps = updated" "length es = updated"
    using repair_frame [OF assms] by blast
  obtain es' where "length es' = length es" "fold note_event es (hired st)
      = (hired st)\<lparr>staff := (staff (hired st))\<lparr>worker_events := worker_events (staff (hired st)) @ es'\<rparr>\<rparr>"
    using noted_events by blast
  with st' show ?thesis by (intro exI [of _ es'] exI [of _ ps]) (simp add: Let_def bump_roster_def)
qed

lemma divergence_revision:
  assumes "pr_worker r = pr_worker s" and "pr_version r = pr_version s"
  shows "packaged_divergence histories authorities r = packaged_divergence histories authorities s"
    and "package_agent histories authorities r = package_agent histories authorities s"
proof -
  have "exact_packaged_revision histories r agent = exact_packaged_revision histories s agent" for agent
    using assms by (simp add: exact_packaged_revision_def)
  then show "packaged_divergence histories authorities r = packaged_divergence histories authorities s"
    using assms by (simp add: packaged_divergence_def Let_def split: option.split)
  then show "package_agent histories authorities r = package_agent histories authorities s"
    using assms by (simp add: package_agent_def split: option.split)
qed

lemma same_revisions:
  assumes "worker_table (staff h') = worker_table (staff h)" and "version_table h' = version_table h"
    and "lineage_table h' = lineage_table h"
  shows "current_revisions h' = current_revisions h"
  by (simp only: current_revisions_def assms)

lemma repair_revisions:
  assumes "reconcile_packaged_workforce_contracts f histories authorities st = Inr (st', inspected, updated, divergent)"
  shows "current_revisions (hired st') = current_revisions (hired st)"
proof -
  obtain es where h: "hired st' = (let h = fold note_event es (hired st) in if updated = 0 then h else h\<lparr>staff := bump_roster (staff h)\<rparr>)"
    using repair_frame [OF assms] by blast
  note kept = only_notedD [OF only_noted_events [of "hired st" es]]
  show ?thesis by (rule same_revisions) (simp_all add: h Let_def bump_roster_def kept)
qed

text \<open>The rows before and after, side by side\<close>

lemma repair_row_pairs:
  assumes "reconcile_packaged_workforce_contracts f histories authorities st = Inr (st', inspected, updated, divergent)"
    and "row' \<in> set (packaged_rows st')"
  obtains w v l where "row' = packaged_row_of (projections st') w v l" and "(w, v, l) \<in> set (current_revisions (hired st))"
    and "packaged_row_of (projections st) w v l \<in> set (packaged_rows st)"
proof -
  obtain w v l where "(w, v, l) \<in> set (current_revisions (hired st))" "row' = packaged_row_of (projections st') w v l"
    using assms(2) repair_revisions [OF assms(1)] by (auto simp: packaged_rows_def)
  moreover from this(1) have "packaged_row_of (projections st) w v l \<in> set (packaged_rows st)" by (force simp: packaged_rows_def)
  ultimately show thesis using that by blast
qed

lemma start_inv: "repair_inv histories authorities st (set (packaged_rows st)) (repair_start st)"
proof -
  have "j_sequence q \<le> foldr max (map j_sequence ps) 0" if "q \<in> set ps" for q :: projection_row and ps
    using that by (induction ps) auto
  then show ?thesis by (simp add: repair_inv_def repair_start_def)
qed

lemma repair_done:
  assumes run: "reconcile_packaged_workforce_contracts f histories authorities st = Inr (st', inspected, updated, divergent)"
    and ids: "distinct (map w_id (worker_table (staff (hired st))))"
  obtains rs where "repair_inv histories authorities st (set (packaged_rows st)) rs" and "projections (rp_store rs) = projections st'"
    and "\<And>row. row \<in> set (packaged_rows st) \<Longrightarrow> package_agent histories authorities row \<noteq> None \<Longrightarrow> row_done authorities row rs"
proof -
  obtain rs where rs: "repair_rows f histories authorities (packaged_rows st) (repair_start st) = Inr rs"
    and st': "projections st' = projections (rp_store rs)"
    using reconcile_Inr [OF run] by metis
  have "inj_on w_id (pr_worker ` set (packaged_rows st))" using ids inj_on_subset [OF _ packaged_workers] by (auto simp: distinct_map)
  from repair_rows_effect [OF rs start_inv _ this] that [of rs] st' show thesis by auto
qed

text \<open>Every exact packaged revision ends with the contract that the package projects.\<close>

lemma repaired_contract:
  assumes run: "reconcile_packaged_workforce_contracts f histories authorities st = Inr (st', inspected, updated, divergent)"
    and ids: "distinct (map w_id (worker_table (staff (hired st))))"
    and row': "row' \<in> set (packaged_rows st')" and agent: "package_agent histories authorities row' = Some agent"
  shows "package_document (pr_worker row') agent = Inr (pr_contract row') \<and> pr_hash row' = document_hash (pr_contract row')"
proof -
  obtain w v l where pair: "row' = packaged_row_of (projections st') w v l" "packaged_row_of (projections st) w v l \<in> set (packaged_rows st)"
    using repair_row_pairs [OF run row'] by metis
  let ?row = "packaged_row_of (projections st) w v l"
  have "package_agent histories authorities ?row = Some agent"
    using agent divergence_revision(2) [of ?row row'] by (simp add: pair(1))
  then have known: "\<exists>origin_text. map_of authorities (w_slug w) = Some (agent, origin_text)" and exact: "package_agent histories authorities ?row \<noteq> None"
    by (auto simp: package_agent_def split: option.splits if_splits)
  obtain rs where inv: "repair_inv histories authorities st (set (packaged_rows st)) rs" and ps: "projections (rp_store rs) = projections st'"
    and row: "row_done authorities ?row rs"
    using repair_done [OF run ids] pair(2) exact by metis
  have in_effect: "latest_projection (projections st') w = latest_projection (projections st) w
      \<or> (\<exists>p. latest_projection (projections st') w = Some p \<and> packaged_projection authorities w p)"
    using inv pair(2) unfolding repair_inv_def ps by force
  show ?thesis
  proof (cases "\<exists>p. latest_projection (projections st') w = Some p \<and> packaged_projection authorities w p")
    case True
    with known show ?thesis by (auto simp: pair(1) packaged_row_of_def packaged_projection_def)
  next
    case False
    then have "latest_projection (projections st') w = latest_projection (projections st) w" using in_effect by blast
    then have "row' = ?row" by (simp add: pair(1) packaged_row_of_def)
    with row False known show ?thesis by (auto simp: row_done_def ps)
  qed
qed

text \<open>A row that is not an exact packaged revision stays as it was.\<close>

lemma unrepaired_contract:
  assumes run: "reconcile_packaged_workforce_contracts f histories authorities st = Inr (st', inspected, updated, divergent)"
    and ids: "distinct (map w_id (worker_table (staff (hired st))))" "distinct (map v_id (version_table (hired st)))"
    and row': "row' \<in> set (packaged_rows st')" and foreign: "package_agent histories authorities row' = None"
  shows "row' \<in> set (packaged_rows st)"
proof -
  obtain w v l where pair: "row' = packaged_row_of (projections st') w v l" "packaged_row_of (projections st) w v l \<in> set (packaged_rows st)"
    and revision: "(w, v, l) \<in> set (current_revisions (hired st))"
    using repair_row_pairs [OF run row'] by metis
  let ?row = "packaged_row_of (projections st) w v l"
  obtain rs where inv: "repair_inv histories authorities st (set (packaged_rows st)) rs" and ps: "projections (rp_store rs) = projections st'"
    using repair_done [OF run ids(1)] by metis
  have "package_agent histories authorities row = None" if row: "row \<in> set (packaged_rows st)" "pr_worker row = w" for row
  proof -
    obtain v' l' where "row = packaged_row_of (projections st) w v' l'" "(w, v', l') \<in> set (current_revisions (hired st))"
      using row by (auto simp: packaged_rows_def)
    moreover from this(2) revision have "v' \<in> set (version_table (hired st))" "v \<in> set (version_table (hired st))" "v_id v' = v_id v"
      by (auto simp: current_revisions_def split: if_splits)
    then have "v' = v" using ids(2) by (meson distinct_map inj_onD)
    ultimately show ?thesis using foreign divergence_revision(2) [of row row'] by (simp add: pair(1))
  qed
  then have "latest_projection (projections st') w = latest_projection (projections st) w"
    using inv pair(2) unfolding repair_inv_def ps by force
  then have "row' = ?row" by (simp add: pair(1) packaged_row_of_def)
  with pair(2) show ?thesis by simp
qed

end
