(* ===== verification/Hiring_Machine.thy ===== *)
theory Hiring_Machine
  imports Package_Effect
begin

text \<open>
  The life cycle of hiring cases, the steps of the whole workforce store, and what holds of every
  store they reach: a case is applied at most once, to the worker and the contract it authorises,
  and only after an audit and the approval it needs. The updates of cases are compared with the
  triggers of the schema.
\<close>

section \<open>Growing tables\<close>

text \<open>Rows stay at their place, related to what they were, and new ones are appended.\<close>

definition extends :: "('a \<Rightarrow> 'a \<Rightarrow> bool) \<Rightarrow> 'a list \<Rightarrow> 'a list \<Rightarrow> bool" where
  "extends R xs ys = (length xs \<le> length ys \<and> (\<forall>i<length xs. R (xs ! i) (ys ! i)))"

lemma extends_refl: "(\<And>x. R x x) \<Longrightarrow> extends R xs xs"
  by (simp add: extends_def)

lemma extends_trans: "(\<And>x y z. R x y \<Longrightarrow> R y z \<Longrightarrow> R x z) \<Longrightarrow> extends R xs ys \<Longrightarrow> extends R ys zs \<Longrightarrow> extends R xs zs"
  by (auto simp: extends_def)

lemma extends_append: "(\<And>x. R x x) \<Longrightarrow> extends R xs (xs @ ys)"
  by (simp add: extends_def nth_append)

lemma extends_map: "(\<And>x. x \<in> set xs \<Longrightarrow> R x (f x)) \<Longrightarrow> extends R xs (map f xs)"
  by (simp add: extends_def)

lemma extends_mono: "(\<And>x y. R x y \<Longrightarrow> Q x y) \<Longrightarrow> extends R xs ys \<Longrightarrow> extends Q xs ys"
  by (simp add: extends_def)

lemma extends_list_all2: "list_all2 R xs ys \<Longrightarrow> extends R xs ys"
  by (simp add: extends_def list_all2_conv_all_nth)

lemma extends_mem: "extends R xs ys \<Longrightarrow> x \<in> set xs \<Longrightarrow> \<exists>y\<in>set ys. R x y"
  unfolding extends_def in_set_conv_nth by (metis less_le_trans nth_mem)

lemma extends_prefix: "prefix xs ys \<Longrightarrow> extends (=) xs ys"
  by (auto simp: extends_def prefix_def nth_append)


section \<open>The life cycle of a case\<close>

inductive case_step :: "case_status \<Rightarrow> case_status \<Rightarrow> bool" where
  audit: "case_step Proposed Audited"
| reject: "s \<in> {Proposed, Audited} \<Longrightarrow> case_step s Rejected"
| fold: "s \<in> {Proposed, Audited} \<Longrightarrow> case_step s Folded"
| apply_audited: "case_step Audited Applied"

inductive_cases final_stepE [elim!]: "case_step Rejected s" "case_step Folded s" "case_step Applied s"
inductive_simps case_step_from: "case_step Proposed s" "case_step Audited s"

declare case_step.intros [intro]

lemma case_step_iff: "case_step s t \<longleftrightarrow> t \<in> case_transitions s \<or> s = Audited \<and> t = Applied"
  by (cases s) (auto simp: case_step_from)

lemma final_history: "case_step\<^sup>*\<^sup>* s t \<Longrightarrow> s \<in> {Rejected, Folded, Applied} \<Longrightarrow> t = s"
  by (induction rule: converse_rtranclp_induct) auto

lemma applied_history: "case_step\<^sup>*\<^sup>* Applied s \<longleftrightarrow> s = Applied"
  using final_history by blast

text \<open>What the triggers of the schema let an update do to a row of \<open>agent_hiring_cases\<close>\<close>

definition update_permitted :: "lineage_row list \<Rightarrow> hiring_case \<Rightarrow> hiring_case \<Rightarrow> bool" where
  "update_permitted ls old new =
     (c_id new = c_id old \<and> c_key new = c_key old \<and> same_evidence old new \<and> c_created new = c_created old
      \<and> (c_status new = c_status old
         \<or> c_status old = Proposed \<and> c_status new \<in> {Audited, Rejected, Folded}
         \<or> c_status old = Audited \<and> c_status new \<in> {Applied, Rejected, Folded})
      \<and> (c_status new \<noteq> c_status old \<and> c_status new = Applied \<longrightarrow> list_ex (\<lambda>l. l_case l = Some (c_id new)) ls)
      \<and> (c_approved_by new = c_approved_by old \<and> c_approved_at new = c_approved_at old
         \<or> c_status old = Proposed \<and> c_human old \<and> c_approved_by old = [] \<and> c_approved_at old = None
           \<and> c_approved_by new \<noteq> [] \<and> c_approved_at new \<noteq> None))"

definition later_case :: "hiring_case \<Rightarrow> hiring_case \<Rightarrow> bool" where
  "later_case c d = (c_id d = c_id c \<and> c_key d = c_key c \<and> same_evidence c d \<and> c_created d = c_created c
     \<and> case_step\<^sup>*\<^sup>* (c_status c) (c_status d)
     \<and> (c_approved_at c \<noteq> None \<longrightarrow> c_approved_by d = c_approved_by c \<and> c_approved_at d = c_approved_at c))"

lemma same_evidence_refl [simp]: "same_evidence c c"
  by (simp add: same_evidence_def)

lemma later_case_refl [simp]: "later_case c c"
  by (simp add: later_case_def)

lemma later_case_trans: "later_case a b \<Longrightarrow> later_case b c \<Longrightarrow> later_case a c"
  by (auto simp: later_case_def same_evidence_def)

lemma update_permitted_refl [simp]: "update_permitted ls c c"
  by (simp add: update_permitted_def)

lemma permitted_later: "update_permitted ls c d \<Longrightarrow> later_case c d"
proof -
  assume p: "update_permitted ls c d"
  then have "c_status d = c_status c \<or> case_step (c_status c) (c_status d)" by (auto simp: update_permitted_def)
  then have "case_step\<^sup>*\<^sup>* (c_status c) (c_status d)" by auto
  with p show ?thesis by (auto simp: update_permitted_def later_case_def)
qed

text \<open>The audit reads only what never changes.\<close>

lemma auditable_same:
  assumes "same_evidence c d"
  shows "case_evidence_is_auditable to_float packages c = case_evidence_is_auditable to_float packages d"
proof -
  have fields: "c_slug c = c_slug d" "c_contract c = c_contract d" "c_critic c = c_critic d" "c_model c = c_model d" "c_hash c = c_hash d"
    and covers: "package_covers c = package_covers d"
    using assms by (auto simp: package_covers_def same_evidence_def fun_eq_iff)
  show ?thesis
    unfolding case_evidence_is_auditable_def packaged_hiring_case_is_auditable_def fields covers by (rule refl)
qed


section \<open>Well-formed stores\<close>

definition row_id :: "string \<Rightarrow> bool" where
  "row_id i = (correlation_id ''case_id'' (PyStr i) = Inr i)"

definition case_fits :: "(string \<Rightarrow> py_float) \<Rightarrow> (string \<Rightarrow> contractor_package list option) \<Rightarrow> hiring_case \<Rightarrow> bool" where
  "case_fits to_float packages c = (row_id (c_id c) \<and> c_hash c = document_hash (c_contract c)
     \<and> c_type c \<in> {''hire'', ''amend''} \<and> (c_type c = ''amend'' \<longleftrightarrow> c_target c \<noteq> None)
     \<and> (c_risk c = ''high'' \<longrightarrow> c_human c) \<and> (c_approved_at c = None \<longrightarrow> c_approved_by c = [])
     \<and> (c_status c \<in> {Audited, Applied} \<longrightarrow> case_evidence_is_auditable to_float packages c = Inr True
          \<and> (c_human c \<longrightarrow> human_approved c)))"

definition cases_ok :: "(string \<Rightarrow> py_float) \<Rightarrow> (string \<Rightarrow> contractor_package list option) \<Rightarrow> worker_row list
    \<Rightarrow> hiring_case list \<Rightarrow> bool" where
  "cases_ok to_float packages ws cs = (distinct (map c_id cs) \<and> distinct (map c_key cs)
     \<and> (\<forall>c\<in>set cs. case_fits to_float packages c \<and> (\<forall>t. c_target c = Some t \<longrightarrow> t \<in> w_id ` set ws)))"

text \<open>A lineage row names a worker, and its case was applied for that worker and that contract.\<close>

definition authorised :: "worker_row list \<Rightarrow> hiring_case list \<Rightarrow> lineage_row \<Rightarrow> bool" where
  "authorised ws cs l = (l_hash l = document_hash (l_contract l) \<and> (\<exists>w\<in>set ws. w_id w = l_worker l
     \<and> (\<forall>i. l_case l = Some i \<longrightarrow> (\<exists>c\<in>set cs. c_id c = i \<and> c_status c = Applied \<and> c_slug c = w_slug w
          \<and> c_hash c = l_hash l \<and> (c_target c = None \<or> c_target c = Some (w_id w))))))"

definition lineage_ok :: "worker_row list \<Rightarrow> hiring_case list \<Rightarrow> lineage_row list \<Rightarrow> bool" where
  "lineage_ok ws cs ls = (distinct (map l_version ls) \<and> distinct (filter (\<lambda>i. i \<noteq> None) (map l_case ls))
     \<and> (\<forall>l\<in>set ls. authorised ws cs l)
     \<and> (\<forall>c\<in>set cs. c_status c = Applied \<longrightarrow> Some (c_id c) \<in> l_case ` set ls)
     \<and> (\<forall>w\<in>set ws. w_origin w = ''agency'' \<longrightarrow> (\<exists>l\<in>set ls. l_worker l = w_id w \<and> l_case l \<noteq> None)))"

text \<open>The current revision of a worker has lineage of its own, and for a worker of the agency's origin
  every lineage row has a case.\<close>

definition governed :: "worker_row list \<Rightarrow> lineage_row list \<Rightarrow> bool" where
  "governed ws ls = ((\<forall>w\<in>set ws. \<exists>l\<in>set ls. l_worker l = w_id w \<and> l_version l = w_version_id w)
     \<and> (\<forall>l\<in>set ls. \<forall>w\<in>set ws. l_worker l = w_id w \<longrightarrow> w_origin w = ''agency'' \<longrightarrow> l_case l \<noteq> None))"

definition hiring_ok :: "(string \<Rightarrow> py_float) \<Rightarrow> (string \<Rightarrow> contractor_package list option) \<Rightarrow> hiring_store \<Rightarrow> bool" where
  "hiring_ok to_float packages st = (store_ok (staff st)
     \<and> cases_ok to_float packages (worker_table (staff st)) (case_table st)
     \<and> lineage_ok (worker_table (staff st)) (case_table st) (lineage_table st)
     \<and> governed (worker_table (staff st)) (lineage_table st)
     \<and> distinct (map a_slug (active_table st)) \<and> distinct (category_table st))"

text \<open>How a worker may differ later: its version can have moved, but a retired or merged worker keeps
  its state.\<close>

definition later_worker :: "worker_row \<Rightarrow> worker_row \<Rightarrow> bool" where
  "later_worker w v = (w_id v = w_id w \<and> w_slug v = w_slug w \<and> w_name v = w_name w \<and> w_origin v = w_origin w
     \<and> w_created v = w_created w \<and> (v = w \<or> w_revision w < w_revision v)
     \<and> (w_standing w \<in> {Retired, Merged} \<longrightarrow> w_standing v = w_standing w \<and> w_merged v = w_merged w \<and> w_class v = w_class w)
     \<and> (w_class w = Employee \<longrightarrow> w_class v = Employee))"

definition hiring_evolves :: "hiring_store \<Rightarrow> hiring_store \<Rightarrow> bool" where
  "hiring_evolves st st' = (extends later_worker (worker_table (staff st)) (worker_table (staff st'))
     \<and> extends later_case (case_table st) (case_table st') \<and> prefix (lineage_table st) (lineage_table st')
     \<and> prefix (worker_events (staff st)) (worker_events (staff st'))
     \<and> prefix (performance (staff st)) (performance (staff st')))"

lemma later_worker_refl [simp]: "later_worker w w"
  by (simp add: later_worker_def)

lemma later_worker_trans:
  assumes uv: "later_worker u v" and vw: "later_worker v w"
  shows "later_worker u w"
proof -
  have "w_id w = w_id u \<and> w_slug w = w_slug u \<and> w_name w = w_name u \<and> w_origin w = w_origin u \<and> w_created w = w_created u"
    using uv vw unfolding later_worker_def by metis
  moreover have "w = u \<or> w_revision u < w_revision w"
    using uv vw unfolding later_worker_def by (metis order.strict_trans)
  moreover have "w_standing u \<in> {Retired, Merged} \<longrightarrow> w_standing w = w_standing u \<and> w_merged w = w_merged u \<and> w_class w = w_class u"
    using uv vw unfolding later_worker_def by metis
  moreover have "w_class u = Employee \<longrightarrow> w_class w = Employee"
    using uv vw unfolding later_worker_def by metis
  ultimately show ?thesis unfolding later_worker_def by blast
qed

lemma later_row_worker: "later_row w v \<Longrightarrow> later_worker w v"
  by (auto simp: later_row_def later_worker_def same_worker_def)

lemma workers_trans: "extends later_worker us vs \<Longrightarrow> extends later_worker vs ws \<Longrightarrow> extends later_worker us ws"
  by (erule (1) extends_trans [rotated]) (rule later_worker_trans)

lemma cases_trans: "extends later_case as bs \<Longrightarrow> extends later_case bs cs \<Longrightarrow> extends later_case as cs"
  by (erule (1) extends_trans [rotated]) (rule later_case_trans)

lemma hiring_evolves_refl: "hiring_evolves st st"
  by (simp add: hiring_evolves_def extends_refl)

lemma hiring_evolves_trans: "hiring_evolves s t \<Longrightarrow> hiring_evolves t u \<Longrightarrow> hiring_evolves s u"
  unfolding hiring_evolves_def
  by (elim conjE, intro conjI) (erule (1) workers_trans cases_trans prefix_order.order_trans)+


section \<open>Tables of a well-formed store\<close>

lemma cases_append:
  assumes "cases_ok f p ws cs" and "case_fits f p c" and "c_id c \<notin> c_id ` set cs" and "c_key c \<notin> c_key ` set cs"
    and "\<And>t. c_target c = Some t \<Longrightarrow> t \<in> w_id ` set ws"
  shows "cases_ok f p ws (cs @ [c])"
  using assms by (auto simp: cases_ok_def)

lemma cases_update:
  assumes "cases_ok f p ws cs" and "\<And>c. c \<in> set cs \<Longrightarrow> case_fits f p (g c) \<and> later_case c (g c)"
  shows "cases_ok f p ws (map g cs)"
proof -
  have same: "c \<in> set cs \<Longrightarrow> c_id (g c) = c_id c \<and> c_key (g c) = c_key c \<and> c_target (g c) = c_target c" for c
    using assms(2) by (simp add: later_case_def same_evidence_def)
  then have "map c_id (map g cs) = map c_id cs" "map c_key (map g cs) = map c_key cs" by simp_all
  with assms same show ?thesis unfolding cases_ok_def by (simp only: set_map ball_simps) simp
qed

lemma cases_workers: "cases_ok f p ws cs \<Longrightarrow> w_id ` set ws \<subseteq> w_id ` set ws' \<Longrightarrow> cases_ok f p ws' cs"
  by (fastforce simp: cases_ok_def)

lemma extends_ids:
  assumes "extends later_worker ws ws'"
  shows "w_id ` set ws \<subseteq> w_id ` set ws'"
proof (rule image_subsetI)
  fix w assume "w \<in> set ws"
  then obtain v where "v \<in> set ws'" "later_worker w v" using extends_mem [OF assms] by blast
  then show "w_id w \<in> w_id ` set ws'" by (auto simp: later_worker_def image_iff intro: sym)
qed

lemma authorised_later:
  assumes "authorised ws cs l" and "extends later_worker ws ws'" and "extends later_case cs cs'"
  shows "authorised ws' cs' l"
proof -
  let ?used = "\<lambda>w i c. c_id c = i \<and> c_status c = Applied \<and> c_slug c = w_slug w \<and> c_hash c = l_hash l
      \<and> (c_target c = None \<or> c_target c = Some (w_id w))"
  obtain w where w: "w \<in> set ws" "w_id w = l_worker l" and used: "\<And>i. l_case l = Some i \<Longrightarrow> \<exists>c\<in>set cs. ?used w i c"
    using assms(1) unfolding authorised_def by blast
  obtain v where v: "v \<in> set ws'" "later_worker w v" using extends_mem [OF assms(2) w(1)] by blast
  have "\<exists>d\<in>set cs'. ?used v i d" if i: "l_case l = Some i" for i
  proof -
    obtain c where c: "c \<in> set cs" "?used w i c" using used [OF i] by blast
    obtain d where d: "d \<in> set cs'" "later_case c d" using extends_mem [OF assms(3) c(1)] by blast
    have "?used v i d"
      using c(2) d(2) v(2) by (auto simp: later_case_def same_evidence_def applied_history later_worker_def)
    with d(1) show ?thesis by blast
  qed
  moreover have "w_id v = l_worker l" using v(2) w(2) by (simp add: later_worker_def)
  ultimately show ?thesis using assms(1) v(1) unfolding authorised_def by blast
qed

lemma lineage_later:
  assumes "lineage_ok ws cs ls" and "extends later_worker ws ws'" and "length ws' = length ws" and "extends later_case cs cs'"
    and "\<forall>c\<in>set cs'. c_status c = Applied \<longrightarrow> Some (c_id c) \<in> l_case ` set ls"
  shows "lineage_ok ws' cs' ls"
proof -
  have "\<exists>w\<in>set ws. w_id w = w_id v \<and> w_origin w = w_origin v" if "v \<in> set ws'" for v
    using that assms(2,3) unfolding in_set_conv_nth by (metis extends_def later_worker_def nth_mem)
  then show ?thesis
    using assms authorised_later [OF _ assms(2,4)] unfolding lineage_ok_def by fastforce
qed

lemma lineage_extend:
  assumes "lineage_ok ws cs ls" and "extends later_worker ws ws'" and "extends later_case cs cs'" and "authorised ws' cs' l"
    and "l_version l \<notin> l_version ` set ls" and "l_case l = None \<or> l_case l \<notin> l_case ` set ls"
    and "\<And>c. c \<in> set cs' \<Longrightarrow> c_status c = Applied \<Longrightarrow> Some (c_id c) \<in> l_case ` set ls \<or> l_case l = Some (c_id c)"
    and "\<And>v. v \<in> set ws' \<Longrightarrow> w_origin v = ''agency'' \<Longrightarrow>
      (\<exists>w\<in>set ws. w_id w = w_id v \<and> w_origin w = ''agency'') \<or> l_worker l = w_id v \<and> l_case l \<noteq> None"
  shows "lineage_ok ws' cs' (ls @ [l])"
proof -
  have "distinct (filter (\<lambda>i. i \<noteq> None) (map l_case (ls @ [l])))"
    using assms(1,6) by (auto simp: lineage_ok_def)
  moreover have "\<forall>m\<in>set (ls @ [l]). authorised ws' cs' m"
    using assms(1,4) authorised_later [OF _ assms(2,3)] by (auto simp: lineage_ok_def)
  moreover have "\<forall>c\<in>set cs'. c_status c = Applied \<longrightarrow> Some (c_id c) \<in> l_case ` set (ls @ [l])"
    using assms(7) by (fastforce simp: image_iff)
  moreover have "\<forall>v\<in>set ws'. w_origin v = ''agency'' \<longrightarrow> (\<exists>m\<in>set (ls @ [l]). l_worker m = w_id v \<and> l_case m \<noteq> None)"
    using assms(1,8) unfolding lineage_ok_def by fastforce
  ultimately show ?thesis using assms(1,5) by (simp add: lineage_ok_def)
qed

text \<open>Governed revisions\<close>

lemma governed_rows:
  assumes "governed ws ls"
    and "\<forall>v\<in>set ws'. \<exists>w\<in>set ws. w_id v = w_id w \<and> w_version_id v = w_version_id w \<and> w_origin v = w_origin w"
  shows "governed ws' ls"
  using assms unfolding governed_def by metis

lemma governed_new:
  assumes "governed ws ls" and "w_id w \<notin> w_id ` set ws" and "l_worker ` set ls \<subseteq> w_id ` set ws"
    and "l_worker l = w_id w" and "l_version l = w_version_id w" and "w_origin w = ''agency'' \<longrightarrow> l_case l \<noteq> None"
  shows "governed (ws @ [w]) (ls @ [l])"
proof -
  have old: "w_id v \<noteq> w_id w" if "v \<in> set ws" for v using assms(2) that by (metis image_eqI)
  have "l_worker m \<noteq> w_id w" if "m \<in> set ls" for m using assms(2,3) that by (metis image_eqI subsetD)
  with old assms(1,4-6) show ?thesis unfolding governed_def by auto
qed

lemma governed_moved:
  assumes "governed ws ls" and "distinct (map w_id ws)" and "w \<in> set ws" and "w_id w' = w_id w" and "w_origin w' = w_origin w"
    and "set ls \<subseteq> set ls'" and "\<forall>l\<in>set ls' - set ls. l_worker l = w_id w \<and> (w_origin w = ''agency'' \<longrightarrow> l_case l \<noteq> None)"
    and "\<exists>l\<in>set ls'. l_worker l = w_id w \<and> l_version l = w_version_id w'"
  shows "governed (replace_row w w' ws) ls'"
proof -
  have rows: "v = w' \<or> v \<in> set ws \<and> v \<noteq> w" if "v \<in> set (replace_row w w' ws)" for v
    using that by (auto simp: replace_row_def split: if_splits)
  have "\<exists>l\<in>set ls'. l_worker l = w_id v \<and> l_version l = w_version_id v" if "v \<in> set (replace_row w w' ws)" for v
    using rows [OF that] assms(1,4,6,8) unfolding governed_def by (metis subsetD)
  moreover have "l_case l \<noteq> None"
    if l: "l \<in> set ls'" and v: "v \<in> set (replace_row w w' ws)" and worker: "l_worker l = w_id v" and origin: "w_origin v = ''agency''" for l v
  proof -
    obtain u where u: "u \<in> set ws" "w_id u = w_id v" "w_origin u = w_origin v" using rows [OF v] assms(3-5) by metis
    have same: "u = w" if "w_id u = w_id w" using that u(1) assms(2,3) by (meson inj_onD distinct_map)
    show ?thesis
    proof (cases "l \<in> set ls")
      case True
      with u worker origin assms(1) show ?thesis unfolding governed_def by metis
    next
      case False
      with l have row: "l_worker l = w_id w" "w_origin w = ''agency'' \<longrightarrow> l_case l \<noteq> None" using assms(7) by blast+
      then have "u = w" using u(2) worker by (intro same) simp
      then show ?thesis using row(2) u(3) origin by simp
    qed
  qed
  ultimately show ?thesis unfolding governed_def by blast
qed

lemma lineage_workers:
  assumes "lineage_ok ws cs ls"
  shows "l_worker ` set ls \<subseteq> w_id ` set ws"
proof
  fix i assume "i \<in> l_worker ` set ls"
  then obtain l where "l \<in> set ls" "i = l_worker l" by blast
  with assms obtain w where "w \<in> set ws" "w_id w = i" unfolding lineage_ok_def authorised_def by blast
  then show "i \<in> w_id ` set ws" by blast
qed

text \<open>The employment tables\<close>

lemma store_ok_worker:
  assumes "store_ok st" and "w_id w \<notin> w_id ` set (worker_table st)" and "w_slug w \<notin> w_slug ` set (worker_table st)"
    and "row_fits w" and "w_merged w = None"
  shows "store_ok (st\<lparr>worker_table := worker_table st @ [w]\<rparr>)"
proof -
  have "merges (worker_table st @ [w]) = merges (worker_table st)" using assms(5) by (auto simp: merges_def)
  with assms show ?thesis by (auto simp: store_ok_def)
qed

lemma store_ok_replace:
  assumes "store_ok st" and "w \<in> set (worker_table st)" and "w_id w' = w_id w" and "w_slug w' = w_slug w"
    and "row_fits w'" and "w_merged w' = w_merged w"
  shows "store_ok (st\<lparr>worker_table := replace_row w w' (worker_table st)\<rparr>)"
proof -
  have ids: "map w_id (replace_row w w' (worker_table st)) = map w_id (worker_table st)"
    "map w_slug (replace_row w w' (worker_table st)) = map w_slug (worker_table st)"
    using assms by (simp_all add: replace_row_ids)
  then have "w_id ` set (replace_row w w' (worker_table st)) = w_id ` set (worker_table st)" by (metis set_map)
  moreover have "\<exists>u\<in>set (worker_table st). w_id u = w_id v \<and> w_merged u = w_merged v"
    if "v \<in> set (replace_row w w' (worker_table st))" for v
    using that assms(2,3,6) by (auto simp: replace_row_def)
  then have "merges (replace_row w w' (worker_table st)) \<subseteq> merges (worker_table st)"
    unfolding merges_def by (smt (verit, best) mem_Collect_eq subsetI)
  moreover have "\<forall>v\<in>set (replace_row w w' (worker_table st)). row_fits v"
    using assms(1,5) by (auto simp: replace_row_def store_ok_def)
  moreover have "acyclic (merges (replace_row w w' (worker_table st)))"
    using acyclic_subset [OF _ calculation(2)] assms(1) by (simp add: store_ok_def)
  moreover have "snd ` merges (replace_row w w' (worker_table st)) \<subseteq> w_id ` set (worker_table st)"
  proof (rule order_trans [OF image_mono [OF calculation(2)]])
    show "snd ` merges (worker_table st) \<subseteq> w_id ` set (worker_table st)" using assms(1) by (simp add: store_ok_def)
  qed
  ultimately show ?thesis using assms(1) unfolding store_ok_def by (simp add: ids)
qed

lemma store_ok_log:
  assumes "store_ok st" and "e_worker e \<in> w_id ` set (worker_table st)"
  shows "store_ok (bump_roster (record_worker_event e st))"
  using append_event [OF assms(1), of "e\<lparr>e_sequence := next_event_sequence (worker_events st)\<rparr>"] assms(2)
  by (simp add: bump_roster_def record_worker_event_def store_ok_def)


section \<open>What the handlers do\<close>

lemma then_read_cases:
  assumes "then_read st committed read = (st', result)"
  obtains "st' = st" | i where "committed = Inr (st', i)"
  using assms that by (cases committed) (auto simp: then_read_def)

lemma bind_resE:
  assumes "bind_res m f = Inr y"
  obtains x where "m = Inr x" and "f x = Inr y"
  using assms by (auto simp: res_simps)

lemma raise_ifE:
  assumes "raise_if bad e = Inr u"
  obtains "\<not> bad"
  using assms by (auto simp: res_simps)

lemma target_by_type:
  "t = ''hire'' \<or> t = ''amend'' \<Longrightarrow> t = ''amend'' \<longrightarrow> (\<exists>y. k = Some y) \<Longrightarrow> t = ''hire'' \<longrightarrow> k = None
    \<Longrightarrow> row_id i \<longrightarrow> t = ''amend'' \<longleftrightarrow> (\<exists>y. k = Some y)"
  by auto

lemma read_request_fits:
  assumes "read_request new_id now r = Inr c"
  shows "c_id c = new_id \<and> c_status c = Proposed \<and> (row_id new_id \<longrightarrow> case_fits f p c)"
proof -
  obtain human where human: "r_human r = PyBool human"
    using assms unfolding read_request_def Let_def
    by (elim bind_resE raise_ifE) (cases "r_human r", simp_all only: pyval.case sum.distinct)
  show ?thesis
    using assms unfolding read_request_def Let_def human pyval.case
    by (elim bind_resE raise_ifE) (simp only: sum.inject, hypsubst, simp add: case_fits_def, erule (2) target_by_type)
qed

lemma case_with_Some: "case_with cs i = Some c \<Longrightarrow> c \<in> set cs \<and> c_id c = i"
  by (auto simp: case_with_def find_Some_iff)

lemma case_with_known: "distinct (map c_id cs) \<Longrightarrow> c \<in> set cs \<Longrightarrow> case_with cs (c_id c) = Some c"
proof (induction cs)
  case (Cons d cs)
  then show ?case by (cases "d = c") (auto simp: case_with_def)
qed simp

lemma case_same: "distinct (map c_id cs) \<Longrightarrow> c \<in> set cs \<Longrightarrow> d \<in> set cs \<Longrightarrow> c_id c = c_id d \<Longrightarrow> c = d"
  by (auto simp: distinct_map dest: inj_onD)

lemma commit_case_cases:
  assumes "commit_case c st = Inr (st', i)"
  obtains d where "st' = st" "d \<in> set (case_table st)" "c_key d = c_key c" "same_evidence d c" "i = c_id d"
  | "st' = st\<lparr>case_table := case_table st @ [c]\<rparr>" "c_id c \<notin> c_id ` set (case_table st)" "c_key c \<notin> c_key ` set (case_table st)"
    "\<And>t. c_target c = Some t \<Longrightarrow> t \<in> w_id ` set (worker_table (staff st))" "i = c_id c"
proof (cases "find (\<lambda>d. c_key d = c_key c) (case_table st)")
  case None
  then have "bind_res (raise_if (case_with (case_table st) (c_id c) \<noteq> None)
         (IntegrityError ''UNIQUE constraint failed: agent_hiring_cases.id'')) (\<lambda>_.
       bind_res (raise_if (case c_target c of None \<Rightarrow> False | Some t \<Rightarrow> worker_with (worker_table (staff st)) t = None)
         (IntegrityError ''FOREIGN KEY constraint failed'')) (\<lambda>_.
       Inr (st\<lparr>case_table := case_table st @ [c]\<rparr>, c_id c))) = Inr (st', i)"
    using assms by (simp add: commit_case_def)
  then show thesis
  proof (elim bind_resE raise_ifE)
    assume fresh: "\<not> case_with (case_table st) (c_id c) \<noteq> None"
      and target: "\<not> (case c_target c of None \<Rightarrow> False | Some t \<Rightarrow> worker_with (worker_table (staff st)) t = None)"
      and result: "Inr (st\<lparr>case_table := case_table st @ [c]\<rparr>, c_id c) = (Inr (st', i) :: (hiring_store \<times> string) res)"
    have "c_id c \<notin> c_id ` set (case_table st)" using fresh by (auto simp: case_with_def find_None_iff)
    moreover have "c_key c \<notin> c_key ` set (case_table st)" using None by (auto simp: find_None_iff)
    moreover have "c_target c = Some t \<Longrightarrow> t \<in> w_id ` set (worker_table (staff st))" for t
      using target worker_with_None [of "worker_table (staff st)" t] by auto
    ultimately show thesis using that(2) result by simp
  qed
next
  case (Some d)
  with assms that(1) [of d] show thesis by (auto simp: commit_case_def find_Some_iff split: if_splits)
qed

text \<open>An update of one case that the schema permits and that keeps the case well formed\<close>

definition one_update :: "(string \<Rightarrow> py_float) \<Rightarrow> (string \<Rightarrow> contractor_package list option) \<Rightarrow> (hiring_case \<Rightarrow> hiring_case)
    \<Rightarrow> hiring_store \<Rightarrow> bool" where
  "one_update f p g st = (\<forall>c\<in>set (case_table st). g c = c \<or> update_permitted (lineage_table st) c (g c)
     \<and> (case_fits f p c \<longrightarrow> case_fits f p (g c)) \<and> (c_status (g c) = Applied \<longrightarrow> c_status c = Applied))"

lemma approval_updates:
  assumes "commit_approval now operator i st = Inr (st', j)" and "operator \<noteq> []" and "strip operator = operator"
    and "now \<noteq> []" and "cases_ok f p ws (case_table st)"
  shows "st' = st \<or> (\<exists>g. one_update f p g st \<and> st' = st\<lparr>case_table := map g (case_table st)\<rparr>)"
proof -
  obtain c where c: "case_with (case_table st) i = Some c"
    using assms(1) by (cases "case_with (case_table st) i") (auto simp: commit_approval_def)
  note found = case_with_Some [OF c]
  show ?thesis
  proof (cases "st' = st")
    case False
    let ?f = "\<lambda>c. c\<lparr>c_approved_by := operator, c_approved_at := Some now\<rparr>"
    let ?g = "\<lambda>c. if c_id c = i then ?f c else c"
    have c': "c_human c" "c_approved_at c = None" "c_status c = Proposed" and st': "st' = update_case i ?f st"
      using assms(1) c False by (auto simp: commit_approval_def split: if_splits)
    have "d = c" if "d \<in> set (case_table st)" "c_id d = i" for d
      using case_same [of "case_table st" d c] that found assms(5) by (simp add: cases_ok_def)
    moreover have "c_approved_by c = []" using assms(5) found c'(2) by (auto simp: cases_ok_def case_fits_def)
    moreover have "same_evidence c (?f c)" by (simp add: same_evidence_def)
    moreover have "case_fits f p c \<Longrightarrow> case_fits f p (?f c)" using c' by (auto simp: case_fits_def)
    ultimately have "one_update f p ?g st"
      using c' assms(2) by (auto simp: one_update_def update_permitted_def)
    with st' show ?thesis unfolding update_case_def by blast
  qed simp
qed

lemma status_updates:
  assumes "commit_status f p now s i st = Inr (st', j)" and "s \<noteq> Applied" and "cases_ok f p ws (case_table st)"
  shows "\<exists>g. one_update f p g st \<and> st' = st\<lparr>case_table := map g (case_table st)\<rparr>"
proof -
  obtain c where c: "case_with (case_table st) i = Some c"
    using assms(1) by (cases "case_with (case_table st) i") (auto simp: commit_status_def)
  note found = case_with_Some [OF c]
  let ?g = "\<lambda>c. if c_id c = i then set_status now s c else c"
  have change: "s \<in> case_transitions (c_status c)" and st': "st' = update_case i (set_status now s) st"
    and audited: "s = Audited \<Longrightarrow> case_evidence_is_auditable f p c = Inr True \<and> (c_human c \<longrightarrow> human_approved c)"
    using assms(1) c by (auto simp: commit_status_def res_simps split: if_splits)
  have "d = c" if "d \<in> set (case_table st)" "c_id d = i" for d
    using case_same [of "case_table st" d c] that found assms(3) by (simp add: cases_ok_def)
  moreover have same: "same_evidence c (set_status now s c)" by (simp add: same_evidence_def set_status_def)
  moreover have "case_fits f p (set_status now s c)" if "case_fits f p c"
    using that audited auditable_same [OF same, of f p] assms(2)
    by (auto simp: case_fits_def set_status_def human_approved_def)
  moreover have "c_status c = Proposed \<and> s \<in> {Audited, Rejected, Folded} \<or> c_status c = Audited \<and> s \<in> {Rejected, Folded}"
    using change by (cases "c_status c") auto
  ultimately have "one_update f p ?g st"
    using assms(2) by (auto simp: one_update_def update_permitted_def set_status_def)
  with st' show ?thesis unfolding update_case_def by blast
qed


section \<open>Using a case\<close>

definition applied_at :: "string \<Rightarrow> string \<Rightarrow> hiring_case \<Rightarrow> hiring_case" where
  "applied_at now i c = (if c_id c = i \<and> c_status c = Audited then c\<lparr>c_status := Applied, c_applied := Some now\<rparr> else c)"

lemma applied_at_fields [simp]: "c_id (applied_at now i c) = c_id c" "c_slug (applied_at now i c) = c_slug c"
  "c_hash (applied_at now i c) = c_hash c" "c_target (applied_at now i c) = c_target c" "same_evidence c (applied_at now i c)"
  by (simp_all add: applied_at_def same_evidence_def)

lemma applied_at_fits: "case_fits f p c \<Longrightarrow> case_fits f p (applied_at now i c)"
proof (cases "c_id c = i \<and> c_status c = Audited")
  case True
  assume "case_fits f p c"
  moreover have "case_evidence_is_auditable f p (applied_at now i c) = case_evidence_is_auditable f p c"
    by (rule auditable_same [symmetric]) simp
  ultimately show ?thesis
    using True by (auto simp: case_fits_def applied_at_def human_approved_def)
qed (auto simp: applied_at_def)

lemma applied_at_permitted: "l_case l = Some i \<Longrightarrow> update_permitted (ls @ [l]) c (applied_at now i c)"
  by (auto simp: update_permitted_def applied_at_def same_evidence_def)

lemma use_case:
  assumes "lineage_ok ws cs ls" and "cases_ok f p ws cs" and "extends later_worker ws ws'"
    and c: "case_with cs i = Some c" "c_status c = Audited"
    and w: "w \<in> set ws'" "w_id w = l_worker l" "c_slug c = w_slug w" "c_target c = None \<or> c_target c = Some (w_id w)"
    and l: "c_hash c = l_hash l" "l_hash l = document_hash (l_contract l)" "l_case l = Some i"
      "l_version l \<notin> l_version ` set ls" "l_case l \<notin> l_case ` set ls"
    and agency: "\<forall>v\<in>set ws'. (\<exists>w\<in>set ws. w_id w = w_id v \<and> w_origin w = w_origin v) \<or> l_worker l = w_id v"
  shows "cases_ok f p ws' (map (applied_at now i) cs)" and "lineage_ok ws' (map (applied_at now i) cs) (ls @ [l])"
    and "extends (update_permitted (ls @ [l])) cs (map (applied_at now i) cs)"
proof -
  let ?g = "applied_at now i"
  have permitted: "update_permitted (ls @ [l]) d (?g d)" for d using l(3) by (rule applied_at_permitted)
  then have later: "later_case d (?g d)" for d by (rule permitted_later)
  show "extends (update_permitted (ls @ [l])) cs (map ?g cs)" by (rule extends_map) (rule permitted)
  have "cases_ok f p ws (map ?g cs)"
    using assms(2) applied_at_fits later by (intro cases_update) (auto simp: cases_ok_def)
  then show "cases_ok f p ws' (map ?g cs)" using cases_workers extends_ids [OF assms(3)] by blast
  have found: "c \<in> set cs" "c_id c = i" using case_with_Some [OF c(1)] by simp_all
  then have "c_status (?g c) = Applied" using c(2) by (simp add: applied_at_def)
  then have used: "\<exists>d\<in>set (map ?g cs). c_id d = i \<and> c_status d = Applied \<and> c_slug d = w_slug w \<and> c_hash d = l_hash l
      \<and> (c_target d = None \<or> c_target d = Some (w_id w))"
    using found w(3,4) l(1) by (intro bexI [of _ "?g c"]) simp_all
  have "authorised ws' (map ?g cs) l"
    unfolding authorised_def
  proof (intro conjI bexI [of _ w] allI impI)
    fix j assume "l_case l = Some j"
    with l(3) have "j = i" by simp
    with used show "\<exists>d\<in>set (map ?g cs). c_id d = j \<and> c_status d = Applied \<and> c_slug d = w_slug w \<and> c_hash d = l_hash l
      \<and> (c_target d = None \<or> c_target d = Some (w_id w))" by simp
  qed (use w(1,2) l(2) in simp_all)
  moreover have "extends later_case cs (map ?g cs)" by (rule extends_map) (rule later)
  moreover have "Some (c_id d) \<in> l_case ` set ls \<or> l_case l = Some (c_id d)" if "d \<in> set (map ?g cs)" "c_status d = Applied" for d
    using that assms(1) l(3) by (auto simp: applied_at_def lineage_ok_def split: if_splits)
  moreover have "(\<exists>w\<in>set ws. w_id w = w_id v \<and> w_origin w = ''agency'') \<or> l_worker l = w_id v \<and> l_case l \<noteq> None"
    if "v \<in> set ws'" "w_origin v = ''agency''" for v
    using bspec [OF agency that(1)] that(2) l(3) by auto
  ultimately show "lineage_ok ws' (map ?g cs) (ls @ [l])"
    using assms(1,3) l(4,5) by (intro lineage_extend) simp_all
qed

lemma apply_case_Inr: "apply_case now i m st = Inr st' \<Longrightarrow> st' = st\<lparr>case_table := map (applied_at now i) (case_table st)\<rparr>"
  unfolding apply_case_def by (elim bind_resE) (simp add: applied_at_def cong: map_cong)

lemma insert_lineage_Inr:
  assumes "insert_lineage l st = Inr st'"
  shows "st' = st\<lparr>lineage_table := lineage_table st @ [l]\<rparr>" and "l_version l \<notin> l_version ` set (lineage_table st)"
    and "l_case l = None \<or> l_case l \<notin> l_case ` set (lineage_table st)"
  using assms unfolding insert_lineage_def by (elim bind_resE raise_ifE; auto simp: list_ex_iff image_iff)+

lemma activate_Inr:
  assumes "activate_staged_agency_version f replace v st = Inr st'"
  shows "staff st' = staff st \<and> case_table st' = case_table st \<and> lineage_table st' = lineage_table st \<and> version_table st' = version_table st"
    and "distinct (map a_slug (active_table st)) \<Longrightarrow> distinct (map a_slug (active_table st'))"
    and "distinct (category_table st) \<Longrightarrow> distinct (category_table st')"
proof -
  obtain metadata categories where cats: "distinct categories" and st': "st' = st\<lparr>
      active_table := filter (\<lambda>a. a_slug a \<noteq> v_slug v) (active_table st) @ [active_of v metadata],
      category_table := filter (\<lambda>(slug, c). slug \<noteq> v_slug v) (category_table st) @ map (Pair (v_slug v)) categories\<rparr>"
    using assms unfolding activate_staged_agency_version_def Let_def by (elim bind_resE raise_ifE) auto
  then show "staff st' = staff st \<and> case_table st' = case_table st \<and> lineage_table st' = lineage_table st \<and> version_table st' = version_table st"
    by simp
  have "a_slug (active_of v metadata) = v_slug v" by (simp add: active_of_def Let_def)
  then show "distinct (map a_slug (active_table st)) \<Longrightarrow> distinct (map a_slug (active_table st'))"
    using st' by (auto simp: distinct_map inj_on_def)
  show "distinct (category_table st) \<Longrightarrow> distinct (category_table st')"
    using st' cats by (auto simp: distinct_map inj_on_def)
qed

lemma validate_Inr:
  assumes "validate_worker_registration g st = Inr v"
  shows "version_with (version_table st) (g_version g) = Some v" and "v_slug v = g_slug g"
    and "g_slug g \<notin> w_slug ` set (worker_table (staff st))"
    and "\<And>i. g_case g = Some i \<Longrightarrow> \<exists>c. case_with (case_table st) i = Some c \<and> c_status c = Audited
      \<and> case_authorises_hire (g_slug g) (document_hash (g_contract g)) c"
proof -
  obtain u where u: "version_with (version_table st) (g_version g) = Some u"
    using assms by (cases "version_with (version_table st) (g_version g)") (auto simp: validate_worker_registration_def)
  have facts: "v = u \<and> v_slug u = g_slug g \<and> \<not> list_ex (\<lambda>w. w_slug w = g_slug g) (worker_table (staff st))
    \<and> (\<forall>i. g_case g = Some i \<longrightarrow> (\<exists>c. case_with (case_table st) i = Some c \<and> c_status c = Audited
      \<and> case_authorises_hire (g_slug g) (document_hash (g_contract g)) c))"
    using assms unfolding validate_worker_registration_def u option.case Let_def
    by (elim bind_resE raise_ifE) (auto split: option.splits elim!: bind_resE raise_ifE)
  show "version_with (version_table st) (g_version g) = Some v" "v_slug v = g_slug g"
    and "g_slug g \<notin> w_slug ` set (worker_table (staff st))"
    and "\<And>i. g_case g = Some i \<Longrightarrow> \<exists>c. case_with (case_table st) i = Some c \<and> c_status c = Audited
      \<and> case_authorises_hire (g_slug g) (document_hash (g_contract g)) c"
    using facts u by (auto simp: list_ex_iff)
qed


section \<open>The two changes keep the store well formed\<close>

lemma read_registration_agency: "read_registration q = Inr g \<Longrightarrow> g_origin g = ''agency'' \<Longrightarrow> g_case g \<noteq> None"
  unfolding read_registration_def Let_def
  by (elim bind_resE raise_ifE) (auto split: option.splits elim!: bind_resE raise_ifE)

lemma new_worker_fields [simp]: "w_id (new_worker now i g v) = i" "w_slug (new_worker now i g v) = g_slug g"
  "w_origin (new_worker now i g v) = g_origin g" "w_merged (new_worker now i g v) = None"
  by (simp_all add: new_worker_def)

lemma registration_ok:
  assumes read: "read_registration q = Inr g" and named: "worker \<noteq> []"
    and commit: "commit_registration f now worker g st = Inr (st', j)" and ok: "hiring_ok f p st"
  shows "hiring_ok f p st' \<and> hiring_evolves st st'
    \<and> extends (update_permitted (lineage_table st')) (case_table st) (case_table st')"
proof -
  let ?ws = "worker_table (staff st)" and ?cs = "case_table st" and ?ls = "lineage_table st"
  let ?st1 = "\<lambda>v. st\<lparr>staff := (staff st)\<lparr>worker_table := ?ws @ [new_worker now worker g v]\<rparr>\<rparr>"
  let ?l = "\<lparr>l_worker = worker, l_version = g_version g, l_parent = g_parent g, l_relation = g_relation g,
    l_contract = g_contract g, l_hash = document_hash (g_contract g), l_case = g_case g\<rparr>"
  obtain v st2 st3 st4 where v: "validate_worker_registration g st = Inr v" and fresh: "worker_with ?ws worker = None"
    and l: "insert_lineage ?l (?st1 v) = Inr st2"
    and c: "(case g_case g of None \<Rightarrow> Inr st2 | Some i \<Rightarrow> apply_case now i ''hiring case was already consumed'' st2) = Inr st3"
    and a: "(if g_origin g = ''agency'' then activate_staged_agency_version f False v st3 else Inr st3) = Inr st4"
    and st': "Inr (log_event (registered_event worker g v) st4, worker) = (Inr (st', j) :: (hiring_store \<times> string) res)"
    using commit unfolding commit_registration_def Let_def
    by (elim bind_resE raise_ifE) (rule that; (assumption | simp only: not_not))
  let ?w = "new_worker now worker g v"
  note version = validate_Inr [OF v] and line = insert_lineage_Inr [OF l]
  define cs' where "cs' = (case g_case g of None \<Rightarrow> ?cs | Some i \<Rightarrow> map (applied_at now i) ?cs)"
  have st3: "st3 = st2\<lparr>case_table := cs'\<rparr>"
  proof (cases "g_case g")
    case None
    with c have "st3 = st2" by simp
    then show ?thesis unfolding line(1) cs'_def by (cases st) (simp add: None)
  next
    case (Some i)
    with c have "apply_case now i ''hiring case was already consumed'' st2 = Inr st3" by simp
    from apply_case_Inr [OF this] Some show ?thesis by (simp add: cs'_def line(1))
  qed
  have st4: "staff st4 = (staff st)\<lparr>worker_table := ?ws @ [?w]\<rparr>" "case_table st4 = cs'" "lineage_table st4 = ?ls @ [?l]"
      "version_table st4 = version_table st" "distinct (map a_slug (active_table st4))" "distinct (category_table st4)"
    using a ok activate_Inr [of f False v st3 st4] by (auto simp: st3 line(1) hiring_ok_def split: if_splits)
  have slugs: "g_slug g \<notin> w_slug ` set ?ws" and ids: "worker \<notin> w_id ` set ?ws"
    using version(3) fresh by (simp_all add: worker_with_None)
  have "row_fits ?w" using named by (simp add: row_fits_def new_worker_def)
  then have "store_ok (staff st4)" using ok slugs ids by (simp add: st4 hiring_ok_def store_ok_worker)
  then have staff_ok: "store_ok (staff st')"
    using st' by (auto simp: log_event_def) (rule store_ok_log, simp_all add: st4 registered_event_def)
  have tables: "worker_table (staff st') = ?ws @ [?w]" "case_table st' = cs'" "lineage_table st' = ?ls @ [?l]"
      "version_table st' = version_table st" "active_table st' = active_table st4" "category_table st' = category_table st4"
      "prefix (worker_events (staff st)) (worker_events (staff st'))" "performance (staff st') = performance (staff st)"
    using st' by (auto simp: log_event_def bump_roster_def record_worker_event_def st4)
  have grown: "extends later_worker ?ws (?ws @ [?w])" by (rule extends_append) simp
  have known: "cases_ok f p ?ws ?cs" "lineage_ok ?ws ?cs ?ls" using ok by (simp_all add: hiring_ok_def)
  have origins: "\<forall>u\<in>set (?ws @ [?w]). (\<exists>w\<in>set ?ws. w_id w = w_id u \<and> w_origin w = w_origin u) \<or> l_worker ?l = w_id u"
    by auto
  have "cases_ok f p (?ws @ [?w]) cs' \<and> lineage_ok (?ws @ [?w]) cs' (?ls @ [?l]) \<and> extends (update_permitted (?ls @ [?l])) ?cs cs'"
  proof (cases "g_case g")
    case None
    then have "g_origin g \<noteq> ''agency''" using read_registration_agency [OF read] by blast
    then have "lineage_ok (?ws @ [?w]) ?cs (?ls @ [?l])"
      using known(2) line(2) None
      by (intro lineage_extend [OF known(2) grown extends_refl [of later_case, OF later_case_refl]])
        (auto simp: authorised_def lineage_ok_def)
    then show ?thesis
      using None cases_workers [OF known(1), of "?ws @ [?w]"] by (auto simp: cs'_def extends_refl)
  next
    case (Some i)
    then obtain d where d: "case_with ?cs i = Some d" "c_status d = Audited"
      "case_authorises_hire (g_slug g) (document_hash (g_contract g)) d" using version(4) by blast
    have "?w \<in> set (?ws @ [?w])" "w_id ?w = l_worker ?l" "c_slug d = w_slug ?w" "c_target d = None \<or> c_target d = Some (w_id ?w)"
      "c_hash d = l_hash ?l" "l_hash ?l = document_hash (l_contract ?l)" "l_case ?l = Some i"
      "l_version ?l \<notin> l_version ` set ?ls" "l_case ?l \<notin> l_case ` set ?ls"
      using d(3) line(2,3) Some by (simp_all add: case_authorises_hire_def)
    note used = use_case [OF known(2,1) grown d(1,2) this origins, where now = now]
    have "cs' = map (applied_at now i) ?cs" using Some by (simp add: cs'_def)
    with used show ?thesis by (simp only: simp_thms)
  qed
  moreover from this have "extends later_case ?cs cs'"
    by (elim conjE) (erule extends_mono [rotated], rule permitted_later)
  moreover have "w_origin ?w = ''agency'' \<longrightarrow> l_case ?l \<noteq> None" using read_registration_agency [OF read] by simp
  then have "governed (?ws @ [?w]) (?ls @ [?l])"
    using ok ids lineage_workers [OF known(2)] by (intro governed_new) (simp_all add: hiring_ok_def new_worker_def)
  ultimately show ?thesis
    using staff_ok grown st4(5,6) by (simp add: hiring_ok_def hiring_evolves_def tables)
qed

lemma set_version_fields [simp]: "w_id (set_version v w) = w_id w" "w_slug (set_version v w) = w_slug w"
  "w_origin (set_version v w) = w_origin w" "w_merged (set_version v w) = w_merged w" "w_standing (set_version v w) = w_standing w"
  "w_revision (set_version v w) = w_revision w + 1"
  by (simp_all add: set_version_def)

lemma amendment_Inr:
  assumes "commit_amendment f now identity expected version_id i document actor surface reason_text st = Inr (st', j)"
  obtains w v d st1 st2 st3 where "select_worker (worker_table (staff st)) identity = Some w" and "w_revision w = expected"
    and "w_standing w \<notin> {Retired, Merged}" and "version_with (version_table st) version_id = Some v" and "v_slug v = w_slug w"
    and "case_with (case_table st) i = Some d" and "c_status d = Audited"
    and "case_authorises_amendment w (document_hash document) d"
    and "insert_lineage \<lparr>l_worker = w_id w, l_version = version_id, l_parent = Some (w_version_id w),
      l_relation = ''agency_amendment'', l_contract = document, l_hash = document_hash document, l_case = Some i\<rparr> st = Inr st1"
    and "activate_staged_agency_version f True v (st1\<lparr>staff := (staff st1)\<lparr>worker_table :=
      update_workers (\<lambda>u. w_id u = w_id w \<and> w_revision u = expected) (set_version v) (worker_table (staff st1))\<rparr>\<rparr>) = Inr st2"
    and "apply_case now i ''amendment hiring case was already consumed'' st2 = Inr st3"
    and "Inr (log_event (amended_event w v i actor surface reason_text) st3, w_id w) = (Inr (st', j) :: (hiring_store \<times> string) res)"
proof -
  obtain w where w: "select_worker (worker_table (staff st)) identity = Some w"
    using assms by (cases "select_worker (worker_table (staff st)) identity") (auto simp: commit_amendment_def)
  note unfolded = assms [unfolded commit_amendment_def Let_def w option.case]
  obtain v where v: "version_with (version_table st) version_id = Some v"
    using unfolded by (cases "version_with (version_table st) version_id") (auto elim!: bind_resE)
  obtain d where d: "case_with (case_table st) i = Some d"
    using unfolded by (cases "case_with (case_table st) i") (auto simp: v elim!: bind_resE)
  show thesis
    using unfolded [unfolded v d option.case]
    by (elim bind_resE raise_ifE) (rule that [OF w _ _ v _ d]; (assumption | simp only: not_not))
qed

lemma amendment_ok:
  assumes commit: "commit_amendment f now identity expected version_id i document actor surface reason_text st = Inr (st', j)"
    and ok: "hiring_ok f p st"
  shows "hiring_ok f p st' \<and> hiring_evolves st st'
    \<and> extends (update_permitted (lineage_table st')) (case_table st) (case_table st')"
proof -
  let ?ws = "worker_table (staff st)" and ?cs = "case_table st" and ?ls = "lineage_table st"
  obtain w v d st1 st2 st3 where w: "select_worker ?ws identity = Some w" "w_revision w = expected" "w_standing w \<notin> {Retired, Merged}"
    and version: "version_with (version_table st) version_id = Some v"
    and d: "case_with ?cs i = Some d" "c_status d = Audited" "case_authorises_amendment w (document_hash document) d"
    and l: "insert_lineage \<lparr>l_worker = w_id w, l_version = version_id, l_parent = Some (w_version_id w),
      l_relation = ''agency_amendment'', l_contract = document, l_hash = document_hash document, l_case = Some i\<rparr> st = Inr st1"
    and a: "activate_staged_agency_version f True v (st1\<lparr>staff := (staff st1)\<lparr>worker_table :=
      update_workers (\<lambda>u. w_id u = w_id w \<and> w_revision u = expected) (set_version v) (worker_table (staff st1))\<rparr>\<rparr>) = Inr st2"
    and c: "apply_case now i ''amendment hiring case was already consumed'' st2 = Inr st3"
    and result: "Inr (log_event (amended_event w v i actor surface reason_text) st3, w_id w) = (Inr (st', j) :: (hiring_store \<times> string) res)"
    using commit by (rule amendment_Inr)
  then have st': "st' = log_event (amended_event w v i actor surface reason_text) st3" by simp
  let ?l = "\<lparr>l_worker = w_id w, l_version = version_id, l_parent = Some (w_version_id w),
      l_relation = ''agency_amendment'', l_contract = document, l_hash = document_hash document, l_case = Some i\<rparr>"
  let ?ws' = "replace_row w (set_version v w) ?ws" and ?cs' = "map (applied_at now i) ?cs"
  note line = insert_lineage_Inr [OF l]
  have ids: "distinct (map w_id ?ws)" and known: "w \<in> set ?ws" and row: "row_fits w"
    using ok select_worker_Some [OF w(1)] by (simp_all add: hiring_ok_def store_ok_def)
  have "u \<in> set ?ws \<Longrightarrow> w_id u = w_id w \<and> w_revision u = expected \<longleftrightarrow> u = w" for u
    using same_id [OF ids _ known] w(2) by auto
  then have updated: "update_workers (\<lambda>u. w_id u = w_id w \<and> w_revision u = expected) (set_version v) ?ws = ?ws'"
    by (rule update_one(1) [OF ids known])
  have st2: "staff st2 = (staff st)\<lparr>worker_table := ?ws'\<rparr>" "case_table st2 = ?cs" "lineage_table st2 = ?ls @ [?l]"
      "version_table st2 = version_table st" "distinct (map a_slug (active_table st2))" "distinct (category_table st2)"
    using activate_Inr [OF a] ok by (simp_all add: line(1) updated hiring_ok_def)
  note st3 = apply_case_Inr [OF c]
  have "row_fits (set_version v w)" using row w(3) by (auto simp: row_fits_def)
  then have "store_ok ((staff st)\<lparr>worker_table := ?ws'\<rparr>)"
    using ok known by (intro store_ok_replace) (simp_all add: hiring_ok_def)
  moreover have "w_id w \<in> w_id ` set ?ws'" using known by (force simp: replace_row_def)
  ultimately have staff_ok: "store_ok (staff st')"
    by (simp add: st' log_event_def) (rule store_ok_log, simp_all add: st3 st2 amended_event_def)
  have tables: "worker_table (staff st') = ?ws'" "case_table st' = ?cs'" "lineage_table st' = ?ls @ [?l]"
      "version_table st' = version_table st" "active_table st' = active_table st2" "category_table st' = category_table st2"
      "prefix (worker_events (staff st)) (worker_events (staff st'))" "performance (staff st') = performance (staff st)"
    by (simp_all add: st' log_event_def bump_roster_def record_worker_event_def st3 st2)
  have later: "later_worker u (if u = w then set_version v w else u)" for u
    using w(3) by (auto simp: later_worker_def set_version_def)
  then have grown: "extends later_worker ?ws ?ws'" unfolding replace_row_def by (rule extends_map)
  have origins: "\<forall>x\<in>set ?ws'. (\<exists>u\<in>set ?ws. w_id u = w_id x \<and> w_origin u = w_origin x) \<or> l_worker ?l = w_id x"
    by (auto simp: replace_row_def)
  have fits: "cases_ok f p ?ws ?cs" "lineage_ok ?ws ?cs ?ls" using ok by (simp_all add: hiring_ok_def)
  have "case_fits f p d" using fits(1) case_with_Some [OF d(1)] by (simp add: cases_ok_def)
  then have "c_target d = Some (w_id w)"
    using d(3) by (cases "c_target d") (auto simp: case_authorises_amendment_def case_fits_def)
  then have "set_version v w \<in> set ?ws'" "w_id (set_version v w) = l_worker ?l" "c_slug d = w_slug (set_version v w)"
      "c_target d = None \<or> c_target d = Some (w_id (set_version v w))"
      "c_hash d = l_hash ?l" "l_hash ?l = document_hash (l_contract ?l)" "l_case ?l = Some i"
      "l_version ?l \<notin> l_version ` set ?ls" "l_case ?l \<notin> l_case ` set ?ls"
    using d(3) line(2,3) known by (auto simp: case_authorises_amendment_def replace_row_def)
  note used = use_case [OF fits(2,1) grown d(1,2) this origins, where now = now]
  moreover from used(3) have "extends later_case ?cs ?cs'" by (rule extends_mono [rotated]) (rule permitted_later)
  moreover have "w_version_id (set_version v w) = version_id"
    using version by (auto simp: set_version_def version_with_def find_Some_iff)
  then have "governed ?ws' (?ls @ [?l])"
    using ok ids known by (intro governed_moved) (auto simp: hiring_ok_def)
  ultimately show ?thesis
    using staff_ok grown st2(5,6) by (simp add: hiring_ok_def hiring_evolves_def tables)
qed


section \<open>The roster seam\<close>

lemma stable_worker_id_named: "stable_worker_id v = Inr i \<Longrightarrow> i \<noteq> []"
proof -
  assume "stable_worker_id v = Inr i"
  then have "length i = 36" by (auto simp: stable_worker_id_def Let_def uuid5_length split: if_splits)
  then show ?thesis by auto
qed

lemma unchanged_ok:
  "hiring_ok f p st \<Longrightarrow> hiring_ok f p st \<and> hiring_evolves st st
    \<and> extends (update_permitted (lineage_table st)) (case_table st) (case_table st)"
  by (simp add: hiring_evolves_refl extends_refl)

text \<open>A change of the workers that leaves cases alone and adds at most lineage without a case\<close>

lemma seam_ok:
  assumes ok: "hiring_ok f p st" and staff_ok: "store_ok (staff st')" and grown: "extends later_worker (worker_table (staff st)) (worker_table (staff st'))"
    and same: "case_table st' = case_table st" "active_table st' = active_table st" "category_table st' = category_table st"
      "performance (staff st') = performance (staff st)"
    and events: "prefix (worker_events (staff st)) (worker_events (staff st'))"
    and lineage: "lineage_table st' = lineage_table st \<and> length (worker_table (staff st')) = length (worker_table (staff st))
      \<or> (\<exists>l v. lineage_table st' = lineage_table st @ [l] \<and> l_case l = None \<and> l_hash l = document_hash (l_contract l)
          \<and> l_version l \<notin> l_version ` set (lineage_table st) \<and> v \<in> set (worker_table (staff st')) \<and> w_id v = l_worker l
          \<and> (\<forall>u\<in>set (worker_table (staff st')). w_origin u = ''agency'' \<longrightarrow>
              (\<exists>w\<in>set (worker_table (staff st)). w_id w = w_id u \<and> w_origin w = ''agency'')))"
    and revisions: "governed (worker_table (staff st')) (lineage_table st')"
  shows "hiring_ok f p st' \<and> hiring_evolves st st' \<and> extends (update_permitted (lineage_table st')) (case_table st) (case_table st')"
proof -
  let ?ws = "worker_table (staff st)" and ?ws' = "worker_table (staff st')" and ?cs = "case_table st" and ?ls = "lineage_table st"
  have known: "cases_ok f p ?ws ?cs" "lineage_ok ?ws ?cs ?ls" using ok by (simp_all add: hiring_ok_def)
  note refl = extends_refl [of later_case, OF later_case_refl]
  have "lineage_ok ?ws' ?cs (lineage_table st') \<and> prefix ?ls (lineage_table st')"
    using lineage
  proof
    assume "lineage_table st' = ?ls \<and> length ?ws' = length ?ws"
    then show ?thesis using lineage_later [OF known(2) grown _ refl] known(2) by (simp add: lineage_ok_def)
  next
    assume "\<exists>l v. lineage_table st' = ?ls @ [l] \<and> l_case l = None \<and> l_hash l = document_hash (l_contract l)
      \<and> l_version l \<notin> l_version ` set ?ls \<and> v \<in> set ?ws' \<and> w_id v = l_worker l
      \<and> (\<forall>u\<in>set ?ws'. w_origin u = ''agency'' \<longrightarrow> (\<exists>w\<in>set ?ws. w_id w = w_id u \<and> w_origin w = ''agency''))"
    then obtain l v where l: "lineage_table st' = ?ls @ [l]" "l_case l = None" "l_hash l = document_hash (l_contract l)"
      "l_version l \<notin> l_version ` set ?ls" "v \<in> set ?ws'" "w_id v = l_worker l"
      "\<And>u. u \<in> set ?ws' \<Longrightarrow> w_origin u = ''agency'' \<Longrightarrow> \<exists>w\<in>set ?ws. w_id w = w_id u \<and> w_origin w = ''agency''"
      by blast
    have "authorised ?ws' ?cs l" using l(2,3,5,6) by (auto simp: authorised_def)
    from lineage_extend [OF known(2) grown refl this l(4)] l(2,7) known(2) show ?thesis by (auto simp: l(1) lineage_ok_def)
  qed
  moreover have "cases_ok f p ?ws' ?cs" using cases_workers [OF known(1) extends_ids [OF grown]] .
  ultimately show ?thesis
    using ok staff_ok grown events revisions by (simp add: hiring_ok_def hiring_evolves_def same refl extends_refl)
qed

lemma replace_later:
  assumes "\<And>u. u = w \<Longrightarrow> later_worker w w'"
  shows "extends later_worker ws (replace_row w w' ws)"
  unfolding replace_row_def by (rule extends_map) (use assms in auto)

lemma bootstrap_ok:
  assumes "bootstrap_worker now worker slug n st = Inr st'" and ok: "hiring_ok f p st" and "worker \<noteq> []"
    and slug: "slug \<notin> w_slug ` set (worker_table (staff st))"
  shows "hiring_ok f p st' \<and> hiring_evolves st st' \<and> extends (update_permitted (lineage_table st')) (case_table st) (case_table st')"
proof -
  let ?ws = "worker_table (staff st)" and ?w = "upstream_worker now worker slug n"
  obtain st1 where fresh: "worker_with ?ws worker = None"
    and l: "insert_lineage \<lparr>l_worker = worker, l_version = n_version_id n, l_parent = None, l_relation = ''generated'',
         l_contract = n_contract n, l_hash = document_hash (n_contract n), l_case = None\<rparr> (set_workers (?ws @ [?w]) st) = Inr st1"
    and st': "Inr (note_event (bootstrap_event worker (n_version n)) st1) = (Inr st' :: hiring_store res)"
    using assms(1) unfolding bootstrap_worker_def
    by (elim bind_resE raise_ifE) (rule that; (assumption | simp only: not_not))
  note line = insert_lineage_Inr [OF l]
  have w: "w_id ?w = worker" "w_slug ?w = slug" "row_fits ?w" "w_merged ?w = None" "w_origin ?w = ''upstream''"
    using assms(3) by (simp_all add: upstream_worker_def row_fits_def)
  have "store_ok ((staff st)\<lparr>worker_table := ?ws @ [?w]\<rparr>)"
    using ok w fresh slug by (intro store_ok_worker) (simp_all add: hiring_ok_def worker_with_None)
  then have staff_ok: "store_ok (staff st')"
    using st' append_event [of "(staff st)\<lparr>worker_table := ?ws @ [?w]\<rparr>"
        "(bootstrap_event worker (n_version n))\<lparr>e_sequence := next_event_sequence (worker_events (staff st))\<rparr>"] w(1)
    by (auto simp: note_event_def record_worker_event_def line(1) set_workers_def bootstrap_event_def)
  have tables: "worker_table (staff st') = ?ws @ [?w]" "case_table st' = case_table st" "active_table st' = active_table st"
      "category_table st' = category_table st" "performance (staff st') = performance (staff st)"
      "prefix (worker_events (staff st)) (worker_events (staff st'))"
    and lineage: "\<exists>l. lineage_table st' = lineage_table st @ [l] \<and> l_worker l = worker \<and> l_version l = n_version_id n \<and> l_case l = None
        \<and> l_hash l = document_hash (l_contract l) \<and> l_version l \<notin> l_version ` set (lineage_table st)"
    using st' line(2) by (auto simp: note_event_def record_worker_event_def line(1) set_workers_def)
  obtain l where l: "lineage_table st' = lineage_table st @ [l]" "l_worker l = worker" "l_case l = None"
      "l_hash l = document_hash (l_contract l)" "l_version l \<notin> l_version ` set (lineage_table st)" and version: "l_version l = n_version_id n"
    using lineage by blast
  have "extends later_worker ?ws (?ws @ [?w])" by (rule extends_append) simp
  then have grown: "extends later_worker ?ws (worker_table (staff st'))" by (simp only: tables(1))
  have "?w \<in> set (worker_table (staff st'))" "w_id ?w = l_worker l"
    and "\<forall>u\<in>set (worker_table (staff st')). w_origin u = ''agency'' \<longrightarrow> (\<exists>w\<in>set ?ws. w_id w = w_id u \<and> w_origin w = ''agency'')"
    by (auto simp: tables(1) w l(2))
  moreover have known: "lineage_ok ?ws (case_table st) (lineage_table st)" using ok by (simp add: hiring_ok_def)
  moreover have "w_version_id ?w = l_version l" "governed ?ws (lineage_table st)"
    using ok l version by (simp_all add: upstream_worker_def hiring_ok_def)
  then have "governed (worker_table (staff st')) (lineage_table st')"
    using fresh l(2,3) w lineage_workers [OF known] unfolding tables(1) l(1)
    by (intro governed_new) (simp_all add: worker_with_None)
  ultimately show ?thesis using l by (intro seam_ok [OF ok staff_ok grown tables(2-6)] disjI2 exI [of _ l] exI [of _ ?w] conjI)
qed

text \<open>A row that moves on with its id, slug and merge target\<close>

lemma moved_row_ok:
  assumes ok: "hiring_ok f p st" and known: "w \<in> set (worker_table (staff st))" and later: "later_worker w w'" and "row_fits w'"
    and "w_merged w' = w_merged w" and "e_worker e = w_id w"
    and st': "st' = note_event e (set_workers (replace_row w w' (worker_table (staff st))) st1)"
    and st1: "st1 = st \<or> (\<exists>l. st1 = st\<lparr>lineage_table := lineage_table st @ [l]\<rparr> \<and> l_worker l = w_id w \<and> l_case l = None
      \<and> l_hash l = document_hash (l_contract l) \<and> l_version l \<notin> l_version ` set (lineage_table st) \<and> w_origin w \<noteq> ''agency'')"
    and current: "\<exists>l\<in>set (lineage_table st1). l_worker l = w_id w \<and> l_version l = w_version_id w'"
  shows "hiring_ok f p st' \<and> hiring_evolves st st' \<and> extends (update_permitted (lineage_table st')) (case_table st) (case_table st')"
proof -
  let ?ws = "worker_table (staff st)" and ?ws' = "replace_row w w' (worker_table (staff st))"
  have same: "staff st1 = staff st" "case_table st1 = case_table st" "active_table st1 = active_table st" "category_table st1 = category_table st"
    using st1 by auto
  have id: "w_id w' = w_id w" "w_slug w' = w_slug w" "w_origin w' = w_origin w" using later by (simp_all add: later_worker_def)
  have "store_ok ((staff st)\<lparr>worker_table := ?ws'\<rparr>)"
    using ok known id assms(4,5) by (intro store_ok_replace) (simp_all add: hiring_ok_def)
  moreover have member: "w' \<in> set ?ws'" using known by (auto simp: replace_row_def)
  ultimately have staff_ok: "store_ok (staff st')"
    using append_event [of "(staff st)\<lparr>worker_table := ?ws'\<rparr>" "e\<lparr>e_sequence := next_event_sequence (worker_events (staff st))\<rparr>"]
      assms(6) id(1) by (simp add: st' note_event_def record_worker_event_def set_workers_def same) (metis imageI)
  have tables: "worker_table (staff st') = ?ws'" "case_table st' = case_table st" "active_table st' = active_table st"
      "category_table st' = category_table st" "performance (staff st') = performance (staff st)"
      "prefix (worker_events (staff st)) (worker_events (staff st'))" "lineage_table st' = lineage_table st1"
    by (simp_all add: st' note_event_def record_worker_event_def set_workers_def same)
  have "extends later_worker ?ws ?ws'" by (rule replace_later) (rule later)
  then have grown: "extends later_worker ?ws (worker_table (staff st'))" by (simp only: tables(1))
  have lineage: "lineage_table st' = lineage_table st \<and> length (worker_table (staff st')) = length ?ws"
    if "st1 = st" using that by (simp add: tables(1,7) replace_row_def)
  have origins: "\<forall>u\<in>set (worker_table (staff st')). w_origin u = ''agency'' \<longrightarrow> (\<exists>v\<in>set ?ws. w_id v = w_id u \<and> w_origin v = ''agency'')"
    using known id by (auto simp: tables(1) replace_row_def)
  have revisions: "governed (worker_table (staff st')) (lineage_table st')"
    unfolding tables(1,7) using ok known id st1 current by (intro governed_moved) (auto simp: hiring_ok_def store_ok_def)
  from st1 show ?thesis
  proof
    assume "st1 = st"
    then show ?thesis using revisions by (intro seam_ok [OF ok staff_ok grown tables(2-6)] disjI1 lineage)
  next
    assume "\<exists>l. st1 = st\<lparr>lineage_table := lineage_table st @ [l]\<rparr> \<and> l_worker l = w_id w \<and> l_case l = None
      \<and> l_hash l = document_hash (l_contract l) \<and> l_version l \<notin> l_version ` set (lineage_table st) \<and> w_origin w \<noteq> ''agency''"
    then obtain l where l: "lineage_table st' = lineage_table st @ [l]" "l_worker l = w_id w" "l_case l = None"
        "l_hash l = document_hash (l_contract l)" "l_version l \<notin> l_version ` set (lineage_table st)"
      using tables(7) by auto
    have "w' \<in> set (worker_table (staff st'))" "w_id w' = l_worker l" using member id(1) l(2) by (simp_all add: tables(1))
    with l origins revisions show ?thesis by (intro seam_ok [OF ok staff_ok grown tables(2-6)] disjI2 exI [of _ l] exI [of _ w'] conjI)
  qed
qed

lemma replace_matching:
  assumes "hiring_ok f p st" and "w \<in> set (worker_table (staff st))"
  shows "update_workers (\<lambda>u. w_id u = w_id w \<and> w_revision u = w_revision w) g (worker_table (staff st))
    = replace_row w (g w) (worker_table (staff st))"
proof -
  have ids: "distinct (map w_id (worker_table (staff st)))" using assms(1) by (simp add: hiring_ok_def store_ok_def)
  show ?thesis using same_id [OF ids _ assms(2)] by (intro update_one(1) [OF ids assms(2)]) auto
qed

lemma advance_ok:
  assumes "advance_worker origin_text w n st = Inr st'" and ok: "hiring_ok f p st" and known: "w \<in> set (worker_table (staff st))"
  shows "hiring_ok f p st' \<and> hiring_evolves st st' \<and> extends (update_permitted (lineage_table st')) (case_table st) (case_table st')"
proof -
  let ?lineage = "find (\<lambda>l. l_version l = n_version_id n) (lineage_table st)"
  let ?l = "\<lparr>l_worker = w_id w, l_version = n_version_id n, l_parent = Some (w_version_id w),
          l_relation = ''upstream_update'', l_contract = n_contract n, l_hash = document_hash (n_contract n), l_case = None\<rparr>"
  let ?e = "ingestion_event (if ?lineage \<noteq> None then ''revision_restored'' else ''upstream_update'') w
          (standing_text (w_standing w)) (n_version n) []"
  obtain st1 where l: "(if ?lineage \<noteq> None then Inr st else insert_lineage ?l st) = Inr st1"
    and upstream: "\<not> ((w_origin w \<noteq> ''upstream'' \<or> origin_text \<noteq> ''upstream'') \<and> ?lineage = None)"
    and own: "\<not> (case ?lineage of None \<Rightarrow> False | Some l \<Rightarrow> l_worker l \<noteq> w_id w)"
    and st': "Inr (note_event ?e (set_workers (update_workers (\<lambda>u. w_id u = w_id w \<and> w_revision u = w_revision w) (move_revision n)
      (worker_table (staff st1))) st1)) = (Inr st' :: hiring_store res)"
    using assms(1) unfolding advance_worker_def Let_def
    by (elim bind_resE raise_ifE) (rule that; assumption)
  have st1: "st1 = st \<or> (\<exists>l. st1 = st\<lparr>lineage_table := lineage_table st @ [l]\<rparr> \<and> l_worker l = w_id w \<and> l_case l = None
      \<and> l_hash l = document_hash (l_contract l) \<and> l_version l \<notin> l_version ` set (lineage_table st) \<and> w_origin w \<noteq> ''agency'')"
    and current: "\<exists>l\<in>set (lineage_table st1). l_worker l = w_id w \<and> l_version l = n_version_id n"
  proof (atomize (full), cases "?lineage")
    case None
    with l have "insert_lineage ?l st = Inr st1" by simp
    note line = insert_lineage_Inr [OF this]
    have "w_origin w \<noteq> ''agency''" using upstream None by auto
    with line show "(st1 = st \<or> (\<exists>l. st1 = st\<lparr>lineage_table := lineage_table st @ [l]\<rparr> \<and> l_worker l = w_id w \<and> l_case l = None
      \<and> l_hash l = document_hash (l_contract l) \<and> l_version l \<notin> l_version ` set (lineage_table st) \<and> w_origin w \<noteq> ''agency''))
      \<and> (\<exists>l\<in>set (lineage_table st1). l_worker l = w_id w \<and> l_version l = n_version_id n)"
      by (intro conjI disjI2 exI [of _ ?l] bexI [of _ ?l]) simp_all
  next
    case (Some m)
    then have "m \<in> set (lineage_table st)" "l_version m = n_version_id n" by (auto simp: find_Some_iff)
    with Some l own show "(st1 = st \<or> (\<exists>l. st1 = st\<lparr>lineage_table := lineage_table st @ [l]\<rparr> \<and> l_worker l = w_id w \<and> l_case l = None
      \<and> l_hash l = document_hash (l_contract l) \<and> l_version l \<notin> l_version ` set (lineage_table st) \<and> w_origin w \<noteq> ''agency''))
      \<and> (\<exists>l\<in>set (lineage_table st1). l_worker l = w_id w \<and> l_version l = n_version_id n)"
      by auto
  qed
  then have "staff st1 = staff st" by auto
  then have "st' = note_event ?e (set_workers (replace_row w (move_revision n w) (worker_table (staff st))) st1)"
    using st' replace_matching [OF ok known] by simp
  moreover have "row_fits w" using ok known by (simp add: hiring_ok_def store_ok_def)
  then have "row_fits (move_revision n w)" "w_merged (move_revision n w) = w_merged w" "later_worker w (move_revision n w)"
    by (simp_all add: move_revision_def row_fits_def later_worker_def)
  moreover have "e_worker ?e = w_id w" by (simp add: ingestion_event_def)
  moreover have "\<exists>l\<in>set (lineage_table st1). l_worker l = w_id w \<and> l_version l = w_version_id (move_revision n w)"
    using current by (simp add: move_revision_def)
  ultimately show ?thesis using moved_row_ok [OF ok known] st1 by blast
qed

lemma synchronize_ok:
  assumes "synchronize_active_workforce_worker now n st = Inr (st', b)" and ok: "hiring_ok f p st"
  shows "hiring_ok f p st' \<and> hiring_evolves st st' \<and> extends (update_permitted (lineage_table st')) (case_table st) (case_table st')"
proof -
  obtain slug worker where slug: "stable_worker_id (PyStr slug) = Inr worker" and run: "(let origin_text = casefold (strip (str_or_empty (n_origin n)));
         class_value = casefold (strip (str_or_empty (n_class n))) in
     case find (\<lambda>w. w_slug w = slug) (worker_table (staff st)) of
       None \<Rightarrow>
         if origin_text = ''agency'' then Inr (st, False)
         else bind_res (raise_if (origin_text \<noteq> ''upstream'' \<or> class_value \<noteq> ''employee'')
             (ValueError ''automatic workforce bootstrap is limited to upstream employees'')) (\<lambda>_.
           bind_res (bootstrap_worker now worker slug n st) (\<lambda>st'. Inr (st', True)))
     | Some w \<Rightarrow>
         if w_version_id w = n_version_id n then Inr (st, True)
         else bind_res (advance_worker origin_text w n st) (\<lambda>st'. Inr (st', True))) = Inr (st', b)"
    using assms(1) unfolding synchronize_active_workforce_worker_def Let_def by (elim bind_resE)
  show ?thesis
  proof (cases "find (\<lambda>w. w_slug w = slug) (worker_table (staff st))")
    case None
    then have "slug \<notin> w_slug ` set (worker_table (staff st))" by (auto simp: find_None_iff)
    moreover have "st' = st \<or> bootstrap_worker now worker slug n st = Inr st'"
      using run None by (auto simp: Let_def res_simps split: if_splits)
    ultimately show ?thesis using bootstrap_ok [OF _ ok stable_worker_id_named [OF slug]] unchanged_ok [OF ok] by blast
  next
    case (Some w)
    then have "w \<in> set (worker_table (staff st))" by (auto simp: find_Some_iff)
    moreover have "st' = st \<or> (\<exists>origin_text. advance_worker origin_text w n st = Inr st')"
      using run Some by (auto simp: Let_def res_simps split: if_splits)
    ultimately show ?thesis using advance_ok [OF _ ok] unchanged_ok [OF ok] by blast
  qed
qed

lemma ingested_ok:
  assumes "retire_ingested_workforce_worker agent_slug reason_value st = Inr (st', b)" and ok: "hiring_ok f p st"
  shows "hiring_ok f p st' \<and> hiring_evolves st st' \<and> extends (update_permitted (lineage_table st')) (case_table st) (case_table st')"
proof -
  obtain slug where run: "(case find (\<lambda>w. w_slug w = slug) (worker_table (staff st)) of
       None \<Rightarrow> Inr (st, False)
     | Some w \<Rightarrow>
         if w_standing w = Retired then Inr (st, False)
         else bind_res (raise_if (w_standing w = Merged)
             (ValueError ''merged workforce identity cannot be retired by ingestion'')) (\<lambda>_.
           let matches = (\<lambda>u. w_id u = w_id w \<and> w_revision u = w_revision w) in
           bind_res (raise_if (length (filter matches (worker_table (staff st))) \<noteq> 1)
             (RuntimeError ''workforce revision conflict'')) (\<lambda>_.
           bind_res (bounded_text ''reason'' 2048 reason_value) (\<lambda>reason_text.
           Inr (note_event (ingestion_event ''retired'' w ''retired'' (w_version w) reason_text)
             (set_workers (update_workers matches retired_row (worker_table (staff st))) st), True))))) = Inr (st', b)"
    using assms(1) unfolding retire_ingested_workforce_worker_def by (elim bind_resE)
  show ?thesis
  proof (cases "st' = st")
    case True
    with unchanged_ok [OF ok] show ?thesis by simp
  next
    case False
    with run obtain w where w: "find (\<lambda>w. w_slug w = slug) (worker_table (staff st)) = Some w" by (auto split: option.splits)
    with run False obtain reason_text where live: "w_standing w \<notin> {Retired, Merged}"
      and st': "st' = note_event (ingestion_event ''retired'' w ''retired'' (w_version w) reason_text)
             (set_workers (update_workers (\<lambda>u. w_id u = w_id w \<and> w_revision u = w_revision w) retired_row (worker_table (staff st))) st)"
      by (auto simp: Let_def res_simps split: if_splits)
    have known: "w \<in> set (worker_table (staff st))" using w by (auto simp: find_Some_iff)
    have "row_fits w" using ok known by (simp add: hiring_ok_def store_ok_def)
    then have moved: "later_worker w (retired_row w)" "row_fits (retired_row w)" "w_merged (retired_row w) = w_merged w"
      using live by (auto simp: retired_row_def row_fits_def later_worker_def)
    have "e_worker (ingestion_event ''retired'' w ''retired'' (w_version w) reason_text) = w_id w" by (simp add: ingestion_event_def)
    moreover have "\<exists>l\<in>set (lineage_table st). l_worker l = w_id w \<and> l_version l = w_version_id (retired_row w)"
      using ok known by (simp add: hiring_ok_def governed_def retired_row_def)
    ultimately show ?thesis using moved_row_ok [OF ok known moved _ st' [unfolded replace_matching [OF ok known]]] by simp
  qed
qed

text \<open>Events alone\<close>

lemma noted_ok:
  assumes "hiring_ok f p st" and "e_worker ` set es \<subseteq> w_id ` set (worker_table (staff st))"
  shows "hiring_ok f p (fold note_event es st)"
  using assms
proof (induction es arbitrary: st)
  case (Cons e es)
  have "store_ok (staff (note_event e st))"
    using Cons.prems append_event [of "staff st" "e\<lparr>e_sequence := next_event_sequence (worker_events (staff st))\<rparr>"]
    by (auto simp: hiring_ok_def note_event_def record_worker_event_def)
  then have "hiring_ok f p (note_event e st)"
    using Cons.prems(1) by (simp add: hiring_ok_def note_event_def record_worker_event_def)
  moreover have "worker_table (staff (note_event e st)) = worker_table (staff st)" by (simp add: note_event_def record_worker_event_def)
  ultimately show ?case using Cons by simp
qed simp

lemma repair_ok:
  assumes run: "reconcile_packaged_workforce_contracts g histories authorities st = Inr (st', inspected, updated, divergent)"
    and ok: "hiring_ok f p (hired st)"
  shows "hiring_ok f p (hired st') \<and> hiring_evolves (hired st) (hired st') \<and> case_table (hired st') = case_table (hired st)"
proof -
  obtain es where h: "hired st' = (let h = fold note_event es (hired st) in if updated = 0 then h else h\<lparr>staff := bump_roster (staff h)\<rparr>)"
    and workers: "e_worker ` set es \<subseteq> w_id ` set (worker_table (staff (hired st)))"
    using repair_frame [OF run] by blast
  let ?h = "fold note_event es (hired st)"
  have "hiring_ok f p ?h" by (rule noted_ok [OF ok workers])
  then have "hiring_ok f p (hired st')" by (simp add: h Let_def hiring_ok_def store_ok_def bump_roster_def)
  moreover note kept = only_notedD [OF only_noted_events [of "hired st" es]]
  have "hiring_evolves (hired st) (hired st')"
    by (simp add: h Let_def hiring_evolves_def kept bump_roster_def extends_refl)
  moreover have "case_table (hired st') = case_table (hired st)" by (simp add: h Let_def kept)
  ultimately show ?thesis by blast
qed


section \<open>Steps of the hiring store\<close>

text \<open>One call of a handler, or a change that the roster makes to its own tables. A clock reading and a
  new row id are not empty.\<close>

inductive hiring_step :: "(string \<Rightarrow> py_float) \<Rightarrow> (string \<Rightarrow> contractor_package list option) \<Rightarrow> hiring_store \<Rightarrow> hiring_store \<Rightarrow> bool"
  for f p where
  employed: "store_step (staff st) t \<Longrightarrow> hiring_step f p st (st\<lparr>staff := t\<rparr>)"
| created: "create_hiring_case f new_id now r st = (st', result) \<Longrightarrow> row_id new_id \<Longrightarrow> now \<noteq> [] \<Longrightarrow> hiring_step f p st st'"
| approved: "approve_hiring_case f now i operator st = (st', result) \<Longrightarrow> now \<noteq> [] \<Longrightarrow> hiring_step f p st st'"
| moved: "transition_hiring_case f p now i status_value st = (st', result) \<Longrightarrow> now \<noteq> [] \<Longrightarrow> hiring_step f p st st'"
| registered: "register_workforce_worker f now disabled q st = (st', viewed) \<Longrightarrow> now \<noteq> [] \<Longrightarrow> hiring_step f p st st'"
| amended: "apply_workforce_amendment f now disabled worker revision new_version contract i actor surface reason_value st = (st', viewed)
    \<Longrightarrow> now \<noteq> [] \<Longrightarrow> hiring_step f p st st'"
| synchronised: "synchronize_active_workforce_worker now n st = Inr (st', b) \<Longrightarrow> hiring_step f p st st'"
| ingested: "retire_ingested_workforce_worker slug reason_value st = Inr (st', b) \<Longrightarrow> hiring_step f p st st'"
| backfilled: "backfill_workforce_identity f now st = Inr (st', added) \<Longrightarrow> hiring_step f p st st'"
| repaired: "reconcile_packaged_workforce_contracts f histories authorities \<lparr>hired = st, projections = ps\<rparr>
      = Inr (ps', inspected, updated, divergent) \<Longrightarrow> hiring_step f p st (hired ps')"
| roster: "distinct (map a_slug actives) \<Longrightarrow> distinct cats
    \<Longrightarrow> hiring_step f p st (st\<lparr>version_table := vs, active_table := actives, category_table := cats\<rparr>)"

inductive_cases hiring_stepE: "hiring_step f p st st'"

lemma bounded_text_strip: "bounded_text field n v = Inr s \<Longrightarrow> s \<noteq> [] \<and> strip s = s"
  by (auto simp: bounded_text_def Let_def split: if_splits)

lemma updated_ok:
  assumes ok: "hiring_ok f p st" and g: "one_update f p g st"
  shows "hiring_ok f p (st\<lparr>case_table := map g (case_table st)\<rparr>) \<and> hiring_evolves st (st\<lparr>case_table := map g (case_table st)\<rparr>)
    \<and> extends (update_permitted (lineage_table st)) (case_table st) (map g (case_table st))"
proof -
  let ?ws = "worker_table (staff st)" and ?cs = "case_table st"
  have permitted: "c \<in> set ?cs \<Longrightarrow> update_permitted (lineage_table st) c (g c)" for c using g by (auto simp: one_update_def)
  then have later: "c \<in> set ?cs \<Longrightarrow> later_case c (g c)" for c by (rule permitted_later)
  have fits: "c \<in> set ?cs \<Longrightarrow> case_fits f p c \<Longrightarrow> case_fits f p (g c)" for c using g by (fastforce simp: one_update_def)
  have cases: "cases_ok f p ?ws (map g ?cs)"
    using ok fits later by (intro cases_update) (simp_all add: hiring_ok_def cases_ok_def)
  have grown: "extends later_case ?cs (map g ?cs)" by (rule extends_map) (rule later)
  have applied: "\<forall>d\<in>set (map g ?cs). c_status d = Applied \<longrightarrow> Some (c_id d) \<in> l_case ` set (lineage_table st)"
  proof (intro ballI impI)
    fix d assume d: "d \<in> set (map g ?cs)" "c_status d = Applied"
    obtain c where c: "c \<in> set ?cs" "d = g c" using d(1) by auto
    then have "c_status c = Applied" using g d(2) by (auto simp: one_update_def)
    then have "Some (c_id c) \<in> l_case ` set (lineage_table st)" using ok c(1) by (simp add: hiring_ok_def lineage_ok_def)
    then show "Some (c_id d) \<in> l_case ` set (lineage_table st)" using later [OF c(1)] c(2) by (simp add: later_case_def)
  qed
  have "lineage_ok ?ws ?cs (lineage_table st)" using ok by (simp add: hiring_ok_def)
  from lineage_later [OF this extends_refl [of later_worker, OF later_worker_refl] refl grown applied]
  have "lineage_ok ?ws (map g ?cs) (lineage_table st)" .
  moreover have "extends (update_permitted (lineage_table st)) ?cs (map g ?cs)" by (rule extends_map) (rule permitted)
  ultimately show ?thesis
    using ok cases grown by (simp add: hiring_ok_def hiring_evolves_def extends_refl)
qed

lemma synchronize_cases: "synchronize_active_workforce_worker now n st = Inr (st', b) \<Longrightarrow> case_table st' = case_table st"
  unfolding synchronize_active_workforce_worker_def Let_def bootstrap_worker_def advance_worker_def
  by (elim bind_resE)
    (auto simp: res_simps note_event_def set_workers_def split: option.splits if_splits dest: insert_lineage_Inr(1))

lemma backfill_ok:
  assumes "backfill_rows g now rows added st = Inr (st', n)" and "hiring_ok f p st"
  shows "hiring_ok f p st' \<and> hiring_evolves st st' \<and> case_table st' = case_table st"
  using assms
proof (induction rows arbitrary: added st)
  case Nil
  then show ?case by (simp add: hiring_evolves_refl)
next
  case (Cons row rows)
  from Cons.prems(1) obtain st1 b k where row: "backfill_row g now row st = Inr (st1, b)"
    and rest: "backfill_rows g now rows k st1 = Inr (st', n)"
    by (auto simp: res_simps)
  obtain n where "synchronize_active_workforce_worker now n st = Inr (st1, b)"
    using row by (auto simp: backfill_row_def res_simps split: prod.splits)
  then have "hiring_ok f p st1 \<and> hiring_evolves st st1 \<and> case_table st1 = case_table st"
    using synchronize_ok [OF _ Cons.prems(2)] synchronize_cases by blast
  with Cons.IH [OF rest] show ?case using hiring_evolves_trans by metis
qed

lemma hiring_step_ok:
  assumes "hiring_step f p st st'" and ok: "hiring_ok f p st"
  shows "hiring_ok f p st' \<and> hiring_evolves st st' \<and> extends (update_permitted (lineage_table st')) (case_table st) (case_table st')"
  using assms(1)
proof cases
  case (employed t)
  have "store_ok (staff st)" using ok by (simp add: hiring_ok_def)
  with employed(2) have t: "store_ok t" "evolves_to (staff st) t" using workforce.preserved workforce.advances by blast+
  then have rows: "list_all2 later_row (worker_table (staff st)) (worker_table t)" by (simp add: evolves_to_def)
  then have grown: "extends later_worker (worker_table (staff st)) (worker_table t)"
    by (intro extends_mono [OF later_row_worker] extends_list_all2)
  have known: "lineage_ok (worker_table (staff st)) (case_table st) (lineage_table st)" using ok by (simp add: hiring_ok_def)
  then have applied: "\<forall>c\<in>set (case_table st). c_status c = Applied \<longrightarrow> Some (c_id c) \<in> l_case ` set (lineage_table st)"
    by (simp add: lineage_ok_def)
  have "lineage_ok (worker_table t) (case_table st) (lineage_table st)"
    using lineage_later [OF known grown list_all2_lengthD [OF rows, symmetric] extends_refl [of later_case, OF later_case_refl] applied] .
  moreover have "cases_ok f p (worker_table t) (case_table st)"
    using ok cases_workers extends_ids [OF grown] by (auto simp: hiring_ok_def)
  moreover have moved: "\<exists>w\<in>set (worker_table (staff st)). w_id v = w_id w \<and> w_version_id v = w_version_id w \<and> w_origin v = w_origin w"
    if member: "v \<in> set (worker_table t)" for v
  proof -
    obtain w where "w \<in> set (worker_table (staff st))" "later_row w v"
      using member rows unfolding list_all2_conv_all_nth in_set_conv_nth by (metis nth_mem)
    then show ?thesis by (auto simp: later_row_def same_worker_def)
  qed
  moreover have current: "governed (worker_table (staff st)) (lineage_table st)" using ok by (simp add: hiring_ok_def)
  moreover have "governed (worker_table t) (lineage_table st)" using governed_rows [OF current] moved by blast
  ultimately show ?thesis
    using ok t grown by (simp add: employed(1) hiring_ok_def hiring_evolves_def evolves_to_def extends_refl)
next
  case (created new_id now r result)
  from created(1) show ?thesis unfolding create_hiring_case_def
  proof (cases rule: then_read_cases)
    case 1
    with ok show ?thesis using unchanged_ok by simp
  next
    case (2 i)
    then obtain c where c: "read_request new_id now r = Inr c" "commit_case c st = Inr (st', i)" by (elim bind_resE)
    have fits: "case_fits f p c" "c_status c = Proposed" using read_request_fits [OF c(1), of f p] created(2) by simp_all
    from c(2) show ?thesis
    proof (cases rule: commit_case_cases)
      case (1 d)
      with ok show ?thesis using unchanged_ok by simp
    next
      case new: 2
      have "cases_ok f p (worker_table (staff st)) (case_table st')"
        using ok new fits by (simp add: hiring_ok_def cases_append)
      moreover have "lineage_ok (worker_table (staff st)) (case_table st') (lineage_table st)"
      proof -
        have known: "lineage_ok (worker_table (staff st)) (case_table st) (lineage_table st)" using ok by (simp add: hiring_ok_def)
        then have applied: "\<forall>d\<in>set (case_table st @ [c]). c_status d = Applied \<longrightarrow> Some (c_id d) \<in> l_case ` set (lineage_table st)"
          using fits(2) by (simp add: lineage_ok_def)
        from lineage_later [OF known extends_refl [of later_worker, OF later_worker_refl] refl
            extends_append [of later_case, OF later_case_refl] applied]
        show ?thesis by (simp add: new(1))
      qed
      ultimately show ?thesis
        using ok by (simp add: new(1) hiring_ok_def hiring_evolves_def extends_refl extends_append)
    qed
  qed
next
  case (approved now i operator result)
  from approved(1) show ?thesis unfolding approve_hiring_case_def
  proof (cases rule: then_read_cases)
    case (2 j)
    then obtain k by_text where "bounded_text ''approved_by'' 128 operator = Inr by_text"
      "commit_approval now by_text k st = Inr (st', j)" by (elim bind_resE)
    moreover have "cases_ok f p (worker_table (staff st)) (case_table st)" using ok by (simp add: hiring_ok_def)
    ultimately have "st' = st \<or> (\<exists>g. one_update f p g st \<and> st' = st\<lparr>case_table := map g (case_table st)\<rparr>)"
      using approval_updates bounded_text_strip approved(2) by blast
    then show ?thesis using unchanged_ok [OF ok] updated_ok [OF ok] by auto
  qed (use unchanged_ok [OF ok] in simp)
next
  case (moved now i status_value result)
  from moved(1) show ?thesis unfolding transition_hiring_case_def
  proof (cases rule: then_read_cases)
    case (2 j)
    then obtain s k where "s \<noteq> Applied" "commit_status f p now s k st = Inr (st', j)"
      by (elim bind_resE) (auto split: option.splits case_status.splits)
    moreover have "cases_ok f p (worker_table (staff st)) (case_table st)" using ok by (simp add: hiring_ok_def)
    ultimately obtain g where "one_update f p g st" "st' = st\<lparr>case_table := map g (case_table st)\<rparr>"
      using status_updates by blast
    then show ?thesis using updated_ok [OF ok] by auto
  qed (use unchanged_ok [OF ok] in simp)
next
  case (registered now disabled q result)
  from registered(1) show ?thesis unfolding register_workforce_worker_def
  proof (cases rule: then_read_cases)
    case (2 j)
    then obtain g i where "read_registration q = Inr g" "stable_worker_id (PyStr (g_slug g)) = Inr i"
      "commit_registration f now i g st = Inr (st', j)" by (elim bind_resE)
    then show ?thesis using registration_ok stable_worker_id_named ok by blast
  qed (use unchanged_ok [OF ok] in simp)
next
  case (amended now disabled worker revision new_version contract i actor surface reason_value result)
  from amended(1) show ?thesis unfolding apply_workforce_amendment_def
  proof (cases rule: then_read_cases)
    case (2 j)
    then show ?thesis using amendment_ok ok by (elim bind_resE) blast
  qed (use unchanged_ok [OF ok] in simp)
next
  case (synchronised now n b)
  then show ?thesis using synchronize_ok ok by blast
next
  case (ingested slug reason_value b)
  then show ?thesis using ingested_ok ok by blast
next
  case (backfilled now added)
  then obtain t where t: "backfill_rows f now (unemployed st) 0 st = Inr (t, added)"
    and st': "st' = t\<lparr>staff := (staff t)\<lparr>roster_counter := roster_counter (staff t) + int added\<rparr>\<rparr>"
    by (auto simp: backfill_workforce_identity_def res_simps)
  have "case_table t = case_table st" using backfill_ok [OF t ok] by simp
  with backfill_ok [OF t ok] show ?thesis
    by (simp add: st' hiring_ok_def hiring_evolves_def store_ok_def extends_refl)
next
  case (repaired histories authorities ps st1 inspected updated divergent)
  from repair_ok [OF repaired(2)] ok show ?thesis by (simp add: repaired(1) extends_refl)
next
  case (roster actives cats vs)
  with ok show ?thesis by (simp add: hiring_ok_def hiring_evolves_def extends_refl)
qed

interpretation hiring: evolving "hiring_step f p" "hiring_ok f p" hiring_evolves for f p
  using hiring_step_ok hiring_evolves_refl hiring_evolves_trans by unfold_locales blast+

end
