(* ===== verification/Hiring_Evidence.thy ===== *)
theory Hiring_Evidence
  imports Hiring_Machine Document_Text
begin

text \<open>
  The evidence of a hiring case, written by \<open>_document\<close> and read by \<open>_decoded\<close>: the writer bounds
  the bytes of a document only, the reader also its nesting and the number of its values. What this
  means for the handlers, and a case that goes all the way.
\<close>

section \<open>Documents read back\<close>

lemma required_document_Inr:
  assumes "required_document field v = Inr document"
  obtains d where "v = PyDict d" and "document = value_dumps v" and "bytes document \<le> max_document_bytes" and "document \<noteq> ''{}''"
  using assms by (cases v) (auto simp: required_document_def document_text_def Let_def res_simps split: if_splits)

lemma decoded_document:
  assumes "required_document field v = Inr document" and "dumpable v"
  shows "if readable v then \<exists>d. sorted_value v = PyDict d \<and> decoded f document = Inr d
    else decoded f document = Inl (RuntimeError ''stored workforce evidence is invalid'')"
proof -
  obtain d where v: "v = PyDict d" and document: "document = value_dumps v" "bytes document \<le> max_document_bytes"
    using assms(1) by (rule required_document_Inr)
  have some: "document \<noteq> []" by (simp add: document v)
  have loaded: "load_evidence f document = Inr w \<longleftrightarrow> w = sorted_value v \<and> readable v" for w
    using load_evidence_document [OF assms(2)] document by simp
  show ?thesis
  proof (cases "readable v")
    case True
    then have "load_evidence f document = Inr (sorted_value v)" using loaded by simp
    with True some show ?thesis by (simp add: decoded_def v)
  next
    case False
    then obtain e where "load_evidence f document = Inl e" using loaded by (cases "load_evidence f document") auto
    with False some show ?thesis by (simp add: decoded_def)
  qed
qed

lemma decoded_error: "decoded f document = Inl e \<Longrightarrow> e = RuntimeError ''stored workforce evidence is invalid''"
  by (auto simp: decoded_def split: sum.splits pyval.splits)

text \<open>The documents of a new case\<close>

lemma read_request_documents:
  assumes "read_request new_id now r = Inr c"
  shows "required_document ''gap_evidence'' (r_gap r) = Inr (c_gap c)"
    and "required_document ''duplicate_evidence'' (r_duplicate r) = Inr (c_duplicate c)"
    and "required_document ''contract_evidence'' (r_contract r) = Inr (c_contract c)"
    and "required_document ''critic_evidence'' (r_critic r) = Inr (c_critic c)"
    and "required_document ''model_evidence'' (r_model r) = Inr (c_model c)"
proof -
  obtain human where human: "r_human r = PyBool human"
    using assms unfolding read_request_def Let_def
    by (elim bind_resE raise_ifE) (cases "r_human r", simp_all only: pyval.case sum.distinct)
  note read = assms [unfolded read_request_def Let_def human pyval.case]
  show "required_document ''gap_evidence'' (r_gap r) = Inr (c_gap c)"
    "required_document ''duplicate_evidence'' (r_duplicate r) = Inr (c_duplicate c)"
    "required_document ''contract_evidence'' (r_contract r) = Inr (c_contract c)"
    "required_document ''critic_evidence'' (r_critic r) = Inr (c_critic c)"
    "required_document ''model_evidence'' (r_model r) = Inr (c_model c)"
    using read by (elim bind_resE raise_ifE; simp only: sum.inject; hypsubst; simp)+
qed

definition case_documents :: "hiring_case \<Rightarrow> string list" where
  "case_documents c = [c_gap c, c_duplicate c, c_contract c, c_critic c, c_model c]"

definition request_evidence :: "hiring_request \<Rightarrow> pyval list" where
  "request_evidence r = [r_gap r, r_duplicate r, r_contract r, r_critic r, r_model r]"

text \<open>A case is shown when every document can be read.\<close>

lemma get_hiring_case_known:
  assumes "case_with (case_table st) i = Some c" and "row_id i"
  shows "if \<forall>document\<in>set (case_documents c). \<exists>d. decoded f document = Inr d
    then \<exists>view. get_hiring_case f (PyStr i) st = Inr view \<and> view_case view = c
    else get_hiring_case f (PyStr i) st = Inl (RuntimeError ''stored workforce evidence is invalid'')"
proof -
  have error: "(\<nexists>d. decoded f s = Inr d) \<Longrightarrow> decoded f s = Inl (RuntimeError ''stored workforce evidence is invalid'')" for s
    using decoded_error [of f s] by (cases "decoded f s") auto
  show ?thesis
    using assms error [of "c_gap c"] error [of "c_duplicate c"] error [of "c_contract c"] error [of "c_critic c"] error [of "c_model c"]
    by (cases "decoded f (c_gap c)"; cases "decoded f (c_duplicate c)"; cases "decoded f (c_contract c)";
        cases "decoded f (c_critic c)"; cases "decoded f (c_model c)")
      (simp_all add: get_hiring_case_def row_id_def case_documents_def)
qed

lemma unreadable_not_auditable:
  assumes "read_request new_id now r = Inr c" and "\<forall>v\<in>set (request_evidence r). dumpable v"
    and "\<not> (readable (r_contract r) \<and> readable (r_critic r) \<and> readable (r_model r))"
  shows "case_evidence_is_auditable f p c = Inl (RuntimeError ''stored workforce evidence is invalid'')"
proof -
  note documents = read_request_documents [OF assms(1)]
  have dumpable: "dumpable (r_contract r)" "dumpable (r_critic r)" "dumpable (r_model r)"
    using assms(2) by (simp_all add: request_evidence_def)
  note decode = decoded_document [OF documents(3) dumpable(1), of f] decoded_document [OF documents(4) dumpable(2), of f]
    decoded_document [OF documents(5) dumpable(3), of f]
  have load: "load_evidence f document = Inr (PyDict d)" if "decoded f document = Inr d" "document \<noteq> []" for document d
    using that by (auto simp: decoded_def split: sum.splits pyval.splits)
  have no_load: "\<exists>e. load_evidence f document = Inl e"
    if "required_document field v = Inr document" "dumpable v" "\<not> readable v" for field v document
  proof -
    have "document = value_dumps v" "bytes document \<le> max_document_bytes" using that(1) by (auto elim: required_document_Inr)
    then show ?thesis using load_evidence_document [OF that(2), of f] that(3) by (cases "load_evidence f document") auto
  qed
  have "\<not> packaged_hiring_case_is_auditable f p c"
    using assms(3) no_load [OF documents(3) dumpable(1)] no_load [OF documents(4) dumpable(2)] no_load [OF documents(5) dumpable(3)]
    by (auto simp: packaged_hiring_case_is_auditable_def split: option.splits sum.splits)
  then show ?thesis
    using decode assms(3) by (auto simp: case_evidence_is_auditable_def split: if_splits)
qed


section \<open>A hire from its proposal to the registered worker\<close>

definition example_contract :: pyval where "example_contract = PyDict [(''name'', PyStr ''writer'')]"
definition example_critic :: pyval where
  "example_critic = PyDict [(''approved'', PyBool True), (''receipt'', PyDict [(''id'', PyStr ''r-1'')])]"
definition example_model :: pyval where
  "example_model = PyDict [(''receipts'', PyList [PyDict [(''actual_model'', PyStr ''m''),
     (''model_receipt_source'', PyStr ''response''), (''provider'', PyStr ''p''), (''receipt_id'', PyStr ''r-2'')]])]"
definition example_gap :: pyval where "example_gap = PyDict [(''gap'', PyStr ''prose'')]"

definition example_request :: hiring_request where
  "example_request = \<lparr>r_type = PyStr ''hire'', r_slug = PyStr ''writer'', r_unit = PyStr ''unit-1'',
     r_request = PyStr (document_hash ''{}''), r_gap = example_gap, r_duplicate = example_gap, r_contract = example_contract,
     r_critic = example_critic, r_model = example_model, r_hash = PyStr (document_hash (value_dumps example_contract)),
     r_target = PyNone, r_session = PyNone, r_trace = PyNone, r_key = PyNone, r_risk = PyStr ''high'', r_human = PyBool True\<rparr>"

definition example_case :: hiring_case where
  "example_case = \<lparr>c_id = ''case-1'', c_key = hiring_case_key ''hire'' ''writer'' None ''unit-1'' (document_hash ''{}''),
     c_type = ''hire'', c_status = Proposed, c_slug = ''writer'', c_target = None, c_session = [], c_trace = [],
     c_unit = ''unit-1'', c_request = document_hash ''{}'', c_gap = value_dumps example_gap, c_duplicate = value_dumps example_gap,
     c_contract = value_dumps example_contract, c_critic = value_dumps example_critic, c_model = value_dumps example_model,
     c_hash = document_hash (value_dumps example_contract), c_risk = ''high'', c_human = True, c_approved_by = [],
     c_approved_at = None, c_created = ''t1'', c_decided = None, c_applied = None\<rparr>"

definition example_version :: version_row where
  "example_version = \<lparr>v_id = ''version-1'', v_slug = ''writer'', v_version = ''1'', v_source_version = [], v_source_id = [],
     v_hash = ''h'', v_content = [], v_metadata = ''{}''\<rparr>"

definition example_store :: hiring_store where
  "example_store = \<lparr>staff = \<lparr>worker_table = [], worker_events = [], performance = [], roster_counter = 0\<rparr>, case_table = [],
     lineage_table = [], version_table = [example_version], active_table = [], category_table = []\<rparr>"

definition example_registration :: registration_request where
  "example_registration = \<lparr>q_slug = PyStr ''writer'', q_name = PyStr ''Writer'', q_origin = PyStr ''agency'',
     q_class = PyStr ''contractor'', q_version = PyStr ''version-1'', q_contract = example_contract, q_relation = PyStr ''generated'',
     q_case = PyStr ''case-1'', q_parent = PyNone\<rparr>"

definition no_floats :: "string \<Rightarrow> py_float" where "no_floats t = PyNan"
definition no_packages :: "string \<Rightarrow> contractor_package list option" where "no_packages slug = None"

lemma example_store_ok: "hiring_ok f p example_store"
  by (simp add: hiring_ok_def example_store_def store_ok_def cases_ok_def lineage_ok_def governed_def merges_def acyclic_def)

lemma sha256_text_hash: "sha256_text field (PyStr (document_hash s)) = Inr (document_hash s)"
proof -
  have plain: "is_hex c \<Longrightarrow> \<not> is_space c \<and> fold_char c = [c]" for c
    by (auto simp: is_hex_def is_space_def fold_char_def Let_def)
  have "list_all is_hex (document_hash s)" "length (document_hash s) = 64" by (simp_all add: document_hash_def)
  moreover from this have "strip (document_hash s) = document_hash s" using plain by (intro strip_word) (auto simp: list_all_iff)
  moreover have "casefold (document_hash s) = document_hash s"
    using calculation(1) plain by (intro fold_chars_stable) (auto simp: list_all_iff)
  ultimately show ?thesis by (simp add: sha256_text_def Let_def)
qed

lemma example_documents:
  assumes "v \<in> {example_gap, example_contract, example_critic, example_model}"
  shows "bytes (value_dumps v) \<le> max_document_bytes \<and> value_dumps v \<noteq> ''{}'' \<and> value_dumps v \<noteq> [] \<and> dumpable v \<and> readable v
    \<and> (\<exists>d. v = PyDict d)"
proof -
  have "bytes (value_dumps example_gap) \<le> 200" "bytes (value_dumps example_contract) \<le> 200"
    "bytes (value_dumps example_critic) \<le> 200" "bytes (value_dumps example_model) \<le> 200"
    "value_dumps example_gap \<noteq> ''{}''" "value_dumps example_contract \<noteq> ''{}''"
    "value_dumps example_critic \<noteq> ''{}''" "value_dumps example_model \<noteq> ''{}''"
    by code_simp+
  then have "bytes (value_dumps v) \<le> 200" "value_dumps v \<noteq> ''{}''" using assms by blast+
  moreover have "\<exists>d. v = PyDict d" "dumpable v" "readable v"
    using assms by (auto simp: readable_def example_gap_def example_contract_def example_critic_def example_model_def)
  moreover from this(1) have "value_dumps v \<noteq> []" by auto
  ultimately show ?thesis by (simp add: max_document_bytes_def)
qed

lemma example_required:
  assumes "v \<in> {example_gap, example_contract, example_critic, example_model}"
  shows "required_document field v = Inr (value_dumps v)"
proof -
  obtain d where d: "v = PyDict d" and "bytes (value_dumps v) \<le> max_document_bytes" "value_dumps v \<noteq> ''{}''"
    using example_documents [OF assms] by blast
  then have "document_text field d = Inr (value_dumps v)" by (simp add: document_text_def Let_def del: value_dumps.simps)
  then show ?thesis using \<open>value_dumps v \<noteq> ''{}''\<close> unfolding required_document_def by (simp add: d del: value_dumps.simps)
qed

lemma example_reads_with:
  assumes contract: "\<And>field. required_document field v = Inr (value_dumps v)"
  shows "read_request ''case-1'' ''t1'' (example_request\<lparr>r_contract := v, r_hash := PyStr (document_hash (value_dumps v))\<rparr>)
    = Inr (example_case\<lparr>c_contract := value_dumps v, c_hash := document_hash (value_dumps v)\<rparr>)"
proof -
  have texts: "casefold (strip ''hire'') = ''hire''" "casefold (strip ''high'') = ''high''"
    "normalize_agent_slug (PyStr ''writer'') = Inr ''writer''" "correlation_id ''work_unit_id'' (PyStr ''unit-1'') = Inr ''unit-1''"
    by code_simp+
  have documents: "required_document field example_gap = Inr (value_dumps example_gap)"
    "required_document field example_critic = Inr (value_dumps example_critic)"
    "required_document field example_model = Inr (value_dumps example_model)" for field
    by (rule example_required, simp)+
  show ?thesis
    by (simp only: read_request_def example_request_def hiring_request.simps str_or_empty_PyStr str_or_empty_PyNone texts
        documents contract sha256_text_hash optional_identifier_def Let_def)
      (simp add: example_case_def documents contract del: value_dumps.simps)
qed

lemma example_reads: "read_request ''case-1'' ''t1'' example_request = Inr example_case"
  using example_reads_with [of example_contract] example_required [of example_contract]
  by (simp add: example_request_def example_case_def del: value_dumps.simps)

lemma example_decoded:
  assumes "v \<in> {example_gap, example_contract, example_critic, example_model}"
  shows "decoded f (value_dumps v) = (case sorted_value v of PyDict d \<Rightarrow> Inr d | _ \<Rightarrow> Inr [])"
proof -
  have "bytes (value_dumps v) \<le> max_document_bytes" "dumpable v" "readable v" and some: "value_dumps v \<noteq> []" and "\<exists>d. v = PyDict d"
    using example_documents [OF assms] by blast+
  then have "load_evidence f (value_dumps v) = Inr (sorted_value v)" using load_evidence_document by blast
  moreover obtain d where "sorted_value v = PyDict d" using \<open>\<exists>d. v = PyDict d\<close> by auto
  ultimately show ?thesis using some unfolding decoded_def by (simp only: if_False sum.case pyval.case)
qed

lemma example_auditable: "case_evidence_is_auditable no_floats no_packages example_case = Inr True"
proof -
  have strip: "strip ''p'' = ''p''" "strip ''r-2'' = ''r-2''" "strip ''m'' = ''m''" "strip ''response'' = ''response''" by code_simp+
  have sorted: "sorted_value example_contract = example_contract" "sorted_value example_critic = example_critic"
    "sorted_value example_model = example_model"
    by code_simp+
  show ?thesis
    by (simp add: case_evidence_is_auditable_def packaged_hiring_case_is_auditable_def no_packages_def example_case_def example_decoded
        sorted del: value_dumps.simps)
      (simp add: example_contract_def example_critic_def example_model_def py_get_def auditable_receipt_def Let_def strip
        del: value_dumps.simps)
qed

end
