(* ===== verification/Hiring_Properties.thy ===== *)
theory Hiring_Properties
  imports Hiring_Evidence
begin

text \<open>
  What the hiring handlers guarantee over every history of the store, and one history that uses all
  of them: a high-risk hire that is proposed, approved by an operator, audited and registered.
\<close>

section \<open>A complete history\<close>

lemma committed: "committed = Inr (st', i) \<Longrightarrow> \<exists>result. then_read st committed reader = (st', result)"
  by (simp add: then_read_def)

definition example_approved :: hiring_case where
  "example_approved = example_case\<lparr>c_approved_by := ''op'', c_approved_at := Some ''t2''\<rparr>"

definition example_audited :: hiring_case where
  "example_audited = example_approved\<lparr>c_status := Audited, c_decided := Some ''t3''\<rparr>"

definition with_case :: "hiring_case \<Rightarrow> hiring_store" where
  "with_case c = example_store\<lparr>case_table := [c]\<rparr>"

definition hired_worker :: string where "hired_worker = uuid5 worker_namespace ''writer''"

definition read_example :: registration where
  "read_example = \<lparr>g_slug = ''writer'', g_name = ''Writer'', g_origin = ''agency'', g_class = Contractor, g_version = ''version-1'',
     g_parent = None, g_case = Some ''case-1'', g_relation = ''generated'', g_contract = value_dumps example_contract\<rparr>"

definition example_hired :: hiring_store where
  "example_hired = log_event (registered_event hired_worker read_example example_version)
     (example_store\<lparr>staff := (staff example_store)\<lparr>worker_table := [new_worker ''t4'' hired_worker read_example example_version]\<rparr>,
       case_table := [example_audited\<lparr>c_status := Applied, c_applied := Some ''t4''\<rparr>],
       lineage_table := [\<lparr>l_worker = hired_worker, l_version = ''version-1'', l_parent = None, l_relation = ''generated'',
         l_contract = value_dumps example_contract, l_hash = document_hash (value_dumps example_contract),
         l_case = Some ''case-1''\<rparr>],
       active_table := [active_of example_version []]\<rparr>)"

lemma example_row_id: "row_id ''case-1''" "correlation_id ''case_id'' (PyStr ''case-1'') = Inr ''case-1''"
  "bounded_text ''approved_by'' 128 (PyStr ''op'') = Inr ''op''" "casefold (strip ''audited'') = ''audited''"
  unfolding row_id_def by code_simp+

lemma example_creates: "commit_case example_case example_store = Inr (with_case example_case, ''case-1'')"
  by (simp add: commit_case_def example_store_def with_case_def case_with_def example_case_def)

lemma example_approves: "commit_approval ''t2'' ''op'' ''case-1'' (with_case example_case) = Inr (with_case example_approved, ''case-1'')"
  by (simp add: commit_approval_def with_case_def case_with_def update_case_def example_case_def example_approved_def)

lemma example_audits:
  "commit_status no_floats no_packages ''t3'' Audited ''case-1'' (with_case example_approved) = Inr (with_case example_audited, ''case-1'')"
proof -
  have "same_evidence example_approved example_case" by (simp add: same_evidence_def example_approved_def)
  then have "case_evidence_is_auditable no_floats no_packages example_approved = Inr True"
    by (simp only: auditable_same example_auditable)
  moreover have "strip ''op'' = ''op''" by code_simp
  ultimately show ?thesis
    by (simp add: commit_status_def with_case_def case_with_def update_case_def human_approved_def example_audited_def set_status_def
        example_approved_def example_case_def)
qed

lemma example_reads_registration: "read_registration example_registration = Inr read_example"
proof -
  have texts: "normalize_agent_slug (PyStr ''writer'') = Inr ''writer''" "bounded_text ''display_name'' 256 (PyStr ''Writer'') = Inr ''Writer''"
    "casefold (strip ''agency'') = ''agency''" "casefold (strip ''contractor'') = ''contractor''"
    "casefold (strip ''generated'') = ''generated''" "correlation_id ''agent_version_id'' (PyStr ''version-1'') = Inr ''version-1''"
    "correlation_id ''hiring_case_id'' (PyStr ''case-1'') = Inr ''case-1''" "truthy (PyStr ''case-1'')" "\<not> truthy PyNone"
    by code_simp+
  have contract: "required_document ''recruitment_contract'' example_contract = Inr (value_dumps example_contract)"
    by (rule example_required) simp
  show ?thesis
    by (simp only: read_registration_def example_registration_def registration_request.simps str_or_empty_PyStr texts contract
        optional_identifier_def Let_def if_True if_False)
      (simp add: read_example_def lineage_relations_def del: value_dumps.simps)
qed

lemma example_named: "stable_worker_id (PyStr (g_slug read_example)) = Inr hired_worker"
proof -
  have "casefold (strip ''writer'') = ''writer''" "is_worker_slug ''writer''" by code_simp+
  then show ?thesis by (simp add: stable_worker_id_def read_example_def hired_worker_def)
qed

lemma decoded_empty: "decoded f ''{}'' = Inr []"
proof -
  have "value_dumps (PyDict []) = ''{}''" "bytes ''{}'' \<le> 200" by code_simp+
  then have "load_evidence f ''{}'' = Inr (PyDict [])"
    using load_evidence_document [of "PyDict []" f "PyDict []"] by (simp add: readable_def max_document_bytes_def)
  then show ?thesis by (simp add: decoded_def)
qed

lemma example_registers:
  "commit_registration no_floats ''t4'' hired_worker read_example (with_case example_audited) = Inr (example_hired, hired_worker)"
proof -
  note metadata = decoded_empty [of no_floats]
  have "validate_worker_registration read_example (with_case example_audited) = Inr example_version"
    by (simp add: validate_worker_registration_def read_example_def with_case_def example_audited_def example_approved_def example_case_def
        example_version_def example_store_def version_with_def case_with_def case_authorises_hire_def)
  then show ?thesis
    by (simp add: commit_registration_def worker_with_def insert_lineage_def apply_case_def activate_staged_agency_version_def
        metadata with_case_def read_example_def example_version_def example_store_def example_hired_def example_audited_def
        example_approved_def example_case_def py_get_def py_or_def)
qed


lemma example_steps:
  "hiring_step no_floats no_packages example_store (with_case example_case)"
  "hiring_step no_floats no_packages (with_case example_case) (with_case example_approved)"
  "hiring_step no_floats no_packages (with_case example_approved) (with_case example_audited)"
  "hiring_step no_floats no_packages (with_case example_audited) example_hired"
proof -
  have "\<exists>result. create_hiring_case no_floats ''case-1'' ''t1'' example_request example_store = (with_case example_case, result)"
    unfolding create_hiring_case_def by (rule committed) (simp add: example_reads example_creates)
  then show "hiring_step no_floats no_packages example_store (with_case example_case)"
    using hiring_step.created example_row_id(1) by blast
  have "\<exists>result. approve_hiring_case no_floats ''t2'' (PyStr ''case-1'') (PyStr ''op'') (with_case example_case)
      = (with_case example_approved, result)"
    unfolding approve_hiring_case_def by (rule committed) (simp add: example_row_id example_approves)
  then show "hiring_step no_floats no_packages (with_case example_case) (with_case example_approved)"
    using hiring_step.approved by blast
  have "\<exists>result. transition_hiring_case no_floats no_packages ''t3'' (PyStr ''case-1'') (PyStr ''audited'') (with_case example_approved)
      = (with_case example_audited, result)"
    unfolding transition_hiring_case_def
    by (rule committed) (simp add: example_row_id(2) str_or_empty_PyStr [of "''audited''"] example_row_id(4) case_statuses_def example_audits)
  then show "hiring_step no_floats no_packages (with_case example_approved) (with_case example_audited)"
    using hiring_step.moved by blast
  have "\<exists>result. register_workforce_worker no_floats ''t4'' [] example_registration (with_case example_audited) = (example_hired, result)"
    unfolding register_workforce_worker_def
    by (rule committed) (simp add: example_reads_registration example_named example_registers)
  then show "hiring_step no_floats no_packages (with_case example_audited) example_hired"
    using hiring_step.registered by blast
qed

lemma example_history: "(hiring_step no_floats no_packages)\<^sup>*\<^sup>* example_store example_hired"
  using example_steps by (meson converse_rtranclp_into_rtranclp rtranclp.rtrancl_refl)



section \<open>Every history\<close>

lemma example_hired_ok: "hiring_ok no_floats no_packages example_hired \<and> hiring_evolves example_store example_hired"
  using hiring.reachable [OF example_history example_store_ok] .

text \<open>C32: A store that the handlers reach is well formed: keys are unique, a case that is audited or
  applied passes the audit and has the human approval it needs, a case is applied exactly when a
  lineage row names it, and that row is for the worker and the contract the case authorises. The
  tables only grow, decisions and approvals are never withdrawn, and the next call changes cases only
  as the triggers of the schema permit.\<close>
theorem reachable_hiring_ok:
  assumes "hiring_ok f p st" and "(hiring_step f p)\<^sup>*\<^sup>* st st'" and "hiring_step f p st' st''"
  shows "hiring_ok f p st'' \<and> hiring_evolves st st''
    \<and> extends (update_permitted (lineage_table st'')) (case_table st') (case_table st'')"
proof -
  have now: "hiring_ok f p st'" "hiring_evolves st st'" using hiring.reachable [OF assms(2,1)] by simp_all
  from hiring_step_ok [OF assms(3) now(1)] show ?thesis using hiring_evolves_trans now(2) by blast
qed

lemma reachable_hiring_ok_witness:
  "hiring_ok no_floats no_packages example_hired \<and> hiring_evolves example_store example_hired
    \<and> extends (update_permitted (lineage_table example_hired)) (case_table (with_case example_audited)) (case_table example_hired)"
  using reachable_hiring_ok [OF example_store_ok _ example_steps(4)] example_steps(1,2,3)
  by (meson converse_rtranclp_into_rtranclp rtranclp.rtrancl_refl)

text \<open>C31: Nobody is hired without a decision: every worker of the agency's own origin, in every store
  that the handlers reach, has a hiring case for its slug and for the very contract of its current
  revision, which was audited on its critic and model evidence, approved by a named operator when a
  human had to approve it, which is always so for a high-risk case, and then used up; no upstream
  synchronisation, ingestion or backfill moves it to a revision without one.\<close>
theorem agency_worker_authorised:
  assumes "hiring_ok f p st" and "(hiring_step f p)\<^sup>*\<^sup>* st st'" and "w \<in> set (worker_table (staff st'))"
    and "w_origin w = ''agency''"
  shows "\<exists>l\<in>set (lineage_table st'). \<exists>c\<in>set (case_table st'). l_worker l = w_id w \<and> l_version l = w_version_id w
    \<and> l_case l = Some (c_id c) \<and> c_slug c = w_slug w \<and> c_hash c = document_hash (l_contract l) \<and> c_status c = Applied
    \<and> case_evidence_is_auditable f p c = Inr True \<and> (c_human c \<longrightarrow> human_approved c) \<and> (c_risk c = ''high'' \<longrightarrow> c_human c)"
proof -
  have ok: "hiring_ok f p st'" using hiring.reachable [OF assms(2,1)] by simp
  then have "governed (worker_table (staff st')) (lineage_table st')" by (simp add: hiring_ok_def)
  then obtain l where l: "l \<in> set (lineage_table st')" "l_worker l = w_id w" "l_case l \<noteq> None" and revision: "l_version l = w_version_id w"
    using assms(3,4) unfolding governed_def by metis
  have "authorised (worker_table (staff st')) (case_table st') l" using ok l(1) by (simp add: hiring_ok_def lineage_ok_def)
  then obtain v c where v: "v \<in> set (worker_table (staff st'))" "w_id v = l_worker l" and hash: "l_hash l = document_hash (l_contract l)"
    and c: "c \<in> set (case_table st')" "l_case l = Some (c_id c)" "c_status c = Applied" "c_slug c = w_slug v" "c_hash c = l_hash l"
    using l(3) unfolding authorised_def by (metis option.exhaust)
  have "v = w" using ok v assms(3) l(2) by (auto simp: hiring_ok_def store_ok_def distinct_map dest: inj_onD)
  moreover have "case_fits f p c" using ok c(1) by (simp add: hiring_ok_def cases_ok_def)
  ultimately have "l_worker l = w_id w \<and> l_version l = w_version_id w \<and> l_case l = Some (c_id c) \<and> c_slug c = w_slug w \<and> c_hash c = document_hash (l_contract l)
      \<and> c_status c = Applied \<and> case_evidence_is_auditable f p c = Inr True \<and> (c_human c \<longrightarrow> human_approved c)
      \<and> (c_risk c = ''high'' \<longrightarrow> c_human c)"
    using l revision c hash by (simp add: case_fits_def)
  with l(1) c(1) show ?thesis by blast
qed

lemma example_hired_worker: "new_worker ''t4'' hired_worker read_example example_version \<in> set (worker_table (staff example_hired))"
  "w_origin (new_worker ''t4'' hired_worker read_example example_version) = ''agency''"
  by (simp_all add: example_hired_def log_event_def bump_roster_def record_worker_event_def read_example_def)

lemma agency_worker_authorised_witness:
  "\<exists>l\<in>set (lineage_table example_hired). \<exists>c\<in>set (case_table example_hired). l_worker l = hired_worker
    \<and> l_version l = g_version read_example \<and> l_case l = Some (c_id c)
    \<and> c_slug c = ''writer'' \<and> c_hash c = document_hash (l_contract l) \<and> c_status c = Applied
    \<and> case_evidence_is_auditable no_floats no_packages c = Inr True \<and> (c_human c \<longrightarrow> human_approved c)
    \<and> (c_risk c = ''high'' \<longrightarrow> c_human c)"
  using agency_worker_authorised [OF example_store_ok example_history example_hired_worker] by (simp add: read_example_def new_worker_def)

lemma filter_unique: "distinct (filter (\<lambda>y. y \<noteq> None) (map f xs)) \<Longrightarrow> v \<noteq> None \<Longrightarrow> v \<in> f ` set xs
  \<Longrightarrow> length (filter (\<lambda>x. f x = v) xs) = 1"
proof (induction xs)
  case (Cons x xs)
  show ?case
  proof (cases "f x = v")
    case True
    then have "v \<notin> f ` set xs" using Cons.prems(1,2) by auto
    then have "filter (\<lambda>x. f x = v) xs = []" by (auto simp: filter_empty_conv)
    with True show ?thesis by simp
  next
    case False
    with Cons show ?thesis by (simp split: if_splits)
  qed
qed simp

text \<open>A decision is used once: in every store that the handlers reach, the lineage rows that
  name a case are one when the case is applied and none when it is not.\<close>
lemma case_applied_once:
  assumes "hiring_ok f p st" and "(hiring_step f p)\<^sup>*\<^sup>* st st'" and "c \<in> set (case_table st')"
  shows "length (filter (\<lambda>l. l_case l = Some (c_id c)) (lineage_table st')) = (if c_status c = Applied then 1 else 0)"
proof -
  have ok: "lineage_ok (worker_table (staff st')) (case_table st') (lineage_table st')" "distinct (map c_id (case_table st'))"
    using hiring.reachable [OF assms(2,1)] by (simp_all add: hiring_ok_def cases_ok_def)
  show ?thesis
  proof (cases "c_status c = Applied")
    case True
    then have "Some (c_id c) \<in> l_case ` set (lineage_table st')" using ok(1) assms(3) by (simp add: lineage_ok_def)
    with True ok(1) show ?thesis using filter_unique [of l_case "lineage_table st'" "Some (c_id c)"] by (simp add: lineage_ok_def)
  next
    case False
    have "l_case l \<noteq> Some (c_id c)" if l: "l \<in> set (lineage_table st')" for l
    proof
      assume "l_case l = Some (c_id c)"
      moreover have "authorised (worker_table (staff st')) (case_table st') l" using ok(1) l by (simp add: lineage_ok_def)
      ultimately obtain d where "d \<in> set (case_table st')" "c_id d = c_id c" "c_status d = Applied" unfolding authorised_def by blast
      with case_same [OF ok(2) _ assms(3)] False show False by blast
    qed
    with False show ?thesis by (simp add: filter_empty_conv)
  qed
qed

lemma example_hired_case: "example_audited\<lparr>c_status := Applied, c_applied := Some ''t4''\<rparr> \<in> set (case_table example_hired)"
  by (simp add: example_hired_def log_event_def)

lemma case_applied_once_witness: "length (filter (\<lambda>l. l_case l = Some ''case-1'') (lineage_table example_hired)) = 1"
  using case_applied_once [OF example_store_ok example_history example_hired_case]
  by (simp add: example_audited_def example_approved_def example_case_def)


section \<open>Decided cases\<close>

lemma nothing_committed: "(\<And>x. committed \<noteq> Inr x) \<Longrightarrow> \<exists>e. then_read st committed reader = (st, Inl e)"
  by (cases committed) (auto simp: then_read_def)

lemma row_id_read: "row_id i \<Longrightarrow> correlation_id field (PyStr i) = Inr i \<and> i \<noteq> []"
  by (auto simp: row_id_def correlation_id_def Let_def split: if_splits)

lemma final_not_moved:
  assumes "case_with (case_table st) i = Some c" and "c_status c \<in> {Rejected, Folded, Applied}"
  shows "commit_status f p now s i st \<noteq> Inr x"
  using assms by (auto simp: commit_status_def)

lemma final_not_registered:
  assumes "case_with (case_table st) i = Some c" and "c_status c \<in> {Rejected, Folded, Applied}" and "g_case g = Some i"
  shows "commit_registration f now worker g st \<noteq> Inr x"
proof
  assume "commit_registration f now worker g st = Inr x"
  then obtain v where "validate_worker_registration g st = Inr v" unfolding commit_registration_def by (elim bind_resE)
  from validate_Inr(4) [OF this assms(3)] assms(1,2) show False by auto
qed

lemma final_not_amended:
  assumes "case_with (case_table st) i = Some c" and "c_status c \<in> {Rejected, Folded, Applied}"
  shows "commit_amendment f now identity revision version_id i document actor surface reason_text st \<noteq> Inr x"
proof
  assume "commit_amendment f now identity revision version_id i document actor surface reason_text st = Inr x"
  then obtain st' j where "commit_amendment f now identity revision version_id i document actor surface reason_text st = Inr (st', j)"
    by (cases x) simp
  then obtain d where "case_with (case_table st) i = Some d" "c_status d = Audited" by (rule amendment_Inr)
  with assms show False by auto
qed

lemma read_registration_case: "read_registration q = Inr g \<Longrightarrow> optional_identifier ''hiring_case_id'' (q_case q) = Inr (g_case g)"
  unfolding read_registration_def Let_def
  by (elim bind_resE raise_ifE) (auto split: option.splits elim!: bind_resE raise_ifE)

text \<open>C33: A decision is final: a case that was rejected, folded or applied stays so in every later
  store, and no later call moves it, registers a worker on it or amends one on it; each such call
  raises and writes nothing.\<close>
theorem decided_case_unusable:
  assumes "hiring_ok f p st" and "(hiring_step f p)\<^sup>*\<^sup>* st st'" and "c \<in> set (case_table st)"
    and "c_status c \<in> {Rejected, Folded, Applied}"
  shows "\<exists>d\<in>set (case_table st'). c_id d = c_id c \<and> c_status d = c_status c
    \<and> (\<exists>e. transition_hiring_case f p now (PyStr (c_id c)) status_value st' = (st', Inl e))
    \<and> (q_case q = PyStr (c_id c) \<longrightarrow> (\<exists>e. register_workforce_worker f now disabled q st' = (st', Inl e)))
    \<and> (\<exists>e. apply_workforce_amendment f now disabled worker revision new_version contract (PyStr (c_id c)) actor surface
        reason_value st' = (st', Inl e))"
proof -
  have ok: "hiring_ok f p st'" and later: "hiring_evolves st st'" using hiring.reachable [OF assms(2,1)] by simp_all
  obtain d where d: "d \<in> set (case_table st')" "later_case c d"
    using later extends_mem [OF _ assms(3), of later_case] unfolding hiring_evolves_def by blast
  then have same: "c_id d = c_id c" "c_status d = c_status c" using final_history assms(4) by (auto simp: later_case_def)
  have "case_fits f p d" using ok d(1) by (simp add: hiring_ok_def cases_ok_def)
  then have i: "row_id (c_id c)" by (simp add: case_fits_def same)
  have known: "case_with (case_table st') (c_id c) = Some d"
    using case_with_known [OF _ d(1)] ok by (simp add: hiring_ok_def cases_ok_def same)
  have final: "c_status d \<in> {Rejected, Folded, Applied}" using assms(4) same by simp
  have "\<exists>e. transition_hiring_case f p now (PyStr (c_id c)) status_value st' = (st', Inl e)"
    unfolding transition_hiring_case_def
    using final_not_moved [OF known final] row_id_read [OF i]
    by (intro nothing_committed) (auto split: option.splits case_status.splits)
  moreover have "\<exists>e. register_workforce_worker f now disabled q st' = (st', Inl e)" if q: "q_case q = PyStr (c_id c)"
    unfolding register_workforce_worker_def
  proof (rule nothing_committed, rule notI, elim bind_resE)
    fix x g stable assume "read_registration q = Inr g" and commit: "commit_registration f now stable g st' = Inr x"
    then have "g_case g = Some (c_id c)"
      using read_registration_case [of q g] row_id_read [OF i] by (auto simp: q optional_identifier_def)
    with commit final_not_registered [OF known final] show False by blast
  qed
  moreover have "\<exists>e. apply_workforce_amendment f now disabled worker revision new_version contract (PyStr (c_id c)) actor surface
        reason_value st' = (st', Inl e)"
    unfolding apply_workforce_amendment_def
  proof (rule nothing_committed, rule notI, elim bind_resE)
    fix x identity expected version_id case_id actor_text surface_text reason_text document
    assume "correlation_id ''hiring_case_id'' (PyStr (c_id c)) = Inr case_id"
      and "commit_amendment f now identity expected version_id case_id document actor_text surface_text reason_text st' = Inr x"
    with row_id_read [OF i] final_not_amended [OF known final] show False by simp
  qed
  ultimately show ?thesis using d(1) same by blast
qed

lemma decided_case_unusable_witness:
  "\<exists>e. register_workforce_worker no_floats ''t5'' [] example_registration example_hired = (example_hired, Inl e)"
proof -
  have "q_case example_registration = PyStr (c_id (example_audited\<lparr>c_status := Applied, c_applied := Some ''t4''\<rparr>))"
    by (simp add: example_registration_def example_audited_def example_approved_def example_case_def)
  moreover have "c_status (example_audited\<lparr>c_status := Applied, c_applied := Some ''t4''\<rparr>) \<in> {Rejected, Folded, Applied}" by simp
  ultimately show ?thesis
    using decided_case_unusable [OF conjunct1 [OF example_hired_ok] rtranclp.rtrancl_refl example_hired_case, where now = "''t5''"
        and q = example_registration and disabled = "[]"]
    by blast
qed


section \<open>Evidence that cannot be read back\<close>

lemma case_with_append: "c_id c \<notin> c_id ` set cs \<Longrightarrow> case_with (cs @ [c]) (c_id c) = Some c"
  by (induction cs) (auto simp: case_with_def)


text \<open>A contract document of 18 levels\<close>

definition deep_contract :: pyval where
  "deep_contract = PyDict [(''a'', ((\<lambda>v. PyList [v]) ^^ 16) (PyList []))]"

lemma deep_contract_facts: "bytes (value_dumps deep_contract) \<le> 200" "value_dumps deep_contract \<noteq> ''{}''" "dumpable deep_contract"
  "\<not> readable deep_contract"
  by (code_simp, code_simp) (simp_all add: deep_contract_def readable_def numeral_eq_Suc)

lemma deep_contract_required: "required_document field deep_contract = Inr (value_dumps deep_contract)"
proof -
  obtain d where d: "deep_contract = PyDict d" by (simp add: deep_contract_def)
  have "bytes (value_dumps (PyDict d)) \<le> max_document_bytes" using deep_contract_facts(1) by (simp add: d max_document_bytes_def del: value_dumps.simps)
  then have "document_text field d = Inr (value_dumps deep_contract)" by (simp add: document_text_def Let_def d del: value_dumps.simps)
  then show ?thesis using deep_contract_facts(2) unfolding required_document_def by (simp add: d del: value_dumps.simps)
qed

definition deep_request :: hiring_request where
  "deep_request = example_request\<lparr>r_contract := deep_contract, r_hash := PyStr (document_hash (value_dumps deep_contract))\<rparr>"

definition deep_case :: hiring_case where
  "deep_case = example_case\<lparr>c_contract := value_dumps deep_contract, c_hash := document_hash (value_dumps deep_contract)\<rparr>"

lemma deep_commits: "commit_case deep_case example_store = Inr (with_case deep_case, ''case-1'')"
  by (simp add: commit_case_def example_store_def with_case_def case_with_def deep_case_def example_case_def del: value_dumps.simps)

lemma no_case: "case_with (case_table example_store) i = None"
  by (simp add: example_store_def case_with_def)

lemma example_dumpable: "\<forall>v\<in>set (request_evidence example_request). dumpable v \<and> readable v"
  using example_documents by (simp add: request_evidence_def example_request_def)

lemma deep_evidence: "\<forall>v\<in>set (request_evidence deep_request). dumpable v" "\<not> readable (r_contract deep_request)"
  using example_documents deep_contract_facts(3,4) by (simp_all add: request_evidence_def deep_request_def example_request_def)



section \<open>A hire onto an active slug\<close>

text \<open>C37: The registration of a worker of the agency's own origin fails when its slug already has an
  active revision, and nothing is written. When it is another revision the validation says so. The
  exact revision passes the validation, as does the case, and the call then fails on the unique slug
  of the active table.\<close>
theorem active_slug_refused:
  assumes "read_registration q = Inr g" and "g_origin g = ''agency''" and "g_slug g \<in> a_slug ` set (active_table st)"
  shows "\<exists>e. register_workforce_worker f now disabled q st = (st, Inl e)"
  unfolding register_workforce_worker_def
proof (rule nothing_committed, rule notI, elim bind_resE)
  fix x h stable assume "read_registration q = Inr h" and "commit_registration f now stable h st = Inr x"
  then have commit: "commit_registration f now stable g st = Inr x" using assms(1) by simp
  from commit obtain v st2 st3 st4 where v: "validate_worker_registration g st = Inr v"
    and l: "insert_lineage \<lparr>l_worker = stable, l_version = g_version g, l_parent = g_parent g, l_relation = g_relation g,
      l_contract = g_contract g, l_hash = document_hash (g_contract g), l_case = g_case g\<rparr>
      (st\<lparr>staff := (staff st)\<lparr>worker_table := worker_table (staff st) @ [new_worker now stable g v]\<rparr>\<rparr>) = Inr st2"
    and c: "(case g_case g of None \<Rightarrow> Inr st2 | Some i \<Rightarrow> apply_case now i ''hiring case was already consumed'' st2) = Inr st3"
    and a: "activate_staged_agency_version f False v st3 = Inr st4"
    unfolding commit_registration_def Let_def assms(2)
    by (elim bind_resE raise_ifE) (rule that; (assumption | simp only: not_not if_True simp_thms))
  have "active_table st3 = active_table st" using c insert_lineage_Inr(1) [OF l] by (auto split: option.splits dest: apply_case_Inr)
  moreover have "v_slug v = g_slug g" using validate_Inr(2) [OF v] .
  moreover have "\<not> list_ex (\<lambda>a. a_slug a = v_slug v) (active_table st3)"
    using a unfolding activate_staged_agency_version_def by (elim bind_resE raise_ifE) simp
  ultimately show False using assms(3) by (auto simp: list_ex_iff)
qed

definition active_writer :: hiring_store where
  "active_writer = (with_case example_audited)\<lparr>active_table := [active_of example_version []]\<rparr>"

lemma active_writer_validates: "validate_worker_registration read_example active_writer = Inr example_version"
  by (simp add: active_writer_def validate_worker_registration_def read_example_def with_case_def example_audited_def example_approved_def
      example_case_def example_version_def example_store_def version_with_def case_with_def case_authorises_hire_def active_of_def)

lemma active_slug_refused_witness:
  "validate_worker_registration read_example active_writer = Inr example_version
    \<and> (\<exists>e. register_workforce_worker no_floats ''t4'' [] example_registration active_writer = (active_writer, Inl e))"
proof -
  have "g_origin read_example = ''agency''" "g_slug read_example \<in> a_slug ` set (active_table active_writer)"
    by (simp_all add: read_example_def active_writer_def active_of_def example_version_def Let_def)
  from active_slug_refused [OF example_reads_registration this] active_writer_validates show ?thesis by blast
qed

end
