(* ===== verification/Revision_Properties.thy ===== *)
theory Revision_Properties
  imports Revision_Metadata Document_Text
begin

text \<open>
  What the store of prompt revisions relies on: metadata that was stored is decoded to metadata with
  the same projection, and two revisions have the same identity document only when content hash and
  metadata agree.
\<close>

section \<open>Values in documents\<close>

definition texts :: "pyval \<Rightarrow> bool" where
  "texts v = (is_text v \<or> is_texts v)"

lemma is_text_iff: "is_text v \<longleftrightarrow> (\<exists>s. v = PyStr s)"
  by (cases v) simp_all

lemma is_texts_iff: "is_texts v \<longleftrightarrow> (\<exists>xs. v = PyList (map PyStr xs))"
proof (cases v)
  case (PyList vs)
  have "list_all is_text vs \<longleftrightarrow> (\<exists>xs. vs = map PyStr xs)"
    by (induction vs) (auto simp: is_text_iff Cons_eq_map_conv)
  with PyList show ?thesis by simp
qed simp_all

lemma texts_plain:
  assumes "texts v"
  shows "sorted_value v = v" and "dumpable v" and "nesting v \<le> 1"
proof -
  consider s where "v = PyStr s" | xs where "v = PyList (map PyStr xs)"
    using assms by (auto simp: texts_def is_text_iff is_texts_iff)
  then have "sorted_value v = v \<and> dumpable v \<and> nesting v \<le> 1"
  proof cases
    case (2 xs)
    have "nesting (PyList (map PyStr xs)) \<le> Suc 0" unfolding nesting_le by simp
    then show ?thesis by (simp add: 2 list_all_iff comp_def del: nesting.simps)
  qed simp
  then show "sorted_value v = v" "dumpable v" "nesting v \<le> 1" by simp_all
qed

lemma list_metadata_texts [simp]: "is_texts (list_metadata raw)"
  by (cases raw) (simp_all add: list_metadata_def list_all_iff)

lemma list_metadata_idem [simp]: "list_metadata (list_metadata raw) = list_metadata raw"
  by (cases raw) (simp_all add: list_metadata_def comp_def)

lemma sort_values:
  assumes "\<forall>p\<in>set d. sorted_value (snd p) = snd p"
  shows "sorted_value (PyDict d) = PyDict (sort_key fst d)"
proof -
  have "map (\<lambda>(k, v). (k, sorted_value v)) d = d" using assms by (induction d) auto
  then show ?thesis by simp
qed

lemma map_of_filter_key: "(\<And>v. P (k, v)) \<Longrightarrow> map_of (filter P d) k = map_of d k"
  by (induction d) auto


section \<open>Projected metadata\<close>

lemmas metadata_fields = legacy_scalar_fields_def routing_scalar_fields_def legacy_list_fields_def routing_list_fields_def

lemma complete_keys: "distinct (map fst (complete_metadata agent))"
  by (simp add: complete_metadata_def metadata_fields)

lemma complete_values: "\<forall>p\<in>set (complete_metadata agent). texts (snd p)"
  by (auto simp: complete_metadata_def texts_def)

lemma metadata_keys: "distinct (map fst (revision_metadata agent))"
  unfolding revision_metadata_def by (rule distinct_map_filter [OF complete_keys])

lemma metadata_values: "\<forall>p\<in>set (revision_metadata agent). texts (snd p)"
  using complete_values [of agent] by (auto simp: revision_metadata_def)

lemma metadata_document:
  "sorted_value (PyDict (revision_metadata agent)) = PyDict (sort_key fst (revision_metadata agent))"
  "dumpable (PyDict (revision_metadata agent))" "nesting (PyDict (revision_metadata agent)) \<le> 2"
proof -
  show "sorted_value (PyDict (revision_metadata agent)) = PyDict (sort_key fst (revision_metadata agent))"
    using metadata_values texts_plain(1) by (intro sort_values) blast
  show "dumpable (PyDict (revision_metadata agent))"
    using metadata_keys metadata_values texts_plain(2) by (fastforce simp: list_all_iff)
  show "nesting (PyDict (revision_metadata agent)) \<le> 2"
    using metadata_values texts_plain(3) nesting_le(2) [of "revision_metadata agent" 1] by fastforce
qed

lemma metadata_get: "k \<noteq> ''optional_tools'' \<Longrightarrow> map_of (revision_metadata agent) k = map_of (complete_metadata agent) k"
  unfolding revision_metadata_def by (rule map_of_filter_key) simp

lemma complete_get:
  "k \<in> set (legacy_scalar_fields @ routing_scalar_fields)
    \<Longrightarrow> map_of (complete_metadata agent) k = Some (PyStr (str_or_empty (py_get agent k)))"
  "k \<in> set (legacy_list_fields @ routing_list_fields)
    \<Longrightarrow> map_of (complete_metadata agent) k = Some (list_metadata (py_get agent k))"
  "map_of (complete_metadata agent) ''source_version'' = Some (PyStr (source_version agent))"
  by (rule map_of_is_SomeI [OF complete_keys]; auto simp: complete_metadata_def)+

text \<open>The tools that may be absent\<close>

lemma optional_get: "get_or (revision_metadata agent) ''optional_tools'' (PyList []) = list_metadata (py_get agent ''optional_tools'')"
proof (cases "list_metadata (py_get agent ''optional_tools'') = PyList []")
  case True
  have "(''optional_tools'', v) \<notin> set (revision_metadata agent)" for v
  proof
    assume v: "(''optional_tools'', v) \<in> set (revision_metadata agent)"
    then have "map_of (complete_metadata agent) ''optional_tools'' = Some v"
      using complete_keys by (intro map_of_is_SomeI) (simp_all add: revision_metadata_def)
    then have "v = PyList []" using True by (simp add: complete_get metadata_fields)
    with v show False by (simp add: revision_metadata_def)
  qed
  then have "map_of (revision_metadata agent) ''optional_tools'' = None" by (force simp: map_of_eq_None_iff)
  with True show ?thesis by (simp add: get_or_def)
next
  case False
  have "map_of (complete_metadata agent) ''optional_tools'' = Some (list_metadata (py_get agent ''optional_tools''))"
    by (simp add: complete_get metadata_fields)
  then have "(''optional_tools'', list_metadata (py_get agent ''optional_tools'')) \<in> set (revision_metadata agent)"
    using False by (auto simp: revision_metadata_def dest: map_of_SomeD)
  then have "map_of (revision_metadata agent) ''optional_tools'' = Some (list_metadata (py_get agent ''optional_tools''))"
    using metadata_keys by (intro map_of_is_SomeI)
  then show ?thesis by (simp add: get_or_def)
qed

lemma source_version_plain: "strip (source_version agent) = source_version agent" "source_version agent \<noteq> []"
proof -
  have "strip ''1.0.0'' = ''1.0.0''" by code_simp
  then show "strip (source_version agent) = source_version agent" "source_version agent \<noteq> []"
    by (simp_all add: source_version_def Let_def)
qed


section \<open>Reading back\<close>

definition decoded_metadata :: "(string \<times> pyval) list \<Rightarrow> (string \<times> pyval) list" where
  "decoded_metadata agent =
     map (\<lambda>k. (k, PyStr (str_or_empty (py_get agent k)))) legacy_scalar_fields
     @ [(''source_version'', PyStr (source_version agent))]
     @ map (\<lambda>k. (k, list_metadata (py_get agent k))) legacy_list_fields
     @ map (\<lambda>k. (k, PyStr (str_or_empty (py_get agent k)))) routing_scalar_fields
     @ map (\<lambda>k. (k, list_metadata (py_get agent k))) routing_list_fields"

lemma read_metadata_back:
  assumes "map_of parsed = map_of (revision_metadata agent)"
  shows "read_metadata parsed = Some (decoded_metadata agent)"
proof -
  have scalar: "map_of parsed k = Some (PyStr (str_or_empty (py_get agent k)))" if "k \<in> set (legacy_scalar_fields @ routing_scalar_fields)" for k
  proof -
    have "k \<noteq> ''optional_tools''" using that by (auto simp: metadata_fields)
    then show ?thesis using assms that by (simp add: metadata_get complete_get)
  qed
  have lists: "map_of parsed k = Some (list_metadata (py_get agent k))"
    if "k \<in> set (legacy_list_fields @ routing_list_fields)" "k \<noteq> ''optional_tools''" for k
    using assms that by (simp add: metadata_get complete_get)
  have optional: "get_or parsed ''optional_tools'' (PyList []) = list_metadata (py_get agent ''optional_tools'')"
    using optional_get [of agent] by (simp add: get_or_def assms)
  have "map_of parsed ''source_version'' = Some (PyStr (source_version agent))"
    using assms by (simp add: metadata_get complete_get)
  moreover have "set (legacy_scalar_fields @ [''source_version'']) \<subseteq> fst ` set parsed"
  proof
    fix k assume "k \<in> set (legacy_scalar_fields @ [''source_version''])"
    then have "map_of parsed k \<noteq> None" using scalar [of k] calculation by auto
    then show "k \<in> fst ` set parsed" by (simp add: map_of_eq_None_iff)
  qed
  moreover have "get_or parsed k (PyList []) = list_metadata (py_get agent k)" if "k \<in> set routing_list_fields" for k
    using lists [of k] optional that by (cases "k = ''optional_tools''") (simp_all add: get_or_def)
  moreover have "py_get parsed k = list_metadata (py_get agent k)" if "k \<in> set legacy_list_fields" for k
  proof -
    have "k \<noteq> ''optional_tools''" using that by (auto simp: metadata_fields)
    then show ?thesis using lists [of k] that by (simp add: py_get_def)
  qed
  moreover have "py_get parsed k = PyStr (str_or_empty (py_get agent k))" if "k \<in> set legacy_scalar_fields" for k
    using scalar [of k] that by (simp add: py_get_def)
  moreover have "get_or parsed k (PyStr []) = PyStr (str_or_empty (py_get agent k))" if "k \<in> set routing_scalar_fields" for k
    using scalar [of k] that by (simp add: get_or_def)
  ultimately show ?thesis
    by (simp add: read_metadata_def decoded_metadata_def list_all_iff py_get_def)
qed

lemma decoded_get: "(k, v) \<in> set (decoded_metadata agent) \<Longrightarrow> py_get (decoded_metadata agent) k = v"
proof -
  have "distinct (map fst (decoded_metadata agent))" by (simp add: decoded_metadata_def metadata_fields)
  then show "(k, v) \<in> set (decoded_metadata agent) \<Longrightarrow> py_get (decoded_metadata agent) k = v" by (simp add: py_get_def)
qed

lemma decoded_same: "revision_metadata (decoded_metadata agent) = revision_metadata agent"
proof -
  have "py_get (decoded_metadata agent) k = PyStr (str_or_empty (py_get agent k))"
    if "k \<in> set (legacy_scalar_fields @ routing_scalar_fields)" for k
    using that by (intro decoded_get) (auto simp: decoded_metadata_def)
  moreover have "py_get (decoded_metadata agent) k = list_metadata (py_get agent k)"
    if "k \<in> set (legacy_list_fields @ routing_list_fields)" for k
    using that by (intro decoded_get) (auto simp: decoded_metadata_def)
  moreover have "py_get (decoded_metadata agent) ''source_version'' = PyStr (source_version agent)"
    by (intro decoded_get) (simp add: decoded_metadata_def)
  then have "source_version (decoded_metadata agent) = source_version agent"
    using source_version_plain [of agent] by (simp add: source_version_def [of "decoded_metadata agent"])
  ultimately have "complete_metadata (decoded_metadata agent) = complete_metadata agent"
    by (simp add: complete_metadata_def)
  then show ?thesis by (simp add: revision_metadata_def)
qed

text \<open>C21: Rollback is exact: the metadata stored for a revision is decoded exactly when its text is
  within 1 MiB and it has at most 1,000 values, and what is decoded projects to the same metadata, so
  that a revision restored from it has the immutable version it had; characters outside ASCII, quotes
  and brackets in its texts change nothing.\<close>

theorem revision_reads_back:
  "if bytes (serialized_revision_metadata agent) \<le> max_metadata_bytes \<and> tree_nodes (PyDict (revision_metadata agent)) \<le> 1000
   then \<exists>d. decode_revision_metadata to_float (PyStr (serialized_revision_metadata agent)) = Some d
     \<and> revision_metadata d = revision_metadata agent
   else decode_revision_metadata to_float (PyStr (serialized_revision_metadata agent)) = None"
proof -
  let ?m = "PyDict (revision_metadata agent)" and ?t = "serialized_revision_metadata agent"
  let ?w = "PyDict (sort_key fst (revision_metadata agent))"
  have written: "?t = plain_text ascii_char ?w" by (simp only: serialized_revision_metadata_def ascii_dumps_def metadata_document)
  have "dumpable ?w" "nesting ?w \<le> 2" "tree_nodes ?w = tree_nodes ?m"
    using dumpable_sorted [OF metadata_document(2)] size_sorted [OF metadata_document(2)] metadata_document(3) [of agent]
    by (simp_all only: metadata_document(1))
  then have loaded: "safe_load_bounded_json to_float (PyStr ?t) (PyInt (int max_metadata_bytes)) (PyInt 8) (PyInt 1000) = Inr v
      \<longleftrightarrow> v = ?w \<and> bytes ?t \<le> max_metadata_bytes \<and> tree_nodes ?m \<le> 1000" for v
    using ascii.load_text [of ?w to_float max_metadata_bytes 8 999 v]
      read_limit_int [of max_metadata_bytes 67108864] read_limit_int [of 8 256] read_limit_int [of 1000 1000000]
    by (auto simp: written safe_load_bounded_json_def max_metadata_bytes_def)
  have "?t \<noteq> []" unfolding written by simp
  then have decode: "decode_revision_metadata to_float (PyStr ?t) =
      (case safe_load_bounded_json to_float (PyStr ?t) (PyInt (int max_metadata_bytes)) (PyInt 8) (PyInt 1000) of
        Inr (PyDict parsed) \<Rightarrow> read_metadata parsed | _ \<Rightarrow> None)"
    by (simp add: decode_revision_metadata_def py_or_def)
  show ?thesis
  proof (cases "bytes ?t \<le> max_metadata_bytes \<and> tree_nodes ?m \<le> 1000")
    case True
    then have "safe_load_bounded_json to_float (PyStr ?t) (PyInt (int max_metadata_bytes)) (PyInt 8) (PyInt 1000) = Inr ?w"
      by (simp only: loaded)
    moreover have "map_of (sort_key fst (revision_metadata agent)) = map_of (revision_metadata agent)"
      by (rule map_of_sort_key [OF metadata_keys])
    ultimately have "decode_revision_metadata to_float (PyStr ?t) = Some (decoded_metadata agent)"
      unfolding decode by (simp add: read_metadata_back)
    with True decoded_same show ?thesis by auto
  next
    case False
    then have "safe_load_bounded_json to_float (PyStr ?t) (PyInt (int max_metadata_bytes)) (PyInt 8) (PyInt 1000) \<noteq> Inr v" for v
      using loaded [of v] by blast
    then have "decode_revision_metadata to_float (PyStr ?t) = None" unfolding decode by (simp split: sum.split)
    with False show ?thesis by (simp only: if_False)
  qed
qed

end
