(* ===== verification/Package_Properties.thy ===== *)
theory Package_Properties
  imports Hiring_Machine Contract_Text Contract_Example Revision_Properties Evidence_Size
begin

text \<open>
  What the repair of packaged contracts guarantees: it brings the contract of every exact packaged
  revision to what the package projects and touches nothing else, and a second repair finds nothing
  to do when the store can read what the package projects.
\<close>

section \<open>A second pass\<close>

text \<open>The package projects a contract for the worker that the store can read back and recognise.\<close>

definition readable_package :: "worker_row \<Rightarrow> agent_record \<Rightarrow> bool" where
  "readable_package w agent = (case project_workforce_contract [] (w_origin w) (package_record w agent) of
     Inl e \<Rightarrow> True
   | Inr c \<Rightarrow> display_name c \<noteq> [] \<and> length (domains c) \<le> max_taxonomy_items \<and> identifies w c)"

lemma package_document_read:
  assumes "package_document w agent = Inr document" and "readable_package w agent"
  obtains c where "stored_contract f slug document = Inr c" and "identifies w c"
proof -
  obtain c where c: "project_workforce_contract [] (w_origin w) (package_record w agent) = Inr c"
    and document: "document = json_dumps (contract_json c)"
    using assms(1) by (auto simp: package_document_def res_simps)
  then have "parse_workforce_contract (sorted_value (contract_value c)) = Inr c" and "identifies w c"
    using assms(2) contract_text_back(2) [OF projected_ok [OF c]] by (simp_all add: readable_package_def)
  moreover have "load_evidence f document = Inr (sorted_value (contract_value c))"
    unfolding document by (rule contract_text_loads [OF projected_ok [OF c]])
  ultimately show thesis using that by (simp add: stored_contract_def)
qed

definition row_settled :: "(string \<Rightarrow> string list) \<Rightarrow> authorities \<Rightarrow> packaged_row \<Rightarrow> bool" where
  "row_settled histories authorities row = (case package_agent histories authorities row of
     None \<Rightarrow> True
   | Some agent \<Rightarrow> package_document (pr_worker row) agent = Inr (pr_contract row)
       \<and> pr_hash row = document_hash (pr_contract row) \<and> readable_package (pr_worker row) agent)"

lemma row_settled_kept:
  assumes "row_settled histories authorities row"
  shows "\<exists>rs'. repair_row f histories authorities row rs = Inr rs' \<and> rp_store rs' = rp_store rs \<and> rp_updated rs' = rp_updated rs"
proof (cases "package_agent histories authorities row")
  case None
  then show ?thesis
    by (auto simp: repair_row_def package_agent_def Let_def split: option.splits if_splits)
next
  case (Some agent)
  then have row: "package_document (pr_worker row) agent = Inr (pr_contract row)" "pr_hash row = document_hash (pr_contract row)"
      "readable_package (pr_worker row) agent" using assms by (simp_all add: row_settled_def)
  obtain c where "stored_contract f (w_slug (pr_worker row)) (pr_contract row) = Inr c" "identifies (pr_worker row) c"
    using package_document_read [OF row(1,3)] by metis
  with Some row(1,2) show ?thesis
    by (auto simp: repair_row_def package_agent_def Let_def raise_if_def split: option.splits if_splits)
qed

lemma rows_settled:
  assumes "\<forall>row\<in>set rows. row_settled histories authorities row"
  shows "\<exists>rs'. repair_rows f histories authorities rows rs = Inr rs' \<and> rp_store rs' = rp_store rs \<and> rp_updated rs' = rp_updated rs"
  using assms
proof (induction rows arbitrary: rs)
  case (Cons row rows)
  then obtain rs1 where "repair_row f histories authorities row rs = Inr rs1" "rp_store rs1 = rp_store rs" "rp_updated rs1 = rp_updated rs"
    using row_settled_kept [of histories authorities row f rs] by auto
  with Cons.IH [of rs1] Cons.prems show ?case by auto
qed simp

text \<open>Counts and reports depend on the workers and their versions only.\<close>

lemma same_reports:
  assumes "current_revisions (hired st') = current_revisions (hired st)"
  shows "length (filter (\<lambda>row. package_agent histories authorities row \<noteq> None) (packaged_rows st'))
      = length (filter (\<lambda>row. package_agent histories authorities row \<noteq> None) (packaged_rows st))"
    and "List.map_filter (packaged_divergence histories authorities) (packaged_rows st')
      = List.map_filter (packaged_divergence histories authorities) (packaged_rows st)"
proof -
  have key: "packaged_divergence histories authorities (packaged_row_of ps w v l) = packaged_divergence histories authorities (packaged_row_of qs w v l)"
      "package_agent histories authorities (packaged_row_of ps w v l) = package_agent histories authorities (packaged_row_of qs w v l)"
    for ps qs w v l by (rule divergence_revision; simp)+
  have "length (filter (\<lambda>row. package_agent histories authorities row \<noteq> None) (map (\<lambda>(w, v, l). packaged_row_of (projections st') w v l) xs))
        = length (filter (\<lambda>row. package_agent histories authorities row \<noteq> None) (map (\<lambda>(w, v, l). packaged_row_of (projections st) w v l) xs))"
      "List.map_filter (packaged_divergence histories authorities) (map (\<lambda>(w, v, l). packaged_row_of (projections st') w v l) xs)
        = List.map_filter (packaged_divergence histories authorities) (map (\<lambda>(w, v, l). packaged_row_of (projections st) w v l) xs)" for xs
    using key [of "projections st'" _ _ _ "projections st"]
    by (induction xs) (auto simp: List.map_filter_def simp del: not_None_eq split: prod.split)
  then show "length (filter (\<lambda>row. package_agent histories authorities row \<noteq> None) (packaged_rows st'))
      = length (filter (\<lambda>row. package_agent histories authorities row \<noteq> None) (packaged_rows st))"
    and "List.map_filter (packaged_divergence histories authorities) (packaged_rows st')
      = List.map_filter (packaged_divergence histories authorities) (packaged_rows st)"
    unfolding packaged_rows_def assms by blast+
qed


section \<open>A package and a store with a stale contract\<close>

definition stale_contract :: workforce_contract where
  "stale_contract = sample_contract\<lparr>audit := (audit sample_contract)\<lparr>audit_revision := ''r3''\<rparr>\<rparr>"

definition packaged_worker :: worker_row where
  "packaged_worker = \<lparr>w_id = ''worker-7'', w_slug = ''code-reviewer'', w_name = ''Code Reviewer'', w_origin = ''upstream'',
     w_class = Employee, w_standing = Active, w_version_id = ''version-7'', w_version = ''1.0'',
     w_hash = replicate 64 (CHR ''a''), w_merged = None, w_revision = 1, w_created = ''t1''\<rparr>"

definition packaged_version :: version_row where
  "packaged_version = \<lparr>v_id = ''version-7'', v_slug = ''code-reviewer'', v_version = ''1.0'', v_source_version = [],
     v_source_id = [], v_hash = replicate 64 (CHR ''a''), v_content = [],
     v_metadata = serialized_revision_metadata sample_record\<rparr>"

definition packaged_lineage :: lineage_row where
  "packaged_lineage = \<lparr>l_worker = ''worker-7'', l_version = ''version-7'', l_parent = None, l_relation = ''imported'',
     l_contract = json_dumps (contract_json stale_contract), l_hash = document_hash (json_dumps (contract_json stale_contract)),
     l_case = None\<rparr>"

definition stale_store :: package_store where
  "stale_store = \<lparr>hired = \<lparr>staff = \<lparr>worker_table = [packaged_worker], worker_events = [], performance = [], roster_counter = 0\<rparr>,
     case_table = [], lineage_table = [packaged_lineage], version_table = [packaged_version], active_table = [],
     category_table = []\<rparr>, projections = []\<rparr>"

definition stale_row :: packaged_row where
  "stale_row = \<lparr>pr_worker = packaged_worker, pr_version = packaged_version, pr_contract = l_contract packaged_lineage,
     pr_hash = l_hash packaged_lineage\<rparr>"

definition sample_authorities :: authorities where
  "sample_authorities = [(''code-reviewer'', sample_record, ''upstream'')]"

definition no_history :: "string \<Rightarrow> string list" where "no_history slug = []"

lemma stale_store_ok: "hiring_ok f p (hired stale_store)" "distinct (map v_id (version_table (hired stale_store)))"
  by (simp_all add: hiring_ok_def stale_store_def store_ok_def cases_ok_def lineage_ok_def governed_def merges_def acyclic_def
      row_fits_def packaged_worker_def packaged_lineage_def authorised_def)

lemma stale_contract_ok: "contract_ok stale_contract"
proof -
  have "squeezed_text 32 ''r3''" "length (canonical_json stale_contract) \<le> max_contract_bytes" by code_simp+
  then show ?thesis using projected_ok [OF sample_projected] by (simp add: contract_ok_def) (simp add: stale_contract_def)
qed

lemma stale_rows: "packaged_rows stale_store = [stale_row]"
  by (simp add: packaged_rows_def current_revisions_def stale_store_def packaged_worker_def packaged_version_def packaged_lineage_def
      packaged_row_of_def latest_projection_def stale_row_def)

lemma stale_agent: "package_agent no_history sample_authorities stale_row = Some sample_record"
proof -
  have fields: "py_get sample_record ''version'' = PyStr ''1.0''" "py_get sample_record ''hash'' = PyStr (replicate 64 (CHR ''a''))"
    "py_get sample_record ''prompt_body'' = PyNone" "py_get sample_record ''content'' = PyNone"
    by (simp_all add: sample_record_def py_get_def)
  have "exact_packaged_revision no_history stale_row sample_record"
    by (simp add: exact_packaged_revision_def Let_def fields py_or_def stale_row_def packaged_worker_def packaged_version_def)
  then show ?thesis
    by (simp add: package_agent_def packaged_divergence_def sample_authorities_def stale_row_def packaged_worker_def)
qed

lemma stale_package: "package_document packaged_worker sample_record = Inr (json_dumps (contract_json sample_contract))"
    "readable_package packaged_worker sample_record"
proof -
  have "package_record packaged_worker sample_record = sample_record" by code_simp
  then have projected: "project_workforce_contract [] (w_origin packaged_worker) (package_record packaged_worker sample_record)
      = Inr sample_contract"
    using sample_projected by (simp add: packaged_worker_def)
  then show "package_document packaged_worker sample_record = Inr (json_dumps (contract_json sample_contract))"
    by (simp add: package_document_def)
  show "readable_package packaged_worker sample_record"
    unfolding readable_package_def projected
    by (simp add: sample_contract_def max_taxonomy_items_def identifies_def packaged_worker_def hash_matches_def)
qed

lemma transfer_evidence:
  assumes "length a \<le> 64" and "length b \<le> 64" and "length c \<le> 64"
  shows "\<exists>evidence. document_text ''evidence'' [(''from_contract_hash'', PyStr a), (''to_contract_hash'', PyStr b),
    (''version_hash'', PyStr c)] = Inr evidence"
proof -
  let ?d = "[(''from_contract_hash'', PyStr a), (''to_contract_hash'', PyStr b), (''version_hash'', PyStr c)]"
  have "value_size (PyDict ?d) \<le> 2 + (6 * 18 + value_size (PyStr a) + 4 + (6 * 16 + value_size (PyStr b) + 4 + (6 * 12 + value_size (PyStr c) + 4)))"
    using dict_size [of ?d] by simp
  also have "\<dots> \<le> 2000" using assms value_size_simps(2) [of a] value_size_simps(2) [of b] value_size_simps(2) [of c] by linarith
  finally have "bytes (value_dumps (PyDict ?d)) \<le> max_document_bytes" by (simp add: value_size_def max_document_bytes_def del: value_dumps.simps)
  then show ?thesis by (simp add: document_text_def Let_def del: value_dumps.simps)
qed

lemma stale_read: "stored_contract f ''code-reviewer'' (json_dumps (contract_json stale_contract)) = Inr stale_contract"
    "json_dumps (contract_json sample_contract) \<noteq> json_dumps (contract_json stale_contract)"
proof -
  have reads: "load_evidence f (json_dumps (contract_json c)) = Inr (sorted_value (contract_value c))"
      "parse_workforce_contract (sorted_value (contract_value c)) = Inr c" if "c \<in> {sample_contract, stale_contract}" for c f
  proof -
    have "contract_ok c" "display_name c \<noteq> []" "length (domains c) \<le> max_taxonomy_items"
      using that stale_contract_ok projected_ok [OF sample_projected]
      by (auto simp: stale_contract_def sample_contract_def max_taxonomy_items_def)
    then show "load_evidence f (json_dumps (contract_json c)) = Inr (sorted_value (contract_value c))"
      "parse_workforce_contract (sorted_value (contract_value c)) = Inr c"
      using contract_text_loads contract_text_back(2) by blast+
  qed
  show "stored_contract f ''code-reviewer'' (json_dumps (contract_json stale_contract)) = Inr stale_contract"
    using reads(1) [of stale_contract f] reads(2) [of stale_contract] by (simp add: stored_contract_def)
  have "sample_contract \<noteq> stale_contract" by (simp add: stale_contract_def sample_contract_def)
  then show "json_dumps (contract_json sample_contract) \<noteq> json_dumps (contract_json stale_contract)"
    using reads(1) [of sample_contract f] reads(1) [of stale_contract f] reads(2) [of sample_contract] reads(2) [of stale_contract] by (metis insertCI sum.inject(2))
qed

lemma stale_run: "\<exists>st'. reconcile_packaged_workforce_contracts f no_history sample_authorities stale_store = Inr (st', 1, 1, [])"
proof -
  have row: "pr_worker stale_row = packaged_worker" "pr_contract stale_row = json_dumps (contract_json stale_contract)"
      "pr_hash stale_row = document_hash (json_dumps (contract_json stale_contract))"
    by (simp_all add: stale_row_def packaged_lineage_def)
  have slug: "w_slug packaged_worker = ''code-reviewer''" "map_of sample_authorities ''code-reviewer'' = Some (sample_record, ''upstream'')"
    by (simp_all add: packaged_worker_def sample_authorities_def)
  have exact: "packaged_divergence no_history sample_authorities stale_row = None"
    using stale_agent by (simp add: package_agent_def row slug split: if_splits)
  have identified: "identifies packaged_worker stale_contract"
    by (simp add: identifies_def hash_matches_def packaged_worker_def stale_contract_def sample_contract_def)
  obtain e where "document_text ''evidence'' [(''from_contract_hash'', PyStr (pr_hash stale_row)),
      (''to_contract_hash'', PyStr (document_hash (json_dumps (contract_json sample_contract)))),
      (''version_hash'', PyStr (w_hash packaged_worker))] = Inr e"
    using transfer_evidence [of "pr_hash stale_row" "document_hash (json_dumps (contract_json sample_contract))" "w_hash packaged_worker"]
    by (auto simp: row document_hash_def packaged_worker_def)
  then have "\<exists>rs'. replace_contract stale_row (json_dumps (contract_json sample_contract)) rs = Inr rs'
      \<and> rp_inspected rs' = rp_inspected rs \<and> rp_updated rs' = rp_updated rs + 1 \<and> rp_divergent rs' = rp_divergent rs" for rs
    by (simp add: replace_contract_def row Let_def)
  then obtain rs' where "repair_row f no_history sample_authorities stale_row (repair_start stale_store) = Inr rs'"
      "rp_inspected rs' = 1" "rp_updated rs' = 1" "rp_divergent rs' = []"
    using stale_read(1) [of f] stale_read(2) identified stale_package(1)
    by (fastforce simp: repair_row_def row slug exact raise_if_def Let_def repair_start_def)
  then show ?thesis
    by (simp add: reconcile_packaged_workforce_contracts_def stale_rows Let_def repair_start_def [symmetric])
qed


section \<open>The repair\<close>

text \<open>C35: The repair is exact: its events, its projections and the counter of the roster are all that
  it changes, one event and one projection for each contract it reports as updated, and the store
  stays well formed. It inspects the exact packaged revisions and reports the divergent workers. Then
  the contract in effect of every exact packaged revision is the one the package projects, with its
  hash, and every other revision has the contract it had.\<close>

theorem repair_exact:
  assumes run: "reconcile_packaged_workforce_contracts to_float histories authorities st = Inr (st', inspected, updated, divergent)"
    and ok: "hiring_ok f p (hired st)" and versions: "distinct (map v_id (version_table (hired st)))"
  shows "hiring_ok f p (hired st')
    \<and> (\<exists>es ps. length es = updated \<and> length ps = updated \<and> projections st' = projections st @ ps
      \<and> hired st' = (hired st)\<lparr>staff := (staff (hired st))\<lparr>worker_events := worker_events (staff (hired st)) @ es,
          roster_counter := roster_counter (staff (hired st)) + (if updated = 0 then 0 else 1)\<rparr>\<rparr>)
    \<and> inspected = length (filter (\<lambda>row. package_agent histories authorities row \<noteq> None) (packaged_rows st))
    \<and> divergent = packaged_workforce_divergence histories authorities [] st
    \<and> (\<forall>row\<in>set (packaged_rows st'). case package_agent histories authorities row of
        Some agent \<Rightarrow> package_document (pr_worker row) agent = Inr (pr_contract row) \<and> pr_hash row = document_hash (pr_contract row)
      | None \<Rightarrow> row \<in> set (packaged_rows st))"
proof -
  have ids: "distinct (map w_id (worker_table (staff (hired st))))" using ok by (simp add: hiring_ok_def store_ok_def)
  obtain rs where rows: "repair_rows to_float histories authorities (packaged_rows st) (repair_start st) = Inr rs"
    and results: "inspected = rp_inspected rs" "divergent = sort_key dv_slug (rp_divergent rs)"
    using reconcile_Inr [OF run] by metis
  have "inspected = length (filter (\<lambda>row. package_agent histories authorities row \<noteq> None) (packaged_rows st))"
      "divergent = packaged_workforce_divergence histories authorities [] st"
    using repair_rows_reports [OF rows] by (simp_all add: results packaged_workforce_divergence_def repair_start_def)
  moreover have "case package_agent histories authorities row of
        Some agent \<Rightarrow> package_document (pr_worker row) agent = Inr (pr_contract row) \<and> pr_hash row = document_hash (pr_contract row)
      | None \<Rightarrow> row \<in> set (packaged_rows st)" if "row \<in> set (packaged_rows st')" for row
    using repaired_contract [OF run ids that] unrepaired_contract [OF run ids versions that] by (simp split: option.split)
  ultimately show ?thesis using repair_ok [OF run ok] repair_changes [OF run] by blast
qed

theorem repair_exact_witness:
  "\<exists>st' ps. reconcile_packaged_workforce_contracts (\<lambda>_. PyNan) no_history sample_authorities stale_store = Inr (st', 1, 1, [])
    \<and> projections st' = projections stale_store @ ps \<and> length ps = 1
    \<and> (\<forall>row\<in>set (packaged_rows st'). case package_agent no_history sample_authorities row of
        Some agent \<Rightarrow> package_document (pr_worker row) agent = Inr (pr_contract row) \<and> pr_hash row = document_hash (pr_contract row)
      | None \<Rightarrow> row \<in> set (packaged_rows stale_store))"
proof -
  obtain st' where run: "reconcile_packaged_workforce_contracts (\<lambda>_. PyNan) no_history sample_authorities stale_store = Inr (st', 1, 1, [])"
    using stale_run by blast
  show ?thesis using run repair_exact [OF run stale_store_ok(1) [of "\<lambda>_. PyNan" "\<lambda>_. None"] stale_store_ok(2)] by blast
qed

text \<open>C36: A second repair finds nothing to do: when the store can read back what the package projects
  for the exact packaged revisions, repairing again inspects and reports the same workers, updates
  none and leaves the store as it is.\<close>

theorem repair_idempotent:
  assumes run: "reconcile_packaged_workforce_contracts to_float histories authorities st = Inr (st', inspected, updated, divergent)"
    and ok: "hiring_ok f p (hired st)"
    and readable: "\<And>row agent. row \<in> set (packaged_rows st) \<Longrightarrow> package_agent histories authorities row = Some agent
      \<Longrightarrow> readable_package (pr_worker row) agent"
  shows "reconcile_packaged_workforce_contracts to_float histories authorities st' = Inr (st', inspected, 0, divergent)"
proof -
  have ids: "distinct (map w_id (worker_table (staff (hired st))))" using ok by (simp add: hiring_ok_def store_ok_def)
  have "row_settled histories authorities row'" if row': "row' \<in> set (packaged_rows st')" for row'
  proof (cases "package_agent histories authorities row'")
    case (Some agent)
    obtain w v l where pair: "row' = packaged_row_of (projections st') w v l" "packaged_row_of (projections st) w v l \<in> set (packaged_rows st)"
      using repair_row_pairs [OF run row'] by metis
    then have "package_agent histories authorities (packaged_row_of (projections st) w v l) = Some agent"
      using Some divergence_revision(2) [of "packaged_row_of (projections st) w v l" row'] by simp
    from readable [OF pair(2) this] have "readable_package (pr_worker row') agent" by (simp add: pair(1))
    with Some repaired_contract [OF run ids row' Some] show ?thesis by (simp add: row_settled_def)
  qed (simp add: row_settled_def)
  then obtain rs' where again: "repair_rows to_float histories authorities (packaged_rows st') (repair_start st') = Inr rs'"
      "rp_store rs' = st'" "rp_updated rs' = 0"
    using rows_settled [of "packaged_rows st'" histories authorities to_float "repair_start st'"] by (auto simp: repair_start_def)
  obtain rs where first: "repair_rows to_float histories authorities (packaged_rows st) (repair_start st) = Inr rs"
      "inspected = rp_inspected rs" "divergent = sort_key dv_slug (rp_divergent rs)"
    using reconcile_Inr [OF run] by metis
  have "rp_inspected rs' = inspected" "rp_divergent rs' = rp_divergent rs"
    using repair_rows_reports [OF again(1)] repair_rows_reports [OF first(1)] same_reports [OF repair_revisions [OF run]] first(2)
    by (simp_all add: repair_start_def)
  then show ?thesis
    using again first(3) unfolding reconcile_packaged_workforce_contracts_def repair_start_def [symmetric] by simp
qed

theorem repair_idempotent_witness:
  "\<exists>st'. reconcile_packaged_workforce_contracts (\<lambda>_. PyNan) no_history sample_authorities stale_store = Inr (st', 1, 1, [])
    \<and> reconcile_packaged_workforce_contracts (\<lambda>_. PyNan) no_history sample_authorities st' = Inr (st', 1, 0, [])"
proof -
  obtain st' where run: "reconcile_packaged_workforce_contracts (\<lambda>_. PyNan) no_history sample_authorities stale_store = Inr (st', 1, 1, [])"
    using stale_run by blast
  have "readable_package (pr_worker row) agent"
    if "row \<in> set (packaged_rows stale_store)" "package_agent no_history sample_authorities row = Some agent" for row agent
    using that stale_rows stale_agent stale_package(2) by (auto simp: stale_row_def)
  from run repair_idempotent [OF run stale_store_ok(1) [of "\<lambda>_. PyNan" "\<lambda>_. None"] this] show ?thesis by blast
qed

end
