(* ===== verification/Spec2Isabelle.thy ===== *)
theory Spec2Isabelle
  imports Staff_Properties Builder_Properties Promotion_Properties Graph_Properties
    Contract_Properties Workforce_Properties Hiring_Properties Package_Properties Json_Properties
begin

text \<open>
  Verification library of the workforce core of agency-runtime (\<open>src/agency_runtime/core\<close>).

  \<^bold>\<open>The program.\<close> agency-runtime staffs the work of a coding host with specialised workers. A model
  proposes a plan of work units and a staffing of them; deterministic code then decides. The parts
  modelled here are that deterministic code. A roster record is projected to a recruitment contract;
  the contracts form an index with a fingerprint; a plan and a proposal are parsed, and the verifier
  accepts the proposal or abstains, with reasons. Delegated units are ordered by a dependency graph.
  When a worker has delivered, the acceptance rule decides whether its evidence is one accepted
  outcome; the store records it once, and the promotion rule may make the contractor an employee. A
  missing capability leads to a hiring case, which is proposed, approved by a human when it must be,
  audited, and used up by the registration of one worker or one amendment. An upgrade of the package
  repairs the contracts of the workers that it ships. Every stored document is read through the
  bounded JSON loader.

  \<^bold>\<open>Foundations.\<close> \<open>Agency_Prelude\<close>: exceptions as values of a sum type (\<open>res\<close>, \<open>bind_res\<close>,
  \<open>raise_if\<close>), the string operations of Python the code calls, and the shared collections of rules.
  \<open>Py_Value\<close>: dynamic values and the canonical \<open>json.dumps\<close>. \<open>Sha256\<close>: digests over 32-bit words with
  wrap-around. \<open>Py_Regex\<close>: search for a pattern. Text is text of the first 256 code points.

  \<^bold>\<open>Planning and recruitment.\<close> \<open>Plan_Contracts\<close> and \<open>Recruit_Contracts\<close> are the parsers of
  \<open>workforce/planning_contracts.py\<close>; \<open>Capability_Ontology\<close> and \<open>Tool_Capabilities\<close> are
  \<open>workforce/capability_ontology.py\<close> and the label vocabulary of \<open>host_capabilities.py\<close>;
  \<open>Worker_Identity\<close> is \<open>workforce/identity.py\<close> and \<open>agent_identity.py\<close>. \<open>Roster_Contract\<close>,
  \<open>Contract_Fields\<close> and \<open>Contract_Project\<close> are \<open>workforce/contract.py\<close>: records, field readers,
  \<open>project_workforce_contract\<close>, \<open>parse_workforce_contract\<close>, \<open>workforce_index_fingerprint\<close>.
  \<open>Contract_Ok\<close>, \<open>Contract_Roundtrip\<close> and \<open>Contract_Properties\<close> show that every projected contract is
  well formed, when it reads back unchanged, from its value or from the text the store keeps
  (\<open>Contract_Text\<close>), when an index has a fingerprint, which does not depend on its order, and that parsed plans and proposals read back from their documents.

  \<^bold>\<open>Staffing.\<close> \<open>Staff_Coverage\<close>, \<open>Staff_Team\<close>, \<open>Staff_Verify\<close>, \<open>Staff_Order\<close> and \<open>Staff_Propose\<close> are
  \<open>workforce/staffing_verifier.py\<close>: eligibility and coverage, the search for a smallest team, the
  checks and the decision of \<open>verify_staffing\<close>, the ancestors of a unit, and
  \<open>build_deterministic_proposal\<close>. \<open>Staff_Sound\<close>, \<open>Staff_Compose\<close>, \<open>Staff_Accept\<close>, \<open>Staff_Properties\<close>
  and \<open>Builder_Properties\<close> show that the verifier is total on parsed inputs and accepts exactly the
  proposals that satisfy the conditions of all checks, what an accepted decision guarantees of
  eligibility, coverage, minimality, budgets, composition and independent review, and that the
  builder agrees with the verifier. The team search and the worklist of the ancestors are locales
  (\<open>team_search\<close>, \<open>worklist\<close>) interpreted on the code's coverage and dependencies.

  \<^bold>\<open>Delegation.\<close> \<open>Dependency_Graph\<close> and \<open>Work_Units\<close> are \<open>delegation/lifecycle_types.py\<close> and the
  unit fields and graph of \<open>delegation/lifecycle_graph.py\<close>; \<open>Graph_Batches\<close> (with the locale
  \<open>finite_graph\<close>), \<open>Unit_Graph\<close> and \<open>Graph_Properties\<close> show that the batches are the levels of the
  graph, that path search decides reachability, and when the graph of units is built.

  \<^bold>\<open>Outcomes and employment.\<close> \<open>Acceptance\<close> is \<open>workforce/acceptance.py\<close>, \<open>Promotion\<close> is
  \<open>workforce/promotion.py\<close>, \<open>Workforce_Store\<close> is the employment part of \<open>store/workforce.py\<close>: the
  tables, \<open>transition_workforce_worker\<close>, \<open>record_workforce_enablement\<close>, \<open>record_accepted_outcome\<close> with
  automatic promotion. \<open>Store_Documents\<close> reads digests and stored documents, and \<open>Outcome_Store\<close> is the
  other two recorders, \<open>record_workforce_outcome\<close> and \<open>record_native_assignment_outcome\<close>.
  \<open>Workforce_Machine\<close> has the employment life cycle as an inductive relation,
  shows that every handler call refines it, and states in the locale \<open>evolving\<close> what follows for all
  reachable stores. \<open>Workforce_Outcomes\<close>, \<open>Evidence_Size\<close>, \<open>Acceptance_Properties\<close>,
  \<open>Promotion_Properties\<close> and \<open>Workforce_Properties\<close> join the three parts: an outcome is recorded once,
  it promotes exactly when the promotion rule says so, nothing but an accepted envelope counts for it,
  and its evidence fits the store.

  \<^bold>\<open>Hiring.\<close> \<open>Activation\<close> is \<open>agent_activation.py\<close> and \<open>correlation.py\<close>. \<open>Hiring_Store\<close> is the hiring
  part of \<open>store/workforce.py\<close>: \<open>create_hiring_case\<close>, \<open>approve_hiring_case\<close>, \<open>transition_hiring_case\<close>,
  \<open>get_hiring_case\<close>, \<open>register_workforce_worker\<close>, \<open>apply_workforce_amendment\<close>, with the audit of
  evidence and of packaged cases (\<open>known_installer.py\<close>). The store is the record of all its tables,
  with the employment store as the field \<open>staff\<close>. \<open>Roster_Seam\<close> is what the roster calls:
  \<open>synchronize_active_workforce_worker\<close>, \<open>retire_ingested_workforce_worker\<close>,
  \<open>backfill_workforce_identity\<close>. \<open>Hiring_Machine\<close> has the life cycle of a case, the
  conditions of the triggers of \<open>store/schema.py\<close>, the invariant \<open>hiring_ok\<close> and the steps of the
  whole store, employment included, and interprets \<open>evolving\<close> on them. \<open>Hiring_Evidence\<close> uses the JSON
  properties for what is written and read back. \<open>Hiring_Properties\<close>: nobody is hired without an
  audited and duly approved case for its current contract, a case is used once and a decision is final, and two calls that
  fail although every check passed.

  \<^bold>\<open>Packages.\<close> \<open>Revision_Metadata\<close> is \<open>roster/revisions.py\<close>: the metadata of a prompt revision, its
  serialised form, its immutable version and the decoder; \<open>Revision_Properties\<close> shows when stored
  metadata is restored. \<open>Package_Repair\<close> is the repair of packaged contracts in \<open>store/workforce.py\<close>:
  \<open>packaged_workforce_divergence\<close> and \<open>reconcile_packaged_workforce_contracts\<close> over the rows of their
  query; \<open>Package_Effect\<close> shows what a pass does to a row and to the contracts in effect, and
  \<open>Package_Properties\<close> that a repair is exact and that a second one finds nothing to do. The repair is
  also a step of \<open>Hiring_Machine\<close>.

  \<^bold>\<open>Bounded JSON.\<close> \<open>Bounded_Json\<close> and \<open>Json_Scan\<close> are \<open>bounded_json.py\<close> with the standard scanner as
  it configures it; \<open>Json_Roundtrip\<close>, \<open>Json_Preflight\<close> and \<open>Json_Properties\<close> show when a canonical
  document is read back, the limits of what is accepted, and the possible errors. The two encodings of
  strings that the code writes, with and without the characters outside ASCII, are two interpretations
  of the locales \<open>json_text\<close> and \<open>counted_text\<close>, in which the scanner and the pass over the characters
  are shown to read a text back. \<open>Document_Text\<close> has what follows for the documents of the store.

  \<^bold>\<open>Bounds and fuel.\<close> Loops that end by structure are recursive functions, worklists have a measure
  (\<open>ancestors_loop\<close>, \<open>merge_walk\<close>, \<open>validate_loop\<close>), and the two searches on graphs are \<open>while_option\<close>,
  shown to end. Only the JSON scanner takes fuel: \<open>json_loads\<close> gives it twice the length of the text
  and one, and \<open>json_loads_fuel\<close> shows that it never runs out, because each call either reads a
  character or passes once from a list of items to its first item. All limits of the code are the
  constants of the code.

  \<^bold>\<open>Arguments of the model.\<close> The clock, new row ids, \<open>float(text)\<close>, \<open>datetime.fromisoformat\<close>,
  \<open>Path.expanduser\<close> and \<open>Path.resolve\<close>, the packaged contractors, the records
  of the bundled roster, the metadata of superseded packages, the configured policy and the disabled
  agents. Where the code iterates over a set, the model fixes an order or takes the set as a
  list. A transaction writes everything or, when it raises, nothing; concurrent callers are
  serialised by \<open>BEGIN IMMEDIATE\<close> and appear as the order of steps.

  \<^bold>\<open>Not modelled.\<close> Code whose behaviour is that of a service, a process or a file system: model calls
  (\<open>workforce/inference.py\<close>, \<open>hiring.py\<close>), vector recall, the selector pipeline around the verifier,
  catalogue synchronisation, host adapters, the command line, the servers, the installer
  and the dashboard. Of \<open>store/workforce.py\<close>: the list, page and detail queries, which
  only read. Of \<open>lifecycle_graph.py\<close>: the recovery of
  paths from prose. Of \<open>host_capabilities.py\<close>: host receipts. JSON given as bytes, characters above
  255 and floats other than exact rationals are outside the value model.
\<close>

end
